(* ===== verification/Py_Prelude.thy ===== *)
theory Py_Prelude
  imports Main
begin

section \<open>Python values and strings used by the Cypilot scripts\<close>

text \<open>
  The part of Python's built-in library that the scripts under
  \<^verbatim>\<open>src/cypilot/.core/skills/cypilot/scripts/cypilot\<close> call on strings, lists,
  dictionaries and plain objects, and the lemmas on them that every component shares.

  A Python \<open>str\<close> is a \<^typ>\<open>string\<close> whose characters are the code points U+0000 to
  U+00FF. On these code points \<open>isspace\<close>, \<open>lower\<close>, \<open>splitlines\<close> and the regular
  expression classes are exactly Python's. \<open>upper\<close> and \<open>casefold\<close> leave this range
  for U+00B5 and (\<open>upper\<close> only) U+00FF, which are kept unchanged here.

  A Python \<open>dict\<close> is an association list in insertion order (\<open>dset\<close>, \<open>dget\<close>): the
  code iterates over dictionaries, so their order is observable. A Python \<open>set\<close> that
  is only tested for membership is a list as well; where the code iterates over a set, the
  model takes the iteration order as an explicit list.
\<close>

named_theorems py_defs \<open>definitions of the Python string operations\<close>
named_theorems dict_simps \<open>lookup and update of insertion-ordered dictionaries\<close>

subsection \<open>Objects, as TOML and JSON loaders produce them\<close>

text \<open>
  \<open>POther t s r b\<close> is a value of any other type (a float, a date), with what the scripts can
  ask of it: its type name, its \<open>str\<close>, its \<open>repr\<close> and its truth value.
\<close>

datatype pyobj =
    PNone
  | PBool bool
  | PInt int
  | PStr string
  | POther string string string bool
  | PList "pyobj list"
  | PDict "(pyobj \<times> pyobj) list"

fun type_name :: "pyobj \<Rightarrow> string" where
  "type_name PNone = ''NoneType''"
| "type_name (PBool _) = ''bool''"
| "type_name (PInt _) = ''int''"
| "type_name (PStr _) = ''str''"
| "type_name (POther t _ _ _) = t"
| "type_name (PList _) = ''list''"
| "type_name (PDict _) = ''dict''"

fun is_pystr :: "pyobj \<Rightarrow> bool" where
  "is_pystr (PStr _) = True"
| "is_pystr _ = False"

fun pystr_of :: "pyobj \<Rightarrow> string option" where
  "pystr_of (PStr s) = Some s"
| "pystr_of _ = None"

text \<open>\<open>d.get(k)\<close> on a dictionary object, with \<open>PNone\<close> for a missing key.\<close>

definition pget :: "(pyobj \<times> pyobj) list \<Rightarrow> string \<Rightarrow> pyobj" where
  "pget d k = (case map_of d (PStr k) of None \<Rightarrow> PNone | Some v \<Rightarrow> v)"

definition phas :: "(pyobj \<times> pyobj) list \<Rightarrow> string \<Rightarrow> bool" where
  "phas d k = (map_of d (PStr k) \<noteq> None)"

subsection \<open>Insertion-ordered dictionaries\<close>

abbreviation dget :: "('k \<times> 'v) list \<Rightarrow> 'k \<Rightarrow> 'v option" where
  "dget \<equiv> map_of"

fun dset :: "'k \<Rightarrow> 'v \<Rightarrow> ('k \<times> 'v) list \<Rightarrow> ('k \<times> 'v) list" where
  "dset k v [] = [(k, v)]"
| "dset k v ((k', v') # d) = (if k = k' then (k, v) # d else (k', v') # dset k v d)"

definition dpop :: "'k \<Rightarrow> ('k \<times> 'v) list \<Rightarrow> ('k \<times> 'v) list" where
  "dpop k d = filter (\<lambda>(k', _). k' \<noteq> k) d"

definition dhas :: "('k \<times> 'v) list \<Rightarrow> 'k \<Rightarrow> bool" where
  "dhas d k = (map_of d k \<noteq> None)"

text \<open>\<open>d.setdefault(k, []).append(v)\<close>\<close>

definition dappend :: "'k \<Rightarrow> 'v \<Rightarrow> ('k \<times> 'v list) list \<Rightarrow> ('k \<times> 'v list) list" where
  "dappend k v d = dset k ((case map_of d k of None \<Rightarrow> [] | Some vs \<Rightarrow> vs) @ [v]) d"

definition dgetl :: "('k \<times> 'v list) list \<Rightarrow> 'k \<Rightarrow> 'v list" where
  "dgetl d k = (case map_of d k of None \<Rightarrow> [] | Some vs \<Rightarrow> vs)"

text \<open>\<open>s.add(x)\<close> on a set kept as a list without duplicates.\<close>

definition sadd :: "'a \<Rightarrow> 'a list \<Rightarrow> 'a list" where
  "sadd x xs = (if x \<in> set xs then xs else xs @ [x])"

subsection \<open>Characters\<close>

abbreviation ord :: "char \<Rightarrow> nat" where
  "ord c \<equiv> of_char c"

abbreviation NL :: char where "NL \<equiv> CHR 0x0A"
abbreviation CR :: char where "CR \<equiv> CHR 0x0D"
abbreviation NUL :: char where "NUL \<equiv> CHR 0x00"

definition py_space :: "char \<Rightarrow> bool" where
  "py_space c = (let n = ord c in (9 \<le> n \<and> n \<le> 13) \<or> (28 \<le> n \<and> n \<le> 32) \<or> n = 133 \<or> n = 160)"

definition is_digit :: "char \<Rightarrow> bool" where
  "is_digit c = (let n = ord c in 48 \<le> n \<and> n \<le> 57)"

definition is_lower_az :: "char \<Rightarrow> bool" where
  "is_lower_az c = (let n = ord c in 97 \<le> n \<and> n \<le> 122)"

definition is_upper_az :: "char \<Rightarrow> bool" where
  "is_upper_az c = (let n = ord c in 65 \<le> n \<and> n \<le> 90)"

text \<open>\<open>\w\<close> of the \<open>re\<close> module: alphanumeric code points and the underscore.\<close>

definition is_word :: "char \<Rightarrow> bool" where
  "is_word c = (let n = ord c in
     (48 \<le> n \<and> n \<le> 57) \<or> (65 \<le> n \<and> n \<le> 90) \<or> n = 95 \<or> (97 \<le> n \<and> n \<le> 122) \<or>
     n = 170 \<or> n = 178 \<or> n = 179 \<or> n = 181 \<or> n = 185 \<or> n = 186 \<or>
     (188 \<le> n \<and> n \<le> 190) \<or> (192 \<le> n \<and> n \<le> 214) \<or> (216 \<le> n \<and> n \<le> 246) \<or> 248 \<le> n)"

definition lower_char :: "char \<Rightarrow> char" where
  "lower_char c = (let n = ord c in
     if (65 \<le> n \<and> n \<le> 90) \<or> (192 \<le> n \<and> n \<le> 222 \<and> n \<noteq> 215) then char_of (n + 32) else c)"

definition upper_char :: "char \<Rightarrow> string" where
  "upper_char c = (let n = ord c in
     if (97 \<le> n \<and> n \<le> 122) \<or> (224 \<le> n \<and> n \<le> 254 \<and> n \<noteq> 247) then [char_of (n - 32)]
     else if n = 223 then ''SS'' else [c])"

definition line_break :: "char \<Rightarrow> bool" where
  "line_break c = (let n = ord c in (10 \<le> n \<and> n \<le> 13) \<or> (28 \<le> n \<and> n \<le> 30) \<or> n = 133)"

subsection \<open>Strings\<close>

definition lstrip_by :: "(char \<Rightarrow> bool) \<Rightarrow> string \<Rightarrow> string" where
  "lstrip_by p s = dropWhile p s"

definition rstrip_by :: "(char \<Rightarrow> bool) \<Rightarrow> string \<Rightarrow> string" where
  "rstrip_by p s = rev (dropWhile p (rev s))"

definition strip_by :: "(char \<Rightarrow> bool) \<Rightarrow> string \<Rightarrow> string" where
  "strip_by p s = rstrip_by p (lstrip_by p s)"

abbreviation strip :: "string \<Rightarrow> string" where "strip \<equiv> strip_by py_space"
abbreviation lstrip :: "string \<Rightarrow> string" where "lstrip \<equiv> lstrip_by py_space"
abbreviation rstrip :: "string \<Rightarrow> string" where "rstrip \<equiv> rstrip_by py_space"

definition lower :: "string \<Rightarrow> string" where
  "lower s = map lower_char s"

definition upper :: "string \<Rightarrow> string" where
  "upper s = concat (map upper_char s)"

definition casefold :: "string \<Rightarrow> string" where
  "casefold s = concat (map (\<lambda>c. if ord c = 223 then ''ss'' else [lower_char c]) s)"

fun startswith :: "string \<Rightarrow> string \<Rightarrow> bool" where
  "startswith s [] = True"
| "startswith [] (p # ps) = False"
| "startswith (c # s) (p # ps) = (c = p \<and> startswith s ps)"

definition endswith :: "string \<Rightarrow> string \<Rightarrow> bool" where
  "endswith s p = startswith (rev s) (rev p)"

text \<open>\<open>s.find(p)\<close>: the first position at which \<open>p\<close> occurs, \<open>None\<close> for Python's -1.\<close>

fun find_sub :: "string \<Rightarrow> string \<Rightarrow> nat option" where
  "find_sub [] p = (if p = [] then Some 0 else None)"
| "find_sub (c # s) p =
     (if startswith (c # s) p then Some 0 else map_option Suc (find_sub s p))"

text \<open>\<open>s.split(c)\<close> for a one-character separator, and \<open>sep.join(xs)\<close>.\<close>

fun split_on :: "char \<Rightarrow> string \<Rightarrow> string list" where
  "split_on sep [] = [[]]"
| "split_on sep (c # s) =
     (if c = sep then [] # split_on sep s
      else (case split_on sep s of [] \<Rightarrow> [[c]] | x # xs \<Rightarrow> (c # x) # xs))"

fun join_with :: "string \<Rightarrow> string list \<Rightarrow> string" where
  "join_with sep [] = []"
| "join_with sep [x] = x"
| "join_with sep (x # y # xs) = x @ sep @ join_with sep (y # xs)"

fun splitlines_acc :: "string \<Rightarrow> string \<Rightarrow> string list" where
  "splitlines_acc acc [] = (if acc = [] then [] else [rev acc])"
| "splitlines_acc acc (c # d # s) =
     (if c = CR \<and> d = NL then rev acc # splitlines_acc [] s
      else if line_break c then rev acc # splitlines_acc [] (d # s)
      else splitlines_acc (c # acc) (d # s))"
| "splitlines_acc acc [c] =
     (if line_break c then [rev acc] else [rev (c # acc)])"

definition splitlines :: "string \<Rightarrow> string list" where
  "splitlines s = splitlines_acc [] s"

fun replace_crlf :: "string \<Rightarrow> string" where
  "replace_crlf (c # d # s) =
     (if c = CR \<and> d = NL then NL # replace_crlf s else c # replace_crlf (d # s))"
| "replace_crlf s = s"

text \<open>\<open>str(n)\<close> and \<open>int(s)\<close> on decimal digits.\<close>

definition digit_char :: "nat \<Rightarrow> char" where
  "digit_char d = char_of (48 + d)"

fun nat_str :: "nat \<Rightarrow> string" where
  "nat_str n = (if n < 10 then [digit_char n] else nat_str (n div 10) @ [digit_char (n mod 10)])"

declare nat_str.simps [simp del]

definition int_str :: "int \<Rightarrow> string" where
  "int_str i = (if i < 0 then CHR ''-'' # nat_str (nat (- i)) else nat_str (nat i))"

definition digits_val :: "string \<Rightarrow> nat" where
  "digits_val s = foldl (\<lambda>n c. 10 * n + (ord c - 48)) 0 s"

text \<open>\<open>str(x or "").strip() or None\<close> on an optional string field.\<close>

definition opt_strip :: "string option \<Rightarrow> string option" where
  "opt_strip x = (case x of None \<Rightarrow> None | Some s \<Rightarrow> if strip s = [] then None else Some (strip s))"

definition str_or_empty :: "string option \<Rightarrow> string" where
  "str_or_empty x = (case x of None \<Rightarrow> [] | Some s \<Rightarrow> s)"

text \<open>\<open>xs[a:b]\<close> for \<open>0 \<le> a\<close> and \<open>0 \<le> b\<close>.\<close>

definition slice :: "nat \<Rightarrow> nat \<Rightarrow> 'a list \<Rightarrow> 'a list" where
  "slice a b xs = drop a (take b xs)"

text \<open>
  \<open>sorted(xs)\<close> on strings, in the lexicographic order of code points, and the stable
  \<open>sorted(xs, key=f)\<close>.
\<close>

fun str_less :: "string \<Rightarrow> string \<Rightarrow> bool" where
  "str_less _ [] = False"
| "str_less [] (_ # _) = True"
| "str_less (a # s) (b # t) = (ord a < ord b \<or> (a = b \<and> str_less s t))"

fun insort_by :: "('a \<Rightarrow> 'a \<Rightarrow> bool) \<Rightarrow> 'a \<Rightarrow> 'a list \<Rightarrow> 'a list" where
  "insort_by lt x [] = [x]"
| "insort_by lt x (y # ys) = (if lt y x then y # insort_by lt x ys else x # y # ys)"

text \<open>A stable insertion sort: an element goes before the later elements that equal it.\<close>

definition sorted_by :: "('a \<Rightarrow> 'a \<Rightarrow> bool) \<Rightarrow> 'a list \<Rightarrow> 'a list" where
  "sorted_by lt xs = foldr (insort_by lt) xs []"

abbreviation sorted_strs :: "string list \<Rightarrow> string list" where
  "sorted_strs xs \<equiv> sorted_by str_less xs"

subsection \<open>Lemmas on dictionaries\<close>

lemma map_of_dset [simp, dict_simps]: "map_of (dset k v d) = (map_of d)(k \<mapsto> v)"
  by (induction d) auto

lemma map_of_dpop [simp, dict_simps]: "map_of (dpop k d) k' = (if k' = k then None else map_of d k')"
  by (induction d) (auto simp: dpop_def)

lemma fst_set_dset [simp]: "fst ` set (dset k v d) = insert k (fst ` set d)"
proof (induction d)
  case (Cons p d)
  obtain k' v' where p: "p = (k', v')" by (cases p)
  show ?case
  proof (cases "k = k'")
    case False
    then have "fst ` set (dset k v (p # d)) = insert k' (fst ` set (dset k v d))" by (simp add: p)
    then show ?thesis using Cons p by auto
  qed (simp add: p)
qed simp

lemma set_dset_cases: "p \<in> set (dset k v d) \<Longrightarrow> p = (k, v) \<or> p \<in> set d"
  by (induction k v d rule: dset.induct) (auto split: if_splits)

lemma distinct_dset [simp]: "distinct (map fst d) \<Longrightarrow> distinct (map fst (dset k v d))"
proof (induction d)
  case (Cons p d)
  obtain k' v' where "p = (k', v')" by (cases p)
  moreover have "set (map fst (dset k v d)) = insert k (set (map fst d))" by simp
  ultimately show ?case using Cons by auto
qed simp

lemma distinct_dpop [simp]: "distinct (map fst d) \<Longrightarrow> distinct (map fst (dpop k d))"
  by (induction d) (auto simp: dpop_def)

lemma set_dpop: "set (dpop k d) = {p \<in> set d. fst p \<noteq> k}"
  by (auto simp: dpop_def)

lemma length_dset: "length (dset k v d) = (if k \<in> fst ` set d then length d else Suc (length d))"
  by (induction d) (force simp: image_iff)+

lemma length_dpop:
  "distinct (map fst d) \<Longrightarrow> k \<in> fst ` set d \<Longrightarrow> Suc (length (dpop k d)) = length d"
proof (induction d)
  case (Cons p d)
  show ?case
  proof (cases "fst p = k")
    case True
    with Cons.prems(1) have "k \<notin> fst ` set d" by simp
    then have "\<forall>q \<in> set d. fst q \<noteq> k" by auto
    then have "dpop k d = d" by (auto simp: dpop_def filter_id_conv)
    with True show ?thesis by (auto simp: dpop_def split_beta)
  next
    case False
    with Cons show ?thesis by (auto simp: dpop_def split_beta)
  qed
qed simp

lemma dhas_iff: "dhas d k \<longleftrightarrow> k \<in> fst ` set d"
  by (simp add: dhas_def map_of_eq_None_iff)

lemma dset_new: "k \<notin> fst ` set d \<Longrightarrow> dset k v d = d @ [(k, v)]"
  by (induction d) auto

lemma dgetl_dappend [simp, dict_simps]:
  "dgetl (dappend k v d) k' = (if k' = k then dgetl d k @ [v] else dgetl d k')"
  by (simp add: dgetl_def dappend_def)

lemma map_of_dappend [dict_simps]:
  "map_of (dappend k v d) k' = (if k' = k then Some (dgetl d k @ [v]) else map_of d k')"
  by (simp add: dgetl_def dappend_def)

lemma set_sadd [simp]: "set (sadd x xs) = insert x (set xs)"
  by (auto simp: sadd_def)

lemma distinct_sadd [simp]: "distinct xs \<Longrightarrow> distinct (sadd x xs)"
  by (auto simp: sadd_def)

subsection \<open>Lemmas on strings\<close>

lemma startswith_iff: "startswith s p \<longleftrightarrow> (\<exists>t. s = p @ t)"
  by (induction s p rule: startswith.induct) auto

lemma startswith_append [simp]: "startswith (p @ t) p"
  by (auto simp: startswith_iff)

lemma strip_by_Nil [simp]: "strip_by p [] = []"
  by (simp add: strip_by_def lstrip_by_def rstrip_by_def)

lemma all_dropWhile_iff: "(\<forall>c \<in> set (dropWhile p s). p c) \<longleftrightarrow> (\<forall>c \<in> set s. p c)"
  by (induction s) auto

lemma strip_by_eq_Nil_iff: "strip_by p s = [] \<longleftrightarrow> (\<forall>c \<in> set s. p c)"
  by (simp add: strip_by_def lstrip_by_def rstrip_by_def all_dropWhile_iff)

lemma strip_by_id:
  assumes "s = [] \<or> (\<not> p (hd s) \<and> \<not> p (last s))"
  shows "strip_by p s = s"
proof (cases "s = []")
  case False
  with assms have "dropWhile p s = s" by (simp add: dropWhile_eq_self_iff)
  moreover from False assms have "dropWhile p (rev s) = rev s"
    by (simp add: dropWhile_eq_self_iff hd_rev)
  ultimately show ?thesis by (simp add: strip_by_def lstrip_by_def rstrip_by_def)
qed simp

lemma set_strip_by: "set (strip_by p s) \<subseteq> set s"
  by (auto simp: strip_by_def lstrip_by_def rstrip_by_def dest!: set_dropWhileD)

lemma hd_rstrip: "rstrip_by p s \<noteq> [] \<Longrightarrow> hd (rstrip_by p s) = hd s"
proof -
  assume a: "rstrip_by p s \<noteq> []"
  have "rev s = takeWhile p (rev s) @ dropWhile p (rev s)" by simp
  then have "s = rstrip_by p s @ rev (takeWhile p (rev s))"
    by (metis rev_append rev_rev_ident rstrip_by_def)
  with a show ?thesis by (metis hd_append2)
qed

lemma strip_by_ends:
  assumes "strip_by p s \<noteq> []"
  shows "\<not> p (hd (strip_by p s))" and "\<not> p (last (strip_by p s))"
proof -
  let ?t = "lstrip_by p s"
  from assms have ne: "?t \<noteq> []" by (auto simp: strip_by_def rstrip_by_def)
  then have "\<not> p (hd ?t)" by (simp add: lstrip_by_def hd_dropWhile)
  with assms show "\<not> p (hd (strip_by p s))" by (simp add: strip_by_def hd_rstrip)
  from assms have "dropWhile p (rev ?t) \<noteq> []" by (simp add: strip_by_def rstrip_by_def)
  then have "\<not> p (hd (dropWhile p (rev ?t)))" by (rule hd_dropWhile)
  with assms show "\<not> p (last (strip_by p s))"
    by (simp add: strip_by_def rstrip_by_def last_rev)
qed

lemma strip_by_idem [simp]: "strip_by p (strip_by p s) = strip_by p s"
  using strip_by_ends [of p s] strip_by_id [of "strip_by p s" p] by blast

lemma split_on_ne [simp]: "split_on c s \<noteq> []"
  by (induction s) (auto split: list.splits)

lemma join_split [simp]: "join_with [c] (split_on c s) = s"
proof (induction s)
  case (Cons d s)
  obtain x xs where x: "split_on c s = x # xs" by (cases "split_on c s") auto
  show ?case using Cons x by (cases xs) auto
qed simp

lemma split_on_no_sep: "c \<notin> set s \<Longrightarrow> split_on c s = [s]"
  by (induction s) auto

lemma split_on_append:
  "split_on c (s @ c # t) = split_on c s @ split_on c t"
  by (induction s) (auto split: list.splits simp: append_eq_Cons_conv)

lemma split_join:
  "xs \<noteq> [] \<Longrightarrow> \<forall>x \<in> set xs. c \<notin> set x \<Longrightarrow> split_on c (join_with [c] xs) = xs"
proof (induction xs rule: induct_list012)
  case (3 x y zs)
  have "split_on c (x @ c # join_with [c] (y # zs)) =
      split_on c x @ split_on c (join_with [c] (y # zs))"
    by (rule split_on_append)
  also have "\<dots> = [x] @ y # zs"
    using "3.prems" "3.IH"(2) by (simp add: split_on_no_sep)
  finally show ?case by simp
qed (simp_all add: split_on_no_sep)

lemma split_on_no_sep_mem: "x \<in> set (split_on c s) \<Longrightarrow> c \<notin> set x"
  by (induction s arbitrary: x) (auto split: if_splits list.splits)

lemma find_sub_Some: "find_sub s p = Some i \<Longrightarrow> i \<le> length s \<and> startswith (drop i s) p"
proof (induction s arbitrary: i)
  case Nil
  then show ?case by (auto split: if_splits)
next
  case (Cons c s)
  show ?case
  proof (cases "startswith (c # s) p")
    case True
    with Cons.prems show ?thesis by auto
  next
    case False
    with Cons.prems obtain j where "find_sub s p = Some j" "i = Suc j" by auto
    with Cons.IH show ?thesis by auto
  qed
qed

lemma length_lower [simp]: "length (lower s) = length s"
  by (simp add: lower_def)

lemma lower_append [simp]: "lower (s @ t) = lower s @ lower t"
  by (simp add: lower_def)

lemma lower_Nil [simp]: "lower [] = []"
  by (simp add: lower_def)

lemma lower_eq_Nil [simp]: "lower s = [] \<longleftrightarrow> s = []"
  by (simp add: lower_def)

lemma str_less_irrefl [simp]: "\<not> str_less s s"
  by (induction s) auto

lemma str_less_total: "s \<noteq> t \<Longrightarrow> str_less s t \<or> str_less t s"
proof (induction s t rule: str_less.induct)
  case (1 s)
  then show ?case by (cases s) auto
next
  case (3 a s b t)
  show ?case
  proof (cases "a = b")
    case False
    then have "ord a \<noteq> ord b" by simp
    then have "ord a < ord b \<or> ord b < ord a" by linarith
    then show ?thesis by auto
  qed (use 3 in auto)
qed simp

lemma set_insort_by [simp]: "set (insort_by lt x xs) = insert x (set xs)"
  by (induction xs) auto

lemma set_sorted_by [simp]: "set (sorted_by lt xs) = set xs"
  by (induction xs) (auto simp: sorted_by_def)

lemma sorted_by_Nil [simp]: "sorted_by lt [] = []"
  by (simp add: sorted_by_def)

lemma sorted_by_eq_Nil [simp]: "sorted_by lt xs = [] \<longleftrightarrow> xs = []"
  by (metis set_empty2 set_sorted_by)

lemma length_slice: "length (slice a b xs) = min b (length xs) - a"
  by (simp add: slice_def)

end
