(* ===== verification/Py_Regex.thy ===== *)
theory Py_Regex
  imports Py_Prelude
begin

section \<open>Python's \<open>re\<close> module\<close>

text \<open>
  The scripts recognise every construct with compiled regular expressions. This theory is
  a backtracking matcher with Python's priorities: \<open>rmatch r s g\<close> is the list of all ways
  \<open>r\<close> matches a prefix of \<open>s\<close>, the preferred way first, each with what is left of \<open>s\<close>
  and the groups captured so far (the newest first). \<open>re_match\<close>, \<open>re_fullmatch\<close>,
  \<open>re_search\<close>, \<open>re_finditer\<close> and \<open>re_sub\<close> are the module's functions over it.
  \<open>^\<close> needs no constructor: every expression of the sources that starts with it is used
  with \<open>match\<close>. No repeated body and no searched expression of the sources matches the
  empty string, so the module's special treatment of empty matches does not arise.

  \<open>rder r w t\<close> is the specification, without priorities: \<open>r\<close> matches \<open>w\<close> when \<open>t\<close>
  follows. \<open>rmatch_iff\<close> is the soundness and completeness of the matcher, and
  \<open>rmatch_groups\<close> says what a captured group can contain.
\<close>

subsection \<open>Expressions and the matcher\<close>

datatype regex =
    REps
  | RCls "char \<Rightarrow> bool"
  | RSeq regex regex
  | RAlt regex regex
  | RStar regex
  | RLazy regex
  | RGrp string regex
  | REnd
  | RNot regex

type_synonym groups = "(string \<times> string) list"
type_synonym matcher = "string \<Rightarrow> groups \<Rightarrow> (string \<times> groups) list"

fun star_go :: "bool \<Rightarrow> matcher \<Rightarrow> nat \<Rightarrow> matcher" where
  "star_go greedy m 0 s g = [(s, g)]"
| "star_go greedy m (Suc n) s g =
     (let more = concat (map (\<lambda>(s', g'). if length s' < length s then star_go greedy m n s' g' else [])
                  (m s g))
      in if greedy then more @ [(s, g)] else (s, g) # more)"

primrec rmatch :: "regex \<Rightarrow> matcher" where
  "rmatch REps s g = [(s, g)]"
| "rmatch (RCls p) s g = (case s of [] \<Rightarrow> [] | c # cs \<Rightarrow> if p c then [(cs, g)] else [])"
| "rmatch (RSeq a b) s g = concat (map (\<lambda>(s', g'). rmatch b s' g') (rmatch a s g))"
| "rmatch (RAlt a b) s g = rmatch a s g @ rmatch b s g"
| "rmatch (RStar r) s g = star_go True (rmatch r) (length s) s g"
| "rmatch (RLazy r) s g = star_go False (rmatch r) (length s) s g"
| "rmatch (RGrp k r) s g =
     map (\<lambda>(s', g'). (s', (k, take (length s - length s') s) # g')) (rmatch r s g)"
| "rmatch REnd s g = (if s = [] \<or> s = [NL] then [(s, g)] else [])"
| "rmatch (RNot r) s g = (if rmatch r s g = [] then [(s, g)] else [])"

subsection \<open>The functions of the module\<close>

text \<open>A match object: the matched text, the text after it, the groups.\<close>

record match_obj =
  m_text :: string
  m_rest :: string
  m_groups :: groups

definition mk_match :: "string \<Rightarrow> string \<times> groups \<Rightarrow> match_obj" where
  "mk_match s r = \<lparr>m_text = take (length s - length (fst r)) s, m_rest = fst r, m_groups = snd r\<rparr>"

definition re_match :: "regex \<Rightarrow> string \<Rightarrow> match_obj option" where
  "re_match r s = (case rmatch r s [] of [] \<Rightarrow> None | x # _ \<Rightarrow> Some (mk_match s x))"

definition re_fullmatch :: "regex \<Rightarrow> string \<Rightarrow> match_obj option" where
  "re_fullmatch r s = map_option (mk_match s) (find (\<lambda>(t, _). t = []) (rmatch r s []))"

fun re_search :: "regex \<Rightarrow> string \<Rightarrow> match_obj option" where
  "re_search r [] = re_match r []"
| "re_search r (c # s) = (case re_match r (c # s) of Some m \<Rightarrow> Some m | None \<Rightarrow> re_search r s)"

text \<open>\<open>fuel\<close> bounds the number of steps; every step shortens the text, so its length is enough.\<close>

fun finditer_go :: "nat \<Rightarrow> regex \<Rightarrow> string \<Rightarrow> match_obj list" where
  "finditer_go 0 r s = []"
| "finditer_go (Suc n) r s =
     (case s of [] \<Rightarrow> []
      | c # cs \<Rightarrow>
          (case re_match r s of
             Some m \<Rightarrow> if m_text m = [] then finditer_go n r cs else m # finditer_go n r (m_rest m)
           | None \<Rightarrow> finditer_go n r cs))"

definition re_finditer :: "regex \<Rightarrow> string \<Rightarrow> match_obj list" where
  "re_finditer r s = finditer_go (length s) r s"

fun sub_go :: "nat \<Rightarrow> regex \<Rightarrow> (match_obj \<Rightarrow> string) \<Rightarrow> string \<Rightarrow> string" where
  "sub_go 0 r f s = s"
| "sub_go (Suc n) r f s =
     (case s of [] \<Rightarrow> []
      | c # cs \<Rightarrow>
          (case re_match r s of
             Some m \<Rightarrow> if m_text m = [] then c # sub_go n r f cs else f m @ sub_go n r f (m_rest m)
           | None \<Rightarrow> c # sub_go n r f cs))"

definition re_sub :: "regex \<Rightarrow> (match_obj \<Rightarrow> string) \<Rightarrow> string \<Rightarrow> string" where
  "re_sub r f s = sub_go (length s) r f s"

text \<open>\<open>m.group(k)\<close>, \<open>None\<close> for a group that took no part in the match.\<close>

definition grp :: "match_obj \<Rightarrow> string \<Rightarrow> string option" where
  "grp m k = map_of (m_groups m) k"

text \<open>\<open>m.group(k) or ...\<close> and \<open>str(m.group(k) or "")\<close>.\<close>

definition grp_or :: "string option \<Rightarrow> string option \<Rightarrow> string option" where
  "grp_or a b = (case a of Some (c # cs) \<Rightarrow> a | _ \<Rightarrow> b)"

definition grp_str :: "match_obj \<Rightarrow> string \<Rightarrow> string" where
  "grp_str m k = str_or_empty (grp m k)"

subsection \<open>Common forms of expressions\<close>

fun RLit :: "string \<Rightarrow> regex" where
  "RLit [] = REps"
| "RLit (c # s) = RSeq (RCls ((=) c)) (RLit s)"

definition RPlus :: "regex \<Rightarrow> regex" where "RPlus r = RSeq r (RStar r)"
definition RPlusLazy :: "regex \<Rightarrow> regex" where "RPlusLazy r = RSeq r (RLazy r)"
definition ROpt :: "regex \<Rightarrow> regex" where "ROpt r = RAlt r REps"

fun RUpTo :: "nat \<Rightarrow> regex \<Rightarrow> regex" where
  "RUpTo 0 r = REps"
| "RUpTo (Suc n) r = ROpt (RSeq r (RUpTo n r))"

fun RCat :: "regex list \<Rightarrow> regex" where
  "RCat [] = REps"
| "RCat [r] = r"
| "RCat (r # rs) = RSeq r (RCat rs)"

definition cDot :: "char \<Rightarrow> bool" where "cDot c = (c \<noteq> NL)"
definition cOne :: "char \<Rightarrow> char \<Rightarrow> bool" where "cOne d c = (c = d)"
definition cNot :: "char \<Rightarrow> char \<Rightarrow> bool" where "cNot d c = (c \<noteq> d)"
definition cAny :: "string \<Rightarrow> char \<Rightarrow> bool" where "cAny s c = (c \<in> set s)"

abbreviation RSp :: regex where "RSp \<equiv> RStar (RCls py_space)"
abbreviation RSp1 :: regex where "RSp1 \<equiv> RPlus (RCls py_space)"
abbreviation RDig1 :: regex where "RDig1 \<equiv> RPlus (RCls is_digit)"

subsection \<open>Specification: which text an expression matches\<close>

inductive star_der :: "(string \<Rightarrow> string \<Rightarrow> bool) \<Rightarrow> string \<Rightarrow> string \<Rightarrow> bool" for P where
  star_nil: "star_der P [] t"
| star_step: "P u (v @ t) \<Longrightarrow> u \<noteq> [] \<Longrightarrow> star_der P v t \<Longrightarrow> star_der P (u @ v) t"

primrec rder :: "regex \<Rightarrow> string \<Rightarrow> string \<Rightarrow> bool" where
  "rder REps w t = (w = [])"
| "rder (RCls p) w t = (\<exists>c. w = [c] \<and> p c)"
| "rder (RSeq a b) w t = (\<exists>u v. w = u @ v \<and> rder a u (v @ t) \<and> rder b v t)"
| "rder (RAlt a b) w t = (rder a w t \<or> rder b w t)"
| "rder (RStar r) w t = star_der (rder r) w t"
| "rder (RLazy r) w t = star_der (rder r) w t"
| "rder (RGrp k r) w t = rder r w t"
| "rder REnd w t = (w = [] \<and> (t = [] \<or> t = [NL]))"
| "rder (RNot r) w t = (w = [] \<and> \<not> (\<exists>u v. t = u @ v \<and> rder r u v))"

primrec grp_bodies :: "regex \<Rightarrow> (string \<times> regex) set" where
  "grp_bodies REps = {}"
| "grp_bodies (RCls p) = {}"
| "grp_bodies (RSeq a b) = grp_bodies a \<union> grp_bodies b"
| "grp_bodies (RAlt a b) = grp_bodies a \<union> grp_bodies b"
| "grp_bodies (RStar r) = grp_bodies r"
| "grp_bodies (RLazy r) = grp_bodies r"
| "grp_bodies (RGrp k r) = insert (k, r) (grp_bodies r)"
| "grp_bodies REnd = {}"
| "grp_bodies (RNot r) = {}"

text \<open>Every captured text is one that the body of a group of that name matches.\<close>

definition caps_ok :: "(string \<times> regex) set \<Rightarrow> groups \<Rightarrow> bool" where
  "caps_ok R h = (\<forall>x \<in> set h. \<exists>r' t. (fst x, r') \<in> R \<and> rder r' (snd x) t)"

subsection \<open>Soundness and completeness of the matcher\<close>

lemma star_go_Suc_set:
  "set (star_go b m (Suc n) s g) =
     insert (s, g) (\<Union>(s', g') \<in> {x \<in> set (m s g). length (fst x) < length s}. set (star_go b m n s' g'))"
  by (cases b) (auto split: if_splits)

lemma star_go_sound:
  assumes "\<And>s g s' g'. (s', g') \<in> set (m s g) \<Longrightarrow> \<exists>w. s = w @ s' \<and> P w s'"
    and "(s', g') \<in> set (star_go b m n s g)"
  shows "\<exists>w. s = w @ s' \<and> star_der P w s'"
  using assms(2)
proof (induction n arbitrary: s g)
  case 0
  then show ?case by (auto intro: star_nil)
next
  case (Suc n)
  then consider "s' = s" | s1 g1 where "(s1, g1) \<in> set (m s g)" "length s1 < length s"
      "(s', g') \<in> set (star_go b m n s1 g1)"
    by (auto simp del: star_go.simps simp: star_go_Suc_set)
  then show ?case
  proof cases
    case 1
    then show ?thesis by (auto intro: star_nil)
  next
    case 2
    from assms(1) [OF 2(1)] obtain u where u: "s = u @ s1" "P u s1" by blast
    from Suc.IH [OF 2(3)] obtain v where v: "s1 = v @ s'" "star_der P v s'" by blast
    from u v 2(2) have "star_der P (u @ v) s'" by (intro star_step) auto
    with u v show ?thesis by auto
  qed
qed

lemma star_go_complete:
  assumes "\<And>w t g. P w t \<Longrightarrow> \<exists>g'. (t, g') \<in> set (m (w @ t) g)"
    and "star_der P w t" and "length (w @ t) \<le> n"
  shows "\<exists>g'. (t, g') \<in> set (star_go b m n (w @ t) g)"
  using assms(2,3)
proof (induction arbitrary: n g rule: star_der.induct)
  case (star_nil t)
  then show ?case by (cases n) (auto simp: Let_def)
next
  case (star_step u v t)
  then obtain n' where n: "n = Suc n'" by (cases n) auto
  from assms(1) [OF star_step.hyps(1)] obtain g1 where
    g1: "(v @ t, g1) \<in> set (m (u @ v @ t) g)" by blast
  have "length (v @ t) \<le> n'" using star_step.prems star_step.hyps(2) n by (cases u) auto
  from star_step.IH [OF this] obtain g2 where "(t, g2) \<in> set (star_go b m n' (v @ t) g1)"
    by blast
  then show ?case
    using g1 star_step.hyps(2) by (force simp: n star_go_Suc_set simp del: star_go.simps)
qed

theorem rmatch_sound: "(s', g') \<in> set (rmatch r s g) \<Longrightarrow> \<exists>w. s = w @ s' \<and> rder r w s'"
  and rmatch_complete: "rder r w t \<Longrightarrow> \<exists>g'. (t, g') \<in> set (rmatch r (w @ t) g)"
proof (induction r arbitrary: s g s' g' w t)
  case (RSeq a b)
  {
    case 1
    then obtain s1 g1 where 1: "(s1, g1) \<in> set (rmatch a s g)" "(s', g') \<in> set (rmatch b s1 g1)"
      by auto
    from RSeq(1) [OF 1(1)] RSeq(3) [OF 1(2)] show ?case by auto blast
  next
    case 2
    then obtain u v where w: "w = u @ v" "rder a u (v @ t)" "rder b v t" by auto
    from RSeq(2) [OF w(2)] obtain g1 where "(v @ t, g1) \<in> set (rmatch a (u @ v @ t) g)" by blast
    moreover from RSeq(4) [OF w(3)] obtain g2 where "(t, g2) \<in> set (rmatch b (v @ t) g1)" by blast
    ultimately show ?case using w(1) by force
  }
next
  case (RAlt a b)
  { case 1 with RAlt(1,3) show ?case by fastforce next case 2 with RAlt(2,4) show ?case by fastforce }
next
  case (RStar r)
  {
    case 1
    then show ?case using star_go_sound [of "rmatch r" "rder r", OF RStar(1)] by simp
  next
    case 2
    then show ?case using star_go_complete [of "rder r" "rmatch r", OF RStar(2)] by simp
  }
next
  case (RLazy r)
  {
    case 1
    then show ?case using star_go_sound [of "rmatch r" "rder r", OF RLazy(1)] by simp
  next
    case 2
    then show ?case using star_go_complete [of "rder r" "rmatch r", OF RLazy(2)] by simp
  }
next
  case (RGrp k r)
  {
    case 1
    then obtain g1 where "(s', g1) \<in> set (rmatch r s g)" by auto
    from RGrp(1) [OF this] show ?case by simp
  next
    case 2
    then have "rder r w t" by simp
    from RGrp(2) [OF this, of g] show ?case by force
  }
next
  case (RNot r)
  {
    case 1
    then have e: "rmatch r s g = []" "s' = s" by (auto split: if_splits)
    have "\<not> rder r u v" if "s = u @ v" for u v
      using RNot(2) [of u v g] e that by auto
    with e show ?case by auto
  next
    case 2
    show ?case
    proof (cases "rmatch r t g")
      case (Cons x xs)
      then have "(fst x, snd x) \<in> set (rmatch r t g)" by simp
      from RNot(1) [OF this] 2 show ?thesis by auto
    qed (use 2 in auto)
  }
qed (auto split: list.splits if_splits)

corollary rmatch_iff: "(\<exists>g'. (t, g') \<in> set (rmatch r (w @ t) g)) \<longleftrightarrow> rder r w t"
  using rmatch_sound rmatch_complete by (metis append_same_eq)

lemma caps_ok_mono: "caps_ok R h \<Longrightarrow> R \<subseteq> R' \<Longrightarrow> caps_ok R' h"
  unfolding caps_ok_def by blast

lemma caps_ok_append [simp]: "caps_ok R (h @ h') \<longleftrightarrow> caps_ok R h \<and> caps_ok R h'"
  by (auto simp: caps_ok_def)

lemma star_go_groups:
  assumes "\<And>s g s' g'. (s', g') \<in> set (m s g) \<Longrightarrow> \<exists>h. g' = h @ g \<and> caps_ok R h"
    and "(s', g') \<in> set (star_go b m n s g)"
  shows "\<exists>h. g' = h @ g \<and> caps_ok R h"
  using assms(2)
proof (induction n arbitrary: s g)
  case 0
  then show ?case by (simp add: caps_ok_def)
next
  case (Suc n)
  then consider "g' = g" | s1 g1 where "(s1, g1) \<in> set (m s g)" "(s', g') \<in> set (star_go b m n s1 g1)"
    by (auto simp del: star_go.simps simp: star_go_Suc_set)
  then show ?case
  proof cases
    case 1
    then show ?thesis by (simp add: caps_ok_def)
  next
    case 2
    from assms(1) [OF 2(1)] Suc.IH [OF 2(2)] obtain h1 h2 where
      "g1 = h1 @ g" "caps_ok R h1" "g' = h2 @ g1" "caps_ok R h2" by blast
    then show ?thesis by (intro exI [of _ "h2 @ h1"]) simp
  qed
qed

theorem rmatch_groups:
  "(s', g') \<in> set (rmatch r s g) \<Longrightarrow> \<exists>h. g' = h @ g \<and> caps_ok (grp_bodies r) h"
proof (induction r arbitrary: s g s' g')
  case (RSeq a b)
  then obtain s1 g1 where 1: "(s1, g1) \<in> set (rmatch a s g)" "(s', g') \<in> set (rmatch b s1 g1)"
    by auto
  from RSeq.IH(1) [OF 1(1)] RSeq.IH(2) [OF 1(2)] obtain h1 h2 where
    h: "g1 = h1 @ g" "g' = h2 @ g1" "caps_ok (grp_bodies a) h1" "caps_ok (grp_bodies b) h2"
    by blast
  then show ?case
    using caps_ok_mono [of "grp_bodies a" h1 "grp_bodies (RSeq a b)"]
      caps_ok_mono [of "grp_bodies b" h2 "grp_bodies (RSeq a b)"]
    by (intro exI [of _ "h2 @ h1"]) simp
next
  case (RAlt a b)
  then have "(s', g') \<in> set (rmatch a s g) \<or> (s', g') \<in> set (rmatch b s g)" by auto
  then obtain h where "g' = h @ g" "caps_ok (grp_bodies a) h \<or> caps_ok (grp_bodies b) h"
    using RAlt.IH by blast
  then show ?case by (intro exI [of _ h]) (auto intro: caps_ok_mono)
next
  case (RStar r)
  then show ?case using star_go_groups [of "rmatch r" "grp_bodies r", OF RStar.IH] by simp
next
  case (RLazy r)
  then show ?case using star_go_groups [of "rmatch r" "grp_bodies r", OF RLazy.IH] by simp
next
  case (RGrp k r)
  then obtain g1 where 1: "(s', g1) \<in> set (rmatch r s g)"
    and g': "g' = (k, take (length s - length s') s) # g1" by auto
  from RGrp.IH [OF 1] obtain h where h: "g1 = h @ g" "caps_ok (grp_bodies r) h" by blast
  from rmatch_sound [OF 1] obtain w where w: "s = w @ s'" "rder r w s'" by blast
  have "g' = ((k, w) # h) @ g" using g' h w by simp
  moreover have "caps_ok (grp_bodies (RGrp k r)) ((k, w) # h)"
    using caps_ok_mono [OF h(2), of "grp_bodies (RGrp k r)"] w(2) by (auto simp: caps_ok_def)
  ultimately show ?case by blast
qed (auto simp: caps_ok_def split: list.splits if_splits)

subsection \<open>Consequences for the module's functions\<close>

lemma re_match_Some:
  assumes "re_match r s = Some m"
  shows "s = m_text m @ m_rest m" and "rder r (m_text m) (m_rest m)"
proof -
  from assms obtain t g xs where x: "rmatch r s [] = (t, g) # xs" "m = mk_match s (t, g)"
    by (auto simp: re_match_def split: list.splits)
  then have "(t, g) \<in> set (rmatch r s [])" by simp
  from rmatch_sound [OF this] obtain w where w: "s = w @ t" "rder r w t" by blast
  with x show "s = m_text m @ m_rest m" and "rder r (m_text m) (m_rest m)"
    by (auto simp: mk_match_def)
qed

lemma re_match_None_iff: "re_match r s = None \<longleftrightarrow> \<not> (\<exists>w t. s = w @ t \<and> rder r w t)"
proof
  assume "re_match r s = None"
  then have "rmatch r s [] = []" by (auto simp: re_match_def split: list.splits)
  then show "\<not> (\<exists>w t. s = w @ t \<and> rder r w t)"
    using rmatch_complete [of r _ _ "[]"] by fastforce
next
  assume a: "\<not> (\<exists>w t. s = w @ t \<and> rder r w t)"
  show "re_match r s = None"
  proof (cases "rmatch r s []")
    case (Cons x xs)
    then have "(fst x, snd x) \<in> set (rmatch r s [])" by simp
    from rmatch_sound [OF this] a show ?thesis by blast
  qed (simp add: re_match_def)
qed

lemma re_fullmatch_iff: "re_fullmatch r s \<noteq> None \<longleftrightarrow> rder r s []"
proof -
  have "re_fullmatch r s \<noteq> None \<longleftrightarrow> (\<exists>x \<in> set (rmatch r s []). fst x = [])"
    by (auto simp: re_fullmatch_def find_None_iff split_beta) force
  also have "\<dots> \<longleftrightarrow> (\<exists>g. ([], g) \<in> set (rmatch r (s @ []) []))"
    by (simp add: Bex_def split_paired_Ex)
  also have "\<dots> \<longleftrightarrow> rder r s []" by (rule rmatch_iff)
  finally show ?thesis .
qed

lemma re_fullmatch_text: "re_fullmatch r s = Some m \<Longrightarrow> m_text m = s \<and> m_rest m = []"
  by (auto simp: re_fullmatch_def mk_match_def find_Some_iff dest!: nth_mem)

lemma grp_sound:
  assumes "re_match r s = Some m" and "grp m k = Some x"
  shows "\<exists>r' t. (k, r') \<in> grp_bodies r \<and> rder r' x t"
proof -
  from assms(1) obtain t g xs where x: "rmatch r s [] = (t, g) # xs" "m = mk_match s (t, g)"
    by (auto simp: re_match_def split: list.splits)
  then have "(t, g) \<in> set (rmatch r s [])" by simp
  from rmatch_groups [OF this] have "caps_ok (grp_bodies r) g" by simp
  moreover from assms(2) x have "(k, x) \<in> set g"
    by (auto simp: grp_def mk_match_def dest: map_of_SomeD)
  ultimately show ?thesis by (fastforce simp: caps_ok_def)
qed

lemma finditer_go_sub:
  "m \<in> set (finditer_go n r s) \<Longrightarrow> \<exists>pre s'. s = pre @ s' \<and> re_match r s' = Some m \<and> m_text m \<noteq> []"
proof (induction n arbitrary: s)
  case (Suc n)
  then obtain c cs where s: "s = c # cs" by (cases s) auto
  let ?G = "\<lambda>u. \<exists>pre s'. u = pre @ s' \<and> re_match r s' = Some m \<and> m_text m \<noteq> []"
  have later: "?G s" if "m \<in> set (finditer_go n r t)" and "s = u @ t" for u t
    using Suc.IH [OF that(1)] that(2) by (metis append.assoc)
  show ?case
  proof (cases "re_match r s")
    case None
    with Suc.prems s have "m \<in> set (finditer_go n r cs)" by simp
    with s show ?thesis by (intro later [of cs "[c]"]) auto
  next
    case (Some m0)
    from re_match_Some(1) [OF Some] have sp: "s = m_text m0 @ m_rest m0" .
    from Suc.prems s Some consider "m_text m0 \<noteq> []" "m = m0" | "m \<in> set (finditer_go n r cs)"
      | "m \<in> set (finditer_go n r (m_rest m0))" by (auto split: if_splits)
    then show ?thesis
    proof cases
      case 1
      with Some show ?thesis by (intro exI [of _ "[]"] exI [of _ s]) simp
    next
      case 2
      with s show ?thesis by (intro later [of cs "[c]"]) auto
    next
      case 3
      with sp show ?thesis by (intro later)
    qed
  qed
qed simp

lemma re_finditer_sub:
  "m \<in> set (re_finditer r s) \<Longrightarrow> \<exists>pre s'. s = pre @ s' \<and> re_match r s' = Some m \<and> m_text m \<noteq> []"
  unfolding re_finditer_def by (rule finditer_go_sub)

subsection \<open>Classes, literals and deterministic steps\<close>

definition one_of :: "(char \<Rightarrow> bool) \<Rightarrow> string \<Rightarrow> string \<Rightarrow> bool" where
  "one_of p w t = (\<exists>c. w = [c] \<and> p c)"

lemma rder_cls: "rder (RCls p) = one_of p"
  by (intro ext) (simp add: one_of_def)

lemma star_der_one_of: "star_der (one_of p) w t \<longleftrightarrow> list_all p w"
proof
  assume "star_der (one_of p) w t"
  then show "list_all p w" by (induction rule: star_der.induct) (auto simp: one_of_def)
next
  assume "list_all p w"
  then show "star_der (one_of p) w t"
  proof (induction w)
    case (Cons c w)
    then have "star_der (one_of p) w t" by simp
    moreover from Cons.prems have "one_of p [c] (w @ t)" by (simp add: one_of_def)
    ultimately have "star_der (one_of p) ([c] @ w) t" by (intro star_step) auto
    then show ?case by simp
  qed (simp add: star_nil)
qed

lemma rder_star_cls: "rder (RStar (RCls p)) w t \<longleftrightarrow> list_all p w"
  by (simp only: rder.simps(5) rder_cls star_der_one_of)

lemma rder_plus_cls: "rder (RPlus (RCls p)) w t \<longleftrightarrow> w \<noteq> [] \<and> list_all p w"
proof -
  have "rder (RPlus (RCls p)) w t \<longleftrightarrow> (\<exists>u v. w = u @ v \<and> one_of p u (v @ t) \<and> list_all p v)"
    by (simp only: RPlus_def rder.simps(3) rder_star_cls rder_cls)
  also have "\<dots> \<longleftrightarrow> (\<exists>c v. w = c # v \<and> p c \<and> list_all p v)"
    unfolding one_of_def by (metis append_Cons append_Nil)
  finally show ?thesis by (cases w) auto
qed

lemma rder_lit: "rder (RLit s) w t \<longleftrightarrow> w = s"
  by (induction s arbitrary: w) auto

lemma rder_opt: "rder (ROpt r) w t \<longleftrightarrow> w = [] \<or> rder r w t"
  by (auto simp: ROpt_def)

text \<open>A literal consumes itself and nothing else.\<close>

lemma rmatch_lit: "rmatch (RLit l) s g = (if startswith s l then [(drop (length l) s, g)] else [])"
proof (induction l arbitrary: s)
  case (Cons c l)
  then show ?case by (cases s) auto
qed simp

lemma rmatch_seq_lit:
  "rmatch (RSeq (RLit l) r) s g = (if startswith s l then rmatch r (drop (length l) s) g else [])"
  by (simp add: rmatch_lit)

text \<open>A greedy star over a class: from the longest run down to the empty one.\<close>

lemma star_go_cls:
  assumes m: "\<And>s g. m s g = (case s of [] \<Rightarrow> [] | c # cs \<Rightarrow> if p c then [(cs, g)] else [])"
  shows "length s \<le> n \<Longrightarrow> star_go True m n s g =
     map (\<lambda>k. (drop k s, g)) (rev [0..<Suc (length (takeWhile p s))])"
proof (induction n arbitrary: s)
  case (Suc n)
  show ?case
  proof (cases s)
    case (Cons c cs)
    show ?thesis
    proof (cases "p c")
      case True
      let ?m = "length (takeWhile p cs)"
      have "star_go True m (Suc n) s g = star_go True m n cs g @ [(s, g)]"
        using Cons True by (simp add: Let_def m)
      also have "\<dots> = map (\<lambda>k. (drop k cs, g)) (rev [0..<Suc ?m]) @ [(s, g)]"
        using Suc Cons by (simp del: upt_Suc)
      also have "\<dots> = map (\<lambda>k. (drop k s, g)) (map Suc (rev [0..<Suc ?m]) @ [0])"
        using Cons by simp
      also have "map Suc (rev [0..<Suc ?m]) @ [0] = rev (0 # map Suc [0..<Suc ?m])"
        by (simp add: rev_map)
      also have "0 # map Suc [0..<Suc ?m] = [0..<Suc (Suc ?m)]"
        by (simp only: map_Suc_upt upt_conv_Cons [of 0 "Suc (Suc ?m)"] zero_less_Suc)
      finally show ?thesis using Cons True by simp
    qed (use Cons in \<open>simp add: Let_def m\<close>)
  qed (simp add: Let_def m)
qed simp

lemma rmatch_star_cls:
  "rmatch (RStar (RCls p)) s g = map (\<lambda>k. (drop k s, g)) (rev [0..<Suc (length (takeWhile p s))])"
  by (simp only: rmatch.simps(5) star_go_cls [of "rmatch (RCls p)", OF rmatch.simps(2)] order_refl)

text \<open>
  Only the longest run matters when what follows cannot start with a character of the class.
\<close>

lemma rmatch_star_cls_hd:
  "\<exists>more. rmatch (RStar (RCls p)) s g = (dropWhile p s, g) # more
     \<and> (\<forall>x \<in> set more. \<exists>c cs. x = (c # cs, g) \<and> p c)"
proof -
  let ?m = "length (takeWhile p s)"
  let ?more = "map (\<lambda>k. (drop k s, g)) (rev [0..<?m])"
  have 1: "rmatch (RStar (RCls p)) s g = (dropWhile p s, g) # ?more"
    by (simp add: rmatch_star_cls dropWhile_eq_drop del: rmatch.simps)
  have "\<exists>c cs. drop k s = c # cs \<and> p c" if "k < ?m" for k
  proof -
    from that have k: "k < length s" using length_takeWhile_le [of p s] by linarith
    then have "drop k s = s ! k # drop (Suc k) s" by (simp add: Cons_nth_drop_Suc)
    moreover from that have "p (s ! k)"
      using nth_mem [OF that] takeWhile_nth [OF that] set_takeWhileD [of _ p s] by metis
    ultimately show ?thesis by blast
  qed
  then have "\<forall>x \<in> set ?more. \<exists>c cs. x = (c # cs, g) \<and> p c" by auto
  with 1 show ?thesis by blast
qed

lemma rmatch_seq_hd:
  assumes "rmatch a s g = (t, h) # rs" and "\<And>t' h'. (t', h') \<in> set rs \<Longrightarrow> rmatch b t' h' = []"
  shows "rmatch (RSeq a b) s g = rmatch b t h"
  using assms by auto

lemma rmatch_star_cls_seq:
  assumes "\<And>c cs. p c \<Longrightarrow> rmatch b (c # cs) g = []"
  shows "rmatch (RSeq (RStar (RCls p)) b) s g = rmatch b (dropWhile p s) g"
proof -
  obtain rs where rs: "rmatch (RStar (RCls p)) s g = (dropWhile p s, g) # rs"
    "\<forall>x \<in> set rs. \<exists>c cs. x = (c # cs, g) \<and> p c"
    using rmatch_star_cls_hd [of p s g] by blast
  show ?thesis
    by (rule rmatch_seq_hd [OF rs(1)]) (use rs(2) assms in fastforce)
qed

lemma concat_map_concat_map:
  "concat (map f (concat (map h xs))) = concat (map (\<lambda>x. concat (map f (h x))) xs)"
  by (induction xs) auto

lemma rmatch_seq_assoc: "rmatch (RSeq (RSeq a b) c) s g = rmatch (RSeq a (RSeq b c)) s g"
  by (simp add: concat_map_concat_map split_def)

text \<open>A group that is always captured, whichever alternative is taken.\<close>

primrec surely :: "string set \<Rightarrow> regex \<Rightarrow> bool" where
  "surely K REps = False"
| "surely K (RCls p) = False"
| "surely K (RSeq a b) = (surely K a \<or> surely K b)"
| "surely K (RAlt a b) = (surely K a \<and> surely K b)"
| "surely K (RStar r) = False"
| "surely K (RLazy r) = False"
| "surely K (RGrp k r) = (k \<in> K \<or> surely K r)"
| "surely K REnd = False"
| "surely K (RNot r) = False"

lemma rmatch_extends: "(s', g') \<in> set (rmatch r s g) \<Longrightarrow> set g \<subseteq> set g'"
  using rmatch_groups by fastforce

lemma rmatch_surely: "surely K r \<Longrightarrow> (s', g') \<in> set (rmatch r s g) \<Longrightarrow> \<exists>k \<in> K. k \<in> fst ` set g'"
proof (induction r arbitrary: s g s' g')
  case (RSeq a b)
  then obtain s1 g1 where 1: "(s1, g1) \<in> set (rmatch a s g)" "(s', g') \<in> set (rmatch b s1 g1)"
    by auto
  from RSeq.prems(1) consider "surely K a" | "surely K b" by auto
  then show ?case
  proof cases
    case 1
    from RSeq.IH(1) [OF this \<open>(s1, g1) \<in> _\<close>] rmatch_extends [OF \<open>(s', g') \<in> set (rmatch b s1 g1)\<close>]
    show ?thesis by blast
  next
    case 2
    from RSeq.IH(2) [OF this \<open>(s', g') \<in> set (rmatch b s1 g1)\<close>] show ?thesis .
  qed
next
  case (RAlt a b)
  then show ?case by auto
next
  case (RGrp k r)
  then obtain g1 where g1: "(s', g1) \<in> set (rmatch r s g)"
    "g' = (k, take (length s - length s') s) # g1" by auto
  from RGrp.prems(1) consider "k \<in> K" | "surely K r" by auto
  then show ?case
  proof cases
    case 1
    with g1 show ?thesis by auto
  next
    case 2
    from RGrp.IH [OF this g1(1)] g1(2) show ?thesis by auto
  qed
qed auto

lemma grp_surely:
  assumes "re_match r s = Some m" and "surely K r"
  shows "\<exists>k \<in> K. \<exists>x. grp m k = Some x"
proof -
  from assms(1) obtain t g xs where x: "rmatch r s [] = (t, g) # xs" "m = mk_match s (t, g)"
    by (auto simp: re_match_def split: list.splits)
  then have "(t, g) \<in> set (rmatch r s [])" by simp
  from rmatch_surely [OF assms(2) this] obtain k where "k \<in> K" "k \<in> fst ` set g" by blast
  moreover from this obtain v where "map_of g k = Some v"
    by (metis map_of_eq_None_iff not_Some_eq)
  ultimately show ?thesis using x by (auto simp: grp_def mk_match_def)
qed

lemma re_match_first: "rmatch r s [] = x # xs \<Longrightarrow> re_match r s = Some (mk_match s x)"
  by (simp add: re_match_def)

lemma re_match_fail: "rmatch r s [] = [] \<Longrightarrow> re_match r s = None"
  by (simp add: re_match_def)

end
