(* ===== verification/Doc_Scan.thy ===== *)
theory Doc_Scan
  imports Py_Regex
begin

section \<open>Scanning artifact documents (\<open>utils/document.py\<close>)\<close>

text \<open>
  The scanner that every other component reads artifacts through: which Cypilot IDs a
  Markdown document defines and references, the headings in force at each line, the CDSL
  instruction lines and the ID each of them belongs to, and the text scope of an ID.
  A file is what \<open>read_text_safe\<close> sees of it: its decoded text, or nothing when it cannot
  be read. NUL occurs in the decoded text exactly when it occurs in the bytes.
\<close>

subsection \<open>The expressions\<close>

definition c_id0 :: "char \<Rightarrow> bool" where "c_id0 c = (is_lower_az c \<or> is_digit c)"
definition c_id :: "char \<Rightarrow> bool" where "c_id c = (is_lower_az c \<or> is_digit c \<or> c = CHR ''-'')"

definition cpt_id_body :: regex where
  "cpt_id_body = RCat [RLit ''cpt-'', RCls c_id0, RPlus (RCls c_id)]"

definition CPT_ID_RE :: regex where
  "CPT_ID_RE = RGrp ''1'' cpt_id_body"

definition HEADING_RE :: regex where
  "HEADING_RE = RCat [RSp, RGrp ''1'' (RSeq (RCls (cOne (CHR ''#''))) (RUpTo 5 (RCls (cOne (CHR ''#''))))),
     RSp1, RGrp ''2'' (RPlusLazy (RCls cDot)), RSp, REnd]"

definition CODE_FENCE_RE :: regex where
  "CODE_FENCE_RE = RSeq RSp (RLit ''```'')"

definition id_tail_re :: "string \<Rightarrow> regex" where
  "id_tail_re k = RCat [RLit ''**ID**:'', RSp, RLit ''`'', RGrp k cpt_id_body, RLit ''`'']"

definition prio_re :: "string \<Rightarrow> regex" where
  "prio_re k = RCat [RLit ''`'', RGrp k (RSeq (RLit ''p'') RDig1), RLit ''`'', RSp, RLit ''-'', RSp]"

definition task_re :: regex where
  "task_re = RGrp ''task'' (RCat [RLit ''['', RSp, ROpt (RCls (cAny ''xX'')), RSp, RLit '']''])"

definition ID_DEF_RE :: regex where
  "ID_DEF_RE = RCat [
     RAlt (id_tail_re ''id'')
    (RAlt (RSeq (ROpt (prio_re ''priority_only2'')) (id_tail_re ''id4''))
    (RAlt (RSeq (prio_re ''priority_only'') (id_tail_re ''id2''))
          (RCat [RCls (cAny ''-*''), RSp1, task_re, RSp, ROpt (prio_re ''priority''), id_tail_re ''id3'']))),
     RSp, REnd]"

definition ID_REF_RE :: regex where
  "ID_REF_RE = RCat [
     ROpt (RAlt (RCat [task_re, RSp, RAlt (prio_re ''priority'') (RSeq (RLit ''-'') RSp)])
                (prio_re ''priority_only'')),
     RLit ''`'', RGrp ''id'' cpt_id_body, RLit ''`'', RSp, REnd]"

definition BACKTICK_ID_RE :: regex where
  "BACKTICK_ID_RE = RCat [RLit ''`'', RGrp ''1'' cpt_id_body, RLit ''`'']"

definition CDSL_LINE_RE :: regex where
  "CDSL_LINE_RE = RCat [RSp, RAlt (RCat [RDig1, RLit ''.'', RSp1]) (RSeq (RLit ''-'') RSp1),
     RLit ''['', RSp, RGrp ''check'' (RCls (cAny ''xX '')), RSp, RLit '']'', RSp, RLit ''-'', RSp,
     RLit ''`'', RGrp ''phase'' (RAlt (RSeq (RLit ''p'') RDig1) (RSeq (RLit ''ph-'') RDig1)), RLit ''`'',
     RSp, RLit ''-'', RSp, RPlus (RCls cDot), RSp, RLit ''-'', RSp,
     RLit ''`inst-'', RGrp ''inst'' (RPlus (RCls c_id)), RLit ''`'', RSp, REnd]"

definition CDSL_PHASE_NUM_RE :: regex where
  "CDSL_PHASE_NUM_RE = RCat [RAlt (RLit ''p'') (RLit ''ph-''), RGrp ''num'' RDig1, REnd]"

subsection \<open>Reading a file\<close>

type_synonym fs = "string \<Rightarrow> string option"

text \<open>\<open>linesep_nl\<close> says whether \<open>os.linesep\<close> is a single newline.\<close>

definition read_text_safe_on :: "bool \<Rightarrow> fs \<Rightarrow> string \<Rightarrow> string list option" where
  "read_text_safe_on linesep_nl fs path =
     (case fs path of
        None \<Rightarrow> None
      | Some raw \<Rightarrow>
          if NUL \<in> set raw then None
          else Some (splitlines (if linesep_nl then raw else replace_crlf raw)))"

abbreviation read_text_safe :: "fs \<Rightarrow> string \<Rightarrow> string list option" where
  "read_text_safe \<equiv> read_text_safe_on True"

subsection \<open>IDs defined and referenced\<close>

datatype hit_type = Definition | Reference

text \<open>
  A hit of \<open>scan_cpt_ids\<close>. An inline reference has no \<open>has_task\<close> and \<open>has_priority\<close> key;
  its readers take \<open>False\<close> for a missing one, which is what the record stores.
\<close>

record hit =
  h_id :: string
  h_line :: nat
  h_type :: hit_type
  h_checked :: bool
  h_has_task :: bool
  h_has_priority :: bool
  h_priority :: "string option"

definition is_checked :: "string option \<Rightarrow> bool" where
  "is_checked task = (find_sub (lower (str_or_empty task)) ''x'' \<noteq> None)"

definition has_prio :: "string option \<Rightarrow> bool" where
  "has_prio p = (case p of None \<Rightarrow> False | Some s \<Rightarrow> strip s \<noteq> [])"

definition nonempty_opt :: "string option \<Rightarrow> string option" where
  "nonempty_opt p = (case p of Some (c # cs) \<Rightarrow> p | _ \<Rightarrow> None)"

definition def_id_of :: "match_obj \<Rightarrow> string" where
  "def_id_of m = str_or_empty
     (grp_or (grp m ''id'') (grp_or (grp m ''id2'') (grp_or (grp m ''id3'') (grp m ''id4''))))"

definition def_hit :: "nat \<Rightarrow> match_obj \<Rightarrow> hit" where
  "def_hit line m =
     (let priority = grp_or (grp m ''priority'') (grp_or (grp m ''priority_only'') (grp m ''priority_only2''))
      in \<lparr>h_id = def_id_of m, h_line = line, h_type = Definition,
          h_checked = is_checked (grp m ''task''), h_has_task = (grp m ''task'' \<noteq> None),
          h_has_priority = has_prio priority, h_priority = nonempty_opt priority\<rparr>)"

definition ref_hit :: "nat \<Rightarrow> match_obj \<Rightarrow> hit" where
  "ref_hit line m =
     (let priority = grp_or (grp m ''priority'') (grp m ''priority_only'')
      in \<lparr>h_id = grp_str m ''id'', h_line = line, h_type = Reference,
          h_checked = is_checked (grp m ''task''), h_has_task = (grp m ''task'' \<noteq> None),
          h_has_priority = has_prio priority, h_priority = nonempty_opt priority\<rparr>)"

definition inline_hit :: "nat \<Rightarrow> match_obj \<Rightarrow> hit" where
  "inline_hit line m =
     \<lparr>h_id = grp_str m ''1'', h_line = line, h_type = Reference, h_checked = False,
      h_has_task = False, h_has_priority = False, h_priority = None\<rparr>"

definition is_fence :: "string \<Rightarrow> bool" where
  "is_fence raw = (re_match CODE_FENCE_RE raw \<noteq> None)"

definition strip_bullet :: "string \<Rightarrow> string" where
  "strip_bullet s = (if startswith s ''- '' \<or> startswith s ''* '' then strip (drop 2 s) else s)"

definition scan_line :: "nat \<Rightarrow> string \<Rightarrow> hit list" where
  "scan_line line raw =
     (let stripped = strip raw
      in if stripped = [] then []
         else (case re_match ID_DEF_RE stripped of
                 Some m \<Rightarrow> [def_hit line m]
               | None \<Rightarrow>
                   (case re_match ID_REF_RE (strip_bullet stripped) of
                      Some mref \<Rightarrow> [ref_hit line mref]
                    | None \<Rightarrow> map (inline_hit line) (re_finditer BACKTICK_ID_RE raw))))"

fun scan_ids_go :: "bool \<Rightarrow> nat \<Rightarrow> string list \<Rightarrow> hit list" where
  "scan_ids_go in_fence idx0 [] = []"
| "scan_ids_go in_fence idx0 (raw # lines) =
     (if is_fence raw then scan_ids_go (\<not> in_fence) (Suc idx0) lines
      else if in_fence then scan_ids_go in_fence (Suc idx0) lines
      else scan_line (Suc idx0) raw @ scan_ids_go in_fence (Suc idx0) lines)"

definition scan_cpt_ids :: "fs \<Rightarrow> string \<Rightarrow> hit list" where
  "scan_cpt_ids fs path =
     (case read_text_safe fs path of None \<Rightarrow> [] | Some lines \<Rightarrow> scan_ids_go False 0 lines)"

subsection \<open>Headings in force at each line\<close>

text \<open>\<open>while stack and stack[-1][0] >= level: stack.pop()\<close>, the top of the stack last.\<close>

definition pop_levels :: "nat \<Rightarrow> (nat \<times> 'a) list \<Rightarrow> (nat \<times> 'a) list" where
  "pop_levels level stack = rev (dropWhile (\<lambda>(l, _). level \<le> l) (rev stack))"

fun headings_go :: "bool \<Rightarrow> (nat \<times> string) list \<Rightarrow> string list \<Rightarrow> string list list" where
  "headings_go in_fence stack [] = []"
| "headings_go in_fence stack (raw # lines) =
     (if is_fence raw then map snd stack # headings_go (\<not> in_fence) stack lines
      else
        let stack' =
          (if in_fence then stack
           else (case re_match HEADING_RE raw of
                   None \<Rightarrow> stack
                 | Some m \<Rightarrow> pop_levels (length (grp_str m ''1'')) stack
                     @ [(length (grp_str m ''1''), strip (grp_str m ''2''))]))
        in map snd stack' # headings_go in_fence stack' lines)"

definition headings_by_line :: "fs \<Rightarrow> string \<Rightarrow> string list list" where
  "headings_by_line fs path =
     (case read_text_safe fs path of None \<Rightarrow> [[]] | Some lines \<Rightarrow> [] # headings_go False [] lines)"

subsection \<open>CDSL instructions\<close>

record cdsl_hit =
  c_checked :: bool
  c_phase :: nat
  c_inst :: string
  c_parent_id :: "string option"
  c_line :: nat

definition cdsl_def_id :: "match_obj \<Rightarrow> string option" where
  "cdsl_def_id m = grp_or (grp m ''id'') (grp_or (grp m ''id2'') (grp m ''id3''))"

definition cdsl_line :: "string option \<Rightarrow> nat \<Rightarrow> string \<Rightarrow> cdsl_hit list" where
  "cdsl_line last_id line raw =
     (case re_match CDSL_LINE_RE raw of
        None \<Rightarrow> []
      | Some m \<Rightarrow>
          (let check = lower (strip (case nonempty_opt (grp m ''check'') of None \<Rightarrow> '' '' | Some c \<Rightarrow> c));
               phase_raw = strip (grp_str m ''phase'')
           in case re_match CDSL_PHASE_NUM_RE phase_raw of
                None \<Rightarrow> []
              | Some mph \<Rightarrow>
                  [\<lparr>c_checked = (check = ''x''), c_phase = digits_val (grp_str mph ''num''),
                    c_inst = grp_str m ''inst'', c_parent_id = last_id, c_line = line\<rparr>]))"

fun scan_cdsl_go :: "bool \<Rightarrow> string option \<Rightarrow> nat \<Rightarrow> string list \<Rightarrow> cdsl_hit list" where
  "scan_cdsl_go in_fence last_id idx0 [] = []"
| "scan_cdsl_go in_fence last_id idx0 (raw # lines) =
     (if is_fence raw then scan_cdsl_go (\<not> in_fence) last_id (Suc idx0) lines
      else if in_fence then scan_cdsl_go in_fence last_id (Suc idx0) lines
      else if strip raw = [] then scan_cdsl_go in_fence last_id (Suc idx0) lines
      else (case re_match ID_DEF_RE (strip raw) of
              Some m \<Rightarrow> scan_cdsl_go in_fence
                (case nonempty_opt (cdsl_def_id m) of None \<Rightarrow> last_id | Some i \<Rightarrow> Some i) (Suc idx0) lines
            | None \<Rightarrow> cdsl_line last_id (Suc idx0) raw @ scan_cdsl_go in_fence last_id (Suc idx0) lines))"

definition scan_cdsl_instructions :: "fs \<Rightarrow> string \<Rightarrow> cdsl_hit list" where
  "scan_cdsl_instructions fs path =
     (case read_text_safe fs path of None \<Rightarrow> [] | Some lines \<Rightarrow> scan_cdsl_go False None 0 lines)"

subsection \<open>The text scope of an ID\<close>

definition find_cpt_ids :: "string \<Rightarrow> string list" where
  "find_cpt_ids s = map (\<lambda>m. grp_str m ''1'') (re_finditer CPT_ID_RE s)"

definition normalize_cpt_id_from_line :: "string \<Rightarrow> string option" where
  "normalize_cpt_id_from_line line =
     (let stripped = strip line;
          first = (\<lambda>s. case find_cpt_ids s of [] \<Rightarrow> None | x # _ \<Rightarrow> Some x)
      in if stripped = [] then None
         else if startswith stripped ''**ID**:'' then first stripped
         else
           let stripped =
             (if startswith stripped ''`'' \<and> endswith stripped ''`'' \<and> 2 < length stripped
              then strip (strip_by (cOne (CHR ''`'')) stripped) else stripped)
           in if startswith stripped ''cpt-''
              then (case re_fullmatch CPT_ID_RE stripped of None \<Rightarrow> None | Some m \<Rightarrow> grp m ''1'')
              else first stripped)"

definition blank :: "string \<Rightarrow> bool" where
  "blank s = (strip s = [])"

fun drop_front :: "string list \<Rightarrow> nat \<Rightarrow> string list \<times> nat" where
  "drop_front [] start = ([], start)"
| "drop_front (l # ls) start = (if blank l then drop_front ls (Suc start) else (l # ls, start))"

text \<open>The second loop of \<open>emit\<close>, on the reversed lines.\<close>

fun drop_back :: "string list \<Rightarrow> nat \<Rightarrow> string list \<times> nat" where
  "drop_back [] end_idx = ([], end_idx)"
| "drop_back (l # ls) end_idx = (if blank l then drop_back ls (end_idx - 1) else (l # ls, end_idx))"

definition emit :: "string list \<Rightarrow> nat \<Rightarrow> nat \<Rightarrow> (string \<times> nat \<times> nat) option" where
  "emit text_lines start_idx end_idx =
     (let (ls, s) = drop_front text_lines start_idx;
          (rls, e) = drop_back (rev ls) end_idx;
          text = strip (join_with [NL] (rev rls))
      in if text = [] then None else Some (text, Suc s, Suc e))"

fun pair_up :: "'a list \<Rightarrow> ('a \<times> 'a) list" where
  "pair_up (a # b # xs) = (a, b) # pair_up xs"
| "pair_up _ = []"

definition hash_fence_idxs :: "string list \<Rightarrow> nat list" where
  "hash_fence_idxs lines =
     filter (\<lambda>i. strip (lines ! i) = ''##'' \<or> strip (lines ! i) = ''###'') [0..<length lines]"

fun boundaries_go :: "nat \<Rightarrow> string list \<Rightarrow> (nat \<times> string) list" where
  "boundaries_go rel [] = []"
| "boundaries_go rel (ln # inner) =
     (case nonempty_opt (normalize_cpt_id_from_line ln) of
        Some sid \<Rightarrow> (rel, sid) # boundaries_go (Suc rel) inner
      | None \<Rightarrow> boundaries_go (Suc rel) inner)"

text \<open>
  The result of a search loop that may return: \<open>None\<close> when it ran to its end,
  \<open>Some r\<close> when it returned \<open>r\<close>.
\<close>

fun segment_go :: "string list \<Rightarrow> string \<Rightarrow> nat \<Rightarrow> nat \<Rightarrow> (nat \<times> string) list
    \<Rightarrow> (string \<times> nat \<times> nat) option option" where
  "segment_go lines wanted start_i end_i [] = None"
| "segment_go lines wanted start_i end_i ((b_rel, sid) # bs) =
     (if sid \<noteq> wanted then segment_go lines wanted start_i end_i bs
      else
        let seg_start = start_i + 1 + b_rel + 1;
            seg_end = (case bs of [] \<Rightarrow> end_i - 1 | (next_rel, _) # _ \<Rightarrow> start_i + 1 + next_rel - 1)
        in if seg_end < seg_start then Some None
           else Some (emit (slice seg_start (Suc seg_end) lines) seg_start seg_end))"

fun hash_fence_scope :: "string list \<Rightarrow> string \<Rightarrow> (nat \<times> nat) list
    \<Rightarrow> (string \<times> nat \<times> nat) option option" where
  "hash_fence_scope lines wanted [] = None"
| "hash_fence_scope lines wanted ((start_i, end_i) # ps) =
     (if end_i \<le> start_i + 1 then hash_fence_scope lines wanted ps
      else (case segment_go lines wanted start_i end_i
                   (boundaries_go 0 (slice (Suc start_i) end_i lines)) of
              Some r \<Rightarrow> Some r
            | None \<Rightarrow> hash_fence_scope lines wanted ps))"

text \<open>The index before the first heading of level at most \<open>level\<close>, from index \<open>j\<close> on.\<close>

fun heading_end :: "nat \<Rightarrow> nat \<Rightarrow> string list \<Rightarrow> nat option" where
  "heading_end level j [] = None"
| "heading_end level j (ln # rest) =
     (case re_match HEADING_RE ln of
        None \<Rightarrow> heading_end level (Suc j) rest
      | Some m \<Rightarrow> if length (grp_str m ''1'') \<le> level then Some (j - 1) else heading_end level (Suc j) rest)"

fun heading_scope_go :: "string list \<Rightarrow> string \<Rightarrow> nat \<Rightarrow> string list
    \<Rightarrow> (string \<times> nat \<times> nat) option option" where
  "heading_scope_go lines wanted idx [] = None"
| "heading_scope_go lines wanted idx (ln # rest) =
     (case re_match HEADING_RE ln of
        None \<Rightarrow> heading_scope_go lines wanted (Suc idx) rest
      | Some m \<Rightarrow>
          (let title = grp_str m ''2''
           in if wanted \<notin> set (find_cpt_ids title) \<and> wanted \<noteq> strip title
                \<and> wanted \<noteq> strip (strip_by (cOne (CHR ''`'')) title)
              then heading_scope_go lines wanted (Suc idx) rest
              else
                let start = Suc idx;
                    end_i = (case heading_end (length (grp_str m ''1'')) (Suc idx) rest of
                               None \<Rightarrow> length lines - 1 | Some e \<Rightarrow> e)
                in if end_i < start then Some None
                   else Some (emit (slice start (Suc end_i) lines) start end_i)))"

fun def_scope_end :: "nat \<Rightarrow> bool \<Rightarrow> nat \<Rightarrow> string list \<Rightarrow> nat option" where
  "def_scope_end cutoff in_fence2 j [] = None"
| "def_scope_end cutoff in_fence2 j (ln # rest) =
     (if is_fence ln then def_scope_end cutoff (\<not> in_fence2) (Suc j) rest
      else if in_fence2 then def_scope_end cutoff in_fence2 (Suc j) rest
      else if re_match ID_DEF_RE (strip ln) \<noteq> None then Some (j - 1)
      else (case re_match HEADING_RE ln of
              None \<Rightarrow> def_scope_end cutoff in_fence2 (Suc j) rest
            | Some m \<Rightarrow> if length (grp_str m ''1'') \<le> cutoff then Some (j - 1)
                else def_scope_end cutoff in_fence2 (Suc j) rest))"

fun def_scope_go :: "string list \<Rightarrow> string \<Rightarrow> bool \<Rightarrow> nat option \<Rightarrow> nat \<Rightarrow> string list
    \<Rightarrow> (string \<times> nat \<times> nat) option" where
  "def_scope_go lines wanted in_fence last_level idx [] = None"
| "def_scope_go lines wanted in_fence last_level idx (ln # rest) =
     (if is_fence ln then def_scope_go lines wanted (\<not> in_fence) last_level (Suc idx) rest
      else if in_fence then def_scope_go lines wanted in_fence last_level (Suc idx) rest
      else (case re_match HEADING_RE ln of
              Some mh \<Rightarrow> def_scope_go lines wanted in_fence (Some (length (grp_str mh ''1''))) (Suc idx) rest
            | None \<Rightarrow>
                (case re_match ID_DEF_RE (strip ln) of
                   None \<Rightarrow> def_scope_go lines wanted in_fence last_level (Suc idx) rest
                 | Some mdef \<Rightarrow>
                     if cdsl_def_id mdef \<noteq> Some wanted
                     then def_scope_go lines wanted in_fence last_level (Suc idx) rest
                     else
                       let start = Suc idx;
                           cutoff = (case last_level of None \<Rightarrow> 6 | Some l \<Rightarrow> l);
                           end_i = (case def_scope_end cutoff False (Suc idx) rest of
                                      None \<Rightarrow> length lines - 1 | Some e \<Rightarrow> e)
                       in if end_i < start then None
                          else emit (slice start (Suc end_i) lines) start end_i)))"

definition content_scoped_lines :: "string list \<Rightarrow> string \<Rightarrow> (string \<times> nat \<times> nat) option" where
  "content_scoped_lines lines id_value =
     (let wanted = strip id_value
      in case hash_fence_scope lines wanted (pair_up (hash_fence_idxs lines)) of
           Some r \<Rightarrow> r
         | None \<Rightarrow>
             (case heading_scope_go lines wanted 0 lines of
                Some r \<Rightarrow> r
              | None \<Rightarrow> def_scope_go lines wanted False None 0 lines))"

definition get_content_scoped :: "fs \<Rightarrow> string \<Rightarrow> string \<Rightarrow> (string \<times> nat \<times> nat) option" where
  "get_content_scoped fs path id_value =
     (case read_text_safe fs path of None \<Rightarrow> None | Some lines \<Rightarrow> content_scoped_lines lines id_value)"

end
