(* ===== verification/Fenced_Scan.thy ===== *)
theory Fenced_Scan
  imports Py_Regex
begin

section \<open>Line scanners that ignore fenced code blocks\<close>

text \<open>
  Five loops of the scripts read a document line by line, keep track of fenced code blocks
  and skip the fence lines and everything inside a block. The locale states what such a
  loop promises: \<open>go\<close> is the loop, \<open>upd\<close> the update of the fence state by a line, \<open>out\<close>
  the state outside every block, and \<open>line_step\<close> the body of the loop for a line outside.
  What a fenced block contains has then no influence on the result, and every hit comes
  from a line outside the blocks.
\<close>

locale fenced_scan =
  fixes go :: "'f \<Rightarrow> 's \<Rightarrow> nat \<Rightarrow> string list \<Rightarrow> 'h list"
    and upd :: "'f \<Rightarrow> string \<Rightarrow> 'f"
    and out :: "'f"
    and line_step :: "'s \<Rightarrow> nat \<Rightarrow> string \<Rightarrow> 's \<times> 'h list"
  assumes go_Nil: "go f st n [] = []"
    and go_change: "upd f raw \<noteq> f \<Longrightarrow> go f st n (raw # ls) = go (upd f raw) st (Suc n) ls"
    and go_inside: "upd f raw = f \<Longrightarrow> f \<noteq> out \<Longrightarrow> go f st n (raw # ls) = go f st (Suc n) ls"
    and go_line: "upd f raw = f \<Longrightarrow> f = out \<Longrightarrow> go f st n (raw # ls) =
      snd (line_step st (Suc n) raw) @ go f (fst (line_step st (Suc n) raw)) (Suc n) ls"
begin

primrec run :: "'f \<Rightarrow> 's \<Rightarrow> nat \<Rightarrow> string list \<Rightarrow> 'f \<times> 's" where
  "run f st n [] = (f, st)"
| "run f st n (raw # ls) =
     (if upd f raw \<noteq> f then run (upd f raw) st (Suc n) ls
      else if f \<noteq> out then run f st (Suc n) ls
      else run f (fst (line_step st (Suc n) raw)) (Suc n) ls)"

lemma go_append:
  "go f st n (xs @ ys) =
     go f st n xs @ go (fst (run f st n xs)) (snd (run f st n xs)) (n + length xs) ys"
proof (induction xs arbitrary: f st n)
  case Nil
  then show ?case by (simp add: go_Nil)
next
  case (Cons raw xs)
  consider "upd f raw \<noteq> f" | "upd f raw = f" "f \<noteq> out" | "upd f raw = f" "f = out" by blast
  then show ?case
    by cases (simp_all add: Cons.IH go_change go_inside go_line)
qed

lemma fst_run: "fst (run f st n xs) = foldl upd f xs"
proof (induction xs arbitrary: f st n)
  case (Cons raw xs)
  then show ?case by (cases "upd f raw = f") simp_all
qed simp

lemma run_inside:
  "f \<noteq> out \<Longrightarrow> \<forall>raw \<in> set b. upd f raw = f \<Longrightarrow> run f st n b = (f, st)"
  by (induction b arbitrary: n) auto

lemma go_inside_Nil:
  "f \<noteq> out \<Longrightarrow> \<forall>raw \<in> set b. upd f raw = f \<Longrightarrow> go f st n b = []"
  by (induction b arbitrary: n) (auto simp: go_Nil go_inside)

lemma go_block:
  assumes "f \<noteq> out" and "\<forall>raw \<in> set b. upd f raw = f"
  shows "go f st n (b @ ys) = go f st (n + length b) ys"
  using assms by (simp add: go_append run_inside go_inside_Nil)

text \<open>The content of a fenced block does not matter, only its number of lines.\<close>

lemma block_opaque:
  assumes "upd out op \<noteq> out" and "foldl upd out pre = out"
    and "\<forall>raw \<in> set b. upd (upd out op) raw = upd out op"
    and "\<forall>raw \<in> set b'. upd (upd out op) raw = upd out op"
    and "length b = length b'"
  shows "go out st n (pre @ op # b @ post) = go out st n (pre @ op # b' @ post)"
  using assms by (simp add: go_append [of _ _ _ pre] fst_run go_change go_block)

lemma hit_line:
  "h \<in> set (go f st n ls) \<Longrightarrow>
     \<exists>k st'. k < length ls \<and> h \<in> set (snd (line_step st' (Suc (n + k)) (ls ! k)))
       \<and> foldl upd f (take k ls) = out \<and> upd out (ls ! k) = out"
proof (induction ls arbitrary: f st n)
  case Nil
  then show ?case by (simp add: go_Nil)
next
  case (Cons raw ls)
  have later: "\<exists>k st'. k < length (raw # ls) \<and> h \<in> set (snd (line_step st' (Suc (n + k)) ((raw # ls) ! k)))
       \<and> foldl upd f (take k (raw # ls)) = out \<and> upd out ((raw # ls) ! k) = out"
    if "h \<in> set (go (upd f raw) st' (Suc n) ls)" for st'
  proof -
    from Cons.IH [OF that] obtain k st'' where "k < length ls"
      "h \<in> set (snd (line_step st'' (Suc (Suc n + k)) (ls ! k)))"
      "foldl upd (upd f raw) (take k ls) = out" "upd out (ls ! k) = out" by blast
    then show ?thesis by (intro exI [of _ "Suc k"] exI [of _ st'']) simp
  qed
  consider "upd f raw \<noteq> f" | "upd f raw = f" "f \<noteq> out" | "upd f raw = f" "f = out" by blast
  then show ?case
  proof cases
    case 1
    with Cons.prems show ?thesis by (intro later) (simp add: go_change)
  next
    case 2
    with Cons.prems show ?thesis by (intro later) (simp add: go_inside)
  next
    case 3
    with Cons.prems consider "h \<in> set (snd (line_step st (Suc n) raw))"
      | "h \<in> set (go f (fst (line_step st (Suc n) raw)) (Suc n) ls)" by (auto simp: go_line)
    then show ?thesis
    proof cases
      case 1
      with 3 show ?thesis by (intro exI [of _ 0] exI [of _ st]) simp
    next
      case 2
      with 3 show ?thesis by (intro later) simp
    qed
  qed
qed

end

text \<open>
  When every hit of a line carries that line's number, the hits come in document order:
  the extension for scanners whose hits are located.
\<close>

locale located_scan = fenced_scan +
  fixes line_of :: "'c \<Rightarrow> nat"
  assumes line_step_line: "h \<in> set (snd (line_step st l raw)) \<Longrightarrow> line_of h = l"
begin

lemma hit_bounds: "h \<in> set (go f st n ls) \<Longrightarrow> n < line_of h \<and> line_of h \<le> n + length ls"
  using hit_line [of h f st n ls] line_step_line by fastforce

lemma hits_sorted: "sorted (map line_of (go f st n ls))"
proof (induction ls arbitrary: f st n)
  case Nil
  then show ?case by (simp add: go_Nil)
next
  case (Cons raw ls)
  consider "upd f raw \<noteq> f" | "upd f raw = f" "f \<noteq> out" | "upd f raw = f" "f = out" by blast
  then show ?case
  proof cases
    case 3
    let ?hs = "snd (line_step st (Suc n) raw)"
    let ?rest = "go f (fst (line_step st (Suc n) raw)) (Suc n) ls"
    have l: "\<forall>h \<in> set ?hs. line_of h = Suc n" using line_step_line by blast
    then have "map line_of ?hs = replicate (length ?hs) (Suc n)"
      by (metis (no_types, lifting) map_replicate_const map_cong)
    moreover have "\<forall>h \<in> set ?rest. Suc n < line_of h" using hit_bounds by blast
    ultimately show ?thesis using 3 Cons.IH l
      by (auto simp: go_line sorted_append intro: less_imp_le)
  qed (simp_all add: go_change go_inside Cons.IH)
qed

end

end
