(* ===== verification/Doc_Facts.thy ===== *)
theory Doc_Facts
  imports Doc_Scan Fenced_Scan
begin

section \<open>Correctness of the document scanner\<close>

text \<open>
  What an ID is, that the scanner reports IDs and nothing else, in document order and
  never from a fenced block, that a definition or reference line written in the documented
  format is read back exactly, and the bounds of the reported headings and text scopes.
\<close>

definition valid_cpt_id :: "string \<Rightarrow> bool" where
  "valid_cpt_id s = (\<exists>c cs. s = ''cpt-'' @ c # cs \<and> c_id0 c \<and> cs \<noteq> [] \<and> list_all c_id cs)"

text \<open>A definition line as the kit's templates write it.\<close>

definition render_def :: "bool option \<Rightarrow> nat option \<Rightarrow> string \<Rightarrow> string" where
  "render_def task prio i =
     (case task of None \<Rightarrow> [] | Some c \<Rightarrow> if c then ''- [x] '' else ''- [ ] '')
     @ (case prio of None \<Rightarrow> [] | Some p \<Rightarrow> ''`p'' @ nat_str p @ ''` - '')
     @ ''**ID**: `'' @ i @ ''`''"

subsection \<open>The ID expression\<close>

lemma rder_id_body: "rder cpt_id_body w t \<longleftrightarrow> valid_cpt_id w"
proof -
  have "rder cpt_id_body w t \<longleftrightarrow> (\<exists>u v. w = ''cpt-'' @ u @ v \<and> one_of c_id0 u (v @ t) \<and> v \<noteq> [] \<and> list_all c_id v)"
    by (auto simp: cpt_id_body_def rder_lit rder_plus_cls one_of_def simp del: RLit.simps)
  also have "\<dots> \<longleftrightarrow> valid_cpt_id w"
    by (auto simp: valid_cpt_id_def one_of_def intro: exI [of _ "[_]"])
  finally show ?thesis .
qed

lemma valid_cpt_id_ne: "valid_cpt_id s \<Longrightarrow> s \<noteq> []"
  by (auto simp: valid_cpt_id_def)

text \<open>The texts that \<open>_CPT_ID_RE\<close> accepts as a whole. The parts that an ID is made of (prefix, kind and
  slug) are not visible to the expression.\<close>

lemma cpt_id_language:
  "re_fullmatch CPT_ID_RE s \<noteq> None \<longleftrightarrow>
     (\<exists>c cs. s = ''cpt-'' @ c # cs \<and> (is_lower_az c \<or> is_digit c) \<and> cs \<noteq> []
        \<and> list_all (\<lambda>d. is_lower_az d \<or> is_digit d \<or> d = CHR ''-'') cs)"
proof -
  have "re_fullmatch CPT_ID_RE s \<noteq> None \<longleftrightarrow> valid_cpt_id s"
    by (simp only: re_fullmatch_iff CPT_ID_RE_def rder.simps(7) rder_id_body)
  then show ?thesis by (simp add: valid_cpt_id_def c_id0_def c_id_def list_all_iff)
qed

lemma space_not_bq [simp]: "py_space c \<Longrightarrow> c \<noteq> CHR ''`''"
  by (auto simp: py_space_def)

lemma space_not_dash [simp]: "py_space c \<Longrightarrow> c \<noteq> CHR ''-''"
  by (auto simp: py_space_def)

lemma rmatch_plus_cls_seq:
  assumes "\<And>c cs. p c \<Longrightarrow> rmatch b (c # cs) g = []" and "p c"
  shows "rmatch (RSeq (RPlus (RCls p)) b) (c # cs) g = rmatch b (dropWhile p cs) g"
proof -
  have "rmatch (RSeq (RPlus (RCls p)) b) (c # cs) g = rmatch (RSeq (RStar (RCls p)) b) cs g"
    unfolding RPlus_def rmatch_seq_assoc using assms(2) by (simp del: rmatch.simps(5))
  also have "\<dots> = rmatch b (dropWhile p cs) g"
    using assms(1) by (rule rmatch_star_cls_seq)
  finally show ?thesis .
qed

text \<open>An ID followed by a character that cannot continue it is captured whole.\<close>

lemma rmatch_id_grp:
  assumes "valid_cpt_id i" and "\<not> c_id d"
  shows "rmatch (RSeq (RGrp k cpt_id_body) (RLit (d # l))) (i @ d # t) g =
    (if startswith t l then [(drop (length l) t, (k, i) # g)] else [])"
proof -
  from assms(1) obtain c e cs where i: "i = ''cpt-'' @ c # e # cs" "c_id0 c" "c_id e" "list_all c_id cs"
    by (auto simp: valid_cpt_id_def neq_Nil_conv)
  have dw: "dropWhile c_id (cs @ d # t) = d # t"
    using i(4) assms(2) by (simp add: dropWhile_append list_all_iff)
  obtain rs where rs: "rmatch (RStar (RCls c_id)) (cs @ d # t) g = (d # t, g) # rs"
      "\<forall>x \<in> set rs. \<exists>c cs. x = (c # cs, g) \<and> c_id c"
    using rmatch_star_cls_hd [of c_id "cs @ d # t" g] dw by auto
  have body: "rmatch cpt_id_body (i @ d # t) g = (d # t, g) # rs"
    using i rs(1) unfolding cpt_id_body_def RPlus_def by (simp del: rmatch.simps(5))
  let ?f = "\<lambda>(s', g'). (s', (k, take (length (i @ d # t) - length s') (i @ d # t)) # g')"
  have "rmatch (RGrp k cpt_id_body) (i @ d # t) g = (d # t, (k, i) # g) # map ?f rs"
    using body by simp
  moreover have "rmatch (RLit (d # l)) t' h' = []" if "(t', h') \<in> set (map ?f rs)" for t' h'
    using that rs(2) assms(2) by (auto simp: rmatch_lit simp del: RLit.simps)
  ultimately have "rmatch (RSeq (RGrp k cpt_id_body) (RLit (d # l))) (i @ d # t) g =
      rmatch (RLit (d # l)) (d # t) ((k, i) # g)"
    by (rule rmatch_seq_hd)
  then show ?thesis by (simp add: rmatch_lit del: RLit.simps)
qed

lemma not_c_id_bq [simp]: "\<not> c_id (CHR ''`'')"
  by (simp add: c_id_def is_lower_az_def is_digit_def)

lemma rmatch_id_tail:
  assumes "valid_cpt_id i"
  shows "rmatch (id_tail_re k) (''**ID**: `'' @ i @ ''`'') g = [([], (k, i) # g)]"
proof -
  let ?r = "RSeq (RLit ''`'') (RSeq (RGrp k cpt_id_body) (RLit ''`''))"
  have "rmatch (id_tail_re k) (''**ID**: `'' @ i @ ''`'') g =
      rmatch (RSeq RSp ?r) ('' `'' @ i @ ''`'') g"
    unfolding id_tail_re_def RCat.simps rmatch_seq_lit by simp
  also have "\<dots> = rmatch ?r (dropWhile py_space ('' `'' @ i @ ''`'')) g"
    by (rule rmatch_star_cls_seq) (auto simp: rmatch_seq_lit simp del: RLit.simps rmatch.simps)
  also have "dropWhile py_space ('' `'' @ i @ ''`'') = ''`'' @ i @ ''`''"
    by (simp add: py_space_def)
  also have "rmatch ?r (''`'' @ i @ ''`'') g = rmatch (RSeq (RGrp k cpt_id_body) (RLit ''`'')) (i @ ''`'') g"
    unfolding rmatch_seq_lit by simp
  also have "\<dots> = [([], (k, i) # g)]"
    using rmatch_id_grp [OF assms, of "CHR ''`''" k "[]" "[]" g] by simp
  finally show ?thesis .
qed

lemma digit_digit_char: "d < 10 \<Longrightarrow> is_digit (digit_char d)"
  by (simp add: is_digit_def digit_char_def)

lemma nat_str_digits: "list_all is_digit (nat_str n) \<and> nat_str n \<noteq> []"
proof (induction n rule: nat_str.induct)
  case (1 n)
  then show ?case by (simp add: nat_str.simps [of n] digit_digit_char)
qed

lemma rmatch_prio:
  assumes "t \<noteq> []" and "\<not> py_space (hd t)"
  shows "rmatch (prio_re k) (''`p'' @ nat_str p @ ''` - '' @ t) g =
    [(t, (k, ''p'' @ nat_str p) # g), ('' '' @ t, (k, ''p'' @ nat_str p) # g)]"
proof -
  obtain d ds where ds: "nat_str p = d # ds" "is_digit d" "list_all is_digit ds"
    using nat_str_digits [of p] by (cases "nat_str p") auto
  let ?r2 = "RSeq RSp (RSeq (RLit ''-'') RSp)"
  let ?s = "ds @ ''` - '' @ t"
  have nd: "\<not> is_digit (CHR ''`'')" by (simp add: is_digit_def)
  have dw: "dropWhile is_digit ?s = ''` - '' @ t"
    using ds(3) nd by (simp add: dropWhile_append list_all_iff)
  obtain rs where rs: "rmatch (RStar (RCls is_digit)) ?s g = (''` - '' @ t, g) # rs"
      "\<forall>x \<in> set rs. \<exists>c cs. x = (c # cs, g) \<and> is_digit c"
    using rmatch_star_cls_hd [of is_digit ?s g] dw by auto
  have body: "rmatch (RSeq (RLit ''p'') RDig1) (''p'' @ nat_str p @ ''` - '' @ t) g = (''` - '' @ t, g) # rs"
    using ds rs(1) unfolding RPlus_def by (simp del: rmatch.simps(5))
  let ?f = "\<lambda>(s', g'). (s', (k, take (length (''p'' @ nat_str p @ ''` - '' @ t) - length s')
    (''p'' @ nat_str p @ ''` - '' @ t)) # g')"
  have "rmatch (RGrp k (RSeq (RLit ''p'') RDig1)) (''p'' @ nat_str p @ ''` - '' @ t) g =
      (''` - '' @ t, (k, ''p'' @ nat_str p) # g) # map ?f rs"
    using body by simp
  moreover have "rmatch (RSeq (RLit ''`'') ?r2) t' h' = []" if "(t', h') \<in> set (map ?f rs)" for t' h'
    using that rs(2) nd by (auto simp: rmatch_seq_lit simp del: RLit.simps rmatch.simps)
  ultimately have "rmatch (RSeq (RGrp k (RSeq (RLit ''p'') RDig1)) (RSeq (RLit ''`'') ?r2))
      (''p'' @ nat_str p @ ''` - '' @ t) g =
      rmatch (RSeq (RLit ''`'') ?r2) (''` - '' @ t) ((k, ''p'' @ nat_str p) # g)" (is "_ = ?R")
    by (rule rmatch_seq_hd)
  moreover have "?R = rmatch ?r2 ('' - '' @ t) ((k, ''p'' @ nat_str p) # g)"
    unfolding rmatch_seq_lit by simp
  moreover have "\<dots> = rmatch (RSeq (RLit ''-'') RSp) (''- '' @ t) ((k, ''p'' @ nat_str p) # g)"
    by (subst rmatch_star_cls_seq) (auto simp: rmatch_seq_lit py_space_def simp del: RLit.simps rmatch.simps)
  moreover have "\<dots> = rmatch RSp ('' '' @ t) ((k, ''p'' @ nat_str p) # g)"
    unfolding rmatch_seq_lit by simp
  ultimately show ?thesis
    unfolding prio_re_def RCat.simps rmatch_seq_lit
    using assms by (cases t) (auto simp: py_space_def)
qed

subsection \<open>Definition lines are read back\<close>

lemma rmatch_sp_end_Nil: "rmatch (RSeq RSp REnd) [] g = [([], g)]"
  by simp

lemma id_tail_no: "\<not> startswith s ''**ID**:'' \<Longrightarrow> rmatch (id_tail_re k) s g = []"
  by (simp add: id_tail_re_def rmatch_seq_lit del: RLit.simps rmatch.simps)

lemma prio_no: "\<not> startswith s ''`'' \<Longrightarrow> rmatch (prio_re k) s g = []"
  by (simp add: prio_re_def rmatch_seq_lit del: RLit.simps rmatch.simps)

lemma rmatch_task:
  "rmatch (RSeq task_re r) (''[x]'' @ t) g = rmatch r t ((''task'', ''[x]'') # g)"
  "rmatch (RSeq task_re r) (''[ ]'' @ t) g =
     rmatch r t ((''task'', ''[ ]'') # g) @ rmatch r t ((''task'', ''[ ]'') # g)"
  by (simp_all add: task_re_def ROpt_def cAny_def py_space_def)

text \<open>An optional priority before the rest of the line.\<close>

definition prio_str :: "nat option \<Rightarrow> string" where
  "prio_str prio = (case prio of None \<Rightarrow> [] | Some p \<Rightarrow> ''`p'' @ nat_str p @ ''` - '')"

definition prio_groups :: "string \<Rightarrow> nat option \<Rightarrow> groups" where
  "prio_groups k prio = (case prio of None \<Rightarrow> [] | Some p \<Rightarrow> [(k, ''p'' @ nat_str p)])"

lemma rmatch_opt_prio_id:
  assumes "valid_cpt_id i"
  shows "rmatch (RSeq (ROpt (prio_re k)) (id_tail_re k')) (prio_str prio @ ''**ID**: `'' @ i @ ''`'') g =
    [([], (k', i) # prio_groups k prio @ g)]"
proof (cases prio)
  case None
  then show ?thesis
    using rmatch_id_tail [OF assms] by (simp add: prio_str_def prio_groups_def ROpt_def prio_no)
next
  case (Some p)
  let ?t = "''**ID**: `'' @ i @ ''`''"
  have "rmatch (prio_re k) (''`p'' @ nat_str p @ ''` - '' @ ?t) g =
      [(?t, (k, ''p'' @ nat_str p) # g), ('' '' @ ?t, (k, ''p'' @ nat_str p) # g)]"
    by (rule rmatch_prio) (simp_all add: py_space_def)
  then show ?thesis
    using Some rmatch_id_tail [OF assms] by (simp add: prio_str_def prio_groups_def ROpt_def id_tail_no)
qed

lemma strip_render_def: "strip (render_def task prio i) = render_def task prio i"
proof (rule strip_by_id, rule disjI2, rule conjI)
  show "\<not> py_space (hd (render_def task prio i))"
    by (auto simp: render_def_def py_space_def split: option.splits)
  have "last (render_def task prio i) = CHR ''`''" by (simp add: render_def_def)
  then show "\<not> py_space (last (render_def task prio i))" by (simp add: py_space_def)
qed

definition task_alt_re :: regex where
  "task_alt_re = RSeq (RCls (cAny ''-*'')) (RSeq RSp1 (RSeq task_re (RSeq RSp
     (RSeq (ROpt (prio_re ''priority'')) (id_tail_re ''id3'')))))"

definition then_end :: "string \<times> groups \<Rightarrow> (string \<times> groups) list" where
  "then_end x = rmatch (RSeq RSp REnd) (fst x) (snd x)"

lemma then_end_Nil [simp]: "then_end ([], g) = [([], g)]"
  by (simp add: then_end_def)

lemma rmatch_ID_DEF:
  "rmatch ID_DEF_RE s g = concat (map then_end
     (rmatch (id_tail_re ''id'') s g
      @ rmatch (RSeq (ROpt (prio_re ''priority_only2'')) (id_tail_re ''id4'')) s g
      @ rmatch (RSeq (prio_re ''priority_only'') (id_tail_re ''id2'')) s g
      @ rmatch task_alt_re s g))"
  by (simp add: ID_DEF_RE_def then_end_def [abs_def] task_alt_re_def split_def del: rmatch.simps(5) RLit.simps)

lemma rmatch_task_alt:
  assumes "valid_cpt_id i"
  shows "\<exists>xs. rmatch task_alt_re (render_def (Some c) prio i) [] =
    ([], (''id3'', i) # prio_groups ''priority'' prio @ [(''task'', if c then ''[x]'' else ''[ ]'')]) # xs"
proof -
  let ?t = "prio_str prio @ ''**ID**: `'' @ i @ ''`''"
  let ?b = "if c then ''[x]'' else ''[ ]''"
  let ?r4 = "RSeq (ROpt (prio_re ''priority'')) (id_tail_re ''id3'')"
  let ?r3 = "RSeq task_re (RSeq RSp ?r4)"
  have s: "render_def (Some c) prio i = CHR ''-'' # CHR '' '' # ?b @ '' '' @ ?t"
    by (simp add: render_def_def prio_str_def)
  have ns: "\<not> py_space (CHR ''['')" "\<not> py_space (CHR ''`'')" "\<not> py_space (CHR ''*'')" "py_space (CHR '' '')"
    by (simp_all add: py_space_def)
  have r3: "rmatch ?r3 (d # ds) g = []" if "py_space d" for d ds g
    using that ns(1) by (auto simp: task_re_def)
  have r4: "rmatch ?r4 (d # ds) g = []" if "py_space d" for d ds g
  proof -
    from that ns have "d \<noteq> CHR ''*''" "d \<noteq> CHR ''`''" by auto
    then show ?thesis by (simp add: ROpt_def prio_no id_tail_no)
  qed
  have "rmatch task_alt_re (render_def (Some c) prio i) [] = rmatch (RSeq RSp1 ?r3) (CHR '' '' # ?b @ '' '' @ ?t) []"
    unfolding s task_alt_re_def by (simp add: cAny_def del: rmatch.simps(3) add: rmatch.simps(3) [of "RCls _"])
  also have "\<dots> = rmatch ?r3 (dropWhile py_space (?b @ '' '' @ ?t)) []"
    using r3 ns(4) by (rule rmatch_plus_cls_seq)
  also have "dropWhile py_space (?b @ '' '' @ ?t) = ?b @ '' '' @ ?t" using ns(1) by simp
  finally have 1: "rmatch task_alt_re (render_def (Some c) prio i) [] = rmatch ?r3 (?b @ '' '' @ ?t) []" .
  have "rmatch (RSeq RSp ?r4) ('' '' @ ?t) g = rmatch ?r4 ?t g" for g
  proof -
    have "rmatch (RSeq RSp ?r4) ('' '' @ ?t) g = rmatch ?r4 (dropWhile py_space ('' '' @ ?t)) g"
      using r4 by (rule rmatch_star_cls_seq)
    moreover have "dropWhile py_space ('' '' @ ?t) = ?t"
      using ns by (simp add: prio_str_def split: option.split)
    ultimately show ?thesis by simp
  qed
  also have "rmatch ?r4 ?t g = [([], (''id3'', i) # prio_groups ''priority'' prio @ g)]" for g
    by (rule rmatch_opt_prio_id [OF assms])
  finally have 2: "rmatch (RSeq RSp ?r4) ('' '' @ ?t) g = [([], (''id3'', i) # prio_groups ''priority'' prio @ g)]"
    for g .
  show ?thesis
  proof (cases c)
    case True
    then show ?thesis
      unfolding 1 by (simp only: if_True rmatch_task 2) simp
  next
    case False
    then show ?thesis
      unfolding 1 by (simp only: if_False rmatch_task 2) simp
  qed
qed

definition def_groups :: "bool option \<Rightarrow> nat option \<Rightarrow> string \<Rightarrow> groups" where
  "def_groups task prio i =
     (case task of
        None \<Rightarrow> (if prio = None then [(''id'', i)] else (''id4'', i) # prio_groups ''priority_only2'' prio)
      | Some c \<Rightarrow> (''id3'', i) # prio_groups ''priority'' prio @ [(''task'', if c then ''[x]'' else ''[ ]'')])"

lemma render_def_match:
  assumes "valid_cpt_id i"
  shows "\<exists>xs. rmatch ID_DEF_RE (render_def task prio i) [] = ([], def_groups task prio i) # xs"
proof (cases task)
  case None
  then have s: "render_def task prio i = prio_str prio @ ''**ID**: `'' @ i @ ''`''"
    by (simp add: render_def_def prio_str_def)
  show ?thesis
  proof (cases prio)
    case prio: None
    have "rmatch (id_tail_re ''id'') (render_def task prio i) [] = [([], [(''id'', i)])]"
      unfolding s using prio rmatch_id_tail [OF assms] by (simp add: prio_str_def)
    then show ?thesis
      using None prio by (simp add: rmatch_ID_DEF def_groups_def)
  next
    case prio: (Some p)
    have "rmatch (id_tail_re ''id'') (render_def task prio i) [] = []"
      unfolding s using prio by (simp add: prio_str_def id_tail_no)
    moreover have "rmatch (RSeq (ROpt (prio_re ''priority_only2'')) (id_tail_re ''id4'')) (render_def task prio i) [] =
        [([], def_groups task prio i)]"
      unfolding s using None prio rmatch_opt_prio_id [OF assms, of "''priority_only2''" "''id4''" prio "[]"]
      by (simp add: def_groups_def del: rmatch.simps)
    ultimately show ?thesis by (simp add: rmatch_ID_DEF del: rmatch.simps)
  qed
next
  case (Some c)
  have h: "\<exists>s. render_def (Some c) prio i = CHR ''-'' # s" by (simp add: render_def_def)
  then have "rmatch (id_tail_re ''id'') (render_def (Some c) prio i) [] = []"
    "rmatch (RSeq (ROpt (prio_re ''priority_only2'')) (id_tail_re ''id4'')) (render_def (Some c) prio i) [] = []"
    "rmatch (RSeq (prio_re ''priority_only'') (id_tail_re ''id2'')) (render_def (Some c) prio i) [] = []"
    by (auto simp: id_tail_no prio_no ROpt_def)
  moreover obtain xs where "rmatch task_alt_re (render_def (Some c) prio i) [] =
      ([], def_groups (Some c) prio i) # xs"
    using rmatch_task_alt [OF assms, of c prio] by (auto simp: def_groups_def)
  ultimately show ?thesis
    using Some by (simp add: rmatch_ID_DEF del: rmatch.simps)
qed

lemma prio_strip: "strip (CHR ''p'' # nat_str p) \<noteq> []"
  by (simp add: strip_by_eq_Nil_iff py_space_def)

lemma is_checked_box: "is_checked (Some (if c then ''[x]'' else ''[ ]'')) = c"
  by (simp add: is_checked_def str_or_empty_def lower_def lower_char_def)

text \<open>C17. Round trip of definitions: a line that defines a valid ID in the documented format,
  with or without a task box and a priority, is scanned as exactly that definition, with
  its checked state, its task and priority flags and its priority.\<close>

theorem scan_line_render_def:
  assumes "valid_cpt_id i"
  shows "scan_line n (render_def task prio i) =
    [\<lparr>h_id = i, h_line = n, h_type = Definition, h_checked = (task = Some True),
      h_has_task = (task \<noteq> None), h_has_priority = (prio \<noteq> None),
      h_priority = map_option (\<lambda>p. ''p'' @ nat_str p) prio\<rparr>]"
proof -
  obtain xs where "rmatch ID_DEF_RE (render_def task prio i) [] = ([], def_groups task prio i) # xs"
    using render_def_match [OF assms] by blast
  then have m: "re_match ID_DEF_RE (render_def task prio i) =
      Some (mk_match (render_def task prio i) ([], def_groups task prio i))" (is "_ = Some ?m")
    by (rule re_match_first)
  have ne: "render_def task prio i \<noteq> []" by (simp add: render_def_def)
  obtain c cs where i: "i = c # cs" using valid_cpt_id_ne [OF assms] by (cases i) auto
  have g: "grp ?m k = map_of (def_groups task prio i) k" for k
    by (simp add: grp_def mk_match_def)
  have "def_hit n ?m = \<lparr>h_id = i, h_line = n, h_type = Definition, h_checked = (task = Some True),
      h_has_task = (task \<noteq> None), h_has_priority = (prio \<noteq> None),
      h_priority = map_option (\<lambda>p. ''p'' @ nat_str p) prio\<rparr>"
    unfolding def_hit_def def_id_of_def g
    by (cases task; cases prio)
      (simp_all add: Let_def def_groups_def prio_groups_def i grp_or_def str_or_empty_def
        has_prio_def nonempty_opt_def prio_strip is_checked_box [unfolded str_or_empty_def]
        is_checked_def [of None])
  then show ?thesis using m ne by (simp add: scan_line_def strip_render_def)
qed

theorem scan_line_render_def_witness:
  "scan_line 7 ''- [x] `p12` - **ID**: `cpt-sys-flow-a`'' =
    [\<lparr>h_id = ''cpt-sys-flow-a'', h_line = 7, h_type = Definition, h_checked = True,
      h_has_task = True, h_has_priority = True, h_priority = Some ''p12''\<rparr>]"
proof -
  have v: "valid_cpt_id ''cpt-sys-flow-a''"
    by (simp add: valid_cpt_id_def c_id0_def c_id_def is_lower_az_def is_digit_def)
  have p: "nat_str 12 = ''12''" by code_simp
  show ?thesis
    using scan_line_render_def [OF v, of 7 "Some True" "Some 12"]
    by (simp add: render_def_def p)
qed

subsection \<open>Every hit is an ID, located, in order and outside fenced blocks\<close>

definition fence_toggle :: "bool \<Rightarrow> string \<Rightarrow> bool" where
  "fence_toggle f raw = (if is_fence raw then \<not> f else f)"

lemma scan_line_line: "h \<in> set (scan_line l raw) \<Longrightarrow> h_line h = l"
  by (auto simp: scan_line_def def_hit_def ref_hit_def inline_hit_def Let_def
      split: if_splits option.splits)

lemma foldl_fence_toggle:
  "foldl fence_toggle f ls = (if even (length (filter is_fence ls)) then f else \<not> f)"
  by (induction ls arbitrary: f) (auto simp: fence_toggle_def)

interpretation ids: located_scan "\<lambda>f (st::unit) n ls. scan_ids_go f n ls" fence_toggle False
  "\<lambda>st l raw. ((), scan_line l raw)" h_line
  by unfold_locales (auto simp: fence_toggle_def scan_line_line split: if_splits)

definition cdsl_step :: "string option \<Rightarrow> nat \<Rightarrow> string \<Rightarrow> string option \<times> cdsl_hit list" where
  "cdsl_step last_id l raw =
     (if strip raw = [] then (last_id, [])
      else case re_match ID_DEF_RE (strip raw) of
        Some m \<Rightarrow> (case nonempty_opt (cdsl_def_id m) of None \<Rightarrow> last_id | Some i \<Rightarrow> Some i, [])
      | None \<Rightarrow> (last_id, cdsl_line last_id l raw))"

lemma cdsl_line_line: "h \<in> set (cdsl_line p l raw) \<Longrightarrow> c_line h = l"
  by (auto simp: cdsl_line_def Let_def split: option.splits)

interpretation cdsl: located_scan scan_cdsl_go fence_toggle False cdsl_step c_line
  by unfold_locales
    (auto simp: fence_toggle_def cdsl_step_def cdsl_line_line split: if_splits option.splits)

lemma grp_valid_id:
  assumes "re_match r s = Some m" and "grp m k = Some x"
    and "\<And>r'. (k, r') \<in> grp_bodies r \<Longrightarrow> r' = cpt_id_body"
  shows "valid_cpt_id x"
  using grp_sound [OF assms(1,2)] assms(3) rder_id_body by blast

lemma def_id_valid:
  assumes "re_match ID_DEF_RE s = Some m"
  shows "valid_cpt_id (def_id_of m)"
proof -
  let ?K = "{''id'', ''id2'', ''id3'', ''id4''}"
  have "surely ?K ID_DEF_RE"
    by (simp add: ID_DEF_RE_def id_tail_re_def)
  from grp_surely [OF assms this] obtain k x where k: "k \<in> ?K" "grp m k = Some x" by blast
  have bodies: "r' = cpt_id_body" if "k' \<in> ?K" "(k', r') \<in> grp_bodies ID_DEF_RE" for k' r'
    using that by (auto simp: ID_DEF_RE_def id_tail_re_def prio_re_def task_re_def ROpt_def RPlus_def cpt_id_body_def)
  have valid: "valid_cpt_id x" if "k' \<in> ?K" "grp m k' = Some x" for k' x
    using grp_valid_id [OF assms that(2)] bodies that(1) by blast
  have or: "grp_or (grp m k') b = (case grp m k' of None \<Rightarrow> b | Some x \<Rightarrow> Some x)" if "k' \<in> ?K" for k' b
    using valid [OF that] by (auto simp: grp_or_def dest: valid_cpt_id_ne split: option.splits list.splits)
  have "def_id_of m = str_or_empty (case grp m ''id'' of Some x \<Rightarrow> Some x | None \<Rightarrow>
      (case grp m ''id2'' of Some x \<Rightarrow> Some x | None \<Rightarrow>
      (case grp m ''id3'' of Some x \<Rightarrow> Some x | None \<Rightarrow> grp m ''id4'')))"
    unfolding def_id_of_def using or by (simp split: option.split)
  then show ?thesis
    using k valid by (auto simp: str_or_empty_def split: option.splits)
qed

lemma ref_id_valid:
  assumes "re_match ID_REF_RE s = Some m"
  shows "valid_cpt_id (grp_str m ''id'')"
proof -
  have "surely {''id''} ID_REF_RE" by (simp add: ID_REF_RE_def)
  from grp_surely [OF assms this] obtain x where x: "grp m ''id'' = Some x" by blast
  moreover have "valid_cpt_id x"
    by (rule grp_valid_id [OF assms x])
      (auto simp: ID_REF_RE_def prio_re_def task_re_def ROpt_def RPlus_def cpt_id_body_def)
  ultimately show ?thesis by (simp add: grp_str_def str_or_empty_def)
qed

lemma inline_id_valid:
  assumes "m \<in> set (re_finditer BACKTICK_ID_RE s)"
  shows "valid_cpt_id (grp_str m ''1'')"
proof -
  from re_finditer_sub [OF assms] obtain s' where m: "re_match BACKTICK_ID_RE s' = Some m" by blast
  have "surely {''1''} BACKTICK_ID_RE" by (simp add: BACKTICK_ID_RE_def)
  from grp_surely [OF m this] obtain x where x: "grp m ''1'' = Some x" by blast
  moreover have "valid_cpt_id x"
    by (rule grp_valid_id [OF m x]) (auto simp: BACKTICK_ID_RE_def cpt_id_body_def RPlus_def)
  ultimately show ?thesis by (simp add: grp_str_def str_or_empty_def)
qed

lemma scan_line_valid: "h \<in> set (scan_line l raw) \<Longrightarrow> valid_cpt_id (h_id h)"
  by (auto simp: scan_line_def def_hit_def ref_hit_def inline_hit_def Let_def
      dest: def_id_valid ref_id_valid inline_id_valid split: if_splits option.splits)

text \<open>C18. Soundness of the ID scan: every hit carries a well-formed ID and the number of a line
  that is not a fence, has an even number of fences before it, and itself yields the hit;
  the hits come in line order.\<close>

theorem scan_cpt_ids_sound:
  assumes "read_text_safe fs path = Some lines"
  shows "sorted (map h_line (scan_cpt_ids fs path)) \<and>
    (\<forall>h \<in> set (scan_cpt_ids fs path).
       valid_cpt_id (h_id h) \<and> 1 \<le> h_line h \<and> h_line h \<le> length lines
       \<and> \<not> is_fence (lines ! (h_line h - 1))
       \<and> even (length (filter is_fence (take (h_line h - 1) lines)))
       \<and> h \<in> set (scan_line (h_line h) (lines ! (h_line h - 1))))"
proof (intro conjI ballI)
  have go: "scan_cpt_ids fs path = scan_ids_go False 0 lines"
    using assms by (simp add: scan_cpt_ids_def)
  show "sorted (map h_line (scan_cpt_ids fs path))"
    unfolding go by (rule ids.hits_sorted)
  fix h
  assume "h \<in> set (scan_cpt_ids fs path)"
  then have "h \<in> set (scan_ids_go False 0 lines)" by (simp add: go)
  from ids.hit_line [OF this] obtain k where k: "k < length lines"
      "h \<in> set (scan_line (Suc k) (lines ! k))"
      "foldl fence_toggle False (take k lines) = False" "fence_toggle False (lines ! k) = False"
    by auto
  note l = scan_line_line [OF k(2)]
  show "valid_cpt_id (h_id h)" by (rule scan_line_valid [OF k(2)])
  show "1 \<le> h_line h" and "h_line h \<le> length lines" using l k(1) by auto
  show "\<not> is_fence (lines ! (h_line h - 1))"
    using l k(4) by (auto simp: fence_toggle_def split: if_splits)
  show "even (length (filter is_fence (take (h_line h - 1) lines)))"
    using l k(3) foldl_fence_toggle [of False "take k lines"] by (auto split: if_splits)
  show "h \<in> set (scan_line (h_line h) (lines ! (h_line h - 1)))" using l k(2) by simp
qed

theorem scan_cpt_ids_sound_witness:
  "sorted (map h_line (scan_cpt_ids (\<lambda>_. Some ''**ID**: `cpt-a-b`'') ''x.md'')) \<and>
    list_all (\<lambda>h. valid_cpt_id (h_id h)) (scan_cpt_ids (\<lambda>_. Some ''**ID**: `cpt-a-b`'') ''x.md'')
    \<and> scan_cpt_ids (\<lambda>_. Some ''**ID**: `cpt-a-b`'') ''x.md'' \<noteq> []"
proof -
  let ?fs = "\<lambda>_::string. Some ''**ID**: `cpt-a-b`''"
  have r: "read_text_safe ?fs ''x.md'' = Some [''**ID**: `cpt-a-b`'']" by code_simp
  have n: "scan_cpt_ids ?fs ''x.md'' \<noteq> []" by code_simp
  show ?thesis using scan_cpt_ids_sound [OF r] n unfolding list_all_iff by blast
qed

text \<open>Fenced blocks are opaque: replacing the lines of a fenced code block by any others that
  are not fences, in the same number, does not change a single hit of the scan.\<close>

theorem scan_ids_fence_opaque:
  assumes "even (length (filter is_fence pre))" and "is_fence op"
    and "\<forall>l \<in> set b. \<not> is_fence l" and "\<forall>l \<in> set b'. \<not> is_fence l" and "length b = length b'"
  shows "scan_ids_go False 0 (pre @ op # b @ post) = scan_ids_go False 0 (pre @ op # b' @ post)"
  by (rule ids.block_opaque)
    (use assms foldl_fence_toggle [of False pre] in \<open>auto simp: fence_toggle_def\<close>)

theorem scan_ids_fence_opaque_witness:
  "scan_ids_go False 0 [''```'', ''**ID**: `cpt-a-b`'', ''```'', ''`cpt-c-d`''] =
   scan_ids_go False 0 [''```'', ''x = 1'', ''```'', ''`cpt-c-d`'']"
proof -
  have "is_fence ''```''" "\<not> is_fence ''**ID**: `cpt-a-b`''" "\<not> is_fence ''x = 1''" by code_simp+
  then show ?thesis
    using scan_ids_fence_opaque [of "[]" "''```''" "[''**ID**: `cpt-a-b`'']" "[''x = 1'']"
      "[''```'', ''`cpt-c-d`'']"] by simp
qed

end
