(* ===== verification/Doc_Scopes.thy ===== *)
theory Doc_Scopes
  imports Doc_Facts
begin

section \<open>CDSL parents, headings in force and text scopes\<close>

text \<open>
  The second half of the facts on \<open>document.py\<close>: which definition a CDSL step is bound to
  (with the definition form that \<open>scan_cdsl_instructions\<close> overlooks), the shape of the
  heading stack, and the line range and text that \<open>get_content_scoped\<close> returns.
\<close>

subsection \<open>CDSL parents\<close>

lemma is_fence_iff: "is_fence s \<longleftrightarrow> startswith (dropWhile py_space s) ''```''"
proof -
  have "rmatch CODE_FENCE_RE s [] = rmatch (RLit ''```'') (dropWhile py_space s) []"
    unfolding CODE_FENCE_RE_def by (rule rmatch_star_cls_seq) (auto simp: rmatch_lit simp del: RLit.simps)
  then show ?thesis
    by (auto simp: is_fence_def re_match_def rmatch_lit simp del: RLit.simps)
qed

lemma render_def_not_fence: "\<not> is_fence (render_def task prio i)"
  by (auto simp: is_fence_iff render_def_def py_space_def split: option.splits)

lemma cdsl_def_id_render:
  assumes "valid_cpt_id i"
  shows "\<exists>m. re_match ID_DEF_RE (render_def task prio i) = Some m
    \<and> cdsl_def_id m = (if task = None \<and> prio \<noteq> None then None else Some i)"
proof -
  obtain xs where "rmatch ID_DEF_RE (render_def task prio i) [] = ([], def_groups task prio i) # xs"
    using render_def_match [OF assms] by blast
  then have m: "re_match ID_DEF_RE (render_def task prio i) =
      Some (mk_match (render_def task prio i) ([], def_groups task prio i))" (is "_ = Some ?m")
    by (rule re_match_first)
  obtain c cs where i: "i = c # cs" using valid_cpt_id_ne [OF assms] by (cases i) auto
  have g: "grp ?m k = map_of (def_groups task prio i) k" for k
    by (simp add: grp_def mk_match_def)
  have "cdsl_def_id ?m = (if task = None \<and> prio \<noteq> None then None else Some i)"
    unfolding cdsl_def_id_def g
    by (cases task; cases prio) (simp_all add: def_groups_def prio_groups_def i grp_or_def)
  with m show ?thesis by blast
qed

text \<open>Which definition a CDSL step is bound to: after a definition line, with or without task
  box, the steps below are bound to its ID, except when the line has a priority and no task
  box. That form is a definition for \<open>scan_cpt_ids\<close> (\<open>scan_line_render_def\<close>), but it leaves the steps
  below bound to the ID defined before it.\<close>

theorem cdsl_parent_after_def:
  assumes "valid_cpt_id i"
  shows "scan_cdsl_go False last_id n (render_def task prio i # lines) =
    scan_cdsl_go False (if task = None \<and> prio \<noteq> None then last_id else Some i) (Suc n) lines"
proof -
  obtain m where m: "re_match ID_DEF_RE (render_def task prio i) = Some m"
      "cdsl_def_id m = (if task = None \<and> prio \<noteq> None then None else Some i)"
    using cdsl_def_id_render [OF assms] by blast
  have ne: "render_def task prio i \<noteq> []" by (simp add: render_def_def)
  have "nonempty_opt (Some i) = Some i"
    using valid_cpt_id_ne [OF assms] by (auto simp: nonempty_opt_def split: list.splits)
  then show ?thesis
    using m ne by (simp add: render_def_not_fence strip_render_def nonempty_opt_def [of None])
qed

theorem cdsl_parent_after_def_witness:
  "map c_parent_id (scan_cdsl_go False None 0
     [''**ID**: `cpt-s-flow-a`'', ''`p1` - **ID**: `cpt-s-flow-b`'', ''1. [ ] - `p1` - go - `inst-x`''])
   = [Some ''cpt-s-flow-a'']"
proof -
  let ?rest = "[''1. [ ] - `p1` - go - `inst-x`'']"
  let ?a = "render_def None None ''cpt-s-flow-a''" and ?b = "render_def None (Some 1) ''cpt-s-flow-b''"
  have v: "valid_cpt_id ''cpt-s-flow-a''" "valid_cpt_id ''cpt-s-flow-b''"
    by (simp_all add: valid_cpt_id_def c_id0_def c_id_def is_lower_az_def is_digit_def)
  have r: "?a = ''**ID**: `cpt-s-flow-a`''" "?b = ''`p1` - **ID**: `cpt-s-flow-b`''" by code_simp+
  have "scan_cdsl_go False None 0 (?a # ?b # ?rest) = scan_cdsl_go False (Some ''cpt-s-flow-a'') 2 ?rest"
    by (simp add: cdsl_parent_after_def [OF v(1)] cdsl_parent_after_def [OF v(2)] numeral_2_eq_2
        del: scan_cdsl_go.simps)
  moreover have "map c_parent_id (scan_cdsl_go False (Some ''cpt-s-flow-a'') 2 ?rest) = [Some ''cpt-s-flow-a'']"
    by code_simp
  ultimately show ?thesis by (simp only: r)
qed

subsection \<open>Headings in force\<close>

lemma rder_upto_len: "rder (RUpTo n (RCls p)) w t \<Longrightarrow> length w \<le> n"
proof (induction n arbitrary: w)
  case (Suc n)
  then show ?case by (auto simp: ROpt_def)
qed simp

lemma heading_level:
  assumes "re_match HEADING_RE s = Some m"
  shows "1 \<le> length (grp_str m ''1'') \<and> length (grp_str m ''1'') \<le> 6"
proof -
  let ?h = "RCls (cOne (CHR ''#''))"
  have "surely {''1''} HEADING_RE" by (simp add: HEADING_RE_def)
  from grp_surely [OF assms this] obtain x where x: "grp m ''1'' = Some x" by blast
  from grp_sound [OF assms x] obtain r' t where "(''1'', r') \<in> grp_bodies HEADING_RE" "rder r' x t" by blast
  moreover from this(1) have "r' = RSeq ?h (RUpTo 5 ?h)"
    by (auto simp: HEADING_RE_def RPlus_def RPlusLazy_def numeral_eq_Suc ROpt_def)
  ultimately obtain u v where "x = u @ v" "rder ?h u (v @ t)" "rder (RUpTo 5 ?h) v t" by auto
  moreover from this(2) have "length u = 1" by auto
  ultimately show ?thesis
    using rder_upto_len [of 5 _ v t] x by (simp add: grp_str_def str_or_empty_def)
qed

text \<open>The stack of open headings: levels strictly increase, from 1 to at most 6.\<close>

definition stack_ok :: "(nat \<times> 'a) list \<Rightarrow> bool" where
  "stack_ok st = (sorted_wrt (<) (map fst st) \<and> (\<forall>x \<in> set st. 1 \<le> fst x \<and> fst x \<le> 6))"

lemma pop_levels_prefix: "\<exists>r. st = pop_levels l st @ r"
proof
  show "st = pop_levels l st @ rev (takeWhile (\<lambda>(k, _). l \<le> k) (rev st))"
    unfolding pop_levels_def by (metis rev_append rev_rev_ident takeWhile_dropWhile_id)
qed

lemma dropWhile_below:
  "sorted_wrt (>) (map fst ys) \<Longrightarrow> x \<in> set (dropWhile (\<lambda>(k, _). l \<le> k) ys) \<Longrightarrow> fst x < (l::nat)"
  by (induction ys) (auto split: if_splits)

lemma pop_levels_below: "sorted_wrt (<) (map fst st) \<Longrightarrow> x \<in> set (pop_levels l st) \<Longrightarrow> fst x < l"
  using dropWhile_below [of "rev st" x l] by (simp add: pop_levels_def rev_map [symmetric] sorted_wrt_rev)

lemma stack_ok_push:
  assumes "stack_ok st" and "1 \<le> l" and "l \<le> 6"
  shows "stack_ok (pop_levels l st @ [(l, a)])" and "stack_ok (pop_levels l st)"
proof -
  obtain r where r: "st = pop_levels l st @ r" using pop_levels_prefix by blast
  from assms(1) r have p: "sorted_wrt (<) (map fst (pop_levels l st))"
      "\<forall>x \<in> set (pop_levels l st). 1 \<le> fst x \<and> fst x \<le> 6"
    unfolding stack_ok_def by (metis map_append sorted_wrt_append, metis Un_iff set_append)
  then show "stack_ok (pop_levels l st)" by (simp add: stack_ok_def)
  have "\<forall>x \<in> set (pop_levels l st). fst x < l"
    using assms(1) pop_levels_below unfolding stack_ok_def by blast
  with p assms(2,3) show "stack_ok (pop_levels l st @ [(l, a)])"
    by (auto simp: stack_ok_def sorted_wrt_append)
qed

lemma stack_ok_length: "stack_ok st \<Longrightarrow> length st \<le> 6"
proof -
  assume s: "stack_ok st"
  then have "distinct (map fst st)" by (auto simp: stack_ok_def strict_sorted_iff)
  then have "length st = card (set (map fst st))" by (metis distinct_card length_map)
  also have "\<dots> \<le> card {1..6::nat}" using s by (intro card_mono) (auto simp: stack_ok_def)
  finally show ?thesis by simp
qed

lemma length_headings_go: "length (headings_go f st ls) = length ls"
  by (induction f st ls rule: headings_go.induct) (auto simp: Let_def)

lemma headings_go_depth: "stack_ok st \<Longrightarrow> hs \<in> set (headings_go f st ls) \<Longrightarrow> length hs \<le> 6"
proof (induction ls arbitrary: f st)
  case (Cons raw ls)
  let ?st = "if f then st else (case re_match HEADING_RE raw of None \<Rightarrow> st
     | Some m \<Rightarrow> pop_levels (length (grp_str m ''1'')) st @ [(length (grp_str m ''1''), strip (grp_str m ''2''))])"
  have ok: "stack_ok ?st"
    using Cons.prems(1) heading_level [of raw] by (auto intro!: stack_ok_push(1) split: option.split)
  from Cons.prems(2) consider "hs = map snd st" | "hs = map snd ?st"
    | f' st' where "stack_ok st'" "hs \<in> set (headings_go f' st' ls)"
    using ok Cons.prems(1) by (fastforce simp: Let_def split: if_splits)
  then show ?case
    by cases (use ok Cons stack_ok_length in fastforce)+
qed simp

text \<open>The heading table has one entry per line (and one for the unused line 0), and no line
  is under more than six headings.\<close>

theorem headings_by_line_shape:
  assumes "read_text_safe fs path = Some lines"
  shows "length (headings_by_line fs path) = Suc (length lines)
    \<and> (\<forall>hs \<in> set (headings_by_line fs path). length hs \<le> 6)"
  using assms headings_go_depth [of "[]"]
  by (auto simp: headings_by_line_def length_headings_go stack_ok_def)

theorem headings_by_line_shape_witness:
  "length (headings_by_line (\<lambda>_. Some ''# A'') ''p'') = 2
    \<and> list_all (\<lambda>hs. length hs \<le> 6) (headings_by_line (\<lambda>_. Some ''# A'') ''p'')"
proof -
  have r: "read_text_safe (\<lambda>_. Some ''# A'') ''p'' = Some [''# A'']" by code_simp
  show ?thesis using headings_by_line_shape [OF r] by (simp add: list_all_iff)
qed

subsection \<open>Text scopes\<close>

lemma drop_front_eq:
  "drop_front ls s = (dropWhile blank ls, s + length (takeWhile blank ls))"
  by (induction ls arbitrary: s) auto

lemma drop_back_eq:
  "drop_back ls e = (dropWhile blank ls, e - length (takeWhile blank ls))"
  by (induction ls arbitrary: e) auto

text \<open>What a scope must satisfy: a non-empty range of lines whose text is the result.\<close>

definition scope_ok :: "string list \<Rightarrow> string \<times> nat \<times> nat \<Rightarrow> bool" where
  "scope_ok lines r = (case r of (text, s, e) \<Rightarrow>
     1 \<le> s \<and> s \<le> e \<and> e \<le> length lines \<and> text \<noteq> []
     \<and> text = strip (join_with [NL] (slice (s - 1) e lines))
     \<and> \<not> blank (lines ! (s - 1)) \<and> \<not> blank (lines ! (e - 1)))"

lemma slice_slice:
  "k + j < Suc b - a \<Longrightarrow> b < length xs \<Longrightarrow>
     take (Suc b - a - k - j) (drop k (slice a (Suc b) xs)) = slice (a + k) (Suc (b - j)) xs"
  by (simp add: slice_def take_drop add.commute min_def Suc_diff_le)

lemma slice_ends:
  "a \<le> b \<Longrightarrow> b < length xs \<Longrightarrow> hd (slice a (Suc b) xs) = xs ! a \<and> last (slice a (Suc b) xs) = xs ! b"
  by (simp add: slice_def hd_drop_conv_nth last_drop) (simp add: take_Suc_conv_app_nth)

lemma emit_scope:
  assumes "emit (slice a (Suc b) lines) a b = Some r" and "a \<le> b" and "b < length lines"
  shows "scope_ok lines r"
proof -
  let ?tl = "slice a (Suc b) lines"
  let ?ls = "dropWhile blank ?tl"
  let ?k = "length (takeWhile blank ?tl)" and ?j = "length (takeWhile blank (rev ?ls))"
  let ?mid = "rev (dropWhile blank (rev ?ls))"
  have len: "length ?tl = Suc b - a" using assms(3) by (simp add: length_slice)
  from assms(1) have r: "r = (strip (join_with [NL] ?mid), Suc (a + ?k), Suc (b - ?j))"
    and ne: "strip (join_with [NL] ?mid) \<noteq> []"
    by (auto simp: emit_def drop_front_eq drop_back_eq Let_def split: if_splits)
  from ne have mne: "?mid \<noteq> []" by (metis join_with.simps(1) strip_by_Nil)
  have ls: "?ls = drop ?k ?tl" by (rule dropWhile_eq_drop)
  have mid: "?mid = take (length ?ls - ?j) ?ls"
    by (simp add: dropWhile_eq_drop [of blank "rev ?ls"] drop_rev)
  have lls: "length ?ls = Suc b - a - ?k" using ls len by simp
  have kj: "?k + ?j < Suc b - a"
    using mne lls mid by (auto simp: not_less)
  have "?mid = take (Suc b - a - ?k - ?j) (drop ?k ?tl)" using mid lls ls by metis
  then have "?mid = slice (a + ?k) (Suc (b - ?j)) lines" using kj assms(3) slice_slice by metis
  moreover from this have "hd ?mid = lines ! (a + ?k)" "last ?mid = lines ! (b - ?j)"
    using slice_ends [of "a + ?k" "b - ?j" lines] kj assms(2,3) by auto
  moreover have "\<not> blank (last ?mid)"
    using mne hd_dropWhile [of blank "rev ?ls"] by (simp add: last_rev)
  moreover have "\<not> blank (hd ?mid)"
  proof -
    have "?ls \<noteq> []" using mne by (metis dropWhile.simps(1) rev.simps(1))
    then have "\<not> blank (hd ?ls)" by (rule hd_dropWhile)
    then show ?thesis using mne mid by (metis hd_take take_eq_Nil not_gr_zero)
  qed
  moreover have "a + ?k \<le> b - ?j" "Suc (b - ?j) \<le> length lines"
    using kj assms(3) by linarith+
  ultimately show ?thesis
    using r ne by (simp add: scope_ok_def)
qed

lemma pair_up_hash:
  assumes "(s, e) \<in> set (pair_up xs)" and "sorted_wrt (<) xs"
  shows "s < e \<and> e \<in> set xs"
  using assms by (induction xs rule: pair_up.induct) auto

lemma boundaries_rel: "(r, sid) \<in> set (boundaries_go n inner) \<Longrightarrow> r < n + length inner"
  by (induction inner arbitrary: n) (fastforce split: option.splits)+

lemma segment_scope:
  assumes "segment_go lines w si ei bs = Some (Some r)" and "ei < length lines" and "si < ei"
    and "\<forall>(rel, sid) \<in> set bs. si + 1 + rel < ei"
  shows "scope_ok lines r"
  using assms(1,4)
proof (induction bs)
  case (Cons b bs)
  obtain rel sid where b: "b = (rel, sid)" by (cases b)
  show ?case
  proof (cases "sid = w")
    case True
    let ?e = "case bs of [] \<Rightarrow> ei - 1 | (nr, _) # _ \<Rightarrow> si + 1 + nr - 1"
    have "?e < length lines" using Cons.prems(2) assms(2) by (auto split: list.splits)
    moreover from Cons.prems(1) b True have "si + 1 + rel + 1 \<le> ?e"
      "emit (slice (si + 1 + rel + 1) (Suc ?e) lines) (si + 1 + rel + 1) ?e = Some r"
      by (auto simp: Let_def split: if_splits)
    ultimately show ?thesis by (intro emit_scope)
  qed (use Cons b in auto)
qed simp

lemma hash_fence_scope_ok:
  assumes "hash_fence_scope lines w ps = Some (Some r)"
    and "\<forall>(s, e) \<in> set ps. s < e \<and> e < length lines"
  shows "scope_ok lines r"
  using assms
proof (induction ps)
  case (Cons p ps)
  obtain s e where p: "p = (s, e)" by (cases p)
  let ?bs = "boundaries_go 0 (slice (Suc s) e lines)"
  have bs: "\<forall>(rel, sid) \<in> set ?bs. s + 1 + rel < e"
    using boundaries_rel [of _ _ 0 "slice (Suc s) e lines"] Cons.prems(2) p
    by (fastforce simp: length_slice)
  show ?case
  proof (cases "segment_go lines w s e ?bs")
    case None
    with Cons p show ?thesis by (auto split: if_splits)
  next
    case (Some x)
    with Cons.prems p have "x = Some r \<or> hash_fence_scope lines w ps = Some (Some r)"
      by (auto split: if_splits)
    then show ?thesis using Cons p Some bs segment_scope [of lines w s e ?bs r] by auto
  qed
qed simp

lemma heading_end_bound: "heading_end l j rest = Some e \<Longrightarrow> 1 \<le> j \<Longrightarrow> e < j + length rest"
  by (induction rest arbitrary: j) (fastforce split: option.splits if_splits)+

lemma def_scope_end_bound: "def_scope_end c f j rest = Some e \<Longrightarrow> 1 \<le> j \<Longrightarrow> e < j + length rest"
  by (induction rest arbitrary: f j) (fastforce split: option.splits if_splits)+

lemma heading_scope_ok:
  assumes "heading_scope_go lines w idx rest = Some (Some r)" and "idx + length rest = length lines"
  shows "scope_ok lines r"
  using assms
proof (induction rest arbitrary: idx)
  case (Cons ln rest)
  show ?case
  proof (cases "heading_scope_go lines w (Suc idx) rest = Some (Some r)")
    case True
    then show ?thesis using Cons.IH Cons.prems(2) by simp
  next
    case False
    with Cons.prems(1) obtain m where "re_match HEADING_RE ln = Some m" by (auto split: option.splits)
    let ?e = "case heading_end (length (grp_str m ''1'')) (Suc idx) rest of None \<Rightarrow> length lines - 1 | Some e \<Rightarrow> e"
    have "?e < length lines"
      using heading_end_bound [of _ "Suc idx" rest] Cons.prems(2) by (fastforce split: option.splits)
    moreover have "Suc idx \<le> ?e" "emit (slice (Suc idx) (Suc ?e) lines) (Suc idx) ?e = Some r"
      using Cons.prems(1) False \<open>re_match HEADING_RE ln = Some m\<close> by (auto simp: Let_def split: if_splits)
    ultimately show ?thesis by (intro emit_scope)
  qed
qed simp

lemma def_scope_ok:
  assumes "def_scope_go lines w f ll idx rest = Some r" and "idx + length rest = length lines"
  shows "scope_ok lines r"
  using assms
proof (induction rest arbitrary: f ll idx)
  case (Cons ln rest)
  show ?case
  proof (cases "\<exists>f' ll'. def_scope_go lines w f' ll' (Suc idx) rest = Some r")
    case True
    then show ?thesis using Cons.IH Cons.prems(2) by fastforce
  next
    case False
    let ?c = "case ll of None \<Rightarrow> 6 | Some l \<Rightarrow> l"
    let ?e = "case def_scope_end ?c False (Suc idx) rest of None \<Rightarrow> length lines - 1 | Some e \<Rightarrow> e"
    have "?e < length lines"
      using def_scope_end_bound [of ?c False "Suc idx" rest] Cons.prems(2) by (fastforce split: option.splits)
    moreover have "Suc idx \<le> ?e \<and> emit (slice (Suc idx) (Suc ?e) lines) (Suc idx) ?e = Some r"
      using Cons.prems(1) False by (auto simp: Let_def split: if_splits option.splits)
    ultimately show ?thesis using emit_scope by blast
  qed
qed simp

text \<open>The content of an ID: when \<open>get_content_scoped\<close> returns a text and a line range, the range
  lies in the file, its first and last lines are not blank, and the text is exactly those
  lines, joined and stripped, and not empty.\<close>

theorem get_content_scoped_range:
  assumes "read_text_safe fs path = Some lines" and "get_content_scoped fs path i = Some (text, s, e)"
  shows "1 \<le> s \<and> s \<le> e \<and> e \<le> length lines \<and> text \<noteq> []
    \<and> text = strip (join_with [NL] (slice (s - 1) e lines))
    \<and> strip (lines ! (s - 1)) \<noteq> [] \<and> strip (lines ! (e - 1)) \<noteq> []"
proof -
  let ?r = "(text, s, e)" and ?ps = "pair_up (hash_fence_idxs lines)" and ?w = "strip i"
  have "sorted_wrt (<) (hash_fence_idxs lines)"
    unfolding hash_fence_idxs_def by (intro sorted_wrt_filter) simp
  then have ps: "\<forall>(s, e) \<in> set ?ps. s < e \<and> e < length lines"
    using pair_up_hash by (fastforce simp: hash_fence_idxs_def)
  have "content_scoped_lines lines i = Some ?r"
    using assms by (simp add: get_content_scoped_def)
  then consider "hash_fence_scope lines ?w ?ps = Some (Some ?r)"
    | "heading_scope_go lines ?w 0 lines = Some (Some ?r)"
    | "def_scope_go lines ?w False None 0 lines = Some ?r"
    by (auto simp: content_scoped_lines_def Let_def split: option.splits)
  then have "scope_ok lines ?r"
    by cases (use ps hash_fence_scope_ok heading_scope_ok def_scope_ok in auto)
  from this [unfolded scope_ok_def blank_def prod.case] show ?thesis .
qed

theorem get_content_scoped_range_witness:
  "let fs = (\<lambda>_. Some (''# T'' @ [NL] @ ''**ID**: `cpt-a-b`'' @ [NL, NL] @ ''text'')) in
   get_content_scoped fs ''p'' ''cpt-a-b'' = Some (''text'', 4, 4)
   \<and> ''text'' = strip (join_with [NL] (slice 3 4 [''# T'', ''**ID**: `cpt-a-b`'', [], ''text'']))"
proof -
  let ?fs = "\<lambda>_::string. Some (''# T'' @ [NL] @ ''**ID**: `cpt-a-b`'' @ [NL, NL] @ ''text'')"
  have r: "read_text_safe ?fs ''p'' = Some [''# T'', ''**ID**: `cpt-a-b`'', [], ''text'']" by code_simp
  have g: "get_content_scoped ?fs ''p'' ''cpt-a-b'' = Some (''text'', 4, 4)" by code_simp
  show ?thesis using get_content_scoped_range [OF r g] g by (simp add: Let_def)
qed

end
