(* ===== verification/Error_Codes.thy ===== *)
theory Error_Codes
  imports Py_Prelude
begin

section \<open>Issues and their codes (\<open>utils/error_codes.py\<close>, the \<open>error\<close> factories)\<close>

text \<open>
  Every validation issue carries a stable code; downstream consumers match on codes and
  never on the message text. An issue is modelled with everything its dictionary holds
  except that human-readable message: its type, code, path, line, location and the extra
  fields. \<open>error\<close> is the factory shared by \<open>codebase.py\<close> and \<open>constraints.py\<close>; extra
  fields whose value is \<open>None\<close> are dropped.
\<close>

datatype (plugins only: code) error_code =
    CDSL_STEP_UNCHECKED | PARENT_UNCHECKED_ALL_DONE | PARENT_CHECKED_NESTED_UNCHECKED
  | REF_NO_DEFINITION | REF_DONE_DEF_NOT_DONE | DEF_DONE_REF_NOT_DONE | REF_TASK_DEF_NO_TASK
  | HEADING_NUMBER_NOT_CONSECUTIVE
  | ID_NOT_REFERENCED | ID_NOT_REFERENCED_NO_SCOPE
  | MISSING_CONSTRAINTS | ID_SYSTEM_UNRECOGNIZED | ID_KIND_NOT_ALLOWED | REQUIRED_ID_KIND_MISSING
  | TEMPLATE_DEF_KIND_NOT_IN_CONSTRAINTS | TEMPLATE_REF_KIND_NOT_IN_CONSTRAINTS
  | DEF_MISSING_TASK | DEF_PROHIBITED_TASK | DEF_MISSING_PRIORITY | DEF_PROHIBITED_PRIORITY
  | DEF_WRONG_HEADINGS
  | HEADING_MISSING | HEADING_PROHIBITS_MULTIPLE | HEADING_REQUIRES_MULTIPLE | HEADING_NUMBERING_MISMATCH
  | REF_TARGET_NOT_IN_SCOPE | REF_MISSING_FROM_KIND | REF_WRONG_HEADINGS | REF_MISSING_TASK_FOR_TRACKED
  | REF_FROM_PROHIBITED_KIND | REF_MISSING_TASK | REF_PROHIBITED_TASK | REF_MISSING_PRIORITY
  | REF_PROHIBITED_PRIORITY
  | MARKER_DUP_BEGIN | MARKER_END_NO_BEGIN | MARKER_EMPTY_BLOCK | MARKER_BEGIN_NO_END | MARKER_DUP_SCOPE
  | CODE_DOCS_ONLY | CODE_ORPHAN_REF | CODE_TASK_UNCHECKED | CODE_NO_MARKER | CODE_INST_MISSING
  | CODE_INST_ORPHAN
  | TOC_MISSING | TOC_ANCHOR_BROKEN | TOC_HEADING_NOT_IN_TOC | TOC_STALE
  | FILE_READ_ERROR | FILE_LOAD_ERROR

primrec code_str :: "error_code \<Rightarrow> string" where
  "code_str CDSL_STEP_UNCHECKED = ''cdsl-step-unchecked''"
| "code_str PARENT_UNCHECKED_ALL_DONE = ''parent-unchecked-all-done''"
| "code_str PARENT_CHECKED_NESTED_UNCHECKED = ''parent-checked-nested-unchecked''"
| "code_str REF_NO_DEFINITION = ''ref-no-definition''"
| "code_str REF_DONE_DEF_NOT_DONE = ''ref-done-def-not-done''"
| "code_str DEF_DONE_REF_NOT_DONE = ''def-done-ref-not-done''"
| "code_str REF_TASK_DEF_NO_TASK = ''ref-task-def-no-task''"
| "code_str HEADING_NUMBER_NOT_CONSECUTIVE = ''heading-number-not-consecutive''"
| "code_str ID_NOT_REFERENCED = ''id-not-referenced''"
| "code_str ID_NOT_REFERENCED_NO_SCOPE = ''id-not-referenced-no-scope''"
| "code_str MISSING_CONSTRAINTS = ''missing-constraints''"
| "code_str ID_SYSTEM_UNRECOGNIZED = ''id-system-unrecognized''"
| "code_str ID_KIND_NOT_ALLOWED = ''id-kind-not-allowed''"
| "code_str REQUIRED_ID_KIND_MISSING = ''required-id-kind-missing''"
| "code_str TEMPLATE_DEF_KIND_NOT_IN_CONSTRAINTS = ''template-def-kind-not-in-constraints''"
| "code_str TEMPLATE_REF_KIND_NOT_IN_CONSTRAINTS = ''template-ref-kind-not-in-constraints''"
| "code_str DEF_MISSING_TASK = ''def-missing-task''"
| "code_str DEF_PROHIBITED_TASK = ''def-prohibited-task''"
| "code_str DEF_MISSING_PRIORITY = ''def-missing-priority''"
| "code_str DEF_PROHIBITED_PRIORITY = ''def-prohibited-priority''"
| "code_str DEF_WRONG_HEADINGS = ''def-wrong-headings''"
| "code_str HEADING_MISSING = ''heading-missing''"
| "code_str HEADING_PROHIBITS_MULTIPLE = ''heading-prohibits-multiple''"
| "code_str HEADING_REQUIRES_MULTIPLE = ''heading-requires-multiple''"
| "code_str HEADING_NUMBERING_MISMATCH = ''heading-numbering-mismatch''"
| "code_str REF_TARGET_NOT_IN_SCOPE = ''ref-target-not-in-scope''"
| "code_str REF_MISSING_FROM_KIND = ''ref-missing-from-kind''"
| "code_str REF_WRONG_HEADINGS = ''ref-wrong-headings''"
| "code_str REF_MISSING_TASK_FOR_TRACKED = ''ref-missing-task-for-tracked''"
| "code_str REF_FROM_PROHIBITED_KIND = ''ref-from-prohibited-kind''"
| "code_str REF_MISSING_TASK = ''ref-missing-task''"
| "code_str REF_PROHIBITED_TASK = ''ref-prohibited-task''"
| "code_str REF_MISSING_PRIORITY = ''ref-missing-priority''"
| "code_str REF_PROHIBITED_PRIORITY = ''ref-prohibited-priority''"
| "code_str MARKER_DUP_BEGIN = ''marker-dup-begin''"
| "code_str MARKER_END_NO_BEGIN = ''marker-end-no-begin''"
| "code_str MARKER_EMPTY_BLOCK = ''marker-empty-block''"
| "code_str MARKER_BEGIN_NO_END = ''marker-begin-no-end''"
| "code_str MARKER_DUP_SCOPE = ''marker-dup-scope''"
| "code_str CODE_DOCS_ONLY = ''code-docs-only''"
| "code_str CODE_ORPHAN_REF = ''code-orphan-ref''"
| "code_str CODE_TASK_UNCHECKED = ''code-task-unchecked''"
| "code_str CODE_NO_MARKER = ''code-no-marker''"
| "code_str CODE_INST_MISSING = ''code-inst-missing''"
| "code_str CODE_INST_ORPHAN = ''code-inst-orphan''"
| "code_str TOC_MISSING = ''toc-missing''"
| "code_str TOC_ANCHOR_BROKEN = ''toc-anchor-broken''"
| "code_str TOC_HEADING_NOT_IN_TOC = ''toc-heading-not-in-toc''"
| "code_str TOC_STALE = ''toc-stale''"
| "code_str FILE_READ_ERROR = ''file-read-error''"
| "code_str FILE_LOAD_ERROR = ''file-load-error''"

record issue =
  i_type :: string
  i_code :: error_code
  i_path :: string
  i_line :: nat
  i_location :: string
  i_extra :: "(string \<times> pyobj) list"

definition error :: "string \<Rightarrow> error_code \<Rightarrow> string \<Rightarrow> nat \<Rightarrow> (string \<times> pyobj) list \<Rightarrow> issue" where
  "error kind code path line extra =
     \<lparr>i_type = kind, i_code = code, i_path = path, i_line = line,
      i_location = (if path \<noteq> [] \<and> \<not> startswith path ''<'' then path @ '':'' @ nat_str line else path),
      i_extra = filter (\<lambda>(k, v). v \<noteq> PNone) extra\<rparr>"

text \<open>An optional string field as an object.\<close>

definition opt_obj :: "string option \<Rightarrow> pyobj" where
  "opt_obj x = (case x of None \<Rightarrow> PNone | Some s \<Rightarrow> PStr s)"

definition strs_obj :: "string list \<Rightarrow> pyobj" where
  "strs_obj xs = PList (map PStr xs)"

text \<open>The two lists of a validation report.\<close>

record report =
  r_errors :: "issue list"
  r_warnings :: "issue list"

definition has_code :: "error_code \<Rightarrow> issue list \<Rightarrow> bool" where
  "has_code c is = (\<exists>i \<in> set is. i_code i = c)"

definition count_code :: "error_code \<Rightarrow> issue list \<Rightarrow> nat" where
  "count_code c is = length (filter (\<lambda>i. i_code i = c) is)"

lemma i_code_error [simp]: "i_code (error kind code path line extra) = code"
  by (simp add: error_def)

lemma i_line_error [simp]: "i_line (error kind code path line extra) = line"
  by (simp add: error_def)

lemma i_path_error [simp]: "i_path (error kind code path line extra) = path"
  by (simp add: error_def)

lemma count_code_append [simp]: "count_code c (xs @ ys) = count_code c xs + count_code c ys"
  by (simp add: count_code_def)

lemma count_code_Nil [simp]: "count_code c [] = 0"
  by (simp add: count_code_def)

lemma count_code_Cons [simp]: "count_code c (i # is) = (if i_code i = c then 1 else 0) + count_code c is"
  by (simp add: count_code_def)

lemma has_code_append [simp]: "has_code c (xs @ ys) \<longleftrightarrow> has_code c xs \<or> has_code c ys"
  by (auto simp: has_code_def)

lemma has_code_Nil [simp]: "\<not> has_code c []"
  by (simp add: has_code_def)

lemma has_code_Cons [simp]: "has_code c (i # is) \<longleftrightarrow> i_code i = c \<or> has_code c is"
  by (auto simp: has_code_def)

lemma count_code_map_error [simp]:
  "count_code c (map (\<lambda>x. error (k x) code (p x) (l x) (e x)) xs) = (if code = c then length xs else 0)"
  by (induction xs) auto

end
