(* ===== verification/Toc.thy ===== *)
theory Toc
  imports Doc_Scan Error_Codes
begin

section \<open>Tables of contents (\<open>utils/toc.py\<close>)\<close>

text \<open>
  Heading extraction with CommonMark fences, GitHub anchors, the two ways to insert a table
  of contents, the file-level command and the validation of an existing table. The lines of
  a document are \<open>content.split("\n")\<close>. Heading levels and indent sizes are naturals: a
  negative one behaves like zero in the code.
\<close>

subsection \<open>Fences\<close>

type_synonym fence = "(char \<times> nat) option"

definition FENCE_RE :: regex where
  "FENCE_RE = RGrp ''1'' (RAlt (RSeq (RLit ''```'') (RStar (RCls (cOne (CHR ''`'')))))
     (RSeq (RLit ''~~~'') (RStar (RCls (cOne (CHR ''~''))))))"

definition fence_update :: "string \<Rightarrow> fence \<Rightarrow> fence" where
  "fence_update line state =
     (let stripped = rstrip_by (cOne NL) line;
          leading = length stripped - length (lstrip_by (cOne (CHR '' '')) stripped)
      in if 3 < leading then state
         else (case re_match FENCE_RE (lstrip stripped) of
                 None \<Rightarrow> state
               | Some m \<Rightarrow>
                   (let opener = grp_str m ''1''
                    in case state of
                         None \<Rightarrow> Some (hd opener, length opener)
                       | Some (char, len) \<Rightarrow>
                           if hd opener = char \<and> len \<le> length opener
                              \<and> strip (drop (length (m_text m)) (lstrip stripped)) = []
                           then None else state)))"

text \<open>
  The loop shared by the functions that look for the first line outside every fence with a
  given form: the index of that line, counted from \<open>i\<close>.
\<close>

fun fenced_find :: "(string \<Rightarrow> bool) \<Rightarrow> fence \<Rightarrow> nat \<Rightarrow> string list \<Rightarrow> nat option" where
  "fenced_find P f i [] = None"
| "fenced_find P f i (line # rest) =
     (if fence_update line f \<noteq> f then fenced_find P (fence_update line f) (Suc i) rest
      else if f \<noteq> None then fenced_find P f (Suc i) rest
      else if P line then Some i
      else fenced_find P f (Suc i) rest)"

subsection \<open>Anchors\<close>

definition TOC_MARKER_START :: string where "TOC_MARKER_START = ''<!-- toc -->''"
definition TOC_MARKER_END :: string where "TOC_MARKER_END = ''<!-- /toc -->''"

definition TOC_HEADING_NAMES :: "string list" where
  "TOC_HEADING_NAMES = [''table of contents'', ''toc'']"

definition MD_LINK_RE :: regex where
  "MD_LINK_RE = RCat [RLit ''['', RGrp ''1'' (RPlus (RCls (cNot (CHR '']'')))), RLit ''](''
     , RPlus (RCls (cNot (CHR '')''))), RLit '')'']"

definition FORMAT_RE :: regex where
  "FORMAT_RE = RAlt (RLit ''**'') (RAlt (RLit ''__'') (RCls (cAny ''*_`~'')))"

definition not_slug_char :: "char \<Rightarrow> bool" where
  "not_slug_char c = (\<not> is_word c \<and> \<not> py_space c \<and> c \<noteq> CHR ''-'')"

definition unlink :: "string \<Rightarrow> string" where
  "unlink s = re_sub MD_LINK_RE (\<lambda>m. grp_str m ''1'') s"

definition github_anchor :: "string \<Rightarrow> string" where
  "github_anchor s =
     (let t1 = lower (strip s);
          t2 = unlink t1;
          t3 = re_sub FORMAT_RE (\<lambda>_. []) t2;
          t4 = re_sub (RCls not_slug_char) (\<lambda>_. []) t3;
          t5 = re_sub (RCls py_space) (\<lambda>_. ''-'') t4
      in strip_by (cOne (CHR ''-'')) t5)"

subsection \<open>Headings\<close>

definition TOC_HEADING_RE :: regex where
  "TOC_HEADING_RE = RCat [RGrp ''1'' (RSeq (RCls (cOne (CHR ''#''))) (RUpTo 5 (RCls (cOne (CHR ''#''))))),
     RSp1, RGrp ''2'' (RPlusLazy (RCls cDot)), RSp, REnd]"

record heading_opts =
  min_level :: nat
  max_level :: nat
  skip_first :: bool
  skip_toc_heading :: bool

text \<open>The body of the loop for a line outside every fence: the new \<open>first_skipped\<close> and the heading.\<close>

definition heading_step :: "heading_opts \<Rightarrow> bool \<Rightarrow> string \<Rightarrow> bool \<times> (nat \<times> string) list" where
  "heading_step opts first_skipped line =
     (case re_match TOC_HEADING_RE line of
        None \<Rightarrow> (first_skipped, [])
      | Some m \<Rightarrow>
          (let level = length (grp_str m ''1''); txt = strip (grp_str m ''2'')
           in if skip_first opts \<and> \<not> first_skipped then (True, [])
              else if level < min_level opts \<or> max_level opts < level then (first_skipped, [])
              else if skip_toc_heading opts \<and> lower txt \<in> set TOC_HEADING_NAMES then (first_skipped, [])
              else (first_skipped, [(level, txt)])))"

fun parse_headings_go :: "heading_opts \<Rightarrow> fence \<Rightarrow> bool \<Rightarrow> string list \<Rightarrow> (nat \<times> string) list" where
  "parse_headings_go opts f fs [] = []"
| "parse_headings_go opts f fs (line # rest) =
     (if fence_update line f \<noteq> f then parse_headings_go opts (fence_update line f) fs rest
      else if f \<noteq> None then parse_headings_go opts f fs rest
      else snd (heading_step opts fs line) @ parse_headings_go opts f (fst (heading_step opts fs line)) rest)"

definition parse_headings :: "heading_opts \<Rightarrow> string list \<Rightarrow> (nat \<times> string) list" where
  "parse_headings opts lines = parse_headings_go opts None False lines"

text \<open>The options of \<open>insert_toc_markers\<close>, and those of \<open>insert_toc_heading\<close> and \<open>validate_toc\<close>.\<close>

definition marker_opts :: "nat \<Rightarrow> heading_opts" where
  "marker_opts maxl = \<lparr>min_level = 2, max_level = maxl, skip_first = False, skip_toc_heading = False\<rparr>"

definition section_opts :: "nat \<Rightarrow> heading_opts" where
  "section_opts maxl = \<lparr>min_level = 1, max_level = maxl, skip_first = True, skip_toc_heading = True\<rparr>"

subsection \<open>Building a table\<close>

definition unique_slug :: "string \<Rightarrow> (string \<times> nat) list \<Rightarrow> string \<times> (string \<times> nat) list" where
  "unique_slug txt counts =
     (let slug = github_anchor txt
      in case dget counts slug of
           Some n \<Rightarrow> (slug @ ''-'' @ nat_str (Suc n), dset slug (Suc n) counts)
         | None \<Rightarrow> (slug, dset slug 0 counts))"

definition toc_link :: "string \<Rightarrow> string \<Rightarrow> string" where
  "toc_link txt slug = ''['' @ unlink txt @ ''](#'' @ slug @ '')''"

fun toc_numbered :: "nat \<Rightarrow> (string \<times> nat) list \<Rightarrow> nat list \<Rightarrow> nat \<Rightarrow> (nat \<times> string) list \<Rightarrow> string list" where
  "toc_numbered indent counts stack top_num [] = []"
| "toc_numbered indent counts stack top_num ((level, txt) # hs) =
     (let (slug, counts') = unique_slug txt counts;
          parents = dropWhile (\<lambda>l. level \<le> l) stack;
          depth = length parents
      in if depth = 0
         then (nat_str (Suc top_num) @ ''. '' @ toc_link txt slug)
                # toc_numbered indent counts' (level # parents) (Suc top_num) hs
         else (replicate (indent * depth) (CHR '' '') @ ''- '' @ toc_link txt slug)
                # toc_numbered indent counts' (level # parents) top_num hs)"

fun toc_bullets :: "nat \<Rightarrow> nat \<Rightarrow> (string \<times> nat) list \<Rightarrow> (nat \<times> string) list \<Rightarrow> string list" where
  "toc_bullets indent minl counts [] = []"
| "toc_bullets indent minl counts ((level, txt) # hs) =
     (let (slug, counts') = unique_slug txt counts
      in (replicate (indent * (level - minl)) (CHR '' '') @ ''- '' @ toc_link txt slug)
           # toc_bullets indent minl counts' hs)"

definition toc_lines :: "nat \<Rightarrow> bool \<Rightarrow> (nat \<times> string) list \<Rightarrow> string list" where
  "toc_lines indent numbered headings =
     (if numbered then toc_numbered indent [] [] 0 headings
      else toc_bullets indent (Min (fst ` set headings)) [] headings)"

definition build_toc :: "nat \<Rightarrow> bool \<Rightarrow> (nat \<times> string) list \<Rightarrow> string" where
  "build_toc indent numbered headings =
     (if headings = [] then [] else join_with [NL] (toc_lines indent numbered headings))"

subsection \<open>Places in a document\<close>

definition ANY_HEADING_RE :: regex where
  "ANY_HEADING_RE = RCat [RCls (cOne (CHR ''#'')), RUpTo 5 (RCls (cOne (CHR ''#''))), RCls py_space]"

definition TOC_SECTION_RE :: regex where
  "TOC_SECTION_RE = RCat [RLit ''##'', RSp1, RLit ''Table of Contents'', RSp, REnd]"

definition is_separator :: "string \<Rightarrow> bool" where
  "is_separator line = (strip line = ''---'')"

definition next_heading_or_separator :: "string list \<Rightarrow> nat \<Rightarrow> nat option" where
  "next_heading_or_separator lines start =
     fenced_find (\<lambda>l. re_match ANY_HEADING_RE l \<noteq> None \<or> is_separator l) None start (drop start lines)"

text \<open>The bounds of the first section \<open>## Table of Contents\<close> outside every fence.\<close>

definition toc_section :: "string list \<Rightarrow> (nat \<times> nat) option" where
  "toc_section lines =
     (case fenced_find (\<lambda>l. re_match TOC_SECTION_RE l \<noteq> None) None 0 lines of
        None \<Rightarrow> None
      | Some i \<Rightarrow> Some (i, case next_heading_or_separator lines (Suc i) of None \<Rightarrow> length lines | Some e \<Rightarrow> e))"

text \<open>The two loops that widen a region over the blank lines after and before it.\<close>

definition skip_blank :: "string list \<Rightarrow> nat \<Rightarrow> nat" where
  "skip_blank lines pos = pos + length (takeWhile blank (drop pos lines))"

definition back_blank :: "string list \<Rightarrow> nat \<Rightarrow> nat" where
  "back_blank lines pos = pos - length (takeWhile blank (rev (take pos lines)))"

subsection \<open>Insertion between markers\<close>

fun find_markers :: "nat option \<Rightarrow> nat \<Rightarrow> string list \<Rightarrow> (nat \<times> nat) option" where
  "find_markers start i [] = None"
| "find_markers start i (line # rest) =
     (case start of
        None \<Rightarrow> find_markers (if strip line = TOC_MARKER_START then Some i else None) (Suc i) rest
      | Some s \<Rightarrow> if strip line = TOC_MARKER_END then Some (s, i) else find_markers start (Suc i) rest)"

definition is_h1 :: "string \<Rightarrow> bool" where
  "is_h1 line = (case re_match TOC_HEADING_RE line of None \<Rightarrow> False | Some m \<Rightarrow> length (grp_str m ''1'') = 1)"

definition insert_pos :: "string list \<Rightarrow> nat" where
  "insert_pos lines =
     (case fenced_find is_h1 None 0 lines of None \<Rightarrow> 0 | Some i \<Rightarrow> skip_blank lines (Suc i))"

definition insert_toc_markers :: "nat \<Rightarrow> nat \<Rightarrow> string \<Rightarrow> string" where
  "insert_toc_markers maxl indent content =
     (let lines = split_on NL content;
          headings = parse_headings (marker_opts maxl) lines
      in if headings = [] then content
         else
           (let toc_text = build_toc indent False headings
            in join_with [NL]
                 (case find_markers None 0 lines of
                    Some (s, e) \<Rightarrow> take (Suc s) lines @ [[], toc_text, []] @ drop e lines
                  | None \<Rightarrow>
                      take (insert_pos lines) lines
                      @ [[], TOC_MARKER_START, [], toc_text, [], TOC_MARKER_END, []]
                      @ drop (insert_pos lines) lines)))"

subsection \<open>Insertion of a section\<close>

definition around :: "string \<Rightarrow> string \<Rightarrow> string \<Rightarrow> string" where
  "around front sec back = front @ [NL, NL] @ sec @ [NL, NL] @ back"

text \<open>The end of the YAML front matter.\<close>

definition frontmatter_end :: "string list \<Rightarrow> nat" where
  "frontmatter_end lines =
     (case lines of
        [] \<Rightarrow> 0
      | l # ls \<Rightarrow>
          if is_separator l
          then (let i = Suc (length (takeWhile (\<lambda>x. \<not> is_separator x) ls))
                in if i < length lines then Suc i else i)
          else 0)"

definition is_metadata :: "string \<Rightarrow> bool" where
  "is_metadata line = (let s = strip line in startswith s ''**'' \<or> startswith s ''- '' \<or> s = [])"

fun find_separator :: "nat \<Rightarrow> string list \<Rightarrow> nat option" where
  "find_separator i [] = None"
| "find_separator i (l # ls) = (if is_separator l then Some i else find_separator (Suc i) ls)"

definition split_at :: "string list \<Rightarrow> nat \<Rightarrow> string \<Rightarrow> string" where
  "split_at lines k sec =
     around (rstrip_by (cOne NL) (join_with [NL] (take k lines))) sec (join_with [NL] (drop k lines))"

definition insert_toc_heading :: "nat \<Rightarrow> nat \<Rightarrow> bool \<Rightarrow> string \<Rightarrow> string" where
  "insert_toc_heading maxl indent numbered content =
     (let lines = split_on NL content;
          headings = parse_headings (section_opts maxl) lines
      in if headings = [] then content
         else
           (let sec = ''## Table of Contents'' @ [NL, NL] @ build_toc indent numbered headings
            in case toc_section lines of
                 Some (s, e) \<Rightarrow>
                   around (join_with [NL] (take (back_blank lines s) lines)) sec
                     (join_with [NL] (drop (skip_blank lines e) lines))
               | None \<Rightarrow>
                   (let i = frontmatter_end lines
                    in case find_separator i (drop i lines) of
                         Some j \<Rightarrow> split_at lines j sec
                       | None \<Rightarrow>
                           (case fenced_find (\<lambda>l. re_match ANY_HEADING_RE l \<noteq> None) None i (drop i lines) of
                              Some j \<Rightarrow>
                                split_at lines (Suc j + length (takeWhile is_metadata (drop (Suc j) lines))) sec
                            | None \<Rightarrow> sec @ [NL, NL] @ content))))"

subsection \<open>The command on a file\<close>

text \<open>
  A line that starts a marker block is passed over; the loop over the block that follows
  it in the code has no effect on the outer loop.
\<close>

definition strip_manual_toc :: "string \<Rightarrow> string \<times> bool" where
  "strip_manual_toc content =
     (let lines = split_on NL content
      in case fenced_find (\<lambda>l. strip l \<noteq> TOC_MARKER_START \<and> re_match TOC_SECTION_RE l \<noteq> None) None 0 lines of
           None \<Rightarrow> (content, False)
         | Some i \<Rightarrow>
             (let e = (case next_heading_or_separator lines (Suc i) of None \<Rightarrow> length lines | Some e \<Rightarrow> e)
              in (join_with [NL] (take (back_blank lines i) lines @ drop (skip_blank lines e) lines), True)))"

datatype toc_status = TocError | TocSkip | TocUnchanged | TocWouldUpdate | TocUpdated

record toc_result =
  tr_status :: toc_status
  tr_count :: nat
  tr_manual_removed :: bool

text \<open>\<open>fs p\<close> is the text of the file \<open>p\<close>, when it is one; the second component is the file system afterwards.\<close>

definition process_file :: "nat \<Rightarrow> bool \<Rightarrow> nat \<Rightarrow> fs \<Rightarrow> string \<Rightarrow> toc_result \<times> fs" where
  "process_file maxl dry_run indent fs path =
     (case fs path of
        None \<Rightarrow> (\<lparr>tr_status = TocError, tr_count = 0, tr_manual_removed = False\<rparr>, fs)
      | Some original \<Rightarrow>
          (let (content, removed) = strip_manual_toc original;
               new_content = insert_toc_markers maxl indent content;
               n = length (parse_headings (marker_opts maxl) (split_on NL content))
           in if n = 0 then (\<lparr>tr_status = TocSkip, tr_count = 0, tr_manual_removed = False\<rparr>, fs)
              else if new_content = original
              then (\<lparr>tr_status = TocUnchanged, tr_count = n, tr_manual_removed = False\<rparr>, fs)
              else if dry_run
              then (\<lparr>tr_status = TocWouldUpdate, tr_count = n, tr_manual_removed = removed\<rparr>, fs)
              else (\<lparr>tr_status = TocUpdated, tr_count = n, tr_manual_removed = removed\<rparr>,
                    fs(path := Some new_content))))"

subsection \<open>Validation\<close>

definition TOC_LINK_RE :: regex where
  "TOC_LINK_RE = RCat [RLit ''['', RGrp ''1'' (RPlus (RCls (cNot (CHR '']'')))), RLit ''](#'',
     RGrp ''2'' (RPlus (RCls (cNot (CHR '')'')))), RLit '')'']"

text \<open>The third component says that the table is a section and not a pair of markers.\<close>

definition find_toc_section :: "string list \<Rightarrow> (nat \<times> nat \<times> bool) option" where
  "find_toc_section lines =
     (case toc_section lines of
        Some (s, e) \<Rightarrow> Some (s, e, True)
      | None \<Rightarrow>
          (case find_markers None 0 lines of
             Some (s, e) \<Rightarrow> Some (s, Suc e, False)
           | None \<Rightarrow> None))"

fun extract_go :: "nat \<Rightarrow> string list \<Rightarrow> (string \<times> string \<times> nat) list" where
  "extract_go i [] = []"
| "extract_go i (l # ls) =
     map (\<lambda>m. (strip (grp_str m ''1''), strip (grp_str m ''2''), Suc i)) (re_finditer TOC_LINK_RE l)
     @ extract_go (Suc i) ls"

definition extract_toc_entries :: "string list \<Rightarrow> nat \<Rightarrow> nat \<Rightarrow> (string \<times> string \<times> nat) list" where
  "extract_toc_entries lines s e = extract_go s (slice s e lines)"

fun expected_go :: "(string \<times> nat) list \<Rightarrow> (string \<times> string) list \<Rightarrow> (nat \<times> string) list
    \<Rightarrow> (string \<times> string) list" where
  "expected_go counts d [] = d"
| "expected_go counts d ((level, txt) # hs) =
     (let (slug, counts') = unique_slug txt counts in expected_go counts' (dset slug txt d) hs)"

definition build_expected_anchors :: "(nat \<times> string) list \<Rightarrow> (string \<times> string) list" where
  "build_expected_anchors headings = expected_go [] [] headings"

definition find_heading_line :: "string list \<Rightarrow> string \<Rightarrow> nat" where
  "find_heading_line lines txt =
     (case fenced_find (\<lambda>l. case re_match TOC_HEADING_RE l of None \<Rightarrow> False
                              | Some m \<Rightarrow> strip (grp_str m ''2'') = txt) None 0 lines of
        Some i \<Rightarrow> Suc i
      | None \<Rightarrow> 1)"

fun diff_line :: "nat \<Rightarrow> string list \<Rightarrow> string list \<Rightarrow> nat" where
  "diff_line i (x # xs) (y # ys) = (if x \<noteq> y then Suc i else diff_line (Suc i) xs ys)"
| "diff_line i _ _ = Suc i"

definition broken_anchors :: "string \<Rightarrow> (string \<times> string \<times> nat) list \<Rightarrow> (string \<times> string) list \<Rightarrow> issue list" where
  "broken_anchors path entries expected =
     map (\<lambda>(display, anchor, ln). error ''toc'' TOC_ANCHOR_BROKEN path ln
            [(''toc_display'', PStr display), (''toc_anchor'', PStr anchor)])
       (filter (\<lambda>(display, anchor, ln). \<not> dhas expected anchor) entries)"

definition unlisted_headings :: "string \<Rightarrow> string list \<Rightarrow> (string \<times> string \<times> nat) list
    \<Rightarrow> (string \<times> string) list \<Rightarrow> issue list" where
  "unlisted_headings path lines entries expected =
     map (\<lambda>(anchor, txt). error ''toc'' TOC_HEADING_NOT_IN_TOC path (find_heading_line lines txt)
            [(''heading_text'', PStr txt), (''expected_anchor'', PStr anchor)])
       (filter (\<lambda>(anchor, txt). anchor \<notin> set (map (\<lambda>(d, a, l). a) entries)) expected)"

text \<open>\<open>insert_toc_heading\<close> and \<open>insert_toc_markers\<close> with the default indents of their signatures.\<close>

definition validate_toc :: "string option \<Rightarrow> nat \<Rightarrow> string \<Rightarrow> report" where
  "validate_toc artifact_path maxl content =
     (let path = (case artifact_path of None \<Rightarrow> ''<unknown>'' | Some p \<Rightarrow> p);
          lines = split_on NL content;
          headings = parse_headings (section_opts maxl) lines
      in if headings = [] then \<lparr>r_errors = [], r_warnings = []\<rparr>
         else (case find_toc_section lines of
             None \<Rightarrow> \<lparr>r_errors = [error ''toc'' TOC_MISSING path 1
                       [(''heading_count'', PInt (int (length headings)))]], r_warnings = []\<rparr>
           | Some (s, e, sec) \<Rightarrow>
               (let entries = extract_toc_entries lines s e;
                    expected = build_expected_anchors headings;
                    errors = broken_anchors path entries expected
                             @ unlisted_headings path lines entries expected;
                    fresh = (if sec then insert_toc_heading maxl 3 True content
                             else insert_toc_markers maxl 2 content)
                in \<lparr>r_errors = errors,
                    r_warnings = (if errors = [] \<and> fresh \<noteq> content
                                  then [error ''toc'' TOC_STALE path (diff_line 0 lines (split_on NL fresh)) []]
                                  else [])\<rparr>)))"

end
