(* ===== verification/Codebase.thy ===== *)
theory Codebase
  imports Doc_Scan Error_Codes
begin

section \<open>Traceability markers in code (\<open>utils/codebase.py\<close>)\<close>

text \<open>
  A code file refers to IDs by scope markers and by pairs of begin and end markers around a
  block. The parser pairs the markers with a dictionary of open blocks, records what it
  finds and an issue for every marker it cannot pair; \<open>cross_validate_code\<close> compares what
  the code files refer to with what the artifacts define.
\<close>

subsection \<open>Markers\<close>

definition marker_phase_re :: regex where
  "marker_phase_re = RSeq (RAlt (RLit ''p'') (RLit ''ph-'')) (RGrp ''phase'' RDig1)"

definition SCOPE_MARKER_RE :: regex where
  "SCOPE_MARKER_RE = RCat [RLit ''@cpt-'', RNot (RLit ''begin:''), RNot (RLit ''end:''),
     RGrp ''kind'' (RSeq (RCls is_lower_az) (RStar (RCls c_id))), RLit '':'',
     RGrp ''id'' cpt_id_body, RLit '':'', marker_phase_re]"

definition block_marker_re :: "string \<Rightarrow> regex" where
  "block_marker_re start = RCat [RLit start, RGrp ''id'' cpt_id_body, RLit '':'', marker_phase_re,
     RLit '':inst-'', RGrp ''inst'' (RPlus (RCls c_id))]"

definition BLOCK_BEGIN_RE :: regex where "BLOCK_BEGIN_RE = block_marker_re ''@cpt-begin:''"
definition BLOCK_END_RE :: regex where "BLOCK_END_RE = block_marker_re ''@cpt-end:''"

record scope_marker =
  s_kind :: string
  s_id :: string
  s_phase :: nat
  s_line :: nat
  s_raw :: string

record block_marker =
  b_id :: string
  b_phase :: nat
  b_inst :: string
  b_start :: nat
  b_end :: nat
  b_content :: "string list"

record code_ref =
  ref_id :: string
  ref_line :: nat
  ref_kind :: "string option"
  ref_phase :: "nat option"
  ref_inst :: "string option"
  ref_marker :: string

record code_file =
  cf_path :: string
  cf_scopes :: "scope_marker list"
  cf_blocks :: "block_marker list"
  cf_refs :: "code_ref list"
  cf_errors :: "issue list"

text \<open>The open blocks: key, line, ID, phase, instruction.\<close>

type_synonym open_blocks = "(string \<times> nat \<times> string \<times> nat \<times> string) list"

definition block_key :: "match_obj \<Rightarrow> string" where
  "block_key m = grp_str m ''id'' @ '':'' @ grp_str m ''phase'' @ '':'' @ grp_str m ''inst''"

definition phase_of :: "match_obj \<Rightarrow> nat" where
  "phase_of m = digits_val (grp_str m ''phase'')"

subsection \<open>Parsing a file\<close>

definition add_scope :: "nat \<Rightarrow> string \<Rightarrow> code_file \<Rightarrow> match_obj \<Rightarrow> code_file" where
  "add_scope line_no line cf m = cf\<lparr>
     cf_scopes := cf_scopes cf @ [\<lparr>s_kind = grp_str m ''kind'', s_id = grp_str m ''id'',
       s_phase = phase_of m, s_line = line_no, s_raw = line\<rparr>],
     cf_refs := cf_refs cf @ [\<lparr>ref_id = grp_str m ''id'', ref_line = line_no,
       ref_kind = Some (grp_str m ''kind''), ref_phase = Some (phase_of m), ref_inst = None,
       ref_marker = ''scope''\<rparr>]\<rparr>"

definition begin_block :: "nat \<Rightarrow> code_file \<times> open_blocks \<Rightarrow> match_obj \<Rightarrow> code_file \<times> open_blocks" where
  "begin_block line_no st m =
     (let (cf, open) = st; key = block_key m
      in if dhas open key
         then (cf\<lparr>cf_errors := cf_errors cf @ [error ''marker'' MARKER_DUP_BEGIN (cf_path cf) line_no
                 [(''id'', PStr (grp_str m ''id'')), (''inst'', PStr (grp_str m ''inst''))]]\<rparr>, open)
         else (cf, dset key (line_no, grp_str m ''id'', phase_of m, grp_str m ''inst'') open))"

definition end_block :: "string list \<Rightarrow> nat \<Rightarrow> code_file \<times> open_blocks \<Rightarrow> match_obj
    \<Rightarrow> code_file \<times> open_blocks" where
  "end_block lines idx st m =
     (let (cf, open) = st; key = block_key m; line_no = Suc idx
      in case dget open key of
           None \<Rightarrow>
             (cf\<lparr>cf_errors := cf_errors cf @ [error ''marker'' MARKER_END_NO_BEGIN (cf_path cf) line_no
                [(''id'', PStr (grp_str m ''id'')), (''inst'', PStr (grp_str m ''inst''))]]\<rparr>, open)
         | Some (start_line, cpt, phase, inst) \<Rightarrow>
             (let content = slice start_line idx lines
              in (cf\<lparr>cf_errors := cf_errors cf @
                      (if list_all blank content
                       then [error ''marker'' MARKER_EMPTY_BLOCK (cf_path cf) start_line
                               [(''id'', PStr cpt), (''inst'', PStr inst)]]
                       else []),
                    cf_blocks := cf_blocks cf @ [\<lparr>b_id = cpt, b_phase = phase, b_inst = inst,
                      b_start = start_line, b_end = line_no, b_content = content\<rparr>],
                    cf_refs := cf_refs cf @ [\<lparr>ref_id = cpt, ref_line = start_line, ref_kind = None,
                      ref_phase = Some phase, ref_inst = Some inst, ref_marker = ''block''\<rparr>]\<rparr>,
                  dpop key open)))"

definition parse_line :: "string list \<Rightarrow> nat \<Rightarrow> string \<Rightarrow> code_file \<times> open_blocks
    \<Rightarrow> code_file \<times> open_blocks" where
  "parse_line lines idx line st =
     (let st1 = (foldl (add_scope (Suc idx) line) (fst st) (re_finditer SCOPE_MARKER_RE line), snd st);
          st2 = foldl (begin_block (Suc idx)) st1 (re_finditer BLOCK_BEGIN_RE line)
      in foldl (end_block lines idx) st2 (re_finditer BLOCK_END_RE line))"

fun parse_lines :: "string list \<Rightarrow> nat \<Rightarrow> string list \<Rightarrow> code_file \<times> open_blocks
    \<Rightarrow> code_file \<times> open_blocks" where
  "parse_lines lines idx [] st = st"
| "parse_lines lines idx (line # rest) st =
     parse_lines lines (Suc idx) rest (parse_line lines idx line st)"

definition unclosed_errors :: "string \<Rightarrow> open_blocks \<Rightarrow> issue list" where
  "unclosed_errors path open =
     map (\<lambda>(key, start_line, cpt, phase, inst).
            error ''marker'' MARKER_BEGIN_NO_END path start_line [(''id'', PStr cpt), (''inst'', PStr inst)])
       open"

definition new_code_file :: "string \<Rightarrow> code_file" where
  "new_code_file path =
     \<lparr>cf_path = path, cf_scopes = [], cf_blocks = [], cf_refs = [], cf_errors = []\<rparr>"

definition parse_markers :: "string list \<Rightarrow> code_file \<Rightarrow> code_file" where
  "parse_markers lines cf =
     (let (cf', open) = parse_lines lines 0 lines (cf, [])
      in cf'\<lparr>cf_errors := cf_errors cf' @ unclosed_errors (cf_path cf') open\<rparr>)"

text \<open>
  \<open>CodeFile.load\<close> on a fresh object and \<open>CodeFile.from_path\<close>; the text of an unreadable
  file is \<open>None\<close>.
\<close>

definition load_code :: "fs \<Rightarrow> string \<Rightarrow> code_file" where
  "load_code fs path =
     (case fs path of
        None \<Rightarrow> (new_code_file path)\<lparr>cf_errors := [error ''file'' FILE_READ_ERROR path 1 []]\<rparr>
      | Some text \<Rightarrow> parse_markers (splitlines text) (new_code_file path))"

definition from_path :: "fs \<Rightarrow> string \<Rightarrow> code_file option \<times> issue list" where
  "from_path fs path =
     (let cf = load_code fs path; errs = cf_errors cf
      in if errs \<noteq> [] then (None, errs) else (Some cf, []))"

subsection \<open>Queries\<close>

definition list_ids :: "code_file \<Rightarrow> string list" where
  "list_ids cf = sorted_strs (foldl (\<lambda>ids r. sadd (ref_id r) ids) [] (cf_refs cf))"

definition get_code :: "code_file \<Rightarrow> string \<Rightarrow> string option" where
  "get_code cf i =
     (case find (\<lambda>b. b_id b = i) (cf_blocks cf) of
        Some b \<Rightarrow> Some (join_with [NL] (b_content b))
      | None \<Rightarrow> map_option s_raw (find (\<lambda>s. s_id s = i) (cf_scopes cf)))"

definition list_code :: "code_file \<Rightarrow> string list \<Rightarrow> string option list" where
  "list_code cf ids = map (get_code cf) ids"

definition get_by_inst :: "code_file \<Rightarrow> string \<Rightarrow> string option" where
  "get_by_inst cf inst =
     map_option (\<lambda>b. join_with [NL] (b_content b)) (find (\<lambda>b. b_inst b = inst) (cf_blocks cf))"

subsection \<open>Validating one file\<close>

definition scope_key :: "scope_marker \<Rightarrow> string" where
  "scope_key s = s_kind s @ '':'' @ s_id s @ '':'' @ nat_str (s_phase s)"

fun dup_scopes :: "string \<Rightarrow> (string \<times> nat) list \<Rightarrow> scope_marker list \<Rightarrow> issue list" where
  "dup_scopes path seen [] = []"
| "dup_scopes path seen (s # ss) =
     (case dget seen (scope_key s) of
        Some first \<Rightarrow>
          error ''marker'' MARKER_DUP_SCOPE path (s_line s)
            [(''id'', PStr (s_id s)), (''first_occurrence'', PInt (int first))] # dup_scopes path seen ss
      | None \<Rightarrow> dup_scopes path (dset (scope_key s) (s_line s) seen) ss)"

definition validate_code :: "code_file \<Rightarrow> report" where
  "validate_code cf =
     \<lparr>r_errors = cf_errors cf @ dup_scopes (cf_path cf) [] (cf_scopes cf), r_warnings = []\<rparr>"

definition validate_code_file :: "fs \<Rightarrow> string \<Rightarrow> report" where
  "validate_code_file fs path =
     (case from_path fs path of
        (None, errs) \<Rightarrow>
          \<lparr>r_errors = (if errs \<noteq> [] then errs else [error ''file'' FILE_LOAD_ERROR path 1 []]),
           r_warnings = []\<rparr>
      | (Some cf, errs) \<Rightarrow>
          if errs \<noteq> [] then \<lparr>r_errors = errs, r_warnings = []\<rparr> else validate_code cf)"

subsection \<open>Code against artifacts\<close>

type_synonym inst_map = "(string \<times> string list) list"

definition docs_only_errors :: "code_file list \<Rightarrow> issue list" where
  "docs_only_errors files =
     map (\<lambda>cf. error ''traceability'' CODE_DOCS_ONLY (cf_path cf) 1 [])
       (filter (\<lambda>cf. cf_scopes cf \<noteq> [] \<or> cf_blocks cf \<noteq> []) files)"

definition all_refs :: "code_file list \<Rightarrow> (string \<times> code_ref) list" where
  "all_refs files = concat (map (\<lambda>cf. map (Pair (cf_path cf)) (cf_refs cf)) files)"

definition all_blocks :: "code_file list \<Rightarrow> (string \<times> block_marker) list" where
  "all_blocks files = concat (map (\<lambda>cf. map (Pair (cf_path cf)) (cf_blocks cf)) files)"

definition orphan_errors :: "string list \<Rightarrow> (string \<times> code_ref) list \<Rightarrow> issue list" where
  "orphan_errors artifact_ids refs =
     map (\<lambda>(p, r). error ''traceability'' CODE_ORPHAN_REF p (ref_line r) [(''id'', PStr (ref_id r))])
       (filter (\<lambda>(p, r). ref_id r \<notin> set artifact_ids) refs)"

fun first_forbidden :: "string list \<Rightarrow> (string \<times> string \<times> nat) list \<Rightarrow> (string \<times> code_ref) list
    \<Rightarrow> (string \<times> string \<times> nat) list" where
  "first_forbidden forbidden d [] = d"
| "first_forbidden forbidden d ((p, r) # rs) =
     first_forbidden forbidden
       (if ref_id r \<in> set forbidden \<and> \<not> dhas d (ref_id r) then dset (ref_id r) (p, ref_line r) d else d) rs"

text \<open>\<open>_code_inst_lookup\<close>: the instruction slugs implemented for each ID.\<close>

definition code_insts :: "code_file list \<Rightarrow> string \<Rightarrow> string list" where
  "code_insts files i = map (\<lambda>(p, b). b_inst b) (filter (\<lambda>(p, b). b_id b = i) (all_blocks files))"

definition forbidden_errors :: "code_file list \<Rightarrow> inst_map \<Rightarrow> (string \<times> string \<times> nat) list \<Rightarrow> issue list" where
  "forbidden_errors files insts_all ff =
     concat (map (\<lambda>fid.
       case dget ff fid of
         None \<Rightarrow> []
       | Some (p, ln) \<Rightarrow>
           (case dget insts_all fid of
              Some art_insts \<Rightarrow>
                if \<exists>i \<in> set art_insts. i \<notin> set (code_insts files fid) then []
                else [error ''structure'' CODE_TASK_UNCHECKED p ln [(''id'', PStr fid)]]
            | None \<Rightarrow> [error ''structure'' CODE_TASK_UNCHECKED p ln [(''id'', PStr fid)]]))
       (sorted_strs (map fst ff)))"

definition code_ids :: "code_file list \<Rightarrow> string list" where
  "code_ids files = concat (map list_ids files)"

definition missing_errors :: "string list \<Rightarrow> code_file list \<Rightarrow> issue list" where
  "missing_errors to_code files =
     map (\<lambda>i. error ''coverage'' CODE_NO_MARKER ''.'' 1 [(''id'', PStr i)])
       (sorted_strs (filter (\<lambda>i. i \<notin> set (code_ids files)) (remdups to_code)))"

text \<open>\<open>code_inst_by_id\<close>: for each ID, the last location of each instruction.\<close>

fun code_inst_by_id :: "(string \<times> (string \<times> (string \<times> nat)) list) list \<Rightarrow> (string \<times> block_marker) list
    \<Rightarrow> (string \<times> (string \<times> (string \<times> nat)) list) list" where
  "code_inst_by_id d [] = d"
| "code_inst_by_id d ((p, b) # bs) =
     code_inst_by_id
       (dset (b_id b) (dset (b_inst b) (p, b_start b) (case dget d (b_id b) of None \<Rightarrow> [] | Some x \<Rightarrow> x)) d) bs"

definition inst_errors_for :: "(string \<times> (string \<times> (string \<times> nat)) list) list \<Rightarrow> string \<times> string list
    \<Rightarrow> issue list" where
  "inst_errors_for by_id entry =
     (let (cid, art_insts) = entry;
          code = (case dget by_id cid of None \<Rightarrow> [] | Some x \<Rightarrow> x)
      in map (\<lambda>inst. error ''coverage'' CODE_INST_MISSING ''.'' 1 [(''id'', PStr cid), (''inst'', PStr inst)])
           (sorted_strs (filter (\<lambda>i. i \<notin> fst ` set code) (remdups art_insts)))
         @ concat (map (\<lambda>inst.
             case dget code inst of
               None \<Rightarrow> []
             | Some (p, ln) \<Rightarrow> [error ''traceability'' CODE_INST_ORPHAN p ln
                 [(''id'', PStr cid), (''inst'', PStr inst)]])
           (sorted_strs (filter (\<lambda>i. i \<notin> set art_insts) (map fst code)))))"

definition inst_errors :: "code_file list \<Rightarrow> inst_map \<Rightarrow> issue list" where
  "inst_errors files insts =
     concat (map (inst_errors_for (code_inst_by_id [] (all_blocks files)))
       (sorted_by (\<lambda>a b. str_less (fst a) (fst b)) insts))"

text \<open>
  An absent or empty \<open>forbidden_code_ids\<close>, \<open>artifact_instances\<close> or
  \<open>artifact_instances_all\<close> is the empty list: the code tests them for truth only.
\<close>

definition cross_validate_code :: "code_file list \<Rightarrow> string list \<Rightarrow> string list \<Rightarrow> string list \<Rightarrow> string
    \<Rightarrow> inst_map \<Rightarrow> inst_map \<Rightarrow> report" where
  "cross_validate_code files artifact_ids to_code forbidden traceability insts insts_all =
     (if traceability = ''DOCS-ONLY'' then \<lparr>r_errors = docs_only_errors files, r_warnings = []\<rparr>
      else
        \<lparr>r_errors =
           orphan_errors artifact_ids (all_refs files)
           @ (if forbidden = [] then []
              else forbidden_errors files (if insts_all \<noteq> [] then insts_all else insts)
                     (first_forbidden forbidden [] (all_refs files)))
           @ missing_errors to_code files
           @ inst_errors files insts,
         r_warnings = []\<rparr>)"

end
