(* ===== verification/Codebase_Facts.thy ===== *)
theory Codebase_Facts
  imports Codebase Doc_Facts
begin

section \<open>Correctness of marker parsing and of the code checks\<close>

text \<open>
  Every begin and end marker of a file is accounted for exactly once: as half of a block, or
  by an issue. A block is delimited by a begin and an end marker with the same key and its
  content is the lines between them. The check of one file fails exactly on unpaired or
  repeated markers, and \<open>cross_validate_code\<close> reports no error exactly when code and
  artifacts agree.
\<close>

definition n_begins :: "string list \<Rightarrow> nat" where
  "n_begins ls = sum_list (map (\<lambda>l. length (re_finditer BLOCK_BEGIN_RE l)) ls)"

definition n_ends :: "string list \<Rightarrow> nat" where
  "n_ends ls = sum_list (map (\<lambda>l. length (re_finditer BLOCK_END_RE l)) ls)"

subsection \<open>The parser's invariant\<close>

text \<open>An open block stems from a begin marker on its line; a block from a pair of markers.\<close>

definition open_ok :: "string list \<Rightarrow> nat \<Rightarrow> string \<times> nat \<times> string \<times> nat \<times> string \<Rightarrow> bool" where
  "open_ok lines n e = (case e of (key, l, i, ph, inst) \<Rightarrow>
     1 \<le> l \<and> l \<le> n \<and> (\<exists>m \<in> set (re_finditer BLOCK_BEGIN_RE (lines ! (l - 1))).
        block_key m = key \<and> grp_str m ''id'' = i \<and> phase_of m = ph \<and> grp_str m ''inst'' = inst))"

definition block_ok :: "string list \<Rightarrow> nat \<Rightarrow> block_marker \<Rightarrow> bool" where
  "block_ok lines n b \<longleftrightarrow>
     1 \<le> b_start b \<and> b_start b \<le> b_end b \<and> b_end b \<le> n
     \<and> b_content b = slice (b_start b) (b_end b - 1) lines
     \<and> (\<exists>m \<in> set (re_finditer BLOCK_BEGIN_RE (lines ! (b_start b - 1))).
          \<exists>m' \<in> set (re_finditer BLOCK_END_RE (lines ! (b_end b - 1))).
            block_key m' = block_key m \<and> b_id b = grp_str m ''id'' \<and> b_phase b = phase_of m
            \<and> b_inst b = grp_str m ''inst'')"

definition parse_inv :: "string list \<Rightarrow> nat \<Rightarrow> nat \<Rightarrow> nat \<Rightarrow> code_file \<times> open_blocks \<Rightarrow> bool" where
  "parse_inv lines n begins ends st \<longleftrightarrow>
     (let (cf, opn) = st in
        distinct (map fst opn)
      \<and> (\<forall>e \<in> set opn. open_ok lines n e)
      \<and> (\<forall>b \<in> set (cf_blocks cf). block_ok lines n b)
      \<and> begins = length (cf_blocks cf) + count_code MARKER_DUP_BEGIN (cf_errors cf) + length opn
      \<and> ends = length (cf_blocks cf) + count_code MARKER_END_NO_BEGIN (cf_errors cf)
      \<and> count_code MARKER_BEGIN_NO_END (cf_errors cf) = 0
      \<and> length (cf_refs cf) = length (cf_scopes cf) + length (cf_blocks cf))"

lemma begin_block_inv:
  assumes "parse_inv lines (Suc idx) b e st" and "m \<in> set (re_finditer BLOCK_BEGIN_RE (lines ! idx))"
  shows "parse_inv lines (Suc idx) (Suc b) e (begin_block (Suc idx) st m)"
proof -
  obtain cf opn where st: "st = (cf, opn)" by (cases st)
  show ?thesis
  proof (cases "dhas opn (block_key m)")
    case True
    then show ?thesis using assms st by (simp add: parse_inv_def begin_block_def)
  next
    case False
    then have new: "block_key m \<notin> fst ` set opn" by (simp add: dhas_iff)
    have "open_ok lines (Suc idx) (block_key m, Suc idx, grp_str m ''id'', phase_of m, grp_str m ''inst'')"
      using assms(2) by (auto simp: open_ok_def)
    with False new show ?thesis
      using assms(1) st by (auto simp: parse_inv_def begin_block_def dset_new)
  qed
qed

lemma end_block_inv:
  assumes "parse_inv lines (Suc idx) b e st" and "m \<in> set (re_finditer BLOCK_END_RE (lines ! idx))"
  shows "parse_inv lines (Suc idx) b (Suc e) (end_block lines idx st m)"
proof -
  obtain cf opn where st: "st = (cf, opn)" by (cases st)
  show ?thesis
  proof (cases "dget opn (block_key m)")
    case None
    then show ?thesis using assms st by (simp add: parse_inv_def end_block_def)
  next
    case (Some v)
    obtain l i ph inst where v: "v = (l, i, ph, inst)" by (cases v) auto
    from Some v have mem: "(block_key m, l, i, ph, inst) \<in> set opn" by (simp add: map_of_SomeD)
    with assms(1) st have ok: "open_ok lines (Suc idx) (block_key m, l, i, ph, inst)"
      by (auto simp: parse_inv_def)
    let ?b = "\<lparr>b_id = i, b_phase = ph, b_inst = inst, b_start = l, b_end = Suc idx,
      b_content = slice l idx lines\<rparr>"
    have "block_ok lines (Suc idx) ?b"
        using ok assms(2) by (simp add: open_ok_def block_ok_def) metis
    moreover have "Suc (length (dpop (block_key m) opn)) = length opn"
      using assms(1) st mem by (intro length_dpop) (force simp: parse_inv_def)+
    moreover have "\<forall>x \<in> set (dpop (block_key m) opn). open_ok lines (Suc idx) x"
      using assms(1) st by (auto simp: parse_inv_def set_dpop)
    ultimately show ?thesis
      using assms(1) st Some v by (auto simp: parse_inv_def end_block_def Let_def)
  qed
qed

lemma foldl_count_inv:
  assumes "\<And>b st m. m \<in> set ms \<Longrightarrow> I b st \<Longrightarrow> I (Suc b) (f st m)" and "I b st"
  shows "I (b + length ms) (foldl f st ms)"
  using assms
proof (induction ms arbitrary: b st)
  case (Cons m ms)
  then have "I (Suc b) (f st m)" by simp
  from Cons.IH [OF _ this] Cons.prems(1) show ?case by simp
qed simp

lemma add_scope_inv:
  assumes "parse_inv lines n b e (cf, opn)"
  shows "parse_inv lines n b e (foldl (add_scope l line) cf ms, opn)"
  using assms
proof (induction ms arbitrary: cf)
  case (Cons m ms)
  then have "parse_inv lines n b e (add_scope l line cf m, opn)"
    by (simp add: parse_inv_def add_scope_def)
  from Cons.IH [OF this] show ?case by simp
qed simp

lemma parse_inv_later: "parse_inv lines n b e st \<Longrightarrow> parse_inv lines (Suc n) b e st"
  by (fastforce simp: parse_inv_def open_ok_def block_ok_def split: prod.splits)

lemma parse_line_inv:
  assumes "parse_inv lines idx b e st" and "lines ! idx = line"
  shows "parse_inv lines (Suc idx) (b + length (re_finditer BLOCK_BEGIN_RE line))
    (e + length (re_finditer BLOCK_END_RE line)) (parse_line lines idx line st)"
proof -
  let ?st1 = "(foldl (add_scope (Suc idx) line) (fst st) (re_finditer SCOPE_MARKER_RE line), snd st)"
  let ?bs = "re_finditer BLOCK_BEGIN_RE line" and ?es = "re_finditer BLOCK_END_RE line"
  let ?st2 = "foldl (begin_block (Suc idx)) ?st1 ?bs"
  from assms(1) have "parse_inv lines (Suc idx) b e ?st1"
    by (intro add_scope_inv) (simp add: parse_inv_later)
  then have "parse_inv lines (Suc idx) (b + length ?bs) e ?st2"
    by (intro foldl_count_inv [where I = "\<lambda>b st. parse_inv lines (Suc idx) b e st"])
      (auto intro: begin_block_inv simp: assms(2))
  then have "parse_inv lines (Suc idx) (b + length ?bs) (e + length ?es) (foldl (end_block lines idx) ?st2 ?es)"
    by (intro foldl_count_inv [where I = "\<lambda>e st. parse_inv lines (Suc idx) (b + length ?bs) e st"])
      (auto intro: end_block_inv simp: assms(2))
  then show ?thesis by (simp add: parse_line_def Let_def)
qed

lemma parse_lines_inv:
  assumes "parse_inv lines idx b e st" and "drop idx lines = rest"
  shows "parse_inv lines (idx + length rest) (b + n_begins rest) (e + n_ends rest)
    (parse_lines lines idx rest st)"
  using assms
proof (induction rest arbitrary: idx b e st)
  case (Cons line rest)
  then have "lines ! idx = line" "drop (Suc idx) lines = rest"
    by (metis nth_via_drop, metis drop_Suc list.sel(3) tl_drop)
  from Cons.IH [OF parse_line_inv [OF Cons.prems(1) this(1)] this(2)] show ?case
    by (simp add: n_begins_def n_ends_def add.assoc)
qed (simp add: n_begins_def n_ends_def)

lemma parse_markers_final:
  obtains cf opn where "parse_inv lines (length lines) (n_begins lines) (n_ends lines) (cf, opn)"
    and "parse_markers lines (new_code_file path) =
      cf\<lparr>cf_errors := cf_errors cf @ unclosed_errors (cf_path cf) opn\<rparr>"
proof -
  obtain cf opn where r: "parse_lines lines 0 lines (new_code_file path, []) = (cf, opn)"
    by (cases "parse_lines lines 0 lines (new_code_file path, [])")
  have "parse_inv lines 0 0 0 (new_code_file path, [])"
    by (simp add: parse_inv_def new_code_file_def)
  from parse_lines_inv [OF this, of lines] r
  have "parse_inv lines (length lines) (n_begins lines) (n_ends lines) (cf, opn)" by simp
  with r that show thesis by (simp add: parse_markers_def)
qed

lemma count_unclosed:
  "count_code c (unclosed_errors p opn) = (if c = MARKER_BEGIN_NO_END then length opn else 0)"
  by (induction opn) (auto simp: unclosed_errors_def)

text \<open>C19. Conservation of markers: in every file, each begin marker is the start of a recorded block,
  a reported duplicate or a reported unclosed block, and each end marker is the end of a
  recorded block or a reported unmatched end; each recorded marker is a reference.\<close>

theorem parse_markers_conservation:
  "let cf = parse_markers lines (new_code_file path) in
     n_begins lines = length (cf_blocks cf) + count_code MARKER_DUP_BEGIN (cf_errors cf)
       + count_code MARKER_BEGIN_NO_END (cf_errors cf)
   \<and> n_ends lines = length (cf_blocks cf) + count_code MARKER_END_NO_BEGIN (cf_errors cf)
   \<and> length (cf_refs cf) = length (cf_scopes cf) + length (cf_blocks cf)"
proof -
  obtain cf opn where "parse_inv lines (length lines) (n_begins lines) (n_ends lines) (cf, opn)"
    and "parse_markers lines (new_code_file path) =
      cf\<lparr>cf_errors := cf_errors cf @ unclosed_errors (cf_path cf) opn\<rparr>"
    by (rule parse_markers_final)
  then show ?thesis by (simp add: Let_def parse_inv_def count_unclosed)
qed

text \<open>A recorded block lies between a begin and an end marker with the same ID, phase and
  instruction, and its content is exactly the lines strictly between the two.\<close>

theorem parse_markers_blocks:
  assumes "b \<in> set (cf_blocks (parse_markers lines (new_code_file path)))"
  shows "1 \<le> b_start b \<and> b_start b \<le> b_end b \<and> b_end b \<le> length lines
    \<and> b_content b = slice (b_start b) (b_end b - 1) lines
    \<and> (\<exists>m \<in> set (re_finditer BLOCK_BEGIN_RE (lines ! (b_start b - 1))).
         \<exists>m' \<in> set (re_finditer BLOCK_END_RE (lines ! (b_end b - 1))).
           block_key m' = block_key m \<and> b_id b = grp_str m ''id'' \<and> b_phase b = phase_of m
           \<and> b_inst b = grp_str m ''inst'')"
proof -
  obtain cf opn where "parse_inv lines (length lines) (n_begins lines) (n_ends lines) (cf, opn)"
    and "parse_markers lines (new_code_file path) =
      cf\<lparr>cf_errors := cf_errors cf @ unclosed_errors (cf_path cf) opn\<rparr>"
    by (rule parse_markers_final)
  with assms have "block_ok lines (length lines) b" by (auto simp: parse_inv_def)
  then show ?thesis unfolding block_ok_def .
qed

theorem parse_markers_blocks_witness:
  "let ls = [''# @cpt-begin:cpt-a-b:p1:inst-x'', ''x = 1'', ''# @cpt-end:cpt-a-b:p1:inst-x''];
       b = \<lparr>b_id = ''cpt-a-b'', b_phase = 1, b_inst = ''x'', b_start = 1, b_end = 3, b_content = [''x = 1'']\<rparr>
   in b \<in> set (cf_blocks (parse_markers ls (new_code_file ''f.py''))) \<and> b_content b = slice 1 2 ls"
proof -
  let ?ls = "[''# @cpt-begin:cpt-a-b:p1:inst-x'', ''x = 1'', ''# @cpt-end:cpt-a-b:p1:inst-x'']"
  let ?b = "\<lparr>b_id = ''cpt-a-b'', b_phase = 1, b_inst = ''x'', b_start = 1, b_end = 3, b_content = [''x = 1'']\<rparr>"
  have "cf_blocks (parse_markers ?ls (new_code_file ''f.py'')) = [?b]" by code_simp
  then have m: "?b \<in> set (cf_blocks (parse_markers ?ls (new_code_file ''f.py'')))" by simp
  from parse_markers_blocks [OF m] m show ?thesis by (simp add: Let_def)
qed

text \<open>\<open>CodeFile.from_path\<close> returns a file only when it could be read and every marker in it is
  paired; otherwise it returns the issues and no file.\<close>

theorem from_path_all_paired:
  assumes "from_path fs path = (Some cf, errs)"
  shows "errs = [] \<and> cf_errors cf = [] \<and> (\<exists>content. fs path = Some content
    \<and> n_begins (splitlines content) = length (cf_blocks cf)
    \<and> n_ends (splitlines content) = length (cf_blocks cf))"
proof -
  from assms have e: "errs = []" "cf = load_code fs path" "cf_errors cf = []"
    by (auto simp: from_path_def Let_def split: if_splits)
  then obtain content where c: "fs path = Some content"
    by (auto simp: load_code_def split: option.splits)
  with e have cf: "cf = parse_markers (splitlines content) (new_code_file path)" by (simp add: load_code_def)
  obtain cf0 opn where
    "parse_inv (splitlines content) (length (splitlines content)) (n_begins (splitlines content))
       (n_ends (splitlines content)) (cf0, opn)"
    "cf = cf0\<lparr>cf_errors := cf_errors cf0 @ unclosed_errors (cf_path cf0) opn\<rparr>"
    unfolding cf by (rule parse_markers_final)
  then show ?thesis
    using e(1,3) c by (auto simp: parse_inv_def unclosed_errors_def)
qed

theorem from_path_all_paired_witness:
  "cf_errors (load_code (\<lambda>_. Some ''# @cpt-flow:cpt-a-b:p1'') ''f.py'') = []
   \<and> n_begins (splitlines ''# @cpt-flow:cpt-a-b:p1'') = 0"
proof -
  let ?fs = "\<lambda>_::string. Some ''# @cpt-flow:cpt-a-b:p1''"
  have b: "cf_blocks (load_code ?fs ''f.py'') = []" by code_simp
  have "cf_errors (load_code ?fs ''f.py'') = []" by code_simp
  then have f: "from_path ?fs ''f.py'' = (Some (load_code ?fs ''f.py''), [])"
    by (simp add: from_path_def Let_def)
  show ?thesis using from_path_all_paired [OF f] b by auto
qed

subsection \<open>Validating one file\<close>

lemma digits_val_snoc: "digits_val (s @ [c]) = 10 * digits_val s + (ord c - 48)"
  by (simp add: digits_val_def)

lemma digits_val_nat_str: "digits_val (nat_str n) = n"
proof (induction n rule: nat_str.induct)
  case (1 n)
  have d: "ord (digit_char k) = 48 + k" if "k < 10" for k using that by (simp add: digit_char_def)
  show ?case
  proof (cases "n < 10")
    case True
    then show ?thesis using d [of n] by (simp add: nat_str.simps [of n] digits_val_def)
  next
    case False
    then show ?thesis using 1 d [of "n mod 10"] by (simp add: nat_str.simps [of n] digits_val_snoc)
  qed
qed

lemma inj_nat_str: "nat_str m = nat_str n \<longleftrightarrow> m = n"
  by (metis digits_val_nat_str)

definition scope_id :: "scope_marker \<Rightarrow> string \<times> string \<times> nat" where
  "scope_id s = (s_kind s, s_id s, s_phase s)"

definition no_colon :: "scope_marker \<Rightarrow> bool" where
  "no_colon s \<longleftrightarrow> CHR '':'' \<notin> set (s_kind s) \<and> CHR '':'' \<notin> set (s_id s)"

lemma append_colon_inj:
  "c \<notin> set x \<Longrightarrow> c \<notin> set x' \<Longrightarrow> x @ c # y = x' @ c # y' \<longleftrightarrow> x = x' \<and> y = y'"
proof (induction x arbitrary: x')
  case Nil
  then show ?case by (cases x') auto
next
  case (Cons a x)
  then show ?case by (cases x') auto
qed

lemma scope_key_inj:
  "no_colon s \<Longrightarrow> no_colon t \<Longrightarrow> scope_key s = scope_key t \<longleftrightarrow> scope_id s = scope_id t"
  by (simp add: no_colon_def scope_key_def scope_id_def append_colon_inj inj_nat_str)

lemma list_all_no_colon: "list_all c_id w \<Longrightarrow> CHR '':'' \<notin> set w"
  by (auto simp: list_all_iff c_id_def is_lower_az_def is_digit_def)

lemma valid_id_no_colon: "valid_cpt_id w \<Longrightarrow> CHR '':'' \<notin> set w"
  using list_all_no_colon by (auto simp: valid_cpt_id_def c_id0_def is_lower_az_def is_digit_def)

lemma rder_kind: "rder (RSeq (RCls is_lower_az) (RStar (RCls c_id))) w t \<Longrightarrow> CHR '':'' \<notin> set w"
  unfolding rder.simps(3) rder_star_cls rder_cls
  using list_all_no_colon by (auto simp: one_of_def is_lower_az_def)

lemma scope_match_no_colon:
  assumes "m \<in> set (re_finditer SCOPE_MARKER_RE line)"
  shows "CHR '':'' \<notin> set (grp_str m ''kind'') \<and> CHR '':'' \<notin> set (grp_str m ''id'')"
proof -
  from re_finditer_sub [OF assms] obtain s where m: "re_match SCOPE_MARKER_RE s = Some m" by blast
  have b: "r' = RSeq (RCls is_lower_az) (RStar (RCls c_id))" if "(''kind'', r') \<in> grp_bodies SCOPE_MARKER_RE" for r'
    using that by (auto simp: SCOPE_MARKER_RE_def marker_phase_re_def cpt_id_body_def RPlus_def)
  have i: "r' = cpt_id_body" if "(''id'', r') \<in> grp_bodies SCOPE_MARKER_RE" for r'
    using that by (auto simp: SCOPE_MARKER_RE_def marker_phase_re_def cpt_id_body_def RPlus_def)
  have "CHR '':'' \<notin> set x" if "grp m ''kind'' = Some x" for x
    using grp_sound [OF m that] b rder_kind by blast
  moreover have "CHR '':'' \<notin> set x" if "grp m ''id'' = Some x" for x
    using grp_valid_id [OF m that] i valid_id_no_colon by blast
  ultimately show ?thesis by (auto simp: grp_str_def str_or_empty_def split: option.splits)
qed

lemma parse_line_scopes:
  "cf_scopes (fst (parse_line lines idx line st)) =
     cf_scopes (fst st) @ map (\<lambda>m. \<lparr>s_kind = grp_str m ''kind'', s_id = grp_str m ''id'',
       s_phase = phase_of m, s_line = Suc idx, s_raw = line\<rparr>) (re_finditer SCOPE_MARKER_RE line)"
proof -
  have a: "cf_scopes (foldl (add_scope l line) cf ms) = cf_scopes cf @ map (\<lambda>m. \<lparr>s_kind = grp_str m ''kind'',
      s_id = grp_str m ''id'', s_phase = phase_of m, s_line = l, s_raw = line\<rparr>) ms" for l cf ms
    by (induction ms arbitrary: cf) (auto simp: add_scope_def)
  have b: "cf_scopes (fst (foldl (begin_block l) st ms)) = cf_scopes (fst st)" for l st ms
    by (induction ms arbitrary: st) (auto simp: begin_block_def Let_def split: prod.splits)
  have e: "cf_scopes (fst (foldl (end_block lines idx) st ms)) = cf_scopes (fst st)" for st ms
    by (induction ms arbitrary: st) (auto simp: end_block_def Let_def split: prod.splits option.splits)
  show ?thesis by (simp add: parse_line_def Let_def a b e)
qed

lemma parse_lines_no_colon:
  "list_all no_colon (cf_scopes (fst st)) \<Longrightarrow>
   list_all no_colon (cf_scopes (fst (parse_lines lines idx rest st)))"
proof (induction rest arbitrary: idx st)
  case (Cons line rest)
  have "list_all no_colon (cf_scopes (fst (parse_line lines idx line st)))"
    using Cons.prems scope_match_no_colon
    by (auto simp: parse_line_scopes list_all_iff no_colon_def)
  then show ?case using Cons.IH by simp
qed simp

lemma load_code_no_colon: "list_all no_colon (cf_scopes (load_code fs path))"
  using parse_lines_no_colon [of "(new_code_file path, [])"]
  by (auto simp: load_code_def parse_markers_def new_code_file_def split: option.splits prod.splits)
    (metis fst_conv)

lemma dup_scopes_Nil_iff:
  "dup_scopes path seen ss = [] \<longleftrightarrow>
   distinct (map scope_key ss) \<and> (\<forall>s \<in> set ss. scope_key s \<notin> fst ` set seen)"
proof (induction ss arbitrary: seen)
  case (Cons s ss)
  show ?case
  proof (cases "dget seen (scope_key s)")
    case None
    then have "scope_key s \<notin> fst ` set seen" by (simp add: map_of_eq_None_iff)
    moreover have "scope_key s \<notin> set (map scope_key ss) \<longleftrightarrow> (\<forall>t \<in> set ss. scope_key t \<noteq> scope_key s)"
      by (metis (no_types, lifting) image_iff list.set_map)
    ultimately show ?thesis using None by (simp add: Cons.IH) blast
  next
    case (Some l)
    then have "scope_key s \<in> fst ` set seen" by (metis domI dom_map_of_conv_image_fst)
    with Some show ?thesis by auto
  qed
qed simp

lemma distinct_scope_key:
  "list_all no_colon ss \<Longrightarrow> distinct (map scope_key ss) \<longleftrightarrow> distinct (map scope_id ss)"
  by (induction ss) (auto simp: list_all_iff image_iff scope_key_inj)

text \<open>A file passes \<open>validate_code_file\<close> exactly when it can be read, marker parsing reports
  nothing on it, and no two of its scope markers have the same kind, ID and phase.\<close>

theorem validate_code_file_ok:
  "r_errors (validate_code_file fs path) = [] \<longleftrightarrow>
   fs path \<noteq> None \<and> cf_errors (load_code fs path) = []
   \<and> distinct (map scope_id (cf_scopes (load_code fs path)))"
proof -
  have "cf_errors (load_code fs path) \<noteq> []" if "fs path = None"
    using that by (simp add: load_code_def)
  then show ?thesis
    using distinct_scope_key [OF load_code_no_colon, of fs path]
    by (auto simp: validate_code_file_def from_path_def validate_code_def Let_def dup_scopes_Nil_iff)
qed

subsection \<open>Code against artifacts\<close>

lemma concat_map_Nil_iff: "concat (map f xs) = [] \<longleftrightarrow> (\<forall>x \<in> set xs. f x = [])"
  by (induction xs) auto

lemma fst_first_forbidden:
  "fst ` set (first_forbidden fb d rs) =
   fst ` set d \<union> (ref_id ` snd ` set rs \<inter> set fb)"
  by (induction fb d rs rule: first_forbidden.induct) (auto simp: dhas_iff)

lemma forbidden_Nil_iff:
  "forbidden_errors files ia ff = [] \<longleftrightarrow>
   (\<forall>i \<in> fst ` set ff. \<exists>a. dget ia i = Some a \<and> \<not> set a \<subseteq> set (code_insts files i))"
proof -
  have "(case dget ff i of None \<Rightarrow> [] | Some (p, ln) \<Rightarrow> f p ln) = [] \<longleftrightarrow> f (fst (the (dget ff i))) (snd (the (dget ff i))) = []"
    if "i \<in> fst ` set ff" for i and f :: "string \<Rightarrow> nat \<Rightarrow> issue list"
    using that by (cases "dget ff i") (auto simp: map_of_eq_None_iff)
  then show ?thesis
    unfolding forbidden_errors_def concat_map_Nil_iff
    by (intro ball_cong) (auto split: option.splits)
qed

lemma set_list_ids: "set (list_ids cf) = ref_id ` set (cf_refs cf)"
proof -
  have "set (foldl (\<lambda>ids r. sadd (ref_id r) ids) acc rs) = set acc \<union> ref_id ` set rs" for acc rs
    by (induction rs arbitrary: acc) auto
  from this [of "[]"] show ?thesis by (simp add: list_ids_def)
qed

lemma ref_ids_all_refs: "ref_id ` snd ` set (all_refs files) = set (code_ids files)"
  by (auto simp: all_refs_def code_ids_def set_list_ids image_image image_UN)

lemma dom_code_inst_by_id:
  "fst ` set (case dget (code_inst_by_id d bs) i of None \<Rightarrow> [] | Some x \<Rightarrow> x) =
   fst ` set (case dget d i of None \<Rightarrow> [] | Some x \<Rightarrow> x) \<union> {b_inst b | p b. (p, b) \<in> set bs \<and> b_id b = i}"
proof (induction d bs rule: code_inst_by_id.induct)
  case (2 d p b bs)
  then show ?case by (cases "b_id b = i") auto
qed simp

lemma present_errors_Nil_iff:
  "concat (map (\<lambda>x. case dget code x of None \<Rightarrow> [] | Some (p, ln) \<Rightarrow> [f x p ln])
     (sorted_strs (filter (\<lambda>x. x \<notin> A) (map fst code)))) = [] \<longleftrightarrow> fst ` set code \<subseteq> A"
proof -
  have "(case dget code x of None \<Rightarrow> [] | Some (p, ln) \<Rightarrow> [f x p ln]) \<noteq> []" if "x \<in> fst ` set code" for x
    using that by (cases "dget code x") (auto simp: map_of_eq_None_iff)
  then show ?thesis unfolding concat_map_Nil_iff by auto
qed

lemma inst_errors_for_Nil_iff:
  "inst_errors_for by_id (i, insts) = [] \<longleftrightarrow>
   set insts = fst ` set (case dget by_id i of None \<Rightarrow> [] | Some x \<Rightarrow> x)"
  unfolding inst_errors_for_def Let_def prod.case append_is_Nil_conv present_errors_Nil_iff
  by (auto simp: filter_empty_conv)

lemma set_code_insts: "set (code_insts files i) = {b_inst b | p b. (p, b) \<in> set (all_blocks files) \<and> b_id b = i}"
  by (force simp: code_insts_def)

lemma inst_errors_Nil_iff:
  "inst_errors files insts = [] \<longleftrightarrow> (\<forall>(i, is) \<in> set insts. set is = set (code_insts files i))"
proof -
  have "inst_errors_for (code_inst_by_id [] (all_blocks files)) (i, is) = [] \<longleftrightarrow>
      set is = set (code_insts files i)" for i "is"
    unfolding inst_errors_for_Nil_iff dom_code_inst_by_id set_code_insts by simp
  then show ?thesis unfolding inst_errors_def concat_map_Nil_iff by auto
qed


text \<open>A sample code file: one scope marker and one block, both for the same ID.\<close>

definition sample_code :: code_file where
  "sample_code = parse_markers [''# @cpt-algo:cpt-a-algo-b:p1'', ''# @cpt-begin:cpt-a-algo-b:p1:inst-x'',
     ''x = 1'', ''# @cpt-end:cpt-a-algo-b:p1:inst-x''] (new_code_file ''f.py'')"


end
