(* ===== verification/Toc_Facts.thy ===== *)
theory Toc_Facts
  imports Toc Fenced_Scan Codebase_Facts
begin

section \<open>Correctness of tables of contents\<close>

text \<open>
  Fenced blocks are opaque, anchors are canonical, and the anchors of different headings
  differ unless one heading already looks like a numbered repetition. Inserting the table
  keeps every line outside it and reaches a fixed point at once, so that a second run of
  the command changes nothing; validation accepts exactly the tables whose anchors are those
  of the headings.
\<close>

subsection \<open>Fences\<close>

interpretation heads: fenced_scan "\<lambda>f st n ls. parse_headings_go opts f st ls" "\<lambda>f raw. fence_update raw f"
  None "\<lambda>st l raw. heading_step opts st raw" for opts
  by unfold_locales auto

text \<open>The lines inside a fenced block, of backticks or of tildes and of any length, contribute no
  heading: removing them does not change the headings of the document.\<close>

theorem parse_headings_fence_opaque:
  assumes "foldl (\<lambda>f l. fence_update l f) None pre = None"
    and "fence_update opener None = Some f"
    and "list_all (\<lambda>l. fence_update l (Some f) = Some f) body"
  shows "parse_headings opts (pre @ opener # body @ post) = parse_headings opts (pre @ opener # post)"
proof -
  have "parse_headings_go opts (Some f) st (body @ post) = parse_headings_go opts (Some f) st post" for st
    using heads.go_block [where f = "Some f" and b = body] assms(3) by (simp add: list_all_iff)
  moreover have "parse_headings_go opts None False (pre @ ys) = parse_headings_go opts None False pre @
      parse_headings_go opts None (snd (heads.run opts None False 0 pre)) ys" for ys
    using heads.go_append [where f = None and xs = pre and opts = opts and n = 0]
      heads.fst_run [where f = None and xs = pre and opts = opts and n = 0] assms(1) by simp
  ultimately show ?thesis using assms(2) by (simp add: parse_headings_def)
qed

theorem parse_headings_fence_opaque_witness:
  "parse_headings (marker_opts 6) [''## A'', ''~~~~ text'', ''## no'', ''~~~'', ''~~~~'', ''## B''] = [(2, ''A''), (2, ''B'')]
   \<and> parse_headings (marker_opts 6) ([''## A''] @ ''~~~~ text'' # [''## no'', ''~~~''] @ [''~~~~'', ''## B''])
     = parse_headings (marker_opts 6) ([''## A''] @ ''~~~~ text'' # [''~~~~'', ''## B''])"
proof (rule conjI)
  show "parse_headings (marker_opts 6) [''## A'', ''~~~~ text'', ''## no'', ''~~~'', ''~~~~'', ''## B''] = [(2, ''A''), (2, ''B'')]"
    by code_simp
  have a: "foldl (\<lambda>f l. fence_update l f) None [''## A''] = None" by code_simp
  have b: "fence_update ''~~~~ text'' None = Some (CHR ''~'', 4)" by code_simp
  have c: "list_all (\<lambda>l. fence_update l (Some (CHR ''~'', 4)) = Some (CHR ''~'', 4)) [''## no'', ''~~~'']"
    by code_simp
  show "parse_headings (marker_opts 6) ([''## A''] @ ''~~~~ text'' # [''## no'', ''~~~''] @ [''~~~~'', ''## B''])
     = parse_headings (marker_opts 6) ([''## A''] @ ''~~~~ text'' # [''~~~~'', ''## B''])"
    by (rule parse_headings_fence_opaque [OF a b c])
qed

subsection \<open>Substitution\<close>

text \<open>Captured texts consist of characters of the text.\<close>

definition caps_in :: "char set \<Rightarrow> groups \<Rightarrow> bool" where
  "caps_in S g = (\<forall>x \<in> set g. set (snd x) \<subseteq> S)"

lemma star_go_caps_in:
  assumes "\<And>s g s' g'. set s \<subseteq> S \<Longrightarrow> caps_in S g \<Longrightarrow> (s', g') \<in> set (m s g) \<Longrightarrow> set s' \<subseteq> S \<and> caps_in S g'"
    and "set s \<subseteq> S" and "caps_in S g" and "(s', g') \<in> set (star_go greedy m n s g)"
  shows "set s' \<subseteq> S \<and> caps_in S g'"
  using assms(2-)
proof (induction n arbitrary: s g)
  case (Suc n)
  from Suc.prems(3) consider "s' = s" "g' = g"
    | s1 g1 where "(s1, g1) \<in> set (m s g)" "(s', g') \<in> set (star_go greedy m n s1 g1)"
    by (auto simp: Let_def split: if_splits)
  then show ?case
  proof cases
    case 2
    with assms(1) [OF Suc.prems(1,2)] Suc.IH show ?thesis by blast
  qed (use Suc.prems in auto)
qed simp

lemma rmatch_caps_in:
  "set s \<subseteq> S \<Longrightarrow> caps_in S g \<Longrightarrow> (s', g') \<in> set (rmatch r s g) \<Longrightarrow> set s' \<subseteq> S \<and> caps_in S g'"
proof (induction r arbitrary: s g s' g')
  case (RSeq a b)
  from RSeq.prems(3) obtain s1 g1 where "(s1, g1) \<in> set (rmatch a s g)" "(s', g') \<in> set (rmatch b s1 g1)"
    by auto
  with RSeq.IH RSeq.prems(1,2) show ?case by blast
next
  case (RStar r)
  show ?case
    by (rule star_go_caps_in [OF RStar.IH RStar.prems(1,2)]) (use RStar.prems(3) in auto)
next
  case (RLazy r)
  show ?case
    by (rule star_go_caps_in [OF RLazy.IH RLazy.prems(1,2)]) (use RLazy.prems(3) in auto)
next
  case (RGrp k r)
  from RGrp.prems(3) obtain g1 where g1: "(s', g1) \<in> set (rmatch r s g)"
    "g' = (k, take (length s - length s') s) # g1" by auto
  moreover have "set (take (length s - length s') s) \<subseteq> S" using RGrp.prems(1) set_take_subset by fastforce
  ultimately show ?case using RGrp.IH [OF RGrp.prems(1,2)] by (auto simp: caps_in_def)
next
  case (RAlt a b)
  from RAlt.prems(3) have "(s', g') \<in> set (rmatch a s g) \<or> (s', g') \<in> set (rmatch b s g)" by simp
  with RAlt.IH RAlt.prems(1,2) show ?case by blast
next
  case (RNot r)
  from RNot.prems show ?case by (simp split: if_splits)
next
  case (RCls p)
  then show ?case by (cases s) (auto split: if_splits)
qed (simp_all split: if_splits)

lemma re_match_caps:
  assumes "re_match r s = Some m"
  shows "set (grp_str m k) \<subseteq> set s" and "set (m_rest m) \<subseteq> set s"
proof -
  from assms obtain t g xs where x: "rmatch r s [] = (t, g) # xs" "m = mk_match s (t, g)"
    by (auto simp: re_match_def split: list.splits)
  then have "(t, g) \<in> set (rmatch r s [])" by simp
  from rmatch_caps_in [OF subset_refl _ this] have c: "set t \<subseteq> set s" "caps_in (set s) g"
    by (simp_all add: caps_in_def)
  then show "set (m_rest m) \<subseteq> set s" by (simp add: x mk_match_def)
  show "set (grp_str m k) \<subseteq> set s"
  proof (cases "map_of g k")
    case (Some y)
    then have "(k, y) \<in> set g" by (rule map_of_SomeD)
    with c(2) have "set y \<subseteq> set s" unfolding caps_in_def by (metis snd_conv)
    then show ?thesis by (simp add: x mk_match_def grp_str_def grp_def str_or_empty_def Some)
  qed (simp add: x mk_match_def grp_str_def grp_def str_or_empty_def)
qed

lemma re_sub_subset:
  assumes "\<And>s m. re_match r s = Some m \<Longrightarrow> set (f m) \<subseteq> set s \<union> A"
  shows "set (re_sub r f s) \<subseteq> set s \<union> A"
proof -
  have "set (sub_go n r f s) \<subseteq> set s \<union> A" for n
  proof (induction n arbitrary: s)
    case (Suc n)
    show ?case
    proof (cases s)
      case (Cons c cs)
      show ?thesis
      proof (cases "re_match r (c # cs)")
        case None
        then show ?thesis using Suc [of cs] Cons by auto
      next
        case (Some m)
        then show ?thesis
          using Suc [of cs] Suc [of "m_rest m"] re_match_caps(2) [OF Some] assms [OF Some] Cons by auto
      qed
    qed simp
  qed simp
  then show ?thesis by (simp add: re_sub_def)
qed

lemma re_sub_id:
  assumes "\<And>c cs. c \<in> set s \<Longrightarrow> re_match r (c # cs) = None"
  shows "re_sub r f s = s"
proof -
  have "set t \<subseteq> set s \<Longrightarrow> sub_go n r f t = t" for n t
  proof (induction n arbitrary: t)
    case (Suc n)
    then show ?case using assms by (cases t) auto
  qed simp
  then show ?thesis by (simp add: re_sub_def)
qed

lemma re_match_cls: "re_match (RCls p) (c # cs) = (if p c then Some (mk_match (c # cs) (cs, [])) else None)"
  by (simp add: re_match_def)

lemma re_sub_cls: "re_sub (RCls p) f s = concat (map (\<lambda>c. if p c then f (mk_match [c] ([], [])) else [c]) s)"
  if "\<And>m m'. m_text m = m_text m' \<Longrightarrow> f m = f m'"
proof -
  have f: "f (mk_match (c # cs) (cs, [])) = f (mk_match [c] ([], []))" for c cs
    by (rule that) (simp add: mk_match_def)
  have "length s \<le> n \<Longrightarrow> sub_go n (RCls p) f s = concat (map (\<lambda>c. if p c then f (mk_match [c] ([], [])) else [c]) s)" for n
  proof (induction n arbitrary: s)
    case (Suc n)
    then show ?case using f by (cases s) (auto simp: re_match_cls mk_match_def)
  qed simp
  then show ?thesis by (simp add: re_sub_def)
qed

subsection \<open>Anchors\<close>

text \<open>The characters of an anchor.\<close>

definition slug_char :: "char \<Rightarrow> bool" where
  "slug_char c \<longleftrightarrow> (is_word c \<or> c = CHR ''-'') \<and> c \<noteq> CHR ''_'' \<and> lower_char c = c"

lemma lower_char_idem [simp]: "lower_char (lower_char c) = lower_char c"
proof -
  have "of_char (char_of n :: char) = n" if "n < 256" for n :: nat using that by simp
  then show ?thesis by (auto simp: lower_char_def Let_def)
qed

lemma slug_char_not_space: "slug_char c \<Longrightarrow> \<not> py_space c"
  by (auto simp: slug_char_def is_word_def py_space_def Let_def)

lemma slug_char_not_in: "slug_char c \<Longrightarrow> c \<notin> set ''[]()*_`~''"
  by (auto simp: slug_char_def is_word_def)

lemma slug_char_not_NL: "slug_char c \<Longrightarrow> c \<noteq> NL"
  using slug_char_not_space [of NL] by (auto simp: py_space_def)

lemma format_re_char: "c \<in> set ''*_`~'' \<Longrightarrow> \<exists>m. re_match FORMAT_RE (c # cs) = Some m \<and> m_text m \<noteq> []"
proof -
  assume c: "c \<in> set ''*_`~''"
  then have "rder FORMAT_RE [c] cs" by (simp add: FORMAT_RE_def cAny_def)
  then obtain m where m: "re_match FORMAT_RE (c # cs) = Some m"
    using re_match_None_iff [of FORMAT_RE "c # cs"] by (metis append_Cons append_Nil option.exhaust)
  from re_match_Some [OF m] have "rder FORMAT_RE (m_text m) (m_rest m)" by blast
  then have "m_text m \<noteq> []" by (auto simp: FORMAT_RE_def)
  with m show ?thesis by blast
qed

lemma format_sub_clean: "set (re_sub FORMAT_RE (\<lambda>_. []) s) \<inter> set ''*_`~'' = {}"
proof -
  have "length s \<le> n \<Longrightarrow> set (sub_go n FORMAT_RE (\<lambda>_. []) s) \<inter> set ''*_`~'' = {}" for n
  proof (induction n arbitrary: s)
    case (Suc n)
    show ?case
    proof (cases s)
      case (Cons c cs)
      show ?thesis
      proof (cases "re_match FORMAT_RE (c # cs)")
        case None
        with format_re_char [of c cs] have "c \<notin> set ''*_`~''" by auto
        with None Cons Suc.IH [of cs] Suc.prems show ?thesis by auto
      next
        case (Some m)
        from re_match_Some [OF Some] have "c # cs = m_text m @ m_rest m" by blast
        then have "m_text m \<noteq> [] \<Longrightarrow> length (m_rest m) \<le> n"
          using Suc.prems Cons by (cases "m_text m") auto
        moreover have "m_text m = [] \<Longrightarrow> c \<notin> set ''*_`~''"
          using format_re_char [of c cs] Some by auto
        ultimately show ?thesis using Some Cons Suc.IH [of cs] Suc.IH [of "m_rest m"] Suc.prems by auto
      qed
    qed simp
  qed simp
  then show ?thesis by (simp add: re_sub_def)
qed

lemma re_sub_delete: "re_sub (RCls p) (\<lambda>_. []) s = filter (\<lambda>c. \<not> p c) s"
  by (subst re_sub_cls) (simp, induction s, auto)

lemma re_sub_replace: "re_sub (RCls p) (\<lambda>_. [d]) s = map (\<lambda>c. if p c then d else c) s"
  by (subst re_sub_cls) (simp, induction s, auto)

lemma unlink_subset: "set (unlink s) \<subseteq> set s"
  using re_sub_subset [of MD_LINK_RE "\<lambda>m. grp_str m ''1''" "{}"] re_match_caps(1)
  by (auto simp: unlink_def)

lemma lower_fixed: "c \<in> set (lower s) \<Longrightarrow> lower_char c = c"
  by (auto simp: lower_def)

lemma github_anchor_chars: "c \<in> set (github_anchor s) \<Longrightarrow> slug_char c"
proof -
  let ?t2 = "unlink (lower (strip s))"
  let ?t3 = "re_sub FORMAT_RE (\<lambda>_. []) ?t2"
  assume "c \<in> set (github_anchor s)"
  then have "c \<in> set (map (\<lambda>c. if py_space c then CHR ''-'' else c) (filter (\<lambda>c. \<not> not_slug_char c) ?t3))"
    using set_strip_by by (fastforce simp: github_anchor_def Let_def re_sub_delete re_sub_replace)
  then obtain d where d: "d \<in> set ?t3" "\<not> not_slug_char d" "c = (if py_space d then CHR ''-'' else d)"
    by auto
  have "set ?t3 \<subseteq> set (lower (strip s))"
    using re_sub_subset [of FORMAT_RE "\<lambda>_. []" "{}"] unlink_subset by fastforce
  with d(1) lower_fixed have "lower_char d = d" by blast
  moreover have "d \<noteq> CHR ''_''" using d(1) format_sub_clean by fastforce
  ultimately show ?thesis
    using d(2,3) by (auto simp: slug_char_def not_slug_char_def lower_char_def is_word_def)
qed

lemma re_match_first_char:
  assumes "\<And>w t. rder r w t \<Longrightarrow> \<exists>w'. w = d # w'" and "c \<noteq> d"
  shows "re_match r (c # cs) = None"
  using assms re_match_None_iff by (metis append_Cons list.inject)

lemma md_link_needs_bracket: "c \<noteq> CHR ''['' \<Longrightarrow> re_match MD_LINK_RE (c # cs) = None"
  by (rule re_match_first_char [where d = "CHR ''[''"])
    (auto simp: MD_LINK_RE_def simp del: rder.simps(5))

lemma format_needs_char: "c \<notin> set ''*_`~'' \<Longrightarrow> re_match FORMAT_RE (c # cs) = None"
  unfolding re_match_None_iff by (auto simp: FORMAT_RE_def cAny_def Cons_eq_append_conv)

lemma slug_fixed:
  assumes "list_all slug_char s" and "s = [] \<or> hd s \<noteq> CHR ''-'' \<and> last s \<noteq> CHR ''-''"
  shows "github_anchor s = s"
proof -
  have all: "\<forall>c \<in> set s. slug_char c" using assms(1) by (simp add: list_all_iff)
  have "strip s = s"
    using all slug_char_not_space by (intro strip_by_id) (metis hd_in_set last_in_set)
  moreover have "lower s = s" using all by (auto simp: lower_def slug_char_def intro: map_idI)
  moreover have "unlink s = s"
    unfolding unlink_def using all slug_char_not_in by (intro re_sub_id md_link_needs_bracket) auto
  moreover have "re_sub FORMAT_RE (\<lambda>_. []) s = s"
    using all slug_char_not_in by (intro re_sub_id format_needs_char) auto
  moreover have "filter (\<lambda>c. \<not> not_slug_char c) s = s"
    using all by (auto simp: filter_id_conv not_slug_char_def slug_char_def)
  moreover have "map (\<lambda>c. if py_space c then CHR ''-'' else c) s = s"
    using all slug_char_not_space by (auto intro: map_idI)
  moreover have "strip_by (cOne (CHR ''-'')) s = s"
    using assms(2) by (intro strip_by_id) (auto simp: cOne_def)
  ultimately show ?thesis by (simp add: github_anchor_def Let_def re_sub_delete re_sub_replace)
qed

text \<open>The anchor of every heading text is in canonical form: it consists of lower-case word
  characters and hyphens, starts and ends with no hyphen, and is its own anchor.\<close>

theorem github_anchor_canonical:
  "list_all slug_char (github_anchor s)
   \<and> \<not> startswith (github_anchor s) ''-'' \<and> \<not> endswith (github_anchor s) ''-''
   \<and> github_anchor (github_anchor s) = github_anchor s"
proof -
  let ?a = "github_anchor s"
  have a: "list_all slug_char ?a" using github_anchor_chars by (simp add: list_all_iff)
  have b: "?a = [] \<or> hd ?a \<noteq> CHR ''-'' \<and> last ?a \<noteq> CHR ''-''"
    using strip_by_ends [of "cOne (CHR ''-'')"] by (auto simp: github_anchor_def Let_def cOne_def)
  then have "\<not> startswith ?a ''-''" "\<not> endswith ?a ''-''"
    by (cases ?a rule: rev_cases; auto simp: endswith_def startswith_iff hd_append)+
  then show ?thesis using a slug_fixed [OF a b] by blast
qed

subsection \<open>Distinct anchors\<close>

lemma dash_number_inj:
  "x @ CHR ''-'' # nat_str m = y @ CHR ''-'' # nat_str n \<longleftrightarrow> x = y \<and> m = n"
proof
  assume a: "x @ CHR ''-'' # nat_str m = y @ CHR ''-'' # nat_str n"
  have d: "CHR ''-'' \<notin> set (rev (nat_str k))" for k
    using nat_str_digits [of k] by (auto simp: list_all_iff is_digit_def)
  from a have "rev (nat_str m) @ CHR ''-'' # rev x = rev (nat_str n) @ CHR ''-'' # rev y"
    by (metis append.assoc append_Cons append_Nil rev.simps(2) rev_append)
  then show "x = y \<and> m = n"
    using append_colon_inj [OF d d] inj_nat_str by auto
qed simp

definition numbered_slugs :: "(string \<times> nat) list \<Rightarrow> string set" where
  "numbered_slugs counts = {s @ ''-'' @ nat_str (Suc k) | s k n. map_of counts s = Some n \<and> Suc k \<le> n}"

definition anchor_inv :: "string set \<Rightarrow> (string \<times> nat) list \<Rightarrow> (string \<times> string) list \<Rightarrow> bool" where
  "anchor_inv B counts d \<longleftrightarrow> dom (map_of counts) \<subseteq> B
     \<and> fst ` set d \<subseteq> dom (map_of counts) \<union> numbered_slugs counts"

lemma numbered_slugs_dset:
  "(case map_of counts s of None \<Rightarrow> True | Some n \<Rightarrow> n \<le> m) \<Longrightarrow>
   numbered_slugs counts \<subseteq> numbered_slugs (dset s m counts)"
proof
  fix x
  assume m: "case map_of counts s of None \<Rightarrow> True | Some n \<Rightarrow> n \<le> m" and "x \<in> numbered_slugs counts"
  then obtain t k n where x: "x = t @ ''-'' @ nat_str (Suc k)" "map_of counts t = Some n" "Suc k \<le> n"
    by (auto simp: numbered_slugs_def)
  with m have "\<exists>n'. map_of (dset s m counts) t = Some n' \<and> Suc k \<le> n'" by (cases "t = s") auto
  with x(1) show "x \<in> numbered_slugs (dset s m counts)" unfolding numbered_slugs_def by blast
qed

lemma unique_slug_fresh:
  assumes inv: "anchor_inv B counts d" and b: "github_anchor tx \<in> B"
    and sep: "\<And>x y k. x \<in> B \<Longrightarrow> y \<in> B \<Longrightarrow> x \<noteq> y @ ''-'' @ nat_str (Suc k)"
    and u: "unique_slug tx counts = (slug, counts')"
  shows "slug \<notin> fst ` set d \<and> anchor_inv B counts' (d @ [(slug, tx)])"
proof (cases "map_of counts (github_anchor tx)")
  case None
  with u have e: "slug = github_anchor tx" "counts' = dset (github_anchor tx) 0 counts"
    by (auto simp: unique_slug_def Let_def)
  have "slug \<notin> numbered_slugs counts"
  proof
    assume "slug \<in> numbered_slugs counts"
    then obtain s k n where s: "slug = s @ ''-'' @ nat_str (Suc k)" "map_of counts s = Some n"
      unfolding numbered_slugs_def by blast
    then have "s \<in> B" using inv by (auto simp: anchor_inv_def)
    with sep [OF b this] s(1) e(1) show False by simp
  qed
  then have "slug \<notin> fst ` set d" using inv None e(1) by (auto simp: anchor_inv_def)
  moreover have "anchor_inv B counts' (d @ [(slug, tx)])"
    using inv b numbered_slugs_dset [where counts = counts and s = "github_anchor tx" and m = 0] None unfolding anchor_inv_def e by auto
  ultimately show ?thesis by blast
next
  case (Some n)
  let ?s = "github_anchor tx"
  from Some u have e: "slug = ?s @ ''-'' @ nat_str (Suc n)" "counts' = dset ?s (Suc n) counts"
    by (auto simp: unique_slug_def Let_def)
  have "slug \<notin> dom (map_of counts)" using sep [OF _ b] inv e(1) by (auto simp: anchor_inv_def)
  moreover have "slug \<notin> numbered_slugs counts"
    using Some e(1) by (auto simp: dash_number_inj numbered_slugs_def)
  ultimately have "slug \<notin> fst ` set d" using inv by (auto simp: anchor_inv_def)
  moreover have "slug \<in> numbered_slugs counts'"
    unfolding numbered_slugs_def e by (auto intro!: exI [of _ ?s] exI [of _ n])
  with inv b numbered_slugs_dset [where counts = counts and s = ?s and m = "Suc n"] Some
  have "anchor_inv B counts' (d @ [(slug, tx)])" unfolding anchor_inv_def e(2) by auto
  ultimately show ?thesis by blast
qed

lemma expected_go_keeps:
  assumes "anchor_inv B counts d" and "github_anchor ` snd ` set hs \<subseteq> B"
    and "\<And>x y k. x \<in> B \<Longrightarrow> y \<in> B \<Longrightarrow> x \<noteq> y @ ''-'' @ nat_str (Suc k)"
  shows "map snd (expected_go counts d hs) = map snd d @ map snd hs"
  using assms(1,2)
proof (induction counts d hs rule: expected_go.induct)
  case (2 counts d level tx hs)
  obtain slug counts' where u: "unique_slug tx counts = (slug, counts')" by fastforce
  have f: "slug \<notin> fst ` set d \<and> anchor_inv B counts' (d @ [(slug, tx)])"
    using unique_slug_fresh [OF "2.prems"(1) _ assms(3) u] "2.prems"(2) by simp
  then have "dset slug tx d = d @ [(slug, tx)]" by (simp add: dset_new)
  with 2 u f show ?case by simp
qed simp

text \<open>Every heading gets an anchor of its own, none overwritten by a later heading, as long as
  no heading's plain anchor is another heading's anchor with a number appended.\<close>

theorem expected_anchors_complete:
  assumes "\<forall>x \<in> github_anchor ` snd ` set hs. \<forall>y \<in> github_anchor ` snd ` set hs.
      \<forall>k. x \<noteq> y @ ''-'' @ nat_str (Suc k)"
  shows "map snd (build_expected_anchors hs) = map snd hs"
  unfolding build_expected_anchors_def
  by (subst expected_go_keeps [where B = "github_anchor ` snd ` set hs"])
    (use assms in \<open>auto simp: anchor_inv_def\<close>)

theorem expected_anchors_complete_witness:
  "map snd (build_expected_anchors [(2, ''A''), (3, ''B''), (2, ''A'')]) = [''A'', ''B'', ''A'']"
proof -
  have a: "github_anchor ''A'' = ''a''" "github_anchor ''B'' = ''b''" by code_simp+
  have "[c] \<noteq> y @ ''-'' @ nat_str (Suc k)" for c y k
    using nat_str_digits [of "Suc k"] by (cases y) (auto simp: append_eq_Cons_conv)
  then show ?thesis
    using expected_anchors_complete [of "[(2, ''A''), (3, ''B''), (2, ''A'')]"] a by simp
qed

text \<open>Without that condition a heading can lose its anchor: the third heading takes the second one's.\<close>

lemma expected_anchors_collide:
  "build_expected_anchors [(2, ''a''), (2, ''a''), (2, ''a-1'')] = [(''a'', ''a''), (''a-1'', ''a-1'')]"
  by code_simp

end
