(* ===== verification/Toc_Insert.thy ===== *)
theory Toc_Insert
  imports Toc_Facts
begin

section \<open>Inserting and validating a table of contents\<close>

text \<open>
  The lines that the insertion adds are plain: they change no fence state, are no heading
  and no marker, so the document's headings are the same before and after, and a second
  insertion produces the same text.
\<close>

subsection \<open>Plain lines\<close>

definition plain :: "string \<Rightarrow> bool" where
  "plain l \<longleftrightarrow> NL \<notin> set l \<and> (l = [] \<or> (\<exists>k c x. l = replicate k (CHR '' '') @ c # x \<and> c \<in> set ''-<''))"

lemma plain_hd: "plain l \<Longrightarrow> l = [] \<or> hd l \<in> set '' -<''"
proof -
  assume "plain l"
  moreover have "hd (replicate k (CHR '' '') @ c # x) \<in> set '' -<''" if "c \<in> set ''-<''" for k c x
    using that by (cases k) auto
  ultimately show ?thesis by (auto simp: plain_def)
qed

lemma plain_lstrip: "plain l \<Longrightarrow> lstrip l = [] \<or> hd (lstrip l) \<in> set ''-<''"
proof -
  assume "plain l"
  moreover have "dropWhile py_space (replicate k (CHR '' '') @ c # x) = c # x" if "c \<in> set ''-<''" for k c x
    using that by (induction k) (auto simp: py_space_def)
  ultimately show ?thesis by (auto simp: plain_def lstrip_by_def)
qed

lemma rstrip_NL: "NL \<notin> set l \<Longrightarrow> rstrip_by (cOne NL) l = l"
  by (cases l rule: rev_cases) (auto simp: rstrip_by_def cOne_def)

lemma re_match_none_hd:
  assumes "\<And>w t. rder r w t \<Longrightarrow> \<exists>c w'. w = c # w' \<and> c \<in> D" and "s = [] \<or> hd s \<notin> D"
  shows "re_match r s = None"
  unfolding re_match_None_iff using assms by (metis Nil_is_append_conv list.distinct(1) append_Cons list.sel(1))

lemma rder_FENCE_RE: "rder FENCE_RE w t \<Longrightarrow> \<exists>c w'. w = c # w' \<and> c \<in> set ''`~''"
  by (auto simp: FENCE_RE_def simp del: rder.simps(5))

lemma rder_hashes:
  "rder (RSeq (RCls (cOne (CHR ''#''))) r) w t \<Longrightarrow> \<exists>w'. w = CHR ''#'' # w'"
  by (auto simp: cOne_def)

lemma rder_TOC_HEADING_RE: "rder TOC_HEADING_RE w t \<Longrightarrow> \<exists>c w'. w = c # w' \<and> c \<in> {CHR ''#''}"
  by (auto simp: TOC_HEADING_RE_def cOne_def simp del: rder.simps(5))

lemma rder_TOC_SECTION_RE: "rder TOC_SECTION_RE w t \<Longrightarrow> \<exists>c w'. w = c # w' \<and> c \<in> {CHR ''#''}"
  by (auto simp: TOC_SECTION_RE_def simp del: rder.simps(5))

lemma plain_fence: "plain l \<Longrightarrow> fence_update l f = f"
proof -
  assume p: "plain l"
  then have "rstrip_by (cOne NL) l = l" by (intro rstrip_NL) (simp add: plain_def)
  moreover have "re_match FENCE_RE (lstrip l) = None"
    using plain_lstrip [OF p] by (intro re_match_none_hd [OF rder_FENCE_RE]) auto
  ultimately show ?thesis by (simp add: fence_update_def Let_def)
qed

lemma plain_heading: "plain l \<Longrightarrow> re_match TOC_HEADING_RE l = None"
  using plain_hd [of l] by (intro re_match_none_hd [OF rder_TOC_HEADING_RE]) auto

lemma plain_section: "plain l \<Longrightarrow> re_match TOC_SECTION_RE l = None"
  using plain_hd [of l] by (intro re_match_none_hd [OF rder_TOC_SECTION_RE]) auto

lemma parse_headings_plain:
  "list_all plain b \<Longrightarrow> parse_headings_go opts f st (xs @ b @ ys) = parse_headings_go opts f st (xs @ ys)"
proof (induction xs arbitrary: f st)
  case Nil
  then show ?case by (induction b) (auto simp: plain_fence heading_step_def plain_heading)
qed auto

lemma fenced_find_plain_None:
  assumes "list_all plain b" and "\<And>l. plain l \<Longrightarrow> \<not> P l" and "fenced_find P f i (xs @ ys) = None"
  shows "fenced_find P f j (xs @ b @ ys) = None"
  using assms(3)
proof (induction xs arbitrary: f i j)
  case Nil
  have "fenced_find P f i ys = None \<Longrightarrow> fenced_find P f j ys = None" for f i j
    by (induction ys arbitrary: f i j) (auto split: if_splits)
  with Nil have "fenced_find P f j' ys = None" for j' by simp
  with assms(1) show ?case
    by (induction b arbitrary: j) (auto simp: plain_fence assms(2))
qed (auto split: if_splits)

subsection \<open>The lines of a table\<close>

definition bullet :: "string \<Rightarrow> bool" where
  "bullet l \<longleftrightarrow> NL \<notin> set l \<and> (\<exists>k x. l = replicate k (CHR '' '') @ CHR ''-'' # x)"

lemma bullet_plain: "bullet l \<Longrightarrow> plain l"
  by (auto simp: bullet_def plain_def)

lemma bullet_strip: "bullet l \<Longrightarrow> strip l \<noteq> CHR ''<'' # x"
proof -
  assume "bullet l"
  then obtain k y where l: "l = replicate k (CHR '' '') @ CHR ''-'' # y" by (auto simp: bullet_def)
  have "dropWhile py_space (replicate k (CHR '' '') @ CHR ''-'' # y) = CHR ''-'' # y"
    by (induction k) (auto simp: py_space_def)
  then have "strip l = rstrip (CHR ''-'' # y)" by (simp add: strip_by_def lstrip_by_def l)
  then show ?thesis using hd_rstrip [of py_space "CHR ''-'' # y"] by auto
qed

lemma unique_slug_no_NL: "NL \<notin> set (fst (unique_slug tx counts))"
proof -
  have "NL \<notin> set (github_anchor tx)" using github_anchor_chars slug_char_not_NL by blast
  moreover have "NL \<notin> set (nat_str n)" for n
    using nat_str_digits [of n] by (auto simp: list_all_iff is_digit_def)
  ultimately show ?thesis by (auto simp: unique_slug_def Let_def split: option.splits)
qed

lemma toc_bullets_bullet:
  assumes "\<forall>h \<in> set hs. NL \<notin> set (snd h)"
  shows "list_all bullet (toc_bullets indent minl counts hs)"
  using assms
proof (induction indent minl counts hs rule: toc_bullets.induct)
  case (2 indent minl counts level tx hs)
  obtain slug counts' where u: "unique_slug tx counts = (slug, counts')" by fastforce
  have "NL \<notin> set (toc_link tx slug)"
    using "2.prems" unlink_subset [of tx] unique_slug_no_NL [of tx counts] u by (auto simp: toc_link_def)
  then have "bullet (replicate (indent * (level - minl)) (CHR '' '') @ ''- '' @ toc_link tx slug)"
    by (auto simp: bullet_def)
  with 2 u show ?case by simp
qed simp

lemma length_toc_bullets [simp]: "length (toc_bullets indent minl counts hs) = length hs"
  by (induction indent minl counts hs rule: toc_bullets.induct) (auto split: prod.splits)

lemma parse_headings_no_NL:
  "\<forall>l \<in> set ls. NL \<notin> set l \<Longrightarrow> h \<in> set (parse_headings_go opts f st ls) \<Longrightarrow> NL \<notin> set (snd h)"
proof (induction ls arbitrary: f st)
  case (Cons l ls)
  have step: "NL \<notin> set (snd h)" if h: "h \<in> set (snd (heading_step opts st l))"
  proof -
    from h obtain m where m: "re_match TOC_HEADING_RE l = Some m" "snd h = strip (grp_str m ''2'')"
      by (auto simp: heading_step_def Let_def split: option.splits if_splits)
    with re_match_caps(1) [OF m(1), of "''2''"] set_strip_by Cons.prems(1) show ?thesis by fastforce
  qed
  with Cons show ?case by (auto split: if_splits)
qed simp

lemma toc_lines_bullets:
  "list_all bullet (toc_lines indent False (parse_headings opts (split_on NL content)))"
proof -
  have "\<forall>h \<in> set (parse_headings opts (split_on NL content)). NL \<notin> set (snd h)"
    unfolding parse_headings_def using split_on_no_sep_mem by (intro ballI parse_headings_no_NL) blast
  then show ?thesis by (simp add: toc_lines_def toc_bullets_bullet)
qed

subsection \<open>What an insertion changes\<close>

lemma join_append:
  "xs \<noteq> [] \<Longrightarrow> ys \<noteq> [] \<Longrightarrow> join_with sep (xs @ ys) = join_with sep xs @ sep @ join_with sep ys"
proof (induction xs rule: induct_list012)
  case (2 x)
  then show ?case by (cases ys) auto
qed auto

lemma join_flat: "t \<noteq> [] \<Longrightarrow> join_with sep (a @ join_with sep t # b) = join_with sep (a @ t @ b)"
proof -
  assume t: "t \<noteq> []"
  have b: "join_with sep (join_with sep t # b) = join_with sep (t @ b)"
    using t join_append [of t b sep] join_append [of "[join_with sep t]" b sep] by (cases "b = []") auto
  show ?thesis
    using t b join_append [of a "join_with sep t # b" sep] join_append [of a "t @ b" sep]
    by (cases "a = []") auto
qed

lemma split_join_lines: "xs \<noteq> [] \<Longrightarrow> list_all (\<lambda>l. NL \<notin> set l) xs \<Longrightarrow> split_on NL (join_with [NL] xs) = xs"
  by (simp add: split_join list_all_iff)

lemma split_lines_no_NL: "list_all (\<lambda>l. NL \<notin> set l) (split_on NL content)"
  using split_on_no_sep_mem by (auto simp: list_all_iff)

lemma find_markers_Some:
  "find_markers (Some s) i ls = Some (s', e) \<Longrightarrow>
     s' = s \<and> i \<le> e \<and> e < i + length ls \<and> strip (ls ! (e - i)) = TOC_MARKER_END"
proof (induction ls arbitrary: i)
  case (Cons l ls)
  show ?case
  proof (cases "strip l = TOC_MARKER_END")
    case False
    with Cons.prems have "find_markers (Some s) (Suc i) ls = Some (s', e)" by simp
    from Cons.IH [OF this] show ?thesis by (auto simp: nth_Cons')
  qed (use Cons.prems in auto)
qed simp

lemma find_markers_bounds:
  "find_markers None i ls = Some (s, e) \<Longrightarrow> i \<le> s \<and> s < e \<and> e < i + length ls
     \<and> strip (ls ! (s - i)) = TOC_MARKER_START \<and> strip (ls ! (e - i)) = TOC_MARKER_END"
proof (induction ls arbitrary: i)
  case (Cons l ls)
  show ?case
  proof (cases "strip l = TOC_MARKER_START")
    case True
    with Cons.prems have "find_markers (Some i) (Suc i) ls = Some (s, e)" by simp
    from find_markers_Some [OF this] True show ?thesis by (auto simp: nth_Cons')
  next
    case False
    with Cons.prems have "find_markers None (Suc i) ls = Some (s, e)" by simp
    from Cons.IH [OF this] show ?thesis by (auto simp: nth_Cons' Suc_diff_le)
  qed
qed simp

definition toc_block :: "string list \<Rightarrow> string list" where
  "toc_block tls = [[], TOC_MARKER_START, []] @ tls @ [[], TOC_MARKER_END, []]"

text \<open>The lines of the table that is inserted into a document.\<close>

definition new_toc :: "nat \<Rightarrow> nat \<Rightarrow> string \<Rightarrow> string list" where
  "new_toc maxl indent content = toc_lines indent False (parse_headings (marker_opts maxl) (split_on NL content))"

lemma new_toc_ne: "parse_headings (marker_opts maxl) (split_on NL content) \<noteq> [] \<Longrightarrow> new_toc maxl indent content \<noteq> []"
  using length_toc_bullets by (metis length_0_conv new_toc_def toc_lines_def)

lemma new_toc_lines: "list_all bullet (new_toc maxl indent content)"
  by (simp add: new_toc_def toc_lines_bullets)

lemma bullet_no_NL: "list_all bullet ls \<Longrightarrow> list_all (\<lambda>l. NL \<notin> set l) ls"
  by (auto simp: list_all_iff bullet_def)

lemma insert_markers_lines:
  assumes "parse_headings (marker_opts maxl) (split_on NL content) \<noteq> []"
  shows "split_on NL (insert_toc_markers maxl indent content) =
    (let lines = split_on NL content; tls = new_toc maxl indent content
     in case find_markers None 0 lines of
          Some (s, e) \<Rightarrow> take (Suc s) lines @ [[]] @ tls @ [[]] @ drop e lines
        | None \<Rightarrow> take (insert_pos lines) lines @ toc_block tls @ drop (insert_pos lines) lines)"
proof -
  let ?lines = "split_on NL content" and ?tls = "new_toc maxl indent content"
  have bt: "build_toc indent False (parse_headings (marker_opts maxl) ?lines) = join_with [NL] ?tls"
    using assms by (simp add: build_toc_def new_toc_def)
  have no_NL: "list_all (\<lambda>l. NL \<notin> set l) (take k ?lines @ b @ drop j ?lines)"
    if "list_all (\<lambda>l. NL \<notin> set l) b" for k j b
    using that split_lines_no_NL [of content]
    by (auto simp: list_all_iff dest: in_set_takeD in_set_dropD)
  note tls = bullet_no_NL [OF new_toc_lines]
  show ?thesis
  proof (cases "find_markers None 0 ?lines")
    case None
    let ?p = "insert_pos ?lines"
    have "insert_toc_markers maxl indent content =
        join_with [NL] (take ?p ?lines @ toc_block ?tls @ drop ?p ?lines)"
      using assms None join_flat [OF new_toc_ne [OF assms], of "[NL]" "take ?p ?lines @ [[], TOC_MARKER_START, []]"]
      by (simp add: insert_toc_markers_def Let_def bt toc_block_def)
    moreover have "list_all (\<lambda>l. NL \<notin> set l) (toc_block ?tls)"
      using tls by (simp add: toc_block_def TOC_MARKER_START_def TOC_MARKER_END_def)
    then have "split_on NL (join_with [NL] (take ?p ?lines @ toc_block ?tls @ drop ?p ?lines)) =
        take ?p ?lines @ toc_block ?tls @ drop ?p ?lines"
      by (intro split_join_lines no_NL) (simp_all add: toc_block_def)
    ultimately show ?thesis using None by (simp add: Let_def)
  next
    case (Some se)
    obtain s e where se: "se = (s, e)" by fastforce
    have "insert_toc_markers maxl indent content =
        join_with [NL] (take (Suc s) ?lines @ ([[]] @ ?tls @ [[]]) @ drop e ?lines)"
      using assms Some se join_flat [OF new_toc_ne [OF assms], of "[NL]" "take (Suc s) ?lines @ [[]]"]
      by (simp add: insert_toc_markers_def Let_def bt)
    then show ?thesis
      using Some se tls no_NL [of "[[]] @ ?tls @ [[]]" "Suc s" e] by (simp add: split_join_lines Let_def)
  qed
qed

text \<open>C25. \<open>insert_toc_markers\<close> keeps the document: when it has a heading of level two or more,
  the new lines are those of the table, between the existing markers or with a new pair of
  markers, and every line outside the markers stays where it was.\<close>

theorem insert_toc_markers_frame:
  assumes "parse_headings (marker_opts maxl) (split_on NL content) \<noteq> []"
  shows "\<exists>pre mid post block.
      split_on NL content = pre @ mid @ post
    \<and> split_on NL (insert_toc_markers maxl indent content) = pre @ block @ post
    \<and> (if find_markers None 0 (split_on NL content) = None
       then mid = [] \<and> block = toc_block (new_toc maxl indent content)
       else strip (last pre) = TOC_MARKER_START \<and> strip (hd post) = TOC_MARKER_END
          \<and> block = [[]] @ new_toc maxl indent content @ [[]])"
proof (cases "find_markers None 0 (split_on NL content)")
  case None
  let ?p = "insert_pos (split_on NL content)"
  show ?thesis
    using insert_markers_lines [OF assms, of indent] None
    by (intro exI [of _ "take ?p (split_on NL content)"] exI [of _ "[]"] exI [of _ "drop ?p (split_on NL content)"]
      exI [of _ "toc_block (new_toc maxl indent content)"]) (simp add: Let_def)
next
  case (Some se)
  let ?lines = "split_on NL content"
  obtain s e where se: "se = (s, e)" by fastforce
  from find_markers_bounds [of 0] Some se have b: "s < e" "e < length ?lines"
    "strip (?lines ! s) = TOC_MARKER_START" "strip (?lines ! e) = TOC_MARKER_END" by auto
  from b(1) have "take (Suc s) ?lines = take (Suc s) (take e ?lines)" by (simp add: min_def)
  then have "take (Suc s) ?lines @ slice (Suc s) e ?lines @ drop e ?lines = take e ?lines @ drop e ?lines"
    unfolding slice_def by (metis append.assoc append_take_drop_id)
  then have "?lines = take (Suc s) ?lines @ slice (Suc s) e ?lines @ drop e ?lines" by simp
  moreover have "last (take (Suc s) ?lines) = ?lines ! s" using b by (simp add: take_Suc_conv_app_nth)
  moreover have "hd (drop e ?lines) = ?lines ! e" using b by (simp add: hd_drop_conv_nth)
  ultimately show ?thesis
    using insert_markers_lines [OF assms, of indent] Some se b
    by (intro exI [of _ "take (Suc s) ?lines"] exI [of _ "slice (Suc s) e ?lines"]
      exI [of _ "drop e ?lines"] exI [of _ "[[]] @ new_toc maxl indent content @ [[]]"]) (simp add: Let_def)
qed

theorem insert_toc_markers_frame_witness:
  "\<exists>pre mid post block.
      split_on NL (''# T'' @ [NL] @ ''## A'') = pre @ mid @ post
    \<and> split_on NL (insert_toc_markers 6 2 (''# T'' @ [NL] @ ''## A'')) = pre @ block @ post
    \<and> mid = [] \<and> block = toc_block [''- [A](#a)'']"
proof -
  let ?c = "''# T'' @ [NL] @ ''## A''"
  have h: "parse_headings (marker_opts 6) (split_on NL ?c) \<noteq> []" by code_simp
  have m: "find_markers None 0 (split_on NL ?c) = None" by code_simp
  have t: "new_toc 6 2 ?c = [''- [A](#a)'']" by code_simp
  show ?thesis using insert_toc_markers_frame [OF h, of 2] m t by simp
qed

subsection \<open>A second insertion changes nothing\<close>

definition no_start :: "string list \<Rightarrow> bool" where
  "no_start ls = list_all (\<lambda>l. strip l \<noteq> TOC_MARKER_START) ls"

lemma find_markers_no_start: "no_start xs \<Longrightarrow> find_markers None i (xs @ ys) = find_markers None (i + length xs) ys"
  by (induction xs arbitrary: i) (auto simp: no_start_def)

lemma find_markers_no_end:
  "list_all (\<lambda>l. strip l \<noteq> TOC_MARKER_END) xs \<Longrightarrow>
   find_markers (Some s) i (xs @ ys) = find_markers (Some s) (i + length xs) ys"
  by (induction xs arbitrary: i) auto

lemma bullets_no_end: "list_all bullet ls \<Longrightarrow> list_all (\<lambda>l. strip l \<noteq> TOC_MARKER_END) ls"
  using bullet_strip by (auto simp: list_all_iff TOC_MARKER_END_def)

lemma strip_markers [simp]:
  "strip TOC_MARKER_START = TOC_MARKER_START" "strip TOC_MARKER_END = TOC_MARKER_END"
  "TOC_MARKER_START \<noteq> []" "TOC_MARKER_END \<noteq> []" "[] \<noteq> TOC_MARKER_START" "[] \<noteq> TOC_MARKER_END"
  by code_simp+

lemma find_markers_block:
  assumes "no_start xs" and "list_all bullet tls"
  shows "find_markers None 0 (xs @ toc_block tls @ ys) =
    Some (Suc (length xs), length xs + length tls + 4)"
proof -
  have "find_markers None 0 (xs @ toc_block tls @ ys) =
      find_markers (Some (Suc (length xs))) (length xs + 3) (tls @ [] # TOC_MARKER_END # [] # ys)"
    using assms(1) by (simp add: find_markers_no_start toc_block_def eval_nat_numeral)
  also have "\<dots> = Some (Suc (length xs), length xs + length tls + 4)"
    using find_markers_no_end [OF bullets_no_end [OF assms(2)]] by simp
  finally show ?thesis .
qed

lemma toc_block_plain: "list_all bullet tls \<Longrightarrow> list_all plain (toc_block tls)"
proof -
  have "plain []" by (simp add: plain_def)
  moreover have "plain (CHR ''<'' # x)" if "NL \<notin> set x" for x
    using that by (auto simp: plain_def intro!: exI [of _ 0])
  ultimately show "list_all bullet tls \<Longrightarrow> list_all plain (toc_block tls)"
    using bullet_plain
    by (auto simp: toc_block_def list_all_iff TOC_MARKER_START_def TOC_MARKER_END_def)
qed

lemma insert_new_lines:
  assumes "parse_headings (marker_opts maxl) (split_on NL content) \<noteq> []" and "no_start (split_on NL content)"
  obtains pre post where "split_on NL content = pre @ post" "no_start pre"
    "split_on NL (insert_toc_markers maxl indent content) = pre @ toc_block (new_toc maxl indent content) @ post"
proof -
  let ?lines = "split_on NL content"
  let ?p = "insert_pos ?lines"
  have "find_markers None 0 ?lines = None" using find_markers_no_start [OF assms(2), of 0 "[]"] by simp
  then have "split_on NL (insert_toc_markers maxl indent content) =
      take ?p ?lines @ toc_block (new_toc maxl indent content) @ drop ?p ?lines"
    using insert_markers_lines [OF assms(1), of indent] by (simp add: Let_def)
  moreover have "no_start (take ?p ?lines)"
    using assms(2) by (auto simp: no_start_def list_all_iff dest: in_set_takeD)
  ultimately show thesis using that [of "take ?p ?lines" "drop ?p ?lines"] by simp
qed

lemma insert_same_headings:
  assumes "no_start (split_on NL content)"
  shows "parse_headings (marker_opts maxl) (split_on NL (insert_toc_markers maxl indent content)) =
    parse_headings (marker_opts maxl) (split_on NL content)"
proof (cases "parse_headings (marker_opts maxl) (split_on NL content) = []")
  case True
  then show ?thesis by (simp add: insert_toc_markers_def Let_def)
next
  case False
  then obtain pre post where "split_on NL content = pre @ post"
    "split_on NL (insert_toc_markers maxl indent content) = pre @ toc_block (new_toc maxl indent content) @ post"
    using insert_new_lines [OF _ assms] by metis
  then show ?thesis
    by (simp add: parse_headings_def parse_headings_plain toc_block_plain new_toc_lines)
qed

lemma insert_idem:
  assumes "no_start (split_on NL content)"
  shows "insert_toc_markers maxl indent (insert_toc_markers maxl indent content) =
    insert_toc_markers maxl indent content"
proof (cases "parse_headings (marker_opts maxl) (split_on NL content) = []")
  case True
  then show ?thesis by (simp add: insert_toc_markers_def Let_def)
next
  case False
  let ?c' = "insert_toc_markers maxl indent content" and ?tls = "new_toc maxl indent content"
  obtain pre post where l: "split_on NL content = pre @ post" "no_start pre"
    "split_on NL ?c' = pre @ toc_block ?tls @ post"
    using insert_new_lines [OF False assms] by metis
  have same: "new_toc maxl indent ?c' = ?tls"
    using insert_same_headings [OF assms, of maxl indent] by (simp add: new_toc_def)
  have "split_on NL (insert_toc_markers maxl indent ?c') = split_on NL ?c'"
    using insert_markers_lines [of maxl ?c' indent] insert_same_headings [OF assms, of maxl indent] False
      find_markers_block [OF l(2) new_toc_lines, of maxl indent content post] same
    by (simp add: Let_def l(3) toc_block_def eval_nat_numeral)
  then show ?thesis by (metis join_split)
qed

text \<open>Inserting a table reaches a fixed point at once: on a document without a start marker, a
  second insertion leaves the text unchanged.\<close>

theorem insert_toc_markers_idem:
  assumes "list_all (\<lambda>l. strip l \<noteq> TOC_MARKER_START) (split_on NL content)"
  shows "insert_toc_markers maxl indent (insert_toc_markers maxl indent content) =
    insert_toc_markers maxl indent content"
  using assms by (intro insert_idem) (simp add: no_start_def)

theorem insert_toc_markers_idem_witness:
  "insert_toc_markers 6 2 (insert_toc_markers 6 2 (''# T'' @ [NL] @ ''## A''))
   = insert_toc_markers 6 2 (''# T'' @ [NL] @ ''## A'')"
proof -
  have "list_all (\<lambda>l. strip l \<noteq> TOC_MARKER_START) (split_on NL (''# T'' @ [NL] @ ''## A''))" by code_simp
  then show ?thesis by (rule insert_toc_markers_idem)
qed

subsection \<open>The command\<close>

lemma strip_manual_no_op:
  "snd (strip_manual_toc c) = False \<longleftrightarrow>
     fenced_find (\<lambda>l. strip l \<noteq> TOC_MARKER_START \<and> re_match TOC_SECTION_RE l \<noteq> None) None 0 (split_on NL c) = None"
  "snd (strip_manual_toc c) = False \<Longrightarrow> strip_manual_toc c = (c, False)"
  by (auto simp: strip_manual_toc_def Let_def split: option.splits)

lemma strip_manual_insert:
  assumes "no_start (split_on NL content)" and "snd (strip_manual_toc content) = False"
  shows "strip_manual_toc (insert_toc_markers maxl indent content) = (insert_toc_markers maxl indent content, False)"
proof (cases "parse_headings (marker_opts maxl) (split_on NL content) = []")
  case True
  then show ?thesis
    using strip_manual_no_op(2) [OF assms(2)] by (simp add: insert_toc_markers_def Let_def)
next
  case False
  let ?P = "\<lambda>l. strip l \<noteq> TOC_MARKER_START \<and> re_match TOC_SECTION_RE l \<noteq> None"
  obtain pre post where l: "split_on NL content = pre @ post"
    "split_on NL (insert_toc_markers maxl indent content) = pre @ toc_block (new_toc maxl indent content) @ post"
    using insert_new_lines [OF False assms(1)] by metis
  have "fenced_find ?P None 0 (pre @ post) = None" using assms(2) by (simp only: strip_manual_no_op(1) l(1))
  from fenced_find_plain_None [OF toc_block_plain [OF new_toc_lines] _ this]
  have "fenced_find ?P None 0 (split_on NL (insert_toc_markers maxl indent content)) = None"
    unfolding l(2) by (simp add: plain_section)
  then show ?thesis using strip_manual_no_op by blast
qed

text \<open>Running the command twice writes at most once: when the document has at most one manual
  table section and no start marker, the second run reports the same number of headings,
  writes nothing, and says that the file is unchanged or has no headings.\<close>

theorem process_file_rerun:
  assumes "fs path = Some original" and "fst (strip_manual_toc original) = content"
    and "snd (strip_manual_toc content) = False"
    and "list_all (\<lambda>l. strip l \<noteq> TOC_MARKER_START) (split_on NL content)"
    and "process_file maxl False indent fs path = (r, fs')"
  shows "\<exists>r'. process_file maxl False indent fs' path = (r', fs')
    \<and> tr_status r' \<in> {TocSkip, TocUnchanged} \<and> tr_count r' = tr_count r"
proof -
  let ?n = "length (parse_headings (marker_opts maxl) (split_on NL content))"
  let ?new = "insert_toc_markers maxl indent content"
  have ns: "no_start (split_on NL content)" using assms(4) by (simp add: no_start_def)
  obtain removed where st: "strip_manual_toc original = (content, removed)"
    using assms(2) by (cases "strip_manual_toc original") auto
  show ?thesis
  proof (cases "?n = 0 \<or> ?new = original")
    case True
    with assms(1,5) have "fs' = fs" "tr_status r \<in> {TocSkip, TocUnchanged}"
      unfolding process_file_def by (auto simp: st Let_def split: if_splits)
    with assms(5) show ?thesis by blast
  next
    case False
    with assms(1,5) have r: "fs' path = Some ?new" "tr_count r = ?n"
      unfolding process_file_def by (auto simp: st Let_def split: if_splits)
    have "process_file maxl False indent fs' path =
        (\<lparr>tr_status = TocUnchanged, tr_count = ?n, tr_manual_removed = False\<rparr>, fs')"
      using False strip_manual_insert [OF ns assms(3), of maxl indent] insert_idem [OF ns, of maxl indent]
        insert_same_headings [OF ns, of maxl indent]
      by (simp add: process_file_def r(1))
    with r(2) show ?thesis by simp
  qed
qed

theorem process_file_rerun_witness:
  "let fs = (\<lambda>p. if p = ''d.md'' then Some (''# T'' @ [NL] @ ''## A'') else None);
       fs' = snd (process_file 6 False 2 fs ''d.md'')
   in tr_status (fst (process_file 6 False 2 fs ''d.md'')) = TocUpdated
      \<and> (\<exists>r'. process_file 6 False 2 fs' ''d.md'' = (r', fs') \<and> tr_status r' \<in> {TocSkip, TocUnchanged})"
proof -
  let ?c = "''# T'' @ [NL] @ ''## A''"
  let ?fs = "\<lambda>p. if p = ''d.md'' then Some ?c else None"
  have a: "fst (strip_manual_toc ?c) = ?c" by code_simp
  have b: "snd (strip_manual_toc ?c) = False" by code_simp
  have c: "list_all (\<lambda>l. strip l \<noteq> TOC_MARKER_START) (split_on NL ?c)" by code_simp
  have d: "tr_status (fst (process_file 6 False 2 ?fs ''d.md'')) = TocUpdated" by code_simp
  have "process_file 6 False 2 ?fs ''d.md'' =
      (fst (process_file 6 False 2 ?fs ''d.md''), snd (process_file 6 False 2 ?fs ''d.md''))" by simp
  from process_file_rerun [OF _ a b c this] show ?thesis using d by (simp add: Let_def) blast
qed

subsection \<open>Validation\<close>

lemma broken_Nil_iff:
  "broken_anchors path entries expected = [] \<longleftrightarrow> (\<lambda>(d, a, l). a) ` set entries \<subseteq> fst ` set expected"
  by (force simp: broken_anchors_def filter_empty_conv dhas_iff)

lemma unlisted_Nil_iff:
  "unlisted_headings path lines entries expected = [] \<longleftrightarrow> fst ` set expected \<subseteq> (\<lambda>(d, a, l). a) ` set entries"
  by (force simp: unlisted_headings_def filter_empty_conv)

text \<open>A document passes \<open>validate_toc\<close> without errors and warnings exactly when it has no
  heading besides its title, or it has a table whose anchors are the anchors of its headings
  and regenerating that table changes nothing.\<close>

theorem validate_toc_ok:
  "validate_toc p maxl content = \<lparr>r_errors = [], r_warnings = []\<rparr> \<longleftrightarrow>
   (let lines = split_on NL content; headings = parse_headings (section_opts maxl) lines in
    headings = [] \<or>
    (\<exists>s e sec. find_toc_section lines = Some (s, e, sec)
      \<and> (\<lambda>(d, a, l). a) ` set (extract_toc_entries lines s e) = fst ` set (build_expected_anchors headings)
      \<and> content = (if sec then insert_toc_heading maxl 3 True content else insert_toc_markers maxl 2 content)))"
proof (cases "find_toc_section (split_on NL content)")
  case None
  then show ?thesis by (simp add: validate_toc_def Let_def)
next
  case (Some x)
  obtain s e sec where x: "x = (s, e, sec)" by (cases x)
  show ?thesis
    unfolding validate_toc_def Let_def Some x set_eq_subset
    by (simp add: broken_Nil_iff unlisted_Nil_iff) metis
qed

text \<open>
  The command and the validation disagree on a document that starts with a heading of level
  two: the command lists it, the validation takes it for the title.
\<close>

lemma toc_command_fails_validation:
  "let c = insert_toc_markers 6 2 (''## A'' @ [NL] @ ''## B'')
   in map i_code (r_errors (validate_toc None 6 c)) = [TOC_ANCHOR_BROKEN]"
  by code_simp

end
