(* ===== verification/Constraint_Parse.thy ===== *)
theory Constraint_Parse
  imports Doc_Scan Error_Codes
begin

section \<open>Kit constraints: data and parsing (\<open>utils/constraints.py\<close>)\<close>

text \<open>
  The constraints of a kit say, for each artifact kind, which headings an artifact has and
  which kinds of IDs it defines, and how these are referenced. They are read from a TOML
  document, which the loader has turned into plain objects; every field is checked, and one
  bad field rejects the whole document with a message. A parser returns \<open>Inl message\<close> or
  \<open>Inr value\<close>.

  Heading patterns are regular expressions written by the user. \<open>rx p = Inl e\<close> says that
  \<open>re.compile\<close> rejects the pattern \<open>p\<close> with the message \<open>e\<close>, and \<open>rx p = Inr f\<close> that
  \<open>f t\<close> is the result of a case-insensitive \<open>re.search\<close> of \<open>p\<close> in \<open>t\<close>. It is a
  parameter of the model.
\<close>

type_synonym rx = "string \<Rightarrow> string + (string \<Rightarrow> bool)"

subsection \<open>Data\<close>

record reference_rule =
  rr_coverage :: "bool option"
  rr_task :: "bool option"
  rr_priority :: "bool option"
  rr_headings :: "string list option"

record heading_constraint =
  hc_level :: nat
  hc_pattern :: "string option"
  hc_description :: "string option"
  hc_required :: bool
  hc_multiple :: "bool option"
  hc_numbered :: "bool option"
  hc_id :: "string option"
  hc_prev :: "string option"
  hc_next :: "string option"
  hc_pointer :: "string option"

record id_constraint =
  ic_kind :: string
  ic_required :: bool
  ic_name :: "string option"
  ic_description :: "string option"
  ic_template :: "string option"
  ic_examples :: "pyobj list option"
  ic_task :: "bool option"
  ic_priority :: "bool option"
  ic_to_code :: "bool option"
  ic_headings :: "string list option"
  ic_references :: "(string \<times> reference_rule) list option"

record kind_constraints =
  kc_name :: "string option"
  kc_description :: "string option"
  kc_defined_id :: "id_constraint list"
  kc_headings :: "heading_constraint list option"
  kc_toc :: bool

type_synonym kit_constraints = "(string \<times> kind_constraints) list"

subsection \<open>Fields\<close>

fun ebind :: "'e + 'a \<Rightarrow> ('a \<Rightarrow> 'e + 'b) \<Rightarrow> 'e + 'b" where
  "ebind (Inl e) f = Inl e"
| "ebind (Inr x) f = f x"

definition parse_optional_bool :: "pyobj \<Rightarrow> string \<Rightarrow> string + bool option" where
  "parse_optional_bool v field =
     (case v of
        PNone \<Rightarrow> Inr None
      | PBool b \<Rightarrow> Inr (Some b)
      | _ \<Rightarrow> Inl (''Constraint field '' @ [CHR 0x27] @ field @ [CHR 0x27] @ '' must be boolean, got '' @ type_name v))"

text \<open>\<open>x is None or isinstance(x, str)\<close>, with the message otherwise.\<close>

definition opt_str_field :: "pyobj \<Rightarrow> string \<Rightarrow> string + string option" where
  "opt_str_field v msg = (case v of PNone \<Rightarrow> Inr None | PStr s \<Rightarrow> Inr (Some s) | _ \<Rightarrow> Inl msg)"

definition opt_bool_field :: "pyobj \<Rightarrow> string \<Rightarrow> string + bool option" where
  "opt_bool_field v msg = (case v of PNone \<Rightarrow> Inr None | PBool b \<Rightarrow> Inr (Some b) | _ \<Rightarrow> Inl msg)"

text \<open>A list of strings, stripped, without the empty ones.\<close>

definition opt_strs_field :: "pyobj \<Rightarrow> string \<Rightarrow> string + string list option" where
  "opt_strs_field v msg =
     (case v of
        PNone \<Rightarrow> Inr None
      | PList xs \<Rightarrow>
          if list_all is_pystr xs
          then Inr (Some (filter (\<lambda>h. h \<noteq> []) (map (\<lambda>x. strip (str_or_empty (pystr_of x))) xs)))
          else Inl msg
      | _ \<Rightarrow> Inl msg)"

definition parse_examples :: "pyobj \<Rightarrow> string + pyobj list option" where
  "parse_examples v =
     (case v of
        PNone \<Rightarrow> Inr None
      | PList xs \<Rightarrow> Inr (Some xs)
      | _ \<Rightarrow> Inl (''Constraint field '' @ [CHR 0x27] @ ''examples'' @ [CHR 0x27] @ '' must be a list''))"

definition q :: "string \<Rightarrow> string" where
  "q s = [CHR 0x27] @ s @ [CHR 0x27]"

definition parse_reference_rule :: "pyobj \<Rightarrow> string + reference_rule" where
  "parse_reference_rule obj =
     (case obj of
        PDict d \<Rightarrow>
          ebind (parse_optional_bool (pget d ''coverage'') ''references.coverage'') (\<lambda>cov.
          ebind (parse_optional_bool (pget d ''task'') ''references.task'') (\<lambda>task.
          ebind (parse_optional_bool (pget d ''priority'') ''references.priority'') (\<lambda>priority.
          ebind (opt_strs_field (pget d ''headings'')
                  (''Reference rule field '' @ q ''headings'' @ '' must be list[str]'')) (\<lambda>headings.
          Inr \<lparr>rr_coverage = cov, rr_task = task, rr_priority = priority, rr_headings = headings\<rparr>))))
      | _ \<Rightarrow> Inl ''Reference rule must be an object'')"

text \<open>\<open>isinstance(level, int)\<close> holds of booleans as well, with \<open>True\<close> as one.\<close>

definition level_field :: "pyobj \<Rightarrow> nat option" where
  "level_field v =
     (case v of
        PInt i \<Rightarrow> if 1 \<le> i \<and> i \<le> 6 then Some (nat i) else None
      | PBool b \<Rightarrow> if b then Some 1 else None
      | _ \<Rightarrow> None)"

definition hc_msg :: "string \<Rightarrow> string \<Rightarrow> string" where
  "hc_msg field what = ''Heading constraint field '' @ q field @ '' must be '' @ what"

text \<open>The check that a pattern compiles.\<close>

definition check_pattern :: "rx \<Rightarrow> string option \<Rightarrow> string + unit" where
  "check_pattern rx pat =
     (case pat of
        None \<Rightarrow> Inr ()
      | Some p \<Rightarrow>
          if strip p = [] then Inr ()
          else (case rx p of
                  Inl e \<Rightarrow> Inl (''Heading constraint '' @ q ''pattern'' @ '' invalid regex: '' @ e)
                | Inr _ \<Rightarrow> Inr ()))"

definition prefixed :: "string \<Rightarrow> string + 'a \<Rightarrow> string + 'a" where
  "prefixed p r = (case r of Inl e \<Rightarrow> Inl (p @ e) | Inr x \<Rightarrow> Inr x)"

definition parse_heading_constraint :: "rx \<Rightarrow> pyobj \<Rightarrow> string \<Rightarrow> string + heading_constraint" where
  "parse_heading_constraint rx obj pointer =
     (case obj of
        PDict d \<Rightarrow>
          ebind (opt_str_field (pget d ''id'') (hc_msg ''id'' ''string'')) (\<lambda>hid.
          ebind (opt_str_field (pget d ''prev'') (hc_msg ''prev'' ''string'')) (\<lambda>prev.
          ebind (opt_str_field (pget d ''next'') (hc_msg ''next'' ''string'')) (\<lambda>nxt.
          ebind (case level_field (pget d ''level'') of None \<Rightarrow> Inl (hc_msg ''level'' ''integer 1-6'')
                   | Some l \<Rightarrow> Inr l) (\<lambda>level.
          ebind (opt_str_field (pget d ''pattern'') (hc_msg ''pattern'' ''string'')) (\<lambda>pattern.
          ebind (opt_str_field (pget d ''description'') (hc_msg ''description'' ''string'')) (\<lambda>description.
          ebind (opt_bool_field (pget d ''required'') (hc_msg ''required'' ''boolean'')) (\<lambda>required.
          ebind (prefixed ''Heading constraint: '' (parse_optional_bool (pget d ''multiple'') ''multiple'')) (\<lambda>multiple.
          ebind (prefixed ''Heading constraint: '' (parse_optional_bool (pget d ''numbered'') ''numbered'')) (\<lambda>numbered.
          ebind (check_pattern rx pattern) (\<lambda>_.
          Inr \<lparr>hc_level = level, hc_pattern = opt_strip pattern, hc_description = opt_strip description,
               hc_required = (case required of None \<Rightarrow> True | Some b \<Rightarrow> b), hc_multiple = multiple,
               hc_numbered = numbered, hc_id = opt_strip hid, hc_prev = opt_strip prev,
               hc_next = opt_strip nxt, hc_pointer = opt_strip (Some pointer)\<rparr>))))))))))
      | _ \<Rightarrow> Inl ''Heading constraint must be an object'')"

definition NOT_SLUG_RE :: regex where
  "NOT_SLUG_RE = RPlus (RCls (\<lambda>c. \<not> (is_lower_az c \<or> is_digit c)))"

definition slugify_heading_constraint_id :: "string \<Rightarrow> string" where
  "slugify_heading_constraint_id v =
     strip_by (cOne (CHR ''-'')) (re_sub NOT_SLUG_RE (\<lambda>_. ''-'') (lower (strip v)))"

fun references_go :: "(string \<times> reference_rule) list \<Rightarrow> (pyobj \<times> pyobj) list
    \<Rightarrow> string + (string \<times> reference_rule) list" where
  "references_go out [] = Inr out"
| "references_go out ((k, raw) # rest) =
     (case k of
        PStr ks \<Rightarrow>
          if strip ks = []
          then Inl (''Constraint field '' @ q ''references'' @ '' has non-string artifact kind key'')
          else (case parse_reference_rule raw of
                  Inl e \<Rightarrow> Inl (''references['' @ ks @ '']: '' @ e)
                | Inr rule \<Rightarrow> references_go (dset (upper (strip ks)) rule out) rest)
      | _ \<Rightarrow> Inl (''Constraint field '' @ q ''references'' @ '' has non-string artifact kind key''))"

definition parse_references :: "pyobj \<Rightarrow> string + (string \<times> reference_rule) list option" where
  "parse_references v =
     (case v of
        PNone \<Rightarrow> Inr None
      | PDict d \<Rightarrow> ebind (references_go [] d) (\<lambda>out. Inr (Some out))
      | _ \<Rightarrow> Inl (''Constraint field '' @ q ''references''
               @ '' must be an object mapping artifact kinds to rules''))"

definition ic_msg :: "string \<Rightarrow> string \<Rightarrow> string" where
  "ic_msg field what = ''Constraint field '' @ q field @ '' must be '' @ what"

definition missing_kind :: string where
  "missing_kind = ''Constraint entry missing required '' @ q ''kind''"

definition parse_id_constraint :: "(pyobj \<times> pyobj) list \<Rightarrow> string + id_constraint" where
  "parse_id_constraint d =
     ebind (case pget d ''kind'' of PStr s \<Rightarrow> if strip s = [] then Inl missing_kind else Inr s
              | _ \<Rightarrow> Inl missing_kind) (\<lambda>kind.
     ebind (opt_bool_field (pget d ''required'') (ic_msg ''required'' ''boolean'')) (\<lambda>required.
     ebind (opt_str_field (pget d ''name'') (ic_msg ''name'' ''string'')) (\<lambda>name.
     ebind (opt_str_field (pget d ''description'') (ic_msg ''description'' ''string'')) (\<lambda>description.
     ebind (opt_str_field (pget d ''template'') (ic_msg ''template'' ''string'')) (\<lambda>template.
     ebind (parse_examples (pget d ''examples'')) (\<lambda>examples.
     ebind (parse_optional_bool (pget d ''task'') ''task'') (\<lambda>task.
     ebind (parse_optional_bool (pget d ''priority'') ''priority'') (\<lambda>priority.
     ebind (opt_bool_field (pget d ''to_code'') (ic_msg ''to_code'' ''boolean'')) (\<lambda>to_code.
     ebind (opt_strs_field (pget d ''headings'') (ic_msg ''headings'' ''list[str]'')) (\<lambda>headings.
     ebind (parse_references (pget d ''references'')) (\<lambda>references.
     Inr \<lparr>ic_kind = strip kind, ic_required = (case required of None \<Rightarrow> True | Some b \<Rightarrow> b),
          ic_name = name, ic_description = description, ic_template = opt_strip template,
          ic_examples = examples, ic_task = task, ic_priority = priority, ic_to_code = to_code,
          ic_headings = headings, ic_references = references\<rparr>)))))))))))"

subsection \<open>The headings of a kind\<close>

fun heading_list :: "rx \<Rightarrow> string \<Rightarrow> nat \<Rightarrow> pyobj list \<Rightarrow> string list \<times> heading_constraint list" where
  "heading_list rx kind idx [] = ([], [])"
| "heading_list rx kind idx (h # hs) =
     (let (es, hcs) = heading_list rx kind (Suc idx) hs
      in case parse_heading_constraint rx h (''/'' @ upper (strip kind) @ ''/headings/'' @ nat_str idx) of
           Inl e \<Rightarrow> ((''constraints for '' @ kind @ '' headings['' @ nat_str idx @ '']: '' @ e) # es, hcs)
         | Inr hc \<Rightarrow> (es, hc # hcs))"

definition effective_id :: "nat \<Rightarrow> heading_constraint \<Rightarrow> string" where
  "effective_id hidx hc =
     strip (let own = strip (str_or_empty (hc_id hc))
      in if own \<noteq> [] then own
         else (let slug = (case hc_pattern hc of None \<Rightarrow> [] | Some p \<Rightarrow> slugify_heading_constraint_id p);
                   base = (if slug = [] then ''level-'' @ nat_str (hc_level hc) @ ''-'' @ nat_str hidx else slug)
               in ''h'' @ nat_str (hc_level hc) @ ''-'' @ base))"

text \<open>
  The \<open>while\<close> loop that numbers a taken ID. Its candidates differ, so one of the first
  \<open>length seen + 1\<close> is free and the loop ends; \<open>fuel\<close> counts down from \<open>length seen\<close>.
\<close>

fun fresh_go :: "nat \<Rightarrow> string list \<Rightarrow> string \<Rightarrow> nat \<Rightarrow> string \<Rightarrow> string" where
  "fresh_go fuel seen eff n candidate =
     (if lower candidate \<in> set seen
      then (case fuel of 0 \<Rightarrow> candidate | Suc f \<Rightarrow> fresh_go f seen eff (Suc n) (eff @ ''-'' @ nat_str n))
      else candidate)"

definition fresh_id :: "string list \<Rightarrow> string \<Rightarrow> string" where
  "fresh_id seen eff = fresh_go (length seen) seen eff 2 eff"

fun assign_ids :: "string list \<Rightarrow> nat \<Rightarrow> heading_constraint list \<Rightarrow> heading_constraint list" where
  "assign_ids seen hidx [] = []"
| "assign_ids seen hidx (hc # hcs) =
     (let eff = fresh_id seen (effective_id hidx hc)
      in hc\<lparr>hc_id := Some eff\<rparr> # assign_ids (lower eff # seen) (Suc hidx) hcs)"

definition id_of_hc :: "heading_constraint \<Rightarrow> string" where
  "id_of_hc hc = str_or_empty (hc_id hc)"

definition link_prev :: "heading_constraint list \<Rightarrow> nat \<Rightarrow> string option" where
  "link_prev hcs i =
     (case hc_prev (hcs ! i) of
        Some (c # cs) \<Rightarrow> Some (c # cs)
      | _ \<Rightarrow> if 0 < i then Some (id_of_hc (hcs ! (i - 1))) else None)"

definition link_next :: "heading_constraint list \<Rightarrow> nat \<Rightarrow> string option" where
  "link_next hcs i =
     (case hc_next (hcs ! i) of
        Some (c # cs) \<Rightarrow> Some (c # cs)
      | _ \<Rightarrow> if Suc i < length hcs then Some (id_of_hc (hcs ! Suc i)) else None)"

definition unknown_link :: "string \<Rightarrow> nat \<Rightarrow> string \<Rightarrow> heading_constraint list \<Rightarrow> string option \<Rightarrow> string list" where
  "unknown_link kind i what hcs link =
     (case link of
        None \<Rightarrow> []
      | Some x \<Rightarrow>
          if x \<noteq> [] \<and> x \<notin> set (map id_of_hc hcs)
          then [''constraints for '' @ kind @ '' headings['' @ nat_str i @ '']: '' @ what
                  @ '' references unknown heading id '' @ q x]
          else [])"

definition link_headings :: "string \<Rightarrow> heading_constraint list \<Rightarrow> string list \<times> heading_constraint list" where
  "link_headings kind hcs =
     (concat (map (\<lambda>i. unknown_link kind i ''prev'' hcs (link_prev hcs i)
                       @ unknown_link kind i ''next'' hcs (link_next hcs i)) [0..<length hcs]),
      map (\<lambda>i. (hcs ! i)\<lparr>hc_prev := link_prev hcs i, hc_next := link_next hcs i\<rparr>) [0..<length hcs])"

subsection \<open>The identifiers of a kind\<close>

definition identifier_entry :: "string \<Rightarrow> pyobj \<Rightarrow> pyobj \<Rightarrow> string + id_constraint" where
  "identifier_entry kind key entry =
     (case key of
        PStr kkind \<Rightarrow>
          if strip kkind = []
          then Inl (''constraints for '' @ kind @ '' field '' @ q ''identifiers'' @ '' has non-string kind key'')
          else
            (let pre = ''constraints for '' @ kind @ '' identifiers['' @ kkind @ '']: ''
             in case entry of
                  PDict d \<Rightarrow>
                    if phas d ''kind''
                    then (case pget d ''kind'' of
                            PStr vv \<Rightarrow>
                              if strip vv = [] then Inl (pre @ missing_kind)
                              else if lower (strip vv) \<noteq> lower (strip kkind)
                              then Inl (pre @ ''Constraint entry kind does not match identifiers key'')
                              else prefixed pre (parse_id_constraint d)
                          | _ \<Rightarrow> Inl (pre @ missing_kind))
                    else prefixed pre (parse_id_constraint (dset (PStr ''kind'') (PStr (strip kkind)) d))
                | _ \<Rightarrow> Inl (pre @ ''Constraint entry must be an object''))
      | _ \<Rightarrow> Inl (''constraints for '' @ kind @ '' field '' @ q ''identifiers'' @ '' has non-string kind key''))"

fun identifiers_go :: "string \<Rightarrow> string list \<Rightarrow> (pyobj \<times> pyobj) list \<Rightarrow> string list \<times> id_constraint list" where
  "identifiers_go kind seen [] = ([], [])"
| "identifiers_go kind seen ((k, entry) # rest) =
     (case identifier_entry kind k entry of
        Inl e \<Rightarrow> (let (es, cs) = identifiers_go kind seen rest in (e # es, cs))
      | Inr c \<Rightarrow>
          (let kk = lower (strip (ic_kind c))
           in if kk \<in> set seen
              then (let (es, cs) = identifiers_go kind seen rest
                    in ((''constraints for '' @ kind @ '' identifiers has duplicate kind '' @ q (strip (ic_kind c))) # es, cs))
              else (let (es, cs) = identifiers_go kind (kk # seen) rest in (es, c # cs))))"

subsection \<open>A kind and a kit\<close>

definition headings_field :: "rx \<Rightarrow> string \<Rightarrow> pyobj list \<Rightarrow> string list \<times> heading_constraint list" where
  "headings_field rx kind hs =
     (let (es, parsed) = heading_list rx kind 0 hs;
          (es', linked) = link_headings kind (assign_ids [] 0 parsed)
      in (es @ es', linked))"

text \<open>The constraints of one kind; \<open>None\<close> where the loop goes on with the next kind.\<close>

definition parse_kind :: "rx \<Rightarrow> string \<Rightarrow> (pyobj \<times> pyobj) list \<Rightarrow> string list \<times> kind_constraints option" where
  "parse_kind rx kind raw =
     (let bad = (\<lambda>field what. [''constraints for '' @ kind @ '' field '' @ q field @ '' must be '' @ what])
      in if \<not> phas raw ''identifiers''
         then ([''constraints for '' @ kind @ '' must include '' @ q ''identifiers''], None)
         else case opt_str_field (pget raw ''name'') [] of Inl _ \<Rightarrow> (bad ''name'' ''string'', None) | Inr name \<Rightarrow>
         (case opt_str_field (pget raw ''description'') [] of Inl _ \<Rightarrow> (bad ''description'' ''string'', None)
          | Inr description \<Rightarrow>
         (case (case pget raw ''headings'' of
                  PNone \<Rightarrow> Some ([], None)
                | PList hs \<Rightarrow> Some (apsnd Some (headings_field rx kind hs))
                | _ \<Rightarrow> None) of
            None \<Rightarrow> (bad ''headings'' ''a list'', None)
          | Some (es1, headings) \<Rightarrow>
         (case pget raw ''identifiers'' of
            PDict d \<Rightarrow>
              (let (es2, ids) = identifiers_go kind [] d
               in case opt_bool_field (pget raw ''toc'') [] of
                    Inl _ \<Rightarrow> (es1 @ es2 @ bad ''toc'' ''boolean'', None)
                  | Inr toc \<Rightarrow>
                      (es1 @ es2, Some \<lparr>kc_name = name, kc_description = description, kc_defined_id = ids,
                         kc_headings = headings, kc_toc = (case toc of None \<Rightarrow> True | Some b \<Rightarrow> b)\<rparr>))
          | _ \<Rightarrow> (es1 @ bad ''identifiers'' ''an object'', None)))))"

fun kit_go :: "rx \<Rightarrow> (pyobj \<times> pyobj) list \<Rightarrow> string list \<times> kit_constraints \<Rightarrow> string list \<times> kit_constraints" where
  "kit_go rx [] st = st"
| "kit_go rx ((k, raw) # rest) (errors, out) =
     (case k of
        PStr kind \<Rightarrow>
          if startswith (strip kind) ''$'' then kit_go rx rest (errors, out)
          else if strip kind = [] then kit_go rx rest (errors @ [''constraints has non-string kind key''], out)
          else (case raw of
                  PDict d \<Rightarrow>
                    (case parse_kind rx kind d of
                       (es, None) \<Rightarrow> kit_go rx rest (errors @ es, out)
                     | (es, Some kc) \<Rightarrow> kit_go rx rest (errors @ es, dset (upper (strip kind)) kc out))
                | _ \<Rightarrow> kit_go rx rest (errors @ [''constraints for '' @ kind @ '' must be an object''], out))
      | _ \<Rightarrow> kit_go rx rest (errors @ [''constraints has non-string kind key''], out))"

definition parse_kit_constraints :: "rx \<Rightarrow> pyobj \<Rightarrow> kit_constraints option \<times> string list" where
  "parse_kit_constraints rx data =
     (case data of
        PNone \<Rightarrow> (None, [])
      | PDict d \<Rightarrow>
          (case kit_go rx d ([], []) of (errors, out) \<Rightarrow> if errors \<noteq> [] then (None, errors) else (Some out, []))
      | _ \<Rightarrow> (None, [''constraints root must be an object mapping artifact kinds to constraints'']))"

text \<open>
  \<open>load_constraints_toml\<close>: \<open>toml\<close> is the result of the TOML loader on the file, an
  exception text or the document's dictionary, and \<open>None\<close> when there is no such file.
\<close>

definition load_constraints_toml :: "rx \<Rightarrow> (string + (pyobj \<times> pyobj) list) option \<Rightarrow> kit_constraints option \<times> string list" where
  "load_constraints_toml rx toml =
     (case toml of
        None \<Rightarrow> (None, [])
      | Some (Inl e) \<Rightarrow> (None, [''Failed to parse constraints.toml: '' @ e])
      | Some (Inr d) \<Rightarrow>
          (case parse_kit_constraints rx (if phas d ''artifacts'' then pget d ''artifacts'' else PDict d) of
             (c, errs) \<Rightarrow> if errs \<noteq> [] then (None, errs) else (c, [])))"

end
