(* ===== verification/Constraint_Facts.thy ===== *)
theory Constraint_Facts
  imports Constraint_Parse Codebase_Facts
begin

section \<open>Correctness of the constraints parser\<close>

text \<open>
  What every accepted kit satisfies: heading IDs are present and unique, links lead to
  headings of the same kind, levels are in range, and no ID kind is constrained twice.
  Anything else is rejected with a message.
\<close>

declare fresh_go.simps [simp del]

subsection \<open>Fresh heading IDs\<close>

lemma lower_nat_str: "lower (nat_str n) = nat_str n"
proof -
  have "lower_char c = c" if "is_digit c" for c
    using that by (auto simp: is_digit_def lower_char_def Let_def)
  then show ?thesis using nat_str_digits [of n] by (auto simp: lower_def list_all_iff intro: map_idI)
qed

lemma fresh_go_taken:
  "lower (fresh_go fuel seen eff n c) \<in> set seen \<Longrightarrow>
   insert (lower c) ((\<lambda>k. lower (eff @ ''-'' @ nat_str k)) ` {n..<n + fuel}) \<subseteq> set seen"
proof (induction fuel arbitrary: n c)
  case 0
  then show ?case by (simp add: fresh_go.simps [of 0] split: if_splits)
next
  case (Suc fuel)
  then have c: "lower c \<in> set seen" by (auto simp: fresh_go.simps [of "Suc fuel"] split: if_splits)
  with Suc.prems have "lower (fresh_go fuel seen eff (Suc n) (eff @ ''-'' @ nat_str n)) \<in> set seen"
    by (simp add: fresh_go.simps [of "Suc fuel"])
  note r = Suc.IH [OF this]
  have "{n..<n + Suc fuel} = insert n {Suc n..<Suc n + fuel}" by auto
  with r c show ?case by auto
qed

lemma dash_lower_inj: "lower (eff @ ''-'' @ nat_str j) = lower (eff @ ''-'' @ nat_str k) \<longleftrightarrow> j = k"
proof -
  have "lower (CHR ''-'' # s) = CHR ''-'' # lower s" for s by (simp add: lower_def lower_char_def)
  then show ?thesis by (simp add: lower_nat_str inj_nat_str)
qed

lemma fresh_id_fresh: "lower (fresh_id seen eff) \<notin> set seen"
proof
  assume "lower (fresh_id seen eff) \<in> set seen"
  then have sub: "insert (lower eff) ((\<lambda>k. lower (eff @ ''-'' @ nat_str k)) ` {2..<2 + length seen}) \<subseteq> set seen"
    unfolding fresh_id_def by (rule fresh_go_taken)
  have "inj_on (\<lambda>k. lower (eff @ ''-'' @ nat_str k)) {2..<2 + length seen}"
    using dash_lower_inj by (simp only: inj_on_def) blast
  then have "card ((\<lambda>k. lower (eff @ ''-'' @ nat_str k)) ` {2..<2 + length seen}) = length seen"
    by (simp add: card_image)
  moreover have "lower eff \<notin> (\<lambda>k. lower (eff @ ''-'' @ nat_str k)) ` {2..<2 + length seen}" by auto
  ultimately have "card (insert (lower eff) ((\<lambda>k. lower (eff @ ''-'' @ nat_str k)) ` {2..<2 + length seen}))
      = Suc (length seen)" by simp
  with card_mono [OF _ sub] card_length [of seen] show False by simp
qed

lemma fresh_go_ne: "eff \<noteq> [] \<Longrightarrow> c \<noteq> [] \<Longrightarrow> fresh_go fuel seen eff n c \<noteq> []"
proof (induction fuel arbitrary: n c)
  case (Suc fuel)
  then show ?case by (simp add: fresh_go.simps [of "Suc fuel"])
qed (simp add: fresh_go.simps)

lemma effective_id_ne: "effective_id i hc \<noteq> []"
proof (cases "strip (str_or_empty (hc_id hc)) = []")
  case True
  have "strip (CHR ''h'' # s) \<noteq> []" for s by (simp add: strip_by_eq_Nil_iff py_space_def)
  with True show ?thesis by (simp add: effective_id_def Let_def)
qed (simp add: effective_id_def Let_def)

lemma fresh_effective_ne: "fresh_id seen (effective_id i hc) \<noteq> []"
  by (simp add: fresh_id_def fresh_go_ne effective_id_ne)

lemma id_of_hc_update [simp]: "id_of_hc (hc\<lparr>hc_id := Some e\<rparr>) = e"
  by (simp add: id_of_hc_def str_or_empty_def)

lemma assign_ids_ok:
  "distinct (map (lower \<circ> id_of_hc) (assign_ids seen i hcs))
   \<and> (lower \<circ> id_of_hc) ` set (assign_ids seen i hcs) \<inter> set seen = {}
   \<and> list_all (\<lambda>hc. id_of_hc hc \<noteq> []) (assign_ids seen i hcs)"
proof (induction seen i hcs rule: assign_ids.induct)
  case (2 seen i hc hcs)
  let ?eff = "fresh_id seen (effective_id i hc)"
  from 2 [OF refl] have "distinct (map (lower \<circ> id_of_hc) (assign_ids (lower ?eff # seen) (Suc i) hcs))"
    "(lower \<circ> id_of_hc) ` set (assign_ids (lower ?eff # seen) (Suc i) hcs) \<inter> set (lower ?eff # seen) = {}"
    "list_all (\<lambda>hc. id_of_hc hc \<noteq> []) (assign_ids (lower ?eff # seen) (Suc i) hcs)" by blast+
  then show ?case
    using fresh_id_fresh [of seen "effective_id i hc"] fresh_effective_ne [of seen i hc]
    by (auto simp: Let_def comp_def)
qed simp

lemma assign_ids_level: "map hc_level (assign_ids seen i hcs) = map hc_level hcs"
  by (induction seen i hcs rule: assign_ids.induct) (auto simp: Let_def)

subsection \<open>Well-formed headings\<close>

definition link_ok :: "heading_constraint list \<Rightarrow> string option \<Rightarrow> bool" where
  "link_ok hcs l = (case l of None \<Rightarrow> True | Some x \<Rightarrow> x \<in> set (map id_of_hc hcs))"

definition wf_headings :: "heading_constraint list \<Rightarrow> bool" where
  "wf_headings hcs \<longleftrightarrow>
     distinct (map (lower \<circ> id_of_hc) hcs)
   \<and> list_all (\<lambda>hc. id_of_hc hc \<noteq> [] \<and> 1 \<le> hc_level hc \<and> hc_level hc \<le> 6
       \<and> link_ok hcs (hc_prev hc) \<and> link_ok hcs (hc_next hc)) hcs"

lemma level_field_range: "level_field v = Some l \<Longrightarrow> 1 \<le> l \<and> l \<le> 6"
  by (auto simp: level_field_def split: pyobj.splits if_splits)

lemma ebind_Inr: "ebind x f = Inr y \<longleftrightarrow> (\<exists>a. x = Inr a \<and> f a = Inr y)"
  by (cases x) auto

lemma parse_heading_level:
  assumes "parse_heading_constraint rx obj ptr = Inr hc"
  shows "1 \<le> hc_level hc \<and> hc_level hc \<le> 6"
  using assms level_field_range
  by (auto simp: parse_heading_constraint_def ebind_Inr split: pyobj.splits option.splits)

lemma heading_list_level:
  "list_all (\<lambda>hc. 1 \<le> hc_level hc \<and> hc_level hc \<le> 6) (snd (heading_list rx kind i hs))"
  by (induction rx kind i hs rule: heading_list.induct)
    (auto simp: Let_def dest!: parse_heading_level split: sum.splits prod.splits)

lemma unknown_link_ok: "unknown_link kind i what hcs l = [] \<Longrightarrow> l \<noteq> Some [] \<Longrightarrow> link_ok hcs l"
  by (auto simp: unknown_link_def link_ok_def split: option.splits if_splits)

lemma link_headings_ids: "map id_of_hc (snd (link_headings kind hcs)) = map id_of_hc hcs"
  by (auto simp: link_headings_def id_of_hc_def intro: nth_equalityI)

lemma link_headings_wf:
  assumes "distinct (map (lower \<circ> id_of_hc) hcs)" and "list_all (\<lambda>hc. id_of_hc hc \<noteq> []) hcs"
    and "list_all (\<lambda>hc. 1 \<le> hc_level hc \<and> hc_level hc \<le> 6) hcs"
    and "fst (link_headings kind hcs) = []"
  shows "wf_headings (snd (link_headings kind hcs))"
proof -
  let ?out = "snd (link_headings kind hcs)"
  have ids: "map id_of_hc ?out = map id_of_hc hcs" by (rule link_headings_ids)
  then have "map (lower \<circ> id_of_hc) ?out = map (lower \<circ> id_of_hc) hcs" by (metis map_map)
  moreover have "id_of_hc hc \<noteq> [] \<and> 1 \<le> hc_level hc \<and> hc_level hc \<le> 6
      \<and> link_ok ?out (hc_prev hc) \<and> link_ok ?out (hc_next hc)" if "hc \<in> set ?out" for hc
  proof -
    from that obtain i where i: "i < length hcs"
      "hc = (hcs ! i)\<lparr>hc_prev := link_prev hcs i, hc_next := link_next hcs i\<rparr>"
      by (auto simp: link_headings_def)
    from assms(4) i(1) have "unknown_link kind i ''prev'' hcs (link_prev hcs i) = []"
      "unknown_link kind i ''next'' hcs (link_next hcs i) = []"
      by (auto simp: link_headings_def concat_map_Nil_iff)
    moreover have "link_prev hcs i \<noteq> Some []" "link_next hcs i \<noteq> Some []"
      using assms(2) i(1) by (auto simp: link_prev_def link_next_def list_all_length split: option.splits list.splits)
    ultimately have "link_ok hcs (link_prev hcs i)" "link_ok hcs (link_next hcs i)"
      by (auto intro: unknown_link_ok)
    then show ?thesis
      using assms(2,3) i ids by (auto simp: list_all_length link_ok_def id_of_hc_def split: option.splits)
  qed
  ultimately show ?thesis using assms(1) by (simp add: wf_headings_def list_all_iff)
qed

lemma headings_field_wf:
  assumes "fst (headings_field rx kind hs) = []"
  shows "wf_headings (snd (headings_field rx kind hs))"
proof -
  let ?parsed = "snd (heading_list rx kind 0 hs)"
  let ?hcs = "assign_ids [] 0 ?parsed"
  have "list_all (\<lambda>l. 1 \<le> l \<and> l \<le> 6) (map hc_level ?parsed)"
    using heading_list_level [of rx kind 0 hs] by (simp add: list.pred_map comp_def)
  then have "list_all (\<lambda>l. 1 \<le> l \<and> l \<le> 6) (map hc_level ?hcs)" by (simp only: assign_ids_level)
  then have "list_all (\<lambda>hc. 1 \<le> hc_level hc \<and> hc_level hc \<le> 6) ?hcs" by (simp add: list.pred_map comp_def)
  moreover have "fst (link_headings kind ?hcs) = []"
    using assms by (auto simp: headings_field_def Let_def split: prod.splits)
  ultimately have "wf_headings (snd (link_headings kind ?hcs))"
    using assign_ids_ok [of "[]" 0 ?parsed] by (intro link_headings_wf) auto
  then show ?thesis by (auto simp: headings_field_def Let_def split: prod.splits)
qed

subsection \<open>Well-formed kits\<close>

definition wf_kind :: "kind_constraints \<Rightarrow> bool" where
  "wf_kind kc \<longleftrightarrow>
     distinct (map (\<lambda>c. lower (ic_kind c)) (kc_defined_id kc))
   \<and> list_all (\<lambda>c. ic_kind c \<noteq> [] \<and> strip (ic_kind c) = ic_kind c) (kc_defined_id kc)
   \<and> (case kc_headings kc of None \<Rightarrow> True | Some hcs \<Rightarrow> wf_headings hcs)"

lemma parse_id_constraint_kind: "parse_id_constraint d = Inr c \<Longrightarrow> ic_kind c \<noteq> [] \<and> strip (ic_kind c) = ic_kind c"
  by (auto simp: parse_id_constraint_def ebind_Inr split: pyobj.splits if_splits)

lemma identifier_entry_kind: "identifier_entry kind k e = Inr c \<Longrightarrow> ic_kind c \<noteq> [] \<and> strip (ic_kind c) = ic_kind c"
  using parse_id_constraint_kind
  by (auto simp: identifier_entry_def Let_def prefixed_def split: pyobj.splits if_splits sum.splits)

lemma identifiers_go_wf:
  "distinct (map (\<lambda>c. lower (ic_kind c)) (snd (identifiers_go kind seen d)))
   \<and> (\<lambda>c. lower (ic_kind c)) ` set (snd (identifiers_go kind seen d)) \<inter> set seen = {}
   \<and> list_all (\<lambda>c. ic_kind c \<noteq> [] \<and> strip (ic_kind c) = ic_kind c) (snd (identifiers_go kind seen d))"
proof (induction kind seen d rule: identifiers_go.induct)
  case (2 kind seen k entry rest)
  show ?case
  proof (cases "identifier_entry kind k entry")
    case (Inl e)
    with 2(1) [OF Inl] show ?thesis by (auto simp: split_beta Let_def)
  next
    case (Inr c)
    note k = identifier_entry_kind [OF Inr]
    show ?thesis
    proof (cases "lower (ic_kind c) \<in> set seen")
      case True
      with 2(2) [OF Inr refl] Inr k show ?thesis by (auto simp: split_beta Let_def)
    next
      case False
      with 2(3) [OF Inr refl] Inr k show ?thesis by (auto simp: split_beta Let_def)
    qed
  qed
qed simp

lemma parse_kind_wf: "parse_kind rx kind raw = ([], Some kc) \<Longrightarrow> wf_kind kc"
  using headings_field_wf [of rx kind] identifiers_go_wf [of kind "[]"]
  by (auto simp: parse_kind_def wf_kind_def Let_def split_beta apsnd_def map_prod_def
      split: if_splits sum.splits pyobj.splits prod.splits)

definition wf_kit :: "kit_constraints \<Rightarrow> bool" where
  "wf_kit kit \<longleftrightarrow> distinct (map fst kit) \<and> list_all (\<lambda>(k, kc). wf_kind kc) kit"

lemma wf_kit_dset: "wf_kit out \<Longrightarrow> wf_kind kc \<Longrightarrow> wf_kit (dset k kc out)"
  using set_dset_cases by (fastforce simp: wf_kit_def list_all_iff)

lemma kit_go_step:
  "\<exists>es out'. kit_go rx ((k, raw) # d) (errors, out) = kit_go rx d (errors @ es, out')
     \<and> (out' = out \<or> (\<exists>kind r key kc. parse_kind rx kind r = (es, Some kc) \<and> out' = dset key kc out))"
proof (cases "\<exists>kind r. k = PStr kind \<and> \<not> startswith (strip kind) ''$'' \<and> strip kind \<noteq> [] \<and> raw = PDict r")
  case True
  then obtain kind r where k: "k = PStr kind" "\<not> startswith (strip kind) ''$''" "strip kind \<noteq> []" "raw = PDict r"
    by blast
  obtain es okc where pk: "parse_kind rx kind r = (es, okc)" by fastforce
  have "kit_go rx ((k, raw) # d) (errors, out) =
      kit_go rx d (errors @ es, case okc of None \<Rightarrow> out | Some kc \<Rightarrow> dset (upper (strip kind)) kc out)"
    using k pk by (cases okc) simp_all
  then show ?thesis using pk by (cases okc) (simp, blast, simp, blast)
next
  case False
  have "\<exists>es. kit_go rx ((k, raw) # d) (errors, out) = kit_go rx d (errors @ es, out)"
  proof (cases k)
    case (PStr kind)
    consider "startswith (strip kind) ''$''" | "\<not> startswith (strip kind) ''$''" "strip kind = []"
      | "\<not> startswith (strip kind) ''$''" "strip kind \<noteq> []" "\<forall>r. raw \<noteq> PDict r"
      using False PStr by blast
    then show ?thesis
    proof cases
      case 1
      then show ?thesis using PStr by (intro exI [of _ "[]"]) simp
    next
      case 2
      then show ?thesis using PStr by auto
    next
      case 3
      then show ?thesis using PStr by (cases raw) auto
    qed
  qed auto
  then show ?thesis by blast
qed

lemma kit_go_wf:
  "kit_go rx d (errors, out) = ([], kit) \<Longrightarrow> wf_kit out \<Longrightarrow> errors = [] \<and> wf_kit kit"
proof (induction d arbitrary: errors out)
  case (Cons e d)
  have pre: "fst (kit_go rx d (er, o')) = [] \<Longrightarrow> er = []" for er o'
  proof (induction d arbitrary: er o')
    case (Cons e d)
    then show ?case using kit_go_step [of rx "fst e" "snd e" d er o'] by (metis Nil_is_append_conv prod.collapse)
  qed simp
  obtain es out' where s: "kit_go rx (e # d) (errors, out) = kit_go rx d (errors @ es, out')"
    "out' = out \<or> (\<exists>kind r key kc. parse_kind rx kind r = (es, Some kc) \<and> out' = dset key kc out)"
    using kit_go_step [of rx "fst e" "snd e" d errors out] unfolding prod.collapse by blast
  with Cons.prems(1) have g: "kit_go rx d (errors @ es, out') = ([], kit)" by simp
  from pre [of "errors @ es" out'] g have "es = []" by simp
  with s(2) Cons.prems(2) have "wf_kit out'" by (metis parse_kind_wf wf_kit_dset)
  from Cons.IH [OF g this] show ?case by simp
qed simp

text \<open>C26. Every kit that \<open>parse_kit_constraints\<close> accepts is well formed: artifact kinds and, within a
  kind, ID kinds are constrained once (up to case), every heading constraint has an ID that
  is unique up to case, a level from 1 to 6, and links only to headings of its own kind. It
  is accepted with no message, and rejected with at least one.\<close>

theorem parse_kit_constraints_wf:
  "case parse_kit_constraints rx data of
     (Some kit, errors) \<Rightarrow> errors = [] \<and> wf_kit kit
   | (None, errors) \<Rightarrow> (errors = []) = (data = PNone)"
proof (cases data)
  case (PDict d)
  obtain errors kit where g: "kit_go rx d ([], []) = (errors, kit)" by fastforce
  show ?thesis
    using PDict g kit_go_wf [of rx d "[]" "[]" kit]
    by (cases "errors = []") (simp_all add: parse_kit_constraints_def wf_kit_def)
qed (simp_all add: parse_kit_constraints_def)

text \<open>A boolean level is taken for the level 1.\<close>

lemma boolean_level: "level_field (PBool True) = Some 1"
  by (simp add: level_field_def)

text \<open>C28. The IDs given to headings without one are found: for any IDs already taken the numbering
  loop ends with an ID that is not among them, up to case.\<close>

theorem assigned_ids_distinct:
  "distinct (map (lower \<circ> id_of_hc) (assign_ids [] 0 hcs)) \<and> lower (fresh_id seen eff) \<notin> set seen
   \<and> map (\<lambda>hc. hc\<lparr>hc_id := None\<rparr>) (assign_ids [] 0 hcs) = map (\<lambda>hc. hc\<lparr>hc_id := None\<rparr>) hcs"
proof -
  have "map (\<lambda>hc. hc\<lparr>hc_id := None\<rparr>) (assign_ids seen i hcs) = map (\<lambda>hc. hc\<lparr>hc_id := None\<rparr>) hcs" for seen i
    by (induction seen i hcs rule: assign_ids.induct) (auto simp: Let_def)
  then show ?thesis using assign_ids_ok [of "[]" 0 hcs] fresh_id_fresh [of seen eff] by blast
qed

end
