(* ===== verification/Headings.thy ===== *)
theory Headings
  imports Constraint_Parse
begin

section \<open>The outline of an artifact (\<open>utils/constraints.py\<close>, headings)\<close>

text \<open>
  Scanning the headings of an artifact with their numbers, checking them against the heading
  constraints of its kind, and finding which heading constraints are in force at each line.
\<close>

subsection \<open>Scanning\<close>

record heading =
  hd_line :: nat
  hd_level :: nat
  hd_raw_title :: string
  hd_title :: string
  hd_numbered :: bool
  hd_prefix :: "string option"
  hd_parts :: "nat list option"

abbreviation HEADING_LINE_RE :: regex where "HEADING_LINE_RE \<equiv> HEADING_RE"

definition HEADING_NUMBER_PREFIX_RE :: regex where
  "HEADING_NUMBER_PREFIX_RE = RCat [RGrp ''prefix'' (RSeq RDig1 (RStar (RSeq (RLit ''.'') RDig1))),
     ROpt (RLit ''.''), RSp1, RGrp ''title'' (RPlus (RCls cDot)), REnd]"

definition number_parts :: "string \<Rightarrow> nat list" where
  "number_parts prefix = map digits_val (filter (\<lambda>x. strip x \<noteq> []) (split_on (CHR ''.'') prefix))"

definition mk_heading :: "nat \<Rightarrow> match_obj \<Rightarrow> heading" where
  "mk_heading line m =
     (let level = length (grp_str m ''1''); raw_title = strip (grp_str m ''2'')
      in case re_match HEADING_NUMBER_PREFIX_RE raw_title of
           None \<Rightarrow> \<lparr>hd_line = line, hd_level = level, hd_raw_title = raw_title, hd_title = raw_title,
                    hd_numbered = False, hd_prefix = None, hd_parts = None\<rparr>
         | Some mp \<Rightarrow>
             (let prefix = opt_strip (grp mp ''prefix'')
              in \<lparr>hd_line = line, hd_level = level, hd_raw_title = raw_title,
                  hd_title = strip (grp_str mp ''title''), hd_numbered = True, hd_prefix = prefix,
                  hd_parts = map_option number_parts prefix\<rparr>))"

definition outline_line :: "nat \<Rightarrow> string \<Rightarrow> heading list" where
  "outline_line line raw = (case re_match HEADING_LINE_RE raw of None \<Rightarrow> [] | Some m \<Rightarrow> [mk_heading line m])"

fun outline_go :: "bool \<Rightarrow> nat \<Rightarrow> string list \<Rightarrow> heading list" where
  "outline_go in_fence n [] = []"
| "outline_go in_fence n (raw # ls) =
     (if startswith (strip raw) ''```'' then outline_go (\<not> in_fence) (Suc n) ls
      else if in_fence then outline_go in_fence (Suc n) ls
      else outline_line (Suc n) raw @ outline_go in_fence (Suc n) ls)"

definition scan_headings :: "fs \<Rightarrow> string \<Rightarrow> heading list" where
  "scan_headings fs path = (case read_text_safe fs path of None \<Rightarrow> [] | Some lines \<Rightarrow> outline_go False 0 lines)"

subsection \<open>Consecutive numbers\<close>

type_synonym num_key = "nat \<times> nat list \<times> nat"

definition num_key :: "heading \<Rightarrow> nat list \<Rightarrow> num_key" where
  "num_key h parts = (hd_level h, butlast parts, length parts)"

definition num_prefix :: "heading \<Rightarrow> nat list \<Rightarrow> string" where
  "num_prefix h parts =
     (let p = strip (str_or_empty (hd_prefix h)) in if p = [] then join_with ''.'' (map nat_str parts) else p)"

fun numbering_go :: "string \<Rightarrow> string \<Rightarrow> (num_key \<times> nat \<times> string) list \<Rightarrow> heading list \<Rightarrow> issue list" where
  "numbering_go path kind seen [] = []"
| "numbering_go path kind seen (h # hs) =
     (case hd_parts h of
        None \<Rightarrow> numbering_go path kind seen hs
      | Some [] \<Rightarrow> numbering_go path kind seen hs
      | Some (p # ps) \<Rightarrow>
          (let parts = p # ps; child = last parts; key = num_key h parts; prefix = num_prefix h parts
           in (case dget seen key of
                 None \<Rightarrow> []
               | Some (lst, lst_prefix) \<Rightarrow>
                   if child = Suc lst then []
                   else [error ''structure'' HEADING_NUMBER_NOT_CONSECUTIVE path (hd_line h)
                     [(''artifact_kind'', PStr kind), (''found_prefix'', PStr prefix),
                      (''expected_prefix'', PStr (join_with ''.'' (map nat_str (butlast parts) @ [nat_str (Suc lst)]))),
                      (''previous_prefix'', PStr lst_prefix)]])
              @ numbering_go path kind (dset key (child, prefix) seen) hs))"

subsection \<open>Matching a constraint\<close>

definition is_regex_pattern :: "string \<Rightarrow> bool" where
  "is_regex_pattern pat = list_ex (\<lambda>c. c \<in> set (CHR 0x5C # ''.^$*+?{}[]|'')) pat"

definition rx_search :: "rx \<Rightarrow> string \<Rightarrow> string \<Rightarrow> bool" where
  "rx_search rx pat t = (case rx pat of Inl _ \<Rightarrow> False | Inr f \<Rightarrow> f t)"

definition hc_matches :: "rx \<Rightarrow> heading_constraint \<Rightarrow> heading \<Rightarrow> bool" where
  "hc_matches rx hc h =
     (if hd_level h \<noteq> hc_level hc then False
      else (case nonempty_opt (hc_pattern hc) of
              None \<Rightarrow> True
            | Some pat \<Rightarrow>
                if is_regex_pattern (strip pat) then rx_search rx (strip pat) (strip (hd_title h))
                else casefold (strip pat) = casefold (strip (hd_title h))))"

subsection \<open>The contract\<close>

text \<open>What the errors of a contract say about where they come from.\<close>

record contract_ctx =
  cx_path :: string
  cx_kind :: string
  cx_constraints_path :: "string option"
  cx_kit :: "string option"

definition source_fields :: "contract_ctx \<Rightarrow> heading_constraint \<Rightarrow> nat \<Rightarrow> (string \<times> pyobj) list" where
  "source_fields cx hc idx =
     [(''constraints_path'', opt_obj (cx_constraints_path cx)),
      (''constraints_pointer'', PStr (case nonempty_opt (hc_pointer hc) of
          Some p \<Rightarrow> p | None \<Rightarrow> ''/<unknown-kind>/headings/'' @ nat_str idx)),
      (''kit'', opt_obj (cx_kit cx)),
      (''heading_id'', opt_obj (hc_id hc)),
      (''heading_description'', opt_obj (hc_description hc))]"

definition hc_info :: "heading_constraint option \<Rightarrow> pyobj" where
  "hc_info hc =
     (case hc of
        None \<Rightarrow> PNone
      | Some c \<Rightarrow> PDict [(PStr ''id'', opt_obj (hc_id c)), (PStr ''level'', PInt (int (hc_level c))),
          (PStr ''pattern'', opt_obj (hc_pattern c)), (PStr ''description'', opt_obj (hc_description c)),
          (PStr ''pointer'', opt_obj (hc_pointer c))])"

definition hc_by_id :: "heading_constraint list \<Rightarrow> string option \<Rightarrow> heading_constraint option" where
  "hc_by_id hcs i =
     (case nonempty_opt i of
        None \<Rightarrow> None
      | Some x \<Rightarrow> find (\<lambda>hc. strip (str_or_empty (hc_id hc)) = x) hcs)"

definition neighbour :: "string option \<Rightarrow> heading_constraint option \<Rightarrow> string option" where
  "neighbour own other = (case nonempty_opt own of Some x \<Rightarrow> Some x | None \<Rightarrow> Option.bind other hc_id)"

definition missing_heading :: "contract_ctx \<Rightarrow> heading_constraint list \<Rightarrow> nat \<Rightarrow> heading_constraint \<Rightarrow> issue list" where
  "missing_heading cx hcs idx hc =
     (if hc_required hc
      then
        (let prev_id = neighbour (hc_prev hc) (if 0 < idx then Some (hcs ! (idx - 1)) else None);
             next_id = neighbour (hc_next hc) (if Suc idx < length hcs then Some (hcs ! Suc idx) else None)
         in [error ''constraints'' HEADING_MISSING (cx_path cx) 1
              ([(''artifact_kind'', PStr (cx_kind cx)), (''heading_level'', PInt (int (hc_level hc))),
                (''heading_pattern'', opt_obj (hc_pattern hc)),
                (''expected_after'', hc_info (hc_by_id hcs prev_id)),
                (''expected_before'', hc_info (hc_by_id hcs next_id))] @ source_fields cx hc idx)])
      else [])"

definition contract_error :: "error_code \<Rightarrow> contract_ctx \<Rightarrow> nat \<Rightarrow> heading_constraint \<Rightarrow> nat \<Rightarrow> (string \<times> pyobj) list \<Rightarrow> issue" where
  "contract_error code cx idx hc line extra =
     error ''constraints'' code (cx_path cx) line
       ([(''artifact_kind'', PStr (cx_kind cx)), (''heading_level'', PInt (int (hc_level hc))),
         (''heading_pattern'', opt_obj (hc_pattern hc))] @ extra @ source_fields cx hc idx)"

definition match_errors :: "contract_ctx \<Rightarrow> nat \<Rightarrow> heading_constraint \<Rightarrow> heading list \<Rightarrow> issue list" where
  "match_errors cx idx hc ms =
     (if hc_multiple hc = Some False \<and> 1 < length ms
      then [contract_error HEADING_PROHIBITS_MULTIPLE cx idx hc (hd_line (ms ! 1)) []] else [])
     @ (if hc_multiple hc = Some True \<and> length ms < 1
        then [contract_error HEADING_REQUIRES_MULTIPLE cx idx hc 1 []] else [])
     @ (case hc_numbered hc of
          None \<Rightarrow> []
        | Some want \<Rightarrow>
            map (\<lambda>mh. contract_error HEADING_NUMBERING_MISMATCH cx idx hc (hd_line mh) [(''numbered'', PBool want)])
              (filter (\<lambda>mh. hd_numbered mh \<noteq> want) ms))"

definition scope_end_for_parent :: "heading list \<Rightarrow> nat \<Rightarrow> nat \<Rightarrow> nat" where
  "scope_end_for_parent hs parent_idx parent_level =
     Suc parent_idx + length (takeWhile (\<lambda>h. parent_level < hd_level h) (drop (Suc parent_idx) hs))"

text \<open>
  The part of the outline in which a constraint is looked for: after the last match, and
  within the section of the nearest matched constraint of a lower level.
\<close>

definition search_scope :: "heading list \<Rightarrow> nat \<Rightarrow> (nat \<times> nat) list \<Rightarrow> nat \<Rightarrow> nat \<times> nat" where
  "search_scope hs cursor last_by_level level =
     (case find (\<lambda>pl. dhas last_by_level pl) (rev [1..<level]) of
        None \<Rightarrow> (cursor, length hs)
      | Some pl \<Rightarrow>
          (let parent_idx = (case dget last_by_level pl of None \<Rightarrow> 0 | Some i \<Rightarrow> i)
           in (max cursor (Suc parent_idx), scope_end_for_parent hs parent_idx pl)))"

definition first_match :: "rx \<Rightarrow> heading_constraint \<Rightarrow> heading list \<Rightarrow> nat \<Rightarrow> nat \<Rightarrow> nat" where
  "first_match rx hc hs s e = s + length (takeWhile (\<lambda>h. \<not> hc_matches rx hc h) (slice s e hs))"

text \<open>The index after the matches that start at \<open>j\<close>.\<close>

definition match_end :: "rx \<Rightarrow> heading_constraint \<Rightarrow> heading list \<Rightarrow> nat \<Rightarrow> nat \<Rightarrow> nat" where
  "match_end rx hc hs j e =
     (if hc_multiple hc = Some False then Suc j
      else Suc j + length (takeWhile (hc_matches rx hc) (slice (Suc j) e hs)))"

fun contract_go :: "rx \<Rightarrow> contract_ctx \<Rightarrow> heading_constraint list \<Rightarrow> heading list \<Rightarrow> nat \<Rightarrow> (nat \<times> nat) list
    \<Rightarrow> nat \<Rightarrow> heading_constraint list \<Rightarrow> issue list" where
  "contract_go rx cx hcs hs cursor last_by_level idx [] = []"
| "contract_go rx cx hcs hs cursor last_by_level idx (hc # rest) =
     (let (s, e) = search_scope hs cursor last_by_level (hc_level hc);
          j = first_match rx hc hs s e
      in if e \<le> j
         then missing_heading cx hcs idx hc @ contract_go rx cx hcs hs cursor last_by_level (Suc idx) rest
         else
           (let k = match_end rx hc hs j e
            in match_errors cx idx hc (slice j k hs)
               @ contract_go rx cx hcs hs k
                   (filter (\<lambda>(l, i). l \<le> hc_level hc) (dset (hc_level hc) (k - 1) last_by_level)) (Suc idx) rest))"

definition validate_headings_contract :: "rx \<Rightarrow> fs \<Rightarrow> string \<Rightarrow> kind_constraints \<Rightarrow> string \<Rightarrow> string option
    \<Rightarrow> string option \<Rightarrow> report" where
  "validate_headings_contract rx fs path constraints artifact_kind constraints_path kit_id =
     (case kc_headings constraints of
        None \<Rightarrow> \<lparr>r_errors = [], r_warnings = []\<rparr>
      | Some hcs \<Rightarrow>
          if hcs = [] then \<lparr>r_errors = [], r_warnings = []\<rparr>
          else
            (let kind = upper (strip artifact_kind); hs = scan_headings fs path;
                 cx = \<lparr>cx_path = path, cx_kind = kind, cx_constraints_path = constraints_path, cx_kit = kit_id\<rparr>
             in \<lparr>r_errors = numbering_go path kind [] hs @ contract_go rx cx hcs hs 0 [] 0 hcs,
                 r_warnings = []\<rparr>))"

subsection \<open>The constraints in force at each line\<close>

text \<open>
  Here a pattern that does not compile is replaced by \<open>$^\<close>, which matches the empty title.
\<close>

definition compiled_matches :: "rx \<Rightarrow> heading_constraint \<Rightarrow> string \<Rightarrow> bool" where
  "compiled_matches rx hc title =
     (case nonempty_opt (hc_pattern hc) of
        None \<Rightarrow> True
      | Some pat \<Rightarrow>
          if is_regex_pattern pat
          then (case rx pat of Inl _ \<Rightarrow> title = [] \<or> title = [NL] | Inr f \<Rightarrow> f title)
          else casefold (strip pat) = casefold (strip title))"

definition has_pattern :: "heading_constraint \<Rightarrow> bool" where
  "has_pattern hc = (nonempty_opt (hc_pattern hc) \<noteq> None)"

text \<open>
  The first of the matching constraints with a pattern, else the first without: the head of
  the sorted candidates.
\<close>

definition pick_best :: "rx \<Rightarrow> heading_constraint list \<Rightarrow> nat \<Rightarrow> string \<Rightarrow> bool \<Rightarrow> heading_constraint option" where
  "pick_best rx hcs level title include_wildcards =
     (let cands = filter (\<lambda>hc. hc_level hc = level \<and> (include_wildcards \<or> has_pattern hc)
                    \<and> compiled_matches rx hc title) hcs
      in case find has_pattern cands of Some hc \<Rightarrow> Some hc
         | None \<Rightarrow> (case cands of [] \<Rightarrow> None | hc # _ \<Rightarrow> Some hc))"

text \<open>
  For each level-2 constraint the first level-3 constraint without a pattern before the next
  level-2 constraint.
\<close>

fun wildcard_lvl3 :: "heading_constraint list \<Rightarrow> (string \<times> string) list \<Rightarrow> (string \<times> string) list" where
  "wildcard_lvl3 [] d = d"
| "wildcard_lvl3 (hc # hcs) d =
     (let parent_id = strip (str_or_empty (hc_id hc));
          child = find (\<lambda>c. hc_level c = 3 \<and> \<not> has_pattern c \<and> strip (str_or_empty (hc_id c)) \<noteq> [])
                    (takeWhile (\<lambda>c. hc_level c \<noteq> 2) hcs)
      in wildcard_lvl3 hcs
           (if hc_level hc = 2 \<and> parent_id \<noteq> []
            then (case child of None \<Rightarrow> d | Some c \<Rightarrow> dset parent_id (strip (str_or_empty (hc_id c))) d)
            else d))"

definition matched_hc_id :: "heading_constraint option \<Rightarrow> string option" where
  "matched_hc_id x = (case x of None \<Rightarrow> None | Some hc \<Rightarrow> opt_strip (hc_id hc))"

definition match_heading :: "rx \<Rightarrow> heading_constraint list \<Rightarrow> string option \<Rightarrow> heading \<Rightarrow> string option" where
  "match_heading rx hcs lvl2 h =
     (if hd_level h = 3
      then (case pick_best rx hcs 3 (hd_title h) False of
              Some hc \<Rightarrow> opt_strip (hc_id hc)
            | None \<Rightarrow> (case lvl2 of None \<Rightarrow> None | Some p \<Rightarrow> dget (wildcard_lvl3 hcs []) p))
      else matched_hc_id (pick_best rx hcs (hd_level h) (hd_title h) True))"

fun heading_events :: "rx \<Rightarrow> heading_constraint list \<Rightarrow> string option \<Rightarrow> heading list
    \<Rightarrow> (nat \<times> nat \<times> string option) list" where
  "heading_events rx hcs lvl2 [] = []"
| "heading_events rx hcs lvl2 (h # hs) =
     (let m = match_heading rx hcs lvl2 h
      in (hd_line h, hd_level h, m)
           # heading_events rx hcs (if hd_level h = 2 \<and> m \<noteq> None then m else lvl2) hs)"

fun active_go :: "(nat \<times> nat \<times> string option) list \<Rightarrow> (nat \<times> string) list \<Rightarrow> nat \<Rightarrow> nat \<Rightarrow> string list list" where
  "active_go events stack line_no 0 = []"
| "active_go events stack line_no (Suc n) =
     (let stack' = (case dget events line_no of
                      None \<Rightarrow> stack
                    | Some (lvl, hid) \<Rightarrow>
                        (let st = dropWhile (\<lambda>(l, i). lvl \<le> l) stack
                         in case hid of None \<Rightarrow> st | Some i \<Rightarrow> (lvl, i) # st))
      in rev (map snd stack') # active_go events stack' (Suc line_no) n)"

definition heading_constraint_ids_by_line :: "rx \<Rightarrow> fs \<Rightarrow> string \<Rightarrow> heading_constraint list \<Rightarrow> string list list" where
  "heading_constraint_ids_by_line rx fs path hcs =
     (case read_text_safe fs path of
        None \<Rightarrow> [[]]
      | Some lines \<Rightarrow>
          [] # active_go (heading_events rx hcs None (scan_headings fs path)) [] 1 (length lines))"

end
