(* ===== verification/Headings_Facts.thy ===== *)
theory Headings_Facts
  imports Headings Doc_Scopes Codebase_Facts
begin

section \<open>Correctness of the outline checks\<close>

text \<open>
  The outline is in document order and ignores fenced blocks; numbering errors are reported
  exactly when some sequence of sibling numbers has a gap; an outline that passes the contract
  has its required headings in the order of the constraints; and the headings in force at a
  line are headings of constraints.
\<close>

subsection \<open>The outline\<close>

definition tick_toggle :: "bool \<Rightarrow> string \<Rightarrow> bool" where
  "tick_toggle f raw = (if startswith (strip raw) ''```'' then \<not> f else f)"

lemma outline_line_line: "h \<in> set (outline_line l raw) \<Longrightarrow> hd_line h = l"
  by (auto simp: outline_line_def mk_heading_def Let_def split: option.splits)

interpretation outline: located_scan "\<lambda>f (st::unit) n ls. outline_go f n ls" tick_toggle False
  "\<lambda>st l raw. ((), outline_line l raw)" hd_line
  by unfold_locales (auto simp: tick_toggle_def outline_line_line split: if_splits)

lemma outline_distinct: "distinct (map hd_line (outline_go f n ls))"
proof (induction f n ls rule: outline_go.induct)
  case (2 f n raw ls)
  have "\<forall>h \<in> set (outline_go f' (Suc n) ls). hd_line h \<noteq> Suc n" for f'
    using outline.hit_bounds by fastforce
  moreover have "map hd_line (outline_line (Suc n) raw) \<in> {[], [Suc n]}"
    by (auto simp: outline_line_def mk_heading_def Let_def split: option.splits)
  ultimately show ?case using 2 by (auto simp: map_eq_Cons_conv) metis
qed simp

text \<open>The headings of an artifact come in document order, one per line at most, on lines of the
  file and with levels from 1 to 6.\<close>

theorem scan_headings_shape:
  assumes "read_text_safe fs path = Some lines"
  shows "sorted_wrt (<) (map hd_line (scan_headings fs path))
    \<and> list_all (\<lambda>h. 1 \<le> hd_line h \<and> hd_line h \<le> length lines \<and> 1 \<le> hd_level h \<and> hd_level h \<le> 6)
        (scan_headings fs path)"
proof -
  have s: "scan_headings fs path = outline_go False 0 lines" using assms by (simp add: scan_headings_def)
  have "1 \<le> hd_level h \<and> hd_level h \<le> 6" if h: "h \<in> set (outline_go False 0 lines)" for h
  proof -
    from outline.hit_line [OF h] obtain l raw where "h \<in> set (outline_line l raw)" by auto
    then obtain m where m: "re_match HEADING_RE raw = Some m" "h = mk_heading l m"
      by (cases "re_match HEADING_RE raw") (auto simp: outline_line_def)
    then have "hd_level h = length (grp_str m ''1'')"
      by (auto simp: mk_heading_def Let_def split: option.splits)
    then show ?thesis using heading_level [OF m(1)] by simp
  qed
  moreover have "0 < hd_line h \<and> hd_line h \<le> length lines" if "h \<in> set (outline_go False 0 lines)" for h
    using outline.hit_bounds [OF that] by simp
  moreover have "sorted_wrt (<) (map hd_line (outline_go False 0 lines))"
    using outline.hits_sorted [of False 0 lines] outline_distinct [of False 0 lines]
    by (simp add: strict_sorted_iff)
  ultimately show ?thesis by (auto simp: s list_all_iff Suc_le_eq)
qed

theorem scan_headings_shape_witness:
  "map hd_line (scan_headings (\<lambda>_. Some (''# 1. A'' @ [NL, NL] @ ''## B'')) ''d.md'') = [1, 3]
   \<and> sorted_wrt (<) (map hd_line (scan_headings (\<lambda>_. Some (''# 1. A'' @ [NL, NL] @ ''## B'')) ''d.md''))"
proof -
  let ?fs = "\<lambda>_::string. Some (''# 1. A'' @ [NL, NL] @ ''## B'')"
  have "read_text_safe ?fs ''d.md'' = Some [''# 1. A'', [], ''## B'']" by code_simp
  moreover have "map hd_line (scan_headings ?fs ''d.md'') = [1, 3]" by code_simp
  ultimately show ?thesis using scan_headings_shape [of ?fs "''d.md''"] by blast
qed

subsection \<open>Numbering\<close>

text \<open>The numbers of the headings with the same level and the same numeric parent, in order.\<close>

fun child_of :: "num_key \<Rightarrow> heading \<Rightarrow> nat option" where
  "child_of key h =
     (case hd_parts h of
        Some (p # ps) \<Rightarrow> if num_key h (p # ps) = key then Some (last (p # ps)) else None
      | _ \<Rightarrow> None)"

definition siblings :: "num_key \<Rightarrow> heading list \<Rightarrow> nat list" where
  "siblings key hs = List.map_filter (child_of key) hs"

definition consecutive_from :: "nat \<Rightarrow> nat list \<Rightarrow> bool" where
  "consecutive_from c xs = (xs = [c..<c + length xs])"

definition consecutive :: "nat list \<Rightarrow> bool" where
  "consecutive xs = (case xs of [] \<Rightarrow> True | c # _ \<Rightarrow> consecutive_from c xs)"

lemma siblings_Nil [simp]: "siblings key [] = []"
  by (simp add: siblings_def List.map_filter_simps)

lemma siblings_Cons:
  "siblings key (h # hs) = (case child_of key h of None \<Rightarrow> siblings key hs | Some c \<Rightarrow> c # siblings key hs)"
  by (simp add: siblings_def List.map_filter_simps del: child_of.simps split: option.split)

lemma consecutive_from_Cons [simp]: "consecutive_from c (x # xs) \<longleftrightarrow> x = c \<and> consecutive_from (Suc c) xs"
proof -
  have "[c..<c + length (x # xs)] = c # [Suc c..<Suc c + length xs]" by (subst upt_conv_Cons) simp_all
  then show ?thesis by (simp only: consecutive_from_def list.inject)
qed

lemma consecutive_from_Nil [simp]: "consecutive_from c []"
  by (simp add: consecutive_from_def)

lemma consecutive_Cons [simp]: "consecutive (x # xs) \<longleftrightarrow> consecutive_from (Suc x) xs"
  by (simp add: consecutive_def)

lemma consecutive_Nil [simp]: "consecutive []"
  by (simp add: consecutive_def)

definition numbering_ok :: "(num_key \<times> nat \<times> string) list \<Rightarrow> heading list \<Rightarrow> num_key \<Rightarrow> bool" where
  "numbering_ok seen hs key =
     (case dget seen key of
        None \<Rightarrow> consecutive (siblings key hs)
      | Some (c, _) \<Rightarrow> consecutive_from (Suc c) (siblings key hs))"

lemma numbering_go_Nil_iff: "numbering_go path kind seen hs = [] \<longleftrightarrow> (\<forall>key. numbering_ok seen hs key)"
proof (induction hs arbitrary: seen)
  case Nil
  then show ?case by (simp add: numbering_ok_def split: option.splits)
next
  case (Cons h hs)
  show ?case
  proof (cases "\<exists>p ps. hd_parts h = Some (p # ps)")
    case False
    then have "child_of key h = None" for key by (auto split: option.splits list.splits)
    then have "siblings key (h # hs) = siblings key hs" for key
      by (simp add: siblings_Cons del: child_of.simps)
    then have "numbering_ok seen (h # hs) key = numbering_ok seen hs key" for key
      by (simp only: numbering_ok_def)
    moreover have "numbering_go path kind seen (h # hs) = numbering_go path kind seen hs"
      using False by (cases "hd_parts h") (auto split: list.splits)
    ultimately show ?thesis using Cons by simp
  next
    case True
    then obtain p ps where p: "hd_parts h = Some (p # ps)" by blast
    let ?k = "num_key h (p # ps)" and ?c = "last (p # ps)"
    let ?seen = "dset ?k (?c, num_prefix h (p # ps)) seen"
    have sib: "siblings key (h # hs) = (if key = ?k then ?c # siblings key hs else siblings key hs)" for key
      by (simp add: siblings_Cons p)
    have other: "numbering_ok seen (h # hs) key = numbering_ok ?seen hs key" if "key \<noteq> ?k" for key
      using that by (simp add: numbering_ok_def sib split: option.split)
    have own: "numbering_ok ?seen hs ?k = consecutive_from (Suc ?c) (siblings ?k hs)"
      by (simp add: numbering_ok_def)
    have split: "(\<forall>key. numbering_ok s xs key) \<longleftrightarrow> numbering_ok s xs ?k \<and> (\<forall>key. key \<noteq> ?k \<longrightarrow> numbering_ok s xs key)"
      for s xs by metis
    show ?thesis
    proof (cases "dget seen ?k")
      case None
      have "numbering_ok seen (h # hs) ?k = consecutive_from (Suc ?c) (siblings ?k hs)"
        using None by (simp add: numbering_ok_def sib)
      moreover have "numbering_go path kind seen (h # hs) = numbering_go path kind ?seen hs"
        using None p by (simp add: Let_def)
      ultimately show ?thesis using Cons [of ?seen] own other split by metis
    next
      case (Some cp)
      obtain c pre where cp: "cp = (c, pre)" by (cases cp)
      have "numbering_ok seen (h # hs) ?k \<longleftrightarrow> ?c = Suc c \<and> consecutive_from (Suc ?c) (siblings ?k hs)"
        using Some cp by (auto simp: numbering_ok_def sib)
      moreover have "numbering_go path kind seen (h # hs) = [] \<longleftrightarrow>
          ?c = Suc c \<and> numbering_go path kind ?seen hs = []"
        using Some cp p by (simp add: Let_def)
      ultimately show ?thesis using Cons [of ?seen] own other split by metis
    qed
  qed
qed

text \<open>No numbering error is reported exactly when, for every heading level and every numeric
  parent, the numbers of the headings under it are consecutive.\<close>

theorem numbering_consecutive:
  "numbering_go path kind [] hs = [] \<longleftrightarrow> (\<forall>key. consecutive (siblings key hs))"
  by (simp add: numbering_go_Nil_iff numbering_ok_def)

subsection \<open>The contract\<close>

lemma slice_nth: "i < length (slice s e xs) \<Longrightarrow> slice s e xs ! i = xs ! (s + i)"
proof -
  assume i: "i < length (slice s e xs)"
  then have "s \<le> length (take e xs)" "s + i < e" by (auto simp: length_slice)
  then show ?thesis by (simp add: slice_def nth_drop)
qed

lemma first_match_hit:
  assumes "first_match rx hc hs s e < e" and "e \<le> length hs"
  shows "s \<le> first_match rx hc hs s e \<and> hc_matches rx hc (hs ! first_match rx hc hs s e)"
proof -
  let ?P = "\<lambda>h. \<not> hc_matches rx hc h"
  let ?n = "length (takeWhile ?P (slice s e hs))"
  have n: "?n < length (slice s e hs)" using assms by (simp add: first_match_def length_slice)
  then have "\<not> ?P (slice s e hs ! ?n)" by (rule nth_length_takeWhile)
  with n show ?thesis by (simp add: first_match_def slice_nth)
qed

lemma scope_end_le: "i < length hs \<Longrightarrow> scope_end_for_parent hs i l \<le> length hs"
  using length_takeWhile_le [of "\<lambda>h. l < hd_level h" "drop (Suc i) hs"]
  by (simp add: scope_end_for_parent_def)

definition last_ok :: "heading list \<Rightarrow> (nat \<times> nat) list \<Rightarrow> bool" where
  "last_ok hs d = (\<forall>(l, i) \<in> set d. i < length hs)"

lemma search_scope_bounds:
  assumes "last_ok hs d" and "search_scope hs cursor d level = (s, e)"
  shows "cursor \<le> s \<and> e \<le> length hs"
proof (cases "find (\<lambda>pl. dhas d pl) (rev [1..<level])")
  case None
  with assms(2) show ?thesis by (simp add: search_scope_def)
next
  case (Some pl)
  then have "dhas d pl" by (metis find_Some_iff)
  then obtain i where i: "dget d pl = Some i" by (auto simp: dhas_def)
  then have "i < length hs" using assms(1) map_of_SomeD [OF i] by (auto simp: last_ok_def)
  with Some i assms(2) scope_end_le show ?thesis by (auto simp: search_scope_def)
qed

lemma match_end_bounds:
  assumes "j < e" and "e \<le> length hs"
  shows "j < match_end rx hc hs j e \<and> match_end rx hc hs j e \<le> e"
  using assms length_takeWhile_le [of "hc_matches rx hc" "slice (Suc j) e hs"]
  by (auto simp: match_end_def length_slice)

lemma last_ok_step:
  "last_ok hs d \<Longrightarrow> i < length hs \<Longrightarrow> last_ok hs (filter (\<lambda>(l, i). l \<le> m) (dset m i d))"
  using set_dset_cases by (fastforce simp: last_ok_def)

text \<open>The required constraints match headings in this order.\<close>

fun in_order :: "rx \<Rightarrow> heading list \<Rightarrow> heading_constraint list \<Rightarrow> bool" where
  "in_order rx hs [] = True"
| "in_order rx hs (hc # hcs) =
     ((\<not> hc_required hc \<and> in_order rx hs hcs)
      \<or> (\<exists>j < length hs. hc_matches rx hc (hs ! j) \<and> in_order rx (drop (Suc j) hs) hcs))"

lemma in_order_drop: "in_order rx (drop n hs) hcs \<Longrightarrow> m \<le> n \<Longrightarrow> in_order rx (drop m hs) hcs"
proof (induction hcs arbitrary: n m)
  case (Cons hc hcs)
  from Cons.prems(1) consider "\<not> hc_required hc" "in_order rx (drop n hs) hcs"
    | j where "j < length (drop n hs)" "hc_matches rx hc (drop n hs ! j)" "in_order rx (drop (Suc j) (drop n hs)) hcs"
    by auto
  then show ?case
  proof cases
    case 1
    with Cons show ?thesis by auto
  next
    case 2
    let ?j = "n - m + j"
    from 2 Cons.prems(2) have "?j < length (drop m hs)" "drop m hs ! ?j = drop n hs ! j"
      "drop (Suc ?j) (drop m hs) = drop (Suc j) (drop n hs)" by (auto simp: ac_simps)
    with 2 show ?thesis by fastforce
  qed
qed simp

lemma contract_go_in_order:
  assumes "\<not> has_code HEADING_MISSING (contract_go rx cx hcs hs cursor d idx rest)" and "last_ok hs d"
  shows "in_order rx (drop cursor hs) rest"
  using assms
proof (induction rest arbitrary: cursor d idx)
  case (Cons hc rest)
  obtain s e where se: "search_scope hs cursor d (hc_level hc) = (s, e)" by fastforce
  let ?j = "first_match rx hc hs s e"
  note b = search_scope_bounds [OF Cons.prems(2) se]
  show ?case
  proof (cases "e \<le> ?j")
    case True
    with Cons.prems se have "\<not> hc_required hc"
      "\<not> has_code HEADING_MISSING (contract_go rx cx hcs hs cursor d (Suc idx) rest)"
      by (auto simp: missing_heading_def Let_def split: if_splits)
    with Cons.IH Cons.prems(2) show ?thesis by auto
  next
    case False
    let ?k = "match_end rx hc hs ?j e"
    from False b have h: "s \<le> ?j" "hc_matches rx hc (hs ! ?j)" "?j < ?k" "?k \<le> e"
      using first_match_hit [of rx hc hs s e] match_end_bounds [of ?j e hs rx hc] by auto
    with b have "last_ok hs (filter (\<lambda>(l, i). l \<le> hc_level hc) (dset (hc_level hc) (?k - 1) d))"
      by (intro last_ok_step Cons.prems(2)) auto
    moreover have "\<not> has_code HEADING_MISSING (contract_go rx cx hcs hs ?k
        (filter (\<lambda>(l, i). l \<le> hc_level hc) (dset (hc_level hc) (?k - 1) d)) (Suc idx) rest)"
      using Cons.prems(1) se False by (simp add: Let_def)
    ultimately have "in_order rx (drop ?k hs) rest" by (intro Cons.IH)
    then have "in_order rx (drop (Suc ?j) hs) rest" by (rule in_order_drop) (use h in simp)
    then show ?thesis
      using h b by (auto intro!: exI [of _ "?j - cursor"])
  qed
qed simp

text \<open>C29. An artifact whose headings pass the contract has its required headings in the order in which
  the constraints list them: each required constraint matches a heading after those of the
  constraints before it, with the right level and title.\<close>

theorem contract_in_order:
  assumes "kc_headings c = Some hcs"
    and "\<not> has_code HEADING_MISSING (r_errors (validate_headings_contract rx fs path c kind cpath kit))"
  shows "in_order rx (scan_headings fs path) hcs"
proof (cases "hcs = []")
  case False
  let ?cx = "\<lparr>cx_path = path, cx_kind = upper (strip kind), cx_constraints_path = cpath, cx_kit = kit\<rparr>"
  from assms False have "\<not> has_code HEADING_MISSING (contract_go rx ?cx hcs (scan_headings fs path) 0 [] 0 hcs)"
    by (simp add: validate_headings_contract_def Let_def)
  from contract_go_in_order [OF this] show ?thesis by (simp add: last_ok_def)
qed simp

definition sample_hc :: "nat \<Rightarrow> string \<Rightarrow> heading_constraint" where
  "sample_hc level i = \<lparr>hc_level = level, hc_pattern = None, hc_description = None, hc_required = True,
     hc_multiple = None, hc_numbered = None, hc_id = Some i, hc_prev = None, hc_next = None, hc_pointer = None\<rparr>"

theorem contract_in_order_witness:
  "in_order (\<lambda>_. Inl []) (scan_headings (\<lambda>_. Some (''# A'' @ [NL] @ ''## B'')) ''d.md'')
     [sample_hc 1 ''t'', sample_hc 2 ''s'']"
proof -
  let ?c = "\<lparr>kc_name = None, kc_description = None, kc_defined_id = [],
    kc_headings = Some [sample_hc 1 ''t'', sample_hc 2 ''s''], kc_toc = True\<rparr>"
  have "r_errors (validate_headings_contract (\<lambda>_. Inl []) (\<lambda>_. Some (''# A'' @ [NL] @ ''## B'')) ''d.md''
      ?c ''PRD'' None None) = []" by code_simp
  then have "\<not> has_code HEADING_MISSING (r_errors (validate_headings_contract (\<lambda>_. Inl [])
      (\<lambda>_. Some (''# A'' @ [NL] @ ''## B'')) ''d.md'' ?c ''PRD'' None None))" by (simp only: has_code_Nil not_False_eq_True)
  from contract_in_order [OF _ this] show ?thesis by (simp del: in_order.simps)
qed

text \<open>The contract never reports a wrong number of headings: the codes for a prohibited and for a
  missing repetition cannot occur, whatever the constraint's \<open>multiple\<close> field says.\<close>

theorem contract_never_counts:
  "\<not> has_code HEADING_PROHIBITS_MULTIPLE (r_errors (validate_headings_contract rx fs path c kind cpath kit))
   \<and> \<not> has_code HEADING_REQUIRES_MULTIPLE (r_errors (validate_headings_contract rx fs path c kind cpath kit))"
proof -
  have num: "\<not> has_code code (numbering_go path k seen hs)" if "code \<noteq> HEADING_NUMBER_NOT_CONSECUTIVE"
    for code k seen hs
    using that by (induction path k seen hs rule: numbering_go.induct)
      (auto simp: Let_def split: option.splits list.splits)
  have one: "\<not> has_code code (match_errors cx idx hc (slice j (match_end rx hc hs j e) hs))"
    if "code \<in> {HEADING_PROHIBITS_MULTIPLE, HEADING_REQUIRES_MULTIPLE}" and "j < e" "e \<le> length hs"
    for code cx idx hc hs j e
    using that match_end_bounds [OF that(2,3), of rx hc]
    by (auto simp: match_errors_def contract_error_def has_code_def length_slice match_end_def
        split: option.splits if_splits)
  have go: "\<not> has_code code (contract_go rx cx hcs hs cursor d idx rest)"
    if c: "code \<in> {HEADING_PROHIBITS_MULTIPLE, HEADING_REQUIRES_MULTIPLE}" and "last_ok hs d"
    for code cx hcs hs cursor d idx rest
    using that(2)
  proof (induction rest arbitrary: cursor d idx)
    case (Cons hc rest)
    obtain s e where se: "search_scope hs cursor d (hc_level hc) = (s, e)" by fastforce
    let ?j = "first_match rx hc hs s e"
    note b = search_scope_bounds [OF Cons.prems se]
    show ?case
    proof (cases "e \<le> ?j")
      case True
      then show ?thesis using Cons se c by (auto simp: missing_heading_def Let_def has_code_def)
    next
      case False
      let ?k = "match_end rx hc hs ?j e"
      have "last_ok hs (filter (\<lambda>(l, i). l \<le> hc_level hc) (dset (hc_level hc) (?k - 1) d))"
        using False b match_end_bounds [of ?j e hs rx hc] by (intro last_ok_step Cons.prems) auto
      then show ?thesis using Cons.IH se False one [OF c, of ?j e hs cx idx hc] b by (simp add: Let_def)
    qed
  qed simp
  show ?thesis
    by (auto simp: validate_headings_contract_def Let_def last_ok_def num go split: option.splits)
qed

subsection \<open>The constraints in force\<close>

definition hc_ids :: "heading_constraint list \<Rightarrow> string set" where
  "hc_ids hcs = {strip (str_or_empty (hc_id hc)) | hc. hc \<in> set hcs}"

lemma opt_strip_id: "opt_strip (hc_id hc) = Some i \<Longrightarrow> hc \<in> set hcs \<Longrightarrow> i \<in> hc_ids hcs"
  by (auto simp: opt_strip_def hc_ids_def str_or_empty_def split: option.splits if_splits)

lemma find_mem: "find P xs = Some x \<Longrightarrow> x \<in> set xs \<and> P x"
  by (auto simp: find_Some_iff)

lemma pick_best_mem: "pick_best rx hcs l t w = Some hc \<Longrightarrow> hc \<in> set hcs"
proof -
  let ?cands = "filter (\<lambda>hc. hc_level hc = l \<and> (w \<or> has_pattern hc) \<and> compiled_matches rx hc t) hcs"
  assume "pick_best rx hcs l t w = Some hc"
  then have "hc \<in> set ?cands"
    unfolding pick_best_def Let_def
    by (cases "find has_pattern ?cands"; cases ?cands) (auto dest: find_mem split: if_splits)
  then show ?thesis by simp
qed

lemma wildcard_ids:
  "dget (wildcard_lvl3 xs d) p = Some i \<Longrightarrow> set xs \<subseteq> set hcs \<Longrightarrow> dget d p = Some i \<or> i \<in> hc_ids hcs"
proof (induction xs d rule: wildcard_lvl3.induct)
  case (2 hc xs d)
  let ?d = "if hc_level hc = 2 \<and> strip (str_or_empty (hc_id hc)) \<noteq> []
    then (case find (\<lambda>c. hc_level c = 3 \<and> \<not> has_pattern c \<and> strip (str_or_empty (hc_id c)) \<noteq> [])
                    (takeWhile (\<lambda>c. hc_level c \<noteq> 2) xs) of None \<Rightarrow> d
          | Some c \<Rightarrow> dset (strip (str_or_empty (hc_id hc))) (strip (str_or_empty (hc_id c))) d) else d"
  have "dget (wildcard_lvl3 xs ?d) p = Some i" using "2.prems"(1) by (simp add: Let_def)
  with 2 have "dget ?d p = Some i \<or> i \<in> hc_ids hcs" by (simp add: Let_def)
  moreover have "c \<in> set hcs" if "find Q (takeWhile R xs) = Some c" for Q R c
    using find_mem [OF that] set_takeWhileD [of c R xs] "2.prems"(2) by auto
  ultimately show ?case
    by (auto simp: hc_ids_def split: if_splits option.splits)
qed simp

lemma match_heading_id: "match_heading rx hcs lvl2 h = Some i \<Longrightarrow> i \<in> hc_ids hcs"
  using wildcard_ids [of hcs "[]" _ i hcs]
  by (auto simp: match_heading_def matched_hc_id_def split: if_splits option.splits
      dest: opt_strip_id pick_best_mem)

lemma heading_events_ids:
  "dget (heading_events rx hcs lvl2 hs) n = Some (l, Some i) \<Longrightarrow> i \<in> hc_ids hcs"
  by (induction rx hcs lvl2 hs rule: heading_events.induct)
    (auto simp: Let_def match_heading_id split: if_splits)

lemma active_go_ids:
  assumes "\<And>n l i. dget ev n = Some (l, Some i) \<Longrightarrow> i \<in> A" and "snd ` set stack \<subseteq> A"
  shows "length (active_go ev stack n k) = k \<and> list_all (\<lambda>row. set row \<subseteq> A) (active_go ev stack n k)"
  using assms(2)
proof (induction k arbitrary: stack n)
  case (Suc k)
  let ?st = "case dget ev n of None \<Rightarrow> stack | Some (lvl, hid) \<Rightarrow>
    (let st = dropWhile (\<lambda>(l, i). lvl \<le> l) stack in case hid of None \<Rightarrow> st | Some i \<Rightarrow> (lvl, i) # st)"
  have "snd ` set (dropWhile P stack) \<subseteq> A" for P
    using Suc.prems by (meson image_mono order_trans set_dropWhileD subsetI)
  then have "snd ` set ?st \<subseteq> A"
    using Suc.prems assms(1) [of n] by (auto simp: Let_def split: option.splits prod.splits)
  from this Suc.IH [OF this] show ?case by (simp add: Let_def)
qed simp

text \<open>\<open>heading_constraint_ids_by_line\<close> has a row for line 0 and for every line of a readable
  artifact, and every entry is the ID of one of the given constraints.\<close>

theorem heading_ids_by_line_shape:
  assumes "read_text_safe fs path = Some lines"
  shows "length (heading_constraint_ids_by_line rx fs path hcs) = Suc (length lines)
    \<and> list_all (\<lambda>row. set row \<subseteq> hc_ids hcs) (heading_constraint_ids_by_line rx fs path hcs)"
  using assms active_go_ids [of "heading_events rx hcs None (scan_headings fs path)" "hc_ids hcs" "[]" 1 "length lines"]
    heading_events_ids
  by (simp add: heading_constraint_ids_by_line_def)

theorem heading_ids_by_line_shape_witness:
  "heading_constraint_ids_by_line (\<lambda>_. Inl []) (\<lambda>_. Some (''# A'' @ [NL] @ ''x'')) ''d.md'' [sample_hc 1 ''t'']
     = [[], [''t''], [''t'']]
   \<and> length (heading_constraint_ids_by_line (\<lambda>_. Inl []) (\<lambda>_. Some (''# A'' @ [NL] @ ''x'')) ''d.md'' [sample_hc 1 ''t''])
     = Suc (length [''# A'', ''x''])"
proof -
  let ?fs = "\<lambda>_::string. Some (''# A'' @ [NL] @ ''x'')"
  have r: "read_text_safe ?fs ''d.md'' = Some [''# A'', ''x'']" by code_simp
  have "heading_constraint_ids_by_line (\<lambda>_. Inl []) ?fs ''d.md'' [sample_hc 1 ''t''] = [[], [''t''], [''t'']]"
    by code_simp
  then show ?thesis using heading_ids_by_line_shape [OF r, of "\<lambda>_. Inl []" "[sample_hc 1 ''t'']"] by blast
qed

text \<open>
  A pattern that does not compile matches a heading with an empty title here, and nothing in
  the contract.
\<close>

lemma invalid_pattern_matches:
  "compiled_matches (\<lambda>_. Inl []) ((sample_hc 2 ''x'')\<lparr>hc_pattern := Some ''[''\<rparr>) []
   \<and> \<not> hc_matches (\<lambda>_. Inl []) ((sample_hc 2 ''x'')\<lparr>hc_pattern := Some ''[''\<rparr>)
        \<lparr>hd_line = 1, hd_level = 2, hd_raw_title = [], hd_title = [], hd_numbered = False, hd_prefix = None,
         hd_parts = None\<rparr>"
  by code_simp

end
