(* ===== verification/Cpt_Ids.thy ===== *)
theory Cpt_Ids
  imports Constraint_Parse
begin

section \<open>The system and the kind of an ID (\<open>utils/constraints.py\<close>)\<close>

text \<open>
  An ID reads \<open>cpt-system-kind-slug\<close>, and a system or a slug may itself contain dashes. The
  functions find the boundaries with the registered systems and the known kinds. Both are
  Python sets, whose iteration order is arbitrary: here they are lists in that order.
\<close>

subsection \<open>Taking an ID apart\<close>

record parsed_id =
  p_system :: string
  p_kind :: string
  p_slug :: string

definition dash_parts :: "string \<Rightarrow> string list" where
  "dash_parts s = filter (\<lambda>p. p \<noteq> []) (split_on (CHR ''-'') s)"

definition cpt_prefix :: "string \<Rightarrow> string" where
  "cpt_prefix system = ''cpt-'' @ system @ ''-''"

definition systems_by_length :: "string list \<Rightarrow> string list" where
  "systems_by_length systems = sorted_by (\<lambda>a b. length b < length a) (remdups (filter (\<lambda>s. strip s \<noteq> []) systems))"

definition parse_cpt :: "string \<Rightarrow> string \<Rightarrow> string list \<Rightarrow> (string \<Rightarrow> bool) option \<Rightarrow> string list option
    \<Rightarrow> parsed_id option" where
  "parse_cpt cpt expected_kind registered_systems where_defined known_kinds =
     (if cpt = [] \<or> \<not> startswith (lower cpt) ''cpt-'' then None
      else if length (split_on (CHR ''-'') cpt) < 3 then None
      else (case find (\<lambda>s. startswith (lower cpt) (lower (cpt_prefix s))) (systems_by_length registered_systems) of
        None \<Rightarrow> None
      | Some system \<Rightarrow>
          (let remainder = drop (length (cpt_prefix system)) cpt
           in if remainder = [] then None
              else (case dash_parts remainder of
                [] \<Rightarrow> None
              | first_kind # more_parts \<Rightarrow>
                  if (case known_kinds of
                        None \<Rightarrow> False
                      | Some ks \<Rightarrow> lower (strip expected_kind) \<notin> (\<lambda>k. lower (strip k)) ` {k \<in> set ks. strip k \<noteq> []})
                  then None
                  else if lower first_kind = lower expected_kind
                  then Some \<lparr>p_system = system, p_kind = expected_kind, p_slug = join_with ''-'' more_parts\<rparr>
                  else
                    (let sep = ''-'' @ expected_kind @ ''-''
                     in case find_sub (lower remainder) (lower sep) of
                          None \<Rightarrow> None
                        | Some idx \<Rightarrow>
                            (let left = cpt_prefix system @ take idx remainder
                             in if (case where_defined of None \<Rightarrow> False | Some f \<Rightarrow> \<not> f left) then None
                                else Some \<lparr>p_system = system, p_kind = expected_kind,
                                           p_slug = drop (idx + length sep) remainder\<rparr>))))))"

subsection \<open>The system\<close>

text \<open>The longest system that prefixes the ID, the first one in iteration order among equals.\<close>

fun longest_system :: "string \<Rightarrow> string option \<Rightarrow> string list \<Rightarrow> string option" where
  "longest_system cpt matched [] = matched"
| "longest_system cpt matched (sys # rest) =
     longest_system cpt
       (if startswith (lower cpt) (cpt_prefix sys)
           \<and> (case matched of None \<Rightarrow> True | Some m \<Rightarrow> length m < length sys)
        then Some sys else matched) rest"

fun rightmost_kind :: "string \<Rightarrow> nat option \<Rightarrow> string list \<Rightarrow> nat option" where
  "rightmost_kind remainder best [] = best"
| "rightmost_kind remainder best (kt # rest) =
     rightmost_kind remainder
       (case find_sub remainder (''-'' @ kt @ ''-'') of
          None \<Rightarrow> best
        | Some idx \<Rightarrow>
            if 0 < idx \<and> (case best of None \<Rightarrow> True | Some b \<Rightarrow> b < idx) then Some idx else best) rest"

definition unregistered_system :: "string list \<Rightarrow> string \<Rightarrow> string option" where
  "unregistered_system kind_tokens cpt =
     (let remainder = drop 4 cpt
      in case rightmost_kind remainder None kind_tokens of
           Some pos \<Rightarrow> Some (lower (take pos remainder))
         | None \<Rightarrow>
             (let parts = split_on (CHR ''-'') cpt
              in if 3 \<le> length parts then Some (lower (parts ! 1)) else None))"

text \<open>The function of \<open>validate_artifact_file\<close> and the one of \<open>cross_validate_artifacts\<close>.\<close>

definition match_system :: "string list \<Rightarrow> string list \<Rightarrow> string \<Rightarrow> string option" where
  "match_system systems kind_tokens cpt =
     (if \<not> startswith (lower cpt) ''cpt-'' then None
      else (case longest_system cpt None systems of
              Some s \<Rightarrow> Some s
            | None \<Rightarrow> if systems = [] then unregistered_system kind_tokens cpt else None))"

definition match_system_from_id :: "string list \<Rightarrow> string list \<Rightarrow> string \<Rightarrow> string option" where
  "match_system_from_id systems kind_tokens cpt =
     (if \<not> startswith (lower cpt) ''cpt-'' then None
      else if systems = [] then unregistered_system kind_tokens cpt
      else longest_system cpt None systems)"

definition is_external_system_ref :: "string list \<Rightarrow> string \<Rightarrow> bool" where
  "is_external_system_ref systems cpt =
     (if systems = [] then False
      else if \<not> startswith (lower cpt) ''cpt-'' then False
      else \<not> list_ex (\<lambda>sys. startswith (lower cpt) (cpt_prefix sys)) systems)"

subsection \<open>The kind\<close>

fun leftmost_kind :: "string \<Rightarrow> (nat \<times> string) option \<Rightarrow> string list \<Rightarrow> (nat \<times> string) option" where
  "leftmost_kind rem_l best [] = best"
| "leftmost_kind rem_l best (kt # rest) =
     leftmost_kind rem_l
       (case find_sub rem_l (''-'' @ kt @ ''-'') of
          None \<Rightarrow> best
        | Some idx \<Rightarrow>
            if 0 < idx \<and> (case best of None \<Rightarrow> True | Some (b, _) \<Rightarrow> idx < b) then Some (idx, kt) else best) rest"

definition nested_kind :: "string \<Rightarrow> string list \<Rightarrow> string list \<Rightarrow> string option" where
  "nested_kind base nested parts =
     (if nested \<noteq> [] \<and> 4 \<le> length parts
      then find (\<lambda>pp. pp \<in> set nested \<and> pp \<noteq> base) (map (\<lambda>p. lower (strip p)) (rev (drop 2 parts)))
      else None)"

text \<open>
  \<open>composite\<close> gives the kinds nested in an artifact kind. The two functions of the code,
  in \<open>validate_artifact_file\<close> and in \<open>cross_validate_artifacts\<close>, have the same body.
\<close>

definition extract_kind_from_id :: "(string \<times> string list) list \<Rightarrow> string list \<Rightarrow> string \<Rightarrow> string option
    \<Rightarrow> string option" where
  "extract_kind_from_id composite kind_tokens cpt system =
     (case system of
        None \<Rightarrow> None
      | Some sys \<Rightarrow>
          if \<not> startswith (lower cpt) ''cpt-'' \<or> \<not> startswith (lower cpt) (lower (cpt_prefix sys)) then None
          else
            (let remainder = drop (length (cpt_prefix sys)) cpt
             in case dash_parts remainder of
                  [] \<Rightarrow> None
                | p # ps \<Rightarrow>
                    (let parts = p # ps; base = lower (strip p);
                         tokens = map (\<lambda>k. lower (strip k)) (filter (\<lambda>k. strip k \<noteq> []) kind_tokens)
                     in case nested_kind base (dgetl composite base) parts of
                          Some pp \<Rightarrow> Some pp
                        | None \<Rightarrow>
                            if base \<in> set tokens then Some base
                            else (case leftmost_kind (lower remainder) None tokens of
                                    Some (_, kt) \<Rightarrow> Some kt
                                  | None \<Rightarrow> Some base))))"

definition cross_extract_kind_from_id :: "(string \<times> string list) list \<Rightarrow> string list \<Rightarrow> string \<Rightarrow> string option
    \<Rightarrow> string option" where
  "cross_extract_kind_from_id = extract_kind_from_id"

end
