(* ===== verification/Cpt_Ids_Facts.thy ===== *)
theory Cpt_Ids_Facts
  imports Cpt_Ids Codebase_Facts
begin

section \<open>Correctness of the analysis of IDs\<close>

text \<open>
  The system of an ID is the longest registered one, whatever the order in which the set of
  systems is iterated; the kind is independent of that order when no kind extends another by
  a dash; and an ID put together from its parts is taken apart into them.
\<close>

subsection \<open>The longest system\<close>

definition is_longest :: "string \<Rightarrow> string set \<Rightarrow> string \<Rightarrow> bool" where
  "is_longest cpt S s \<longleftrightarrow> s \<in> S \<and> startswith (lower cpt) (cpt_prefix s)
     \<and> (\<forall>t \<in> S. startswith (lower cpt) (cpt_prefix t) \<longrightarrow> length t \<le> length s)"

lemma longest_system_spec:
  "case longest_system cpt m ss of
     None \<Rightarrow> m = None \<and> (\<forall>t \<in> set ss. \<not> startswith (lower cpt) (cpt_prefix t))
   | Some s \<Rightarrow> (m = Some s \<or> (s \<in> set ss \<and> startswith (lower cpt) (cpt_prefix s)))
       \<and> (\<forall>t \<in> set ss. startswith (lower cpt) (cpt_prefix t) \<longrightarrow> length t \<le> length s)
       \<and> (\<forall>x. m = Some x \<longrightarrow> length x \<le> length s)"
proof (induction cpt m ss rule: longest_system.induct)
  case (2 cpt m sys rest)
  let ?m = "if startswith (lower cpt) (cpt_prefix sys)
      \<and> (case m of None \<Rightarrow> True | Some m \<Rightarrow> length m < length sys) then Some sys else m"
  show ?case
  proof (cases "longest_system cpt ?m rest")
    case None
    with 2 have "?m = None \<and> (\<forall>t \<in> set rest. \<not> startswith (lower cpt) (cpt_prefix t))" by simp
    with None show ?thesis by (auto split: if_splits option.splits)
  next
    case (Some s)
    with 2 have "(?m = Some s \<or> (s \<in> set rest \<and> startswith (lower cpt) (cpt_prefix s)))
       \<and> (\<forall>t \<in> set rest. startswith (lower cpt) (cpt_prefix t) \<longrightarrow> length t \<le> length s)
       \<and> (\<forall>x. ?m = Some x \<longrightarrow> length x \<le> length s)" by simp
    with Some show ?thesis by (cases m) (auto split: if_splits)
  qed
qed (simp split: option.splits)

lemma prefix_same_length:
  assumes "startswith x (cpt_prefix s)" and "startswith x (cpt_prefix t)" and "length s = length t"
  shows "s = t"
  using assms by (auto simp: startswith_iff cpt_prefix_def)

lemma is_longest_unique: "is_longest cpt S s \<Longrightarrow> is_longest cpt S t \<Longrightarrow> s = t"
  unfolding is_longest_def by (metis order_antisym prefix_same_length)

lemma longest_system_iff: "longest_system cpt None ss = Some s \<longleftrightarrow> is_longest cpt (set ss) s"
proof
  assume "longest_system cpt None ss = Some s"
  then show "is_longest cpt (set ss) s"
    using longest_system_spec [where cpt = cpt and m = None and ss = ss] by (auto simp: is_longest_def)
next
  assume a: "is_longest cpt (set ss) s"
  then obtain t where t: "longest_system cpt None ss = Some t"
    using longest_system_spec [where cpt = cpt and m = None and ss = ss] by (cases "longest_system cpt None ss") (auto simp: is_longest_def)
  then have "is_longest cpt (set ss) t"
    using longest_system_spec [where cpt = cpt and m = None and ss = ss] by (auto simp: is_longest_def)
  with a t is_longest_unique show "longest_system cpt None ss = Some s" by blast
qed

lemma cpt_prefix_starts: "startswith x (cpt_prefix s) \<Longrightarrow> startswith x ''cpt-''"
  by (auto simp: startswith_iff cpt_prefix_def)

text \<open>C31. With registered systems, the system of an ID is the longest of them that the ID starts
  with, if there is one, in whichever order the set is iterated; the two functions that
  determine it agree.\<close>

theorem match_system_longest:
  assumes "systems \<noteq> []"
  shows "(match_system systems kind_tokens cpt = Some s \<longleftrightarrow> is_longest cpt (set systems) s)
    \<and> match_system_from_id systems kind_tokens cpt = match_system systems kind_tokens cpt"
proof -
  have "\<not> startswith (lower cpt) ''cpt-'' \<Longrightarrow> \<not> is_longest cpt (set systems) s"
    using cpt_prefix_starts by (auto simp: is_longest_def)
  then show ?thesis
    using assms longest_system_iff [of cpt systems s]
    by (auto simp: match_system_def match_system_from_id_def split: option.splits)
qed

theorem match_system_longest_witness:
  "match_system [''cf'', ''cf-errors''] [''flow''] ''cpt-cf-errors-flow-x'' = Some ''cf-errors''
   \<and> is_longest ''cpt-cf-errors-flow-x'' (set [''cf'', ''cf-errors'']) ''cf-errors''"
proof -
  have m: "match_system [''cf'', ''cf-errors''] [''flow''] ''cpt-cf-errors-flow-x'' = Some ''cf-errors''"
    by code_simp
  have "[''cf'', ''cf-errors''] \<noteq> ([] :: string list)" by simp
  from match_system_longest [OF this, of "[''flow'']" "''cpt-cf-errors-flow-x''" "''cf-errors''"] m
  show ?thesis by blast
qed

subsection \<open>The kind\<close>

definition kind_at :: "string \<Rightarrow> string \<Rightarrow> nat \<Rightarrow> bool" where
  "kind_at rem k i \<longleftrightarrow> find_sub rem (''-'' @ k @ ''-'') = Some i \<and> 0 < i"

definition is_leftmost :: "string \<Rightarrow> string set \<Rightarrow> nat \<times> string \<Rightarrow> bool" where
  "is_leftmost rem S x \<longleftrightarrow> snd x \<in> S \<and> kind_at rem (snd x) (fst x)
     \<and> (\<forall>k \<in> S. \<forall>i. kind_at rem k i \<longrightarrow> fst x \<le> i)"

lemma leftmost_kind_spec:
  "case leftmost_kind rem b ks of
     None \<Rightarrow> b = None \<and> (\<forall>k \<in> set ks. \<forall>i. \<not> kind_at rem k i)
   | Some x \<Rightarrow> (b = Some x \<or> (snd x \<in> set ks \<and> kind_at rem (snd x) (fst x)))
       \<and> (\<forall>k \<in> set ks. \<forall>i. kind_at rem k i \<longrightarrow> fst x \<le> i) \<and> (\<forall>y. b = Some y \<longrightarrow> fst x \<le> fst y)"
proof (induction rem b ks rule: leftmost_kind.induct)
  case (2 rem b kt rest)
  let ?b = "case find_sub rem (''-'' @ kt @ ''-'') of None \<Rightarrow> b
    | Some idx \<Rightarrow> if 0 < idx \<and> (case b of None \<Rightarrow> True | Some (b, _) \<Rightarrow> idx < b) then Some (idx, kt) else b"
  have step: "leftmost_kind rem b (kt # rest) = leftmost_kind rem ?b rest" by simp
  have b1: "?b = b \<or> (\<exists>i. kind_at rem kt i \<and> ?b = Some (i, kt))"
    by (auto simp: kind_at_def split: option.splits)
  have b2: "kind_at rem kt i \<Longrightarrow> \<exists>y. ?b = Some y \<and> fst y \<le> i" for i
    by (auto simp: kind_at_def split: option.splits)
  have b3: "b = Some y \<Longrightarrow> \<exists>z. ?b = Some z \<and> fst z \<le> fst y" for y
    by (cases y) (auto split: option.splits)
  show ?case
  proof (cases "leftmost_kind rem ?b rest")
    case None
    with 2 have "?b = None" "\<forall>k \<in> set rest. \<forall>i. \<not> kind_at rem k i" by auto
    moreover from this(1) b2 have "\<not> kind_at rem kt i" for i by fastforce
    moreover from \<open>?b = None\<close> b3 have "b = None" by (cases b) fastforce+
    ultimately show ?thesis unfolding step None by simp
  next
    case (Some x)
    with 2 have x: "?b = Some x \<or> (snd x \<in> set rest \<and> kind_at rem (snd x) (fst x))"
      "\<forall>k \<in> set rest. \<forall>i. kind_at rem k i \<longrightarrow> fst x \<le> i" "\<And>y. ?b = Some y \<Longrightarrow> fst x \<le> fst y" by auto
    have "b = Some x \<or> (snd x \<in> set (kt # rest) \<and> kind_at rem (snd x) (fst x))" using x(1) b1 by auto
    moreover have "kind_at rem kt i \<Longrightarrow> fst x \<le> i" for i using b2 x(3) order_trans by blast
    moreover have "b = Some y \<Longrightarrow> fst x \<le> fst y" for y using b3 x(3) order_trans by blast
    ultimately show ?thesis unfolding step Some using x(2) by auto
  qed
qed (simp split: option.splits)

definition dash_free :: "string set \<Rightarrow> bool" where
  "dash_free S \<longleftrightarrow> (\<forall>a \<in> S. \<forall>b \<in> S. \<not> startswith b (a @ ''-''))"

lemma kind_at_unique:
  assumes "kind_at rem k i" and "kind_at rem k' i" and "dash_free S" and "k \<in> S" and "k' \<in> S"
  shows "k = k'"
proof -
  from assms(1,2) have "startswith (drop i rem) (''-'' @ k @ ''-'')" "startswith (drop i rem) (''-'' @ k' @ ''-'')"
    by (auto simp: kind_at_def dest: find_sub_Some)
  then obtain x y where "drop i rem = ''-'' @ k @ ''-'' @ x" "drop i rem = ''-'' @ k' @ ''-'' @ y"
    by (auto simp: startswith_iff)
  then have e: "k @ CHR ''-'' # x = k' @ CHR ''-'' # y" by simp
  then obtain us where us: "k = k' @ us \<and> us @ CHR ''-'' # x = CHR ''-'' # y
      \<or> k' = k @ us \<and> us @ CHR ''-'' # y = CHR ''-'' # x"
    unfolding append_eq_append_conv2 by (elim exE disjE) metis+
  then have "us = [] \<or> (\<exists>vs. us = CHR ''-'' # vs)" by (cases us) auto
  then show ?thesis
    using us assms(3-5) by (auto simp: dash_free_def startswith_iff)
qed

lemma leftmost_kind_order:
  assumes "set ks = set ks'" and "dash_free (set ks)"
  shows "leftmost_kind rem None ks = leftmost_kind rem None ks'"
proof -
  have l: "case leftmost_kind rem None xs of None \<Rightarrow> \<forall>k \<in> set xs. \<forall>i. \<not> kind_at rem k i
      | Some x \<Rightarrow> is_leftmost rem (set xs) x" for xs
    using leftmost_kind_spec [where rem = rem and b = None and ks = xs] by (auto simp: is_leftmost_def split: option.splits)
  have u: "x = y" if "is_leftmost rem (set ks) x" "is_leftmost rem (set ks) y" for x y
  proof -
    from that have "fst x = fst y" by (auto simp: is_leftmost_def intro: order_antisym)
    with that kind_at_unique [OF _ _ assms(2)] show ?thesis by (auto simp: is_leftmost_def prod_eq_iff)
  qed
  show ?thesis
    using l [of ks] l [of ks'] u assms(1)
    by (auto simp: is_leftmost_def split: option.splits)
qed

definition kind_set :: "string list \<Rightarrow> string set" where
  "kind_set kind_tokens = (\<lambda>k. lower (strip k)) ` {k \<in> set kind_tokens. strip k \<noteq> []}"

text \<open>The kind of an ID does not depend on the order in which the set of kinds is iterated, as
  long as no kind is another kind followed by a dash and more.\<close>

theorem extract_kind_order:
  assumes "set ks = set ks'" and "dash_free (kind_set ks)"
  shows "extract_kind_from_id composite ks cpt system = extract_kind_from_id composite ks' cpt system"
proof -
  let ?t = "\<lambda>ks. map (\<lambda>k. lower (strip k)) (filter (\<lambda>k. strip k \<noteq> []) ks)"
  have s: "set (?t ks) = set (?t ks')" using assms(1) by auto
  moreover have "dash_free (set (?t ks))" using assms(2) by (simp add: kind_set_def)
  ultimately have "leftmost_kind rem None (?t ks) = leftmost_kind rem None (?t ks')" for rem
    by (rule leftmost_kind_order)
  with s show ?thesis by (simp only: extract_kind_from_id_def Let_def)
qed

theorem extract_kind_order_witness:
  "extract_kind_from_id [] [''flow'', ''algo''] ''cpt-cf-errors-flow-x'' (Some ''cf'')
   = extract_kind_from_id [] [''algo'', ''flow''] ''cpt-cf-errors-flow-x'' (Some ''cf'')
   \<and> extract_kind_from_id [] [''flow'', ''algo''] ''cpt-cf-errors-flow-x'' (Some ''cf'') = Some ''flow''"
proof -
  have "set [''flow'', ''algo''] = set [''algo'', ''flow'']" by auto
  moreover have "kind_set [''flow'', ''algo''] = {''flow'', ''algo''}" by code_simp
  then have "dash_free (kind_set [''flow'', ''algo''])" by (simp add: dash_free_def)
  moreover have "extract_kind_from_id [] [''flow'', ''algo''] ''cpt-cf-errors-flow-x'' (Some ''cf'') = Some ''flow''"
    by code_simp
  ultimately show ?thesis using extract_kind_order by blast
qed

text \<open>Otherwise it does depend on it.\<close>

lemma extract_kind_depends_on_order:
  "extract_kind_from_id [] [''a'', ''a-b''] ''cpt-s-x-a-b-y'' (Some ''s'') = Some ''a''
   \<and> extract_kind_from_id [] [''a-b'', ''a''] ''cpt-s-x-a-b-y'' (Some ''s'') = Some ''a-b''"
  by code_simp

subsection \<open>Composing and parsing an ID\<close>

lemma sorted_insort_length:
  "sorted_wrt (\<lambda>a b. length b \<le> length a) xs \<Longrightarrow>
   sorted_wrt (\<lambda>a b. length b \<le> length a) (insort_by (\<lambda>a b. length b < length a) x xs)"
  by (induction xs) (auto simp: not_less)

lemma systems_by_length_sorted: "sorted_wrt (\<lambda>a b. length b \<le> length a) (systems_by_length systems)"
proof -
  have "sorted_wrt (\<lambda>a b. length b \<le> length a) (sorted_by (\<lambda>a b. length b < length a) xs)" for xs :: "string list"
    by (induction xs) (auto simp: sorted_by_def sorted_insort_length)
  then show ?thesis by (simp add: systems_by_length_def)
qed

lemma find_longest:
  assumes "sorted_wrt (\<lambda>a b. length b \<le> length a) xs" and "x \<in> set xs" and "P x"
    and "\<And>y. y \<in> set xs \<Longrightarrow> P y \<Longrightarrow> y = x \<or> length y < length x"
  shows "find P xs = Some x"
  using assms
proof (induction xs)
  case (Cons y ys)
  show ?case
  proof (cases "P y")
    case True
    with Cons.prems(4) consider "y = x" | "length y < length x" by auto
    then show ?thesis
    proof cases
      case 2
      with Cons.prems(1,2) show ?thesis by fastforce
    qed (use True in simp)
  next
    case False
    with Cons show ?thesis by auto
  qed
qed simp

text \<open>Round trip: an ID composed of a registered system, a kind and the parts of a slug is parsed
  into exactly these, when no other registered system as long or longer starts the ID.\<close>

theorem parse_cpt_roundtrip:
  assumes "sys \<in> set systems" and "strip sys \<noteq> []"
    and "\<forall>t \<in> set systems. startswith (lower (cpt_prefix sys @ kind @ ''-'' @ join_with ''-'' parts)) (lower (cpt_prefix t))
        \<longrightarrow> t = sys \<or> length t < length sys"
    and "kind \<noteq> []" and "CHR ''-'' \<notin> set kind"
    and "parts \<noteq> []" and "list_all (\<lambda>p. p \<noteq> [] \<and> CHR ''-'' \<notin> set p) parts"
  shows "parse_cpt (cpt_prefix sys @ kind @ ''-'' @ join_with ''-'' parts) kind systems where_defined None
    = Some \<lparr>p_system = sys, p_kind = kind, p_slug = join_with ''-'' parts\<rparr>"
proof -
  let ?slug = "join_with ''-'' parts"
  let ?cpt = "cpt_prefix sys @ kind @ ''-'' @ ?slug"
  have f: "find (\<lambda>s. startswith (lower ?cpt) (lower (cpt_prefix s))) (systems_by_length systems) = Some sys"
    using assms(1-3) systems_by_length_sorted
    by (intro find_longest) (auto simp: systems_by_length_def)
  have "split_on (CHR ''-'') (kind @ CHR ''-'' # ?slug) = kind # parts"
    using assms(5-7) by (simp add: split_on_append split_on_no_sep split_join list_all_iff)
  then have d: "dash_parts (kind @ CHR ''-'' # ?slug) = kind # parts"
    using assms(4,7) by (simp add: dash_parts_def list_all_iff filter_id_conv)
  have "split_on (CHR ''-'') ?cpt = ''cpt'' # split_on (CHR ''-'') sys @ kind # parts"
    using \<open>split_on (CHR ''-'') (kind @ CHR ''-'' # ?slug) = kind # parts\<close>
      split_on_append [of "CHR ''-''" "''cpt''" "sys @ CHR ''-'' # kind @ CHR ''-'' # ?slug"]
    by (simp add: cpt_prefix_def split_on_append)
  moreover have "length (split_on (CHR ''-'') sys) \<noteq> 0" by simp
  ultimately have l: "\<not> length (split_on (CHR ''-'') ?cpt) < 3" by (simp add: not_less Suc_le_eq)
  have p: "startswith (lower ?cpt) ''cpt-''" "?cpt \<noteq> []"
    by (simp_all add: cpt_prefix_def lower_def lower_char_def)
  show ?thesis using f d l p assms(4) by (simp add: parse_cpt_def Let_def)
qed

theorem parse_cpt_roundtrip_witness:
  "parse_cpt ''cpt-cf-errors-flow-log-in'' ''flow'' [''cf'', ''cf-errors''] None None
   = Some \<lparr>p_system = ''cf-errors'', p_kind = ''flow'', p_slug = ''log-in''\<rparr>"
proof -
  have "\<forall>t \<in> set [''cf'', ''cf-errors''].
      startswith (lower (cpt_prefix ''cf-errors'' @ ''flow'' @ ''-'' @ join_with ''-'' [''log'', ''in''])) (lower (cpt_prefix t))
      \<longrightarrow> t = ''cf-errors'' \<or> length t < length ''cf-errors''" by simp
  moreover have "strip ''cf-errors'' \<noteq> []" by code_simp
  ultimately show ?thesis
    using parse_cpt_roundtrip [of "''cf-errors''" "[''cf'', ''cf-errors'']" "''flow''" "[''log'', ''in'']" None]
    by (simp add: cpt_prefix_def)
qed

end
