(* ===== verification/Artifact_Check.thy ===== *)
theory Artifact_Check
  imports Headings Cpt_Ids Toc
begin

section \<open>Checking one artifact (\<open>utils/constraints.py\<close>, \<open>validate_artifact_file\<close>)\<close>

text \<open>
  An artifact is checked in phases: its outline against the heading constraints (a failure
  ends the check), its table of contents, the agreement of check boxes between CDSL steps,
  nested items and their parents, and last its IDs against the ID constraints of its kind.
\<close>

subsection \<open>Check boxes\<close>

definition defs_of :: "hit list \<Rightarrow> hit list" where
  "defs_of hits = filter (\<lambda>h. h_type h = Definition) hits"

definition refs_of :: "hit list \<Rightarrow> hit list" where
  "refs_of hits = filter (\<lambda>h. h_type h = Reference) hits"

text \<open>The first definition of each ID.\<close>

definition first_def :: "hit list \<Rightarrow> string \<Rightarrow> hit option" where
  "first_def defs i = find (\<lambda>d. strip (h_id d) = i) defs"

definition str_or_none :: "string \<Rightarrow> pyobj" where
  "str_or_none s = (if s = [] then PNone else PStr s)"

definition cdsl_errors :: "string \<Rightarrow> hit list \<Rightarrow> cdsl_hit list \<Rightarrow> issue list" where
  "cdsl_errors path defs steps =
     concat (map (\<lambda>ch.
       let pid = strip (str_or_empty (c_parent_id ch))
       in if c_checked ch \<or> pid = [] then []
          else (case first_def defs pid of
                  None \<Rightarrow> []
                | Some d \<Rightarrow>
                    if h_has_task d \<and> h_checked d
                    then [error ''structure'' CDSL_STEP_UNCHECKED path (c_line ch)
                           [(''id'', PStr pid), (''inst'', str_or_none (strip (c_inst ch)))]]
                    else [])) steps)"

text \<open>The heading above a line: its level and index.\<close>

definition heading_ctx_for_line :: "heading list \<Rightarrow> nat \<Rightarrow> nat \<times> nat option" where
  "heading_ctx_for_line hs ln =
     (let n = length (takeWhile (\<lambda>h. hd_line h \<le> ln) hs)
      in if n = 0 then (0, None) else (hd_level (hs ! (n - 1)), Some (n - 1)))"

definition scope_end_for_heading_idx :: "heading list \<Rightarrow> nat \<Rightarrow> nat" where
  "scope_end_for_heading_idx hs hidx =
     (if length hs \<le> hidx then 10 ^ 9
      else (case find (\<lambda>h. hd_level h \<le> hd_level (hs ! hidx)) (drop (Suc hidx) hs) of
              Some h \<Rightarrow> hd_line h - 1
            | None \<Rightarrow> 10 ^ 9))"

definition by_line :: "hit list \<Rightarrow> hit list" where
  "by_line hits = sorted_by (\<lambda>a b. h_line a < h_line b) hits"

definition in_lines :: "nat \<Rightarrow> nat \<Rightarrow> hit \<Rightarrow> bool" where
  "in_lines lo hi h \<longleftrightarrow> lo < h_line h \<and> h_line h \<le> hi"

text \<open>The items nested under a definition: definitions below deeper headings, and references.\<close>

definition child_defs :: "heading list \<Rightarrow> hit list \<Rightarrow> hit \<Rightarrow> nat \<Rightarrow> nat \<Rightarrow> hit list" where
  "child_defs hs defs parent parent_lvl scope_end =
     filter (\<lambda>c. in_lines (h_line parent) scope_end c \<and> h_has_task c
               \<and> parent_lvl < fst (heading_ctx_for_line hs (h_line c))) (by_line defs)"

definition child_refs :: "hit list \<Rightarrow> hit \<Rightarrow> nat \<Rightarrow> hit list" where
  "child_refs refs parent scope_end =
     filter (in_lines (h_line parent) scope_end) (by_line (filter h_has_task refs))"

definition parent_errors :: "string \<Rightarrow> hit \<Rightarrow> hit list \<Rightarrow> hit list \<Rightarrow> issue list" where
  "parent_errors path parent children ref_children =
     (let parent_id = strip (h_id parent)
      in (if list_all h_checked children \<and> list_all h_checked ref_children \<and> \<not> h_checked parent
          then [error ''structure'' PARENT_UNCHECKED_ALL_DONE path (h_line parent) [(''id'', PStr parent_id)]]
          else [])
         @ (if h_checked parent \<and> (list_ex (\<lambda>c. \<not> h_checked c) children \<or> list_ex (\<lambda>c. \<not> h_checked c) ref_children)
            then
              (let first = (case find (\<lambda>c. \<not> h_checked c) children of
                              Some c \<Rightarrow> c
                            | None \<Rightarrow> (case find (\<lambda>c. \<not> h_checked c) ref_children of Some r \<Rightarrow> r | None \<Rightarrow> parent));
                   first_id = (if h_id first = [] then parent_id else h_id first)
               in [error ''structure'' PARENT_CHECKED_NESTED_UNCHECKED path (h_line first)
                    [(''id'', PStr first_id), (''parent_id'', PStr parent_id)]])
            else []))"

definition nesting_errors_for :: "string \<Rightarrow> heading list \<Rightarrow> hit list \<Rightarrow> hit list \<Rightarrow> hit \<Rightarrow> issue list" where
  "nesting_errors_for path hs defs refs parent =
     (if \<not> h_has_task parent \<or> h_line parent = 0 \<or> strip (h_id parent) = [] then []
      else (case heading_ctx_for_line hs (h_line parent) of
              (_, None) \<Rightarrow> []
            | (lvl, Some hidx) \<Rightarrow>
                (let scope_end = scope_end_for_heading_idx hs hidx;
                     children = child_defs hs defs parent lvl scope_end;
                     ref_children = child_refs refs parent scope_end
                 in if children = [] \<and> ref_children = [] then []
                    else parent_errors path parent children ref_children)))"

definition nesting_errors :: "string \<Rightarrow> heading list \<Rightarrow> hit list \<Rightarrow> hit list \<Rightarrow> issue list" where
  "nesting_errors path hs defs refs =
     concat (map (nesting_errors_for path hs defs refs) (by_line defs))"

subsection \<open>IDs\<close>

text \<open>What the ID checks of an artifact refer to; the systems and kinds in iteration order.\<close>

record id_ctx =
  ix_path :: string
  ix_kind :: string
  ix_defined :: "id_constraint list"
  ix_systems :: "string list"
  ix_headings_at :: "string list list"
  ix_heading_desc :: "(string \<times> string) list"

definition norm_kind :: "id_constraint \<Rightarrow> string" where
  "norm_kind c = lower (strip (ic_kind c))"

definition allowed_defs :: "id_ctx \<Rightarrow> string list" where
  "allowed_defs ix = remdups (map norm_kind (ix_defined ix))"

definition constraint_by_kind :: "id_constraint list \<Rightarrow> string \<Rightarrow> id_constraint option" where
  "constraint_by_kind defined k = map_of (rev (map (\<lambda>c. (norm_kind c, c)) defined)) k"

definition composite_nested :: "id_ctx \<Rightarrow> (string \<times> string list) list" where
  "composite_nested ix =
     (let nested = filter (\<lambda>k. k \<noteq> []) (allowed_defs ix)
      in if nested = [] then [] else [(lower (strip (ix_kind ix)), nested)])"

definition heading_descs :: "heading_constraint list \<Rightarrow> (string \<times> string) list" where
  "heading_descs hcs =
     foldl (\<lambda>d hc. let hid = strip (str_or_empty (hc_id hc)); desc = strip (str_or_empty (hc_description hc))
                   in if hid = [] \<or> desc = [] then d else dset hid desc d) [] hcs"

definition headings_info :: "(string \<times> string) list \<Rightarrow> string list \<Rightarrow> pyobj" where
  "headings_info descs ids =
     PList (map (\<lambda>i. PDict [(PStr ''id'', PStr i), (PStr ''description'', opt_obj (dget descs i))]) ids)"

definition kind_fields :: "id_constraint \<Rightarrow> (string \<times> pyobj) list" where
  "kind_fields c =
     [(''id_kind_name'', opt_obj (opt_strip (ic_name c))),
      (''id_kind_description'', opt_obj (opt_strip (ic_description c))),
      (''id_kind_template'', opt_obj (opt_strip (ic_template c)))]"

definition def_error :: "id_ctx \<Rightarrow> hit \<Rightarrow> string \<Rightarrow> id_constraint \<Rightarrow> error_code \<Rightarrow> (string \<times> pyobj) list \<Rightarrow> issue" where
  "def_error ix h id_kind c code extra =
     error ''constraints'' code (ix_path ix) (h_line h)
       ([(''artifact_kind'', PStr (ix_kind ix)), (''id_kind'', PStr id_kind), (''id'', PStr (strip (h_id h))),
         (''section'', PStr ''defined-id'')] @ extra @ kind_fields c)"

text \<open>A tri-state rule on a property that a definition or a reference has or has not.\<close>

definition violates :: "bool option \<Rightarrow> bool \<Rightarrow> bool \<Rightarrow> bool" where
  "violates rule wanted has \<longleftrightarrow> rule = Some wanted \<and> has \<noteq> wanted"

definition clean_headings :: "string list option \<Rightarrow> string list" where
  "clean_headings hs = filter (\<lambda>h. h \<noteq> []) (map strip (case hs of None \<Rightarrow> [] | Some xs \<Rightarrow> xs))"

definition allowed_norm :: "id_constraint \<Rightarrow> string list" where
  "allowed_norm c = remdups (map lower (clean_headings (ic_headings c)))"

definition headings_row :: "string list list \<Rightarrow> nat \<Rightarrow> string list" where
  "headings_row at line = (if line < length at then at ! line else [])"

definition def_heading_errors :: "id_ctx \<Rightarrow> hit \<Rightarrow> string \<Rightarrow> id_constraint \<Rightarrow> issue list" where
  "def_heading_errors ix h id_kind c =
     (let allowed = allowed_norm c; active_raw = headings_row (ix_headings_at ix) (h_line h);
          active = map lower (filter (\<lambda>x. x \<noteq> []) (map strip active_raw))
      in if allowed \<noteq> [] \<and> \<not> list_ex (\<lambda>a. a \<in> set allowed) active
         then [def_error ix h id_kind c DEF_WRONG_HEADINGS
                 [(''headings'', strs_obj (sorted_strs allowed)),
                  (''headings_info'', headings_info (ix_heading_desc ix) (sorted_strs allowed)),
                  (''found_headings'', strs_obj active_raw)]]
         else [])"

definition def_constraint_errors :: "id_ctx \<Rightarrow> hit \<Rightarrow> string \<Rightarrow> id_constraint \<Rightarrow> issue list" where
  "def_constraint_errors ix h id_kind c =
     (if violates (ic_task c) True (h_has_task h) then [def_error ix h id_kind c DEF_MISSING_TASK []] else [])
     @ (if violates (ic_task c) False (h_has_task h) then [def_error ix h id_kind c DEF_PROHIBITED_TASK []] else [])
     @ (if violates (ic_priority c) True (h_has_priority h)
        then [def_error ix h id_kind c DEF_MISSING_PRIORITY []] else [])
     @ (if violates (ic_priority c) False (h_has_priority h)
        then [def_error ix h id_kind c DEF_PROHIBITED_PRIORITY []] else [])
     @ def_heading_errors ix h id_kind c"

text \<open>The kind of a definition: \<open>Inl\<close> for an unrecognized system, \<open>Inr None\<close> for no kind.\<close>

definition def_kind :: "id_ctx \<Rightarrow> hit \<Rightarrow> unit + string option" where
  "def_kind ix h =
     (let hid = strip (h_id h); system = match_system (ix_systems ix) (allowed_defs ix) hid
      in if system = None \<and> ix_systems ix \<noteq> [] \<and> startswith (lower hid) ''cpt-'' then Inl ()
         else Inr (nonempty_opt (extract_kind_from_id (composite_nested ix) (allowed_defs ix) hid system)))"

definition def_errors :: "id_ctx \<Rightarrow> hit \<Rightarrow> issue list" where
  "def_errors ix h =
     (let hid = strip (h_id h)
      in if hid = [] then []
         else (case def_kind ix h of
             Inl _ \<Rightarrow>
               [error ''constraints'' ID_SYSTEM_UNRECOGNIZED (ix_path ix) (h_line h)
                 [(''artifact_kind'', PStr (ix_kind ix)), (''id'', PStr hid),
                  (''registered_systems'', strs_obj (sorted_strs (ix_systems ix)))]]
           | Inr None \<Rightarrow> []
           | Inr (Some id_kind) \<Rightarrow>
               (if id_kind \<notin> set (allowed_defs ix)
                then [error ''constraints'' ID_KIND_NOT_ALLOWED (ix_path ix) (h_line h)
                       [(''artifact_kind'', PStr (ix_kind ix)), (''id_kind'', PStr id_kind), (''id'', PStr hid),
                        (''section'', PStr ''defined-id''), (''allowed'', strs_obj (sorted_strs (allowed_defs ix)))]]
                else [])
               @ (case constraint_by_kind (ix_defined ix) id_kind of
                    None \<Rightarrow> []
                  | Some c \<Rightarrow> def_constraint_errors ix h id_kind c)))"

definition kinds_defined :: "id_ctx \<Rightarrow> hit list \<Rightarrow> string list" where
  "kinds_defined ix defs =
     concat (map (\<lambda>h. if strip (h_id h) = [] then []
                      else (case def_kind ix h of Inr (Some k) \<Rightarrow> [k] | _ \<Rightarrow> [])) defs)"

definition required_errors :: "id_ctx \<Rightarrow> hit list \<Rightarrow> issue list" where
  "required_errors ix defs =
     concat (map (\<lambda>c.
       let k = norm_kind c;
           id_headings = filter (\<lambda>h. strip h \<noteq> []) (case ic_headings c of None \<Rightarrow> [] | Some hs \<Rightarrow> hs)
       in if k = [] \<or> \<not> ic_required c \<or> k \<in> set (kinds_defined ix defs) then []
          else [error ''constraints'' REQUIRED_ID_KIND_MISSING (ix_path ix) 1
                 ([(''artifact_kind'', PStr (ix_kind ix)), (''id_kind'', PStr k)] @ kind_fields c
                  @ [(''target_headings'', if id_headings = [] then PNone else strs_obj id_headings),
                     (''target_headings_info'', if id_headings = [] then PNone
                        else headings_info (ix_heading_desc ix) id_headings)])])
       (ix_defined ix))"

definition id_errors :: "id_ctx \<Rightarrow> hit list \<Rightarrow> issue list" where
  "id_errors ix defs = concat (map (def_errors ix) defs) @ required_errors ix defs"

subsection \<open>The whole check\<close>

definition toc_phase :: "fs \<Rightarrow> string \<Rightarrow> kind_constraints \<Rightarrow> report" where
  "toc_phase fs path c =
     (if kc_toc c
      then (case read_text_safe fs path of
              None \<Rightarrow> \<lparr>r_errors = [], r_warnings = []\<rparr>
            | Some lines \<Rightarrow> validate_toc (Some path) 3 (join_with [NL] lines))
      else \<lparr>r_errors = [], r_warnings = []\<rparr>)"

definition heading_list_of :: "kind_constraints \<Rightarrow> heading_constraint list" where
  "heading_list_of c = (case kc_headings c of None \<Rightarrow> [] | Some hcs \<Rightarrow> hcs)"

definition mk_id_ctx :: "rx \<Rightarrow> fs \<Rightarrow> string \<Rightarrow> string \<Rightarrow> kind_constraints \<Rightarrow> string list option \<Rightarrow> id_ctx" where
  "mk_id_ctx rx fs path kind c systems =
     \<lparr>ix_path = path, ix_kind = kind, ix_defined = kc_defined_id c,
      ix_systems = remdups (map lower (case systems of None \<Rightarrow> [] | Some ss \<Rightarrow> ss)),
      ix_headings_at = (if heading_list_of c \<noteq> [] then heading_constraint_ids_by_line rx fs path (heading_list_of c)
                        else headings_by_line fs path),
      ix_heading_desc = heading_descs (heading_list_of c)\<rparr>"

definition validate_artifact_file :: "rx \<Rightarrow> fs \<Rightarrow> string \<Rightarrow> string \<Rightarrow> kind_constraints option \<Rightarrow> string list option
    \<Rightarrow> string option \<Rightarrow> string option \<Rightarrow> report" where
  "validate_artifact_file rx fs path artifact_kind constraints systems constraints_path kit_id =
     (case constraints of
        None \<Rightarrow> \<lparr>r_errors = [], r_warnings = []\<rparr>
      | Some c \<Rightarrow>
          (let kind = upper (strip artifact_kind);
               rep = (if heading_list_of c \<noteq> []
                      then validate_headings_contract rx fs path c kind constraints_path kit_id
                      else \<lparr>r_errors = [], r_warnings = []\<rparr>)
           in if r_errors rep \<noteq> [] then rep
              else
                (let toc = toc_phase fs path c;
                     hits = scan_cpt_ids fs path; defs = defs_of hits; refs = refs_of hits
                 in \<lparr>r_errors = r_errors toc @ cdsl_errors path defs (scan_cdsl_instructions fs path)
                       @ nesting_errors path (scan_headings fs path) defs refs
                       @ id_errors (mk_id_ctx rx fs path kind c systems) defs,
                     r_warnings = r_warnings rep @ r_warnings toc\<rparr>)))"

end
