(* ===== verification/Artifact_Facts.thy ===== *)
theory Artifact_Facts
  imports Artifact_Check Headings_Facts
begin

section \<open>Correctness of the artifact check\<close>

text \<open>
  The error list of an artifact is empty exactly when the artifact satisfies a specification
  that does not mention errors: done steps under done definitions, a tracked item done
  exactly when what is nested under it is done, and IDs as their constraints demand.
\<close>

subsection \<open>Steps and nested items\<close>

definition steps_ok :: "hit list \<Rightarrow> cdsl_hit list \<Rightarrow> bool" where
  "steps_ok defs steps \<longleftrightarrow> (\<forall>ch \<in> set steps. \<forall>d.
     strip (str_or_empty (c_parent_id ch)) \<noteq> [] \<and> first_def defs (strip (str_or_empty (c_parent_id ch))) = Some d
     \<and> h_has_task d \<and> h_checked d \<longrightarrow> c_checked ch)"

lemma cdsl_errors_Nil_iff: "cdsl_errors path defs steps = [] \<longleftrightarrow> steps_ok defs steps"
  unfolding cdsl_errors_def concat_map_Nil_iff steps_ok_def
  by (intro ball_cong refl) (auto simp: Let_def split: option.splits)

text \<open>The tracked items in the section of a definition that lie deeper, or are references.\<close>

definition nested_items :: "heading list \<Rightarrow> hit list \<Rightarrow> hit list \<Rightarrow> hit \<Rightarrow> hit set" where
  "nested_items hs defs refs p =
     (case heading_ctx_for_line hs (h_line p) of
        (_, None) \<Rightarrow> {}
      | (lvl, Some i) \<Rightarrow>
          {c \<in> set defs. in_lines (h_line p) (scope_end_for_heading_idx hs i) c \<and> h_has_task c
             \<and> lvl < fst (heading_ctx_for_line hs (h_line c))}
          \<union> {r \<in> set refs. h_has_task r \<and> in_lines (h_line p) (scope_end_for_heading_idx hs i) r})"

definition nesting_ok :: "heading list \<Rightarrow> hit list \<Rightarrow> hit list \<Rightarrow> hit \<Rightarrow> bool" where
  "nesting_ok hs defs refs p \<longleftrightarrow>
     h_has_task p \<and> 0 < h_line p \<and> strip (h_id p) \<noteq> [] \<and> nested_items hs defs refs p \<noteq> {} \<longrightarrow>
     h_checked p = (\<forall>c \<in> nested_items hs defs refs p. h_checked c)"

lemma parent_errors_Nil_iff:
  "parent_errors path p cs rs = [] \<longleftrightarrow> h_checked p = (\<forall>c \<in> set cs \<union> set rs. h_checked c)"
proof -
  have ex: "list_ex (\<lambda>c. \<not> h_checked c) xs \<longleftrightarrow> \<not> list_all h_checked xs" for xs
    by (induction xs) auto
  have "(\<forall>c \<in> set cs \<union> set rs. h_checked c) \<longleftrightarrow> list_all h_checked cs \<and> list_all h_checked rs"
    by (auto simp: list_all_iff)
  then show ?thesis
    unfolding parent_errors_def Let_def ex append_is_Nil_conv by (simp del: Un_iff) metis
qed

lemma nesting_errors_for_Nil_iff:
  "nesting_errors_for path hs defs refs p = [] \<longleftrightarrow> nesting_ok hs defs refs p"
proof (cases "heading_ctx_for_line hs (h_line p)")
  case (Pair lvl oi)
  show ?thesis
  proof (cases oi)
    case None
    with Pair show ?thesis by (simp add: nesting_errors_for_def nesting_ok_def nested_items_def)
  next
    case (Some i)
    let ?e = "scope_end_for_heading_idx hs i"
    let ?cs = "child_defs hs defs p lvl ?e" and ?rs = "child_refs refs p ?e"
    have n: "nested_items hs defs refs p = set ?cs \<union> set ?rs"
      using Pair Some by (auto simp: nested_items_def child_defs_def child_refs_def by_line_def)
    then have "nested_items hs defs refs p = {} \<longleftrightarrow> ?cs = [] \<and> ?rs = []" by simp
    then show ?thesis
      using Pair Some
      by (auto simp: nesting_errors_for_def nesting_ok_def Let_def parent_errors_Nil_iff n)
  qed
qed

text \<open>C32. The check boxes of nested items agree exactly when nothing is reported: every tracked
  definition with tracked items nested under it is checked if and only if all of them are.\<close>

theorem nesting_errors_iff:
  "nesting_errors path hs defs refs = [] \<longleftrightarrow> list_all (nesting_ok hs defs refs) defs"
  by (simp add: nesting_errors_def concat_map_Nil_iff nesting_errors_for_Nil_iff list_all_iff by_line_def)

subsection \<open>IDs\<close>

text \<open>What a constraint demands of a definition.\<close>

definition complies :: "id_ctx \<Rightarrow> hit \<Rightarrow> id_constraint \<Rightarrow> bool" where
  "complies ix h c \<longleftrightarrow>
     (case ic_task c of None \<Rightarrow> True | Some b \<Rightarrow> h_has_task h = b)
   \<and> (case ic_priority c of None \<Rightarrow> True | Some b \<Rightarrow> h_has_priority h = b)
   \<and> (allowed_norm c = []
      \<or> (\<exists>x \<in> set (headings_row (ix_headings_at ix) (h_line h)). strip x \<noteq> [] \<and> lower (strip x) \<in> set (allowed_norm c)))"

definition def_ok :: "id_ctx \<Rightarrow> hit \<Rightarrow> bool" where
  "def_ok ix h \<longleftrightarrow> strip (h_id h) = [] \<or>
     (case def_kind ix h of
        Inl _ \<Rightarrow> False
      | Inr None \<Rightarrow> True
      | Inr (Some k) \<Rightarrow> \<exists>c. constraint_by_kind (ix_defined ix) k = Some c \<and> complies ix h c)"

definition required_ok :: "id_ctx \<Rightarrow> hit list \<Rightarrow> id_constraint \<Rightarrow> bool" where
  "required_ok ix defs c \<longleftrightarrow>
     (norm_kind c \<noteq> [] \<and> ic_required c \<longrightarrow>
      (\<exists>h \<in> set defs. strip (h_id h) \<noteq> [] \<and> def_kind ix h = Inr (Some (norm_kind c))))"

lemma violates_Nil: "\<not> violates r True b \<and> \<not> violates r False b \<longleftrightarrow> (case r of None \<Rightarrow> True | Some x \<Rightarrow> b = x)"
  by (auto simp: violates_def split: option.splits)

lemma def_heading_errors_Nil_iff:
  "def_heading_errors ix h k c = [] \<longleftrightarrow> allowed_norm c = []
     \<or> (\<exists>x \<in> set (headings_row (ix_headings_at ix) (h_line h)). strip x \<noteq> [] \<and> lower (strip x) \<in> set (allowed_norm c))"
  by (auto simp: def_heading_errors_def Let_def list_ex_iff)

lemma def_constraint_errors_Nil_iff: "def_constraint_errors ix h k c = [] \<longleftrightarrow> complies ix h c"
  unfolding complies_def def_heading_errors_Nil_iff [symmetric, where k = k] violates_Nil [symmetric]
  by (auto simp: def_constraint_errors_def)

lemma constraint_by_kind_iff: "k \<in> set (allowed_defs ix) \<longleftrightarrow> constraint_by_kind (ix_defined ix) k \<noteq> None"
  by (auto simp: allowed_defs_def constraint_by_kind_def map_of_eq_None_iff image_iff)

lemma def_errors_Nil_iff: "def_errors ix h = [] \<longleftrightarrow> def_ok ix h"
proof (cases "def_kind ix h")
  case (Inr ok)
  show ?thesis
  proof (cases ok)
    case (Some k)
    then show ?thesis
      using Inr constraint_by_kind_iff [of k ix]
      by (cases "constraint_by_kind (ix_defined ix) k")
        (auto simp: def_errors_def def_ok_def Let_def def_constraint_errors_Nil_iff)
  qed (auto simp: def_errors_def def_ok_def Let_def Inr)
qed (auto simp: def_errors_def def_ok_def Let_def)

lemma set_kinds_defined:
  "k \<in> set (kinds_defined ix defs) \<longleftrightarrow> (\<exists>h \<in> set defs. strip (h_id h) \<noteq> [] \<and> def_kind ix h = Inr (Some k))"
proof -
  have "k \<in> set (if strip (h_id h) = [] then [] else (case def_kind ix h of Inr (Some k) \<Rightarrow> [k] | _ \<Rightarrow> []))
      \<longleftrightarrow> strip (h_id h) \<noteq> [] \<and> def_kind ix h = Inr (Some k)" for h
    by (auto split: sum.splits option.splits)
  then show ?thesis unfolding kinds_defined_def set_concat set_map by blast
qed

lemma required_errors_Nil_iff: "required_errors ix defs = [] \<longleftrightarrow> list_all (required_ok ix defs) (ix_defined ix)"
  unfolding required_errors_def concat_map_Nil_iff list_all_iff
  by (intro ball_cong refl) (auto simp: Let_def required_ok_def set_kinds_defined)

text \<open>The ID check of an artifact is silent exactly when every definition has a recognized system
  and a kind that is constrained and complied with (task box, priority and heading), and every
  required kind is defined.\<close>

theorem id_errors_iff:
  "id_errors ix defs = [] \<longleftrightarrow> list_all (def_ok ix) defs \<and> list_all (required_ok ix defs) (ix_defined ix)"
  by (simp add: id_errors_def concat_map_Nil_iff def_errors_Nil_iff required_errors_Nil_iff list_all_iff)

text \<open>C33. An artifact with constraints passes \<open>validate_artifact_file\<close> without errors exactly when its
  outline meets the contract, its table of contents has no errors, and its steps, nested items
  and IDs are as specified.\<close>

theorem validate_artifact_file_ok:
  "r_errors (validate_artifact_file rx fs path kind (Some c) systems cpath kit) = [] \<longleftrightarrow>
   (let defs = defs_of (scan_cpt_ids fs path); refs = refs_of (scan_cpt_ids fs path);
        ix = mk_id_ctx rx fs path (upper (strip kind)) c systems
    in r_errors (validate_headings_contract rx fs path c (upper (strip kind)) cpath kit) = []
     \<and> r_errors (toc_phase fs path c) = []
     \<and> steps_ok defs (scan_cdsl_instructions fs path)
     \<and> list_all (nesting_ok (scan_headings fs path) defs refs) defs
     \<and> list_all (def_ok ix) defs \<and> list_all (required_ok ix defs) (kc_defined_id c))"
proof -
  have none: "heading_list_of c = [] \<Longrightarrow> r_errors (validate_headings_contract rx fs path c k cpath kit) = []" for k
    by (auto simp: heading_list_of_def validate_headings_contract_def split: option.splits)
  have n: "nesting_errors path hs defs refs = [] \<longleftrightarrow> list_all (nesting_ok hs defs refs) defs" for hs defs refs
    by (simp add: nesting_errors_def concat_map_Nil_iff nesting_errors_for_Nil_iff list_all_iff by_line_def)
  have i: "id_errors ix defs = [] \<longleftrightarrow> list_all (def_ok ix) defs \<and> list_all (required_ok ix defs) (ix_defined ix)" for ix defs
    by (simp add: id_errors_def concat_map_Nil_iff def_errors_Nil_iff required_errors_Nil_iff list_all_iff)
  have d: "ix_defined (mk_id_ctx rx fs path k c systems) = kc_defined_id c" for k
    by (simp add: mk_id_ctx_def)
  show ?thesis
    using none
    by (cases "heading_list_of c = []")
      (auto simp: validate_artifact_file_def Let_def cdsl_errors_Nil_iff n i d)
qed

end
