(* ===== verification/Cross_Check.thy ===== *)
theory Cross_Check
  imports Artifact_Check
begin

section \<open>Checking artifacts against each other (\<open>cross_validate_artifacts\<close>)\<close>

text \<open>
  All artifacts are scanned into an index of definitions and references; the checks on the
  index are: every internal reference is defined, check boxes of references and definitions
  agree, definitions have the kinds and headings of their artifact, and the reference rules
  (coverage, task, priority, headings) of each ID kind hold.
\<close>

record artifact_record =
  ar_path :: string
  ar_kind :: string
  ar_constraints :: "kind_constraints option"

record row =
  w_id :: string
  w_line :: nat
  w_checked :: bool
  w_priority :: "string option"
  w_has_task :: bool
  w_has_priority :: bool
  w_kind :: string
  w_path :: string
  w_system :: "string option"
  w_id_kind :: "string option"
  w_headings :: "string list"

definition art_kind :: "artifact_record \<Rightarrow> string" where
  "art_kind a = upper (strip (ar_kind a))"

subsection \<open>The constraints of all artifacts\<close>

definition constraints_by_kind :: "artifact_record list \<Rightarrow> (string \<times> kind_constraints) list" where
  "constraints_by_kind arts =
     foldl (\<lambda>d a. case ar_constraints a of None \<Rightarrow> d | Some c \<Rightarrow> dset (art_kind a) c d) [] arts"

definition missing_kinds :: "artifact_record list \<Rightarrow> string list" where
  "missing_kinds arts = remdups (map art_kind (filter (\<lambda>a. ar_constraints a = None) arts))"

definition heading_desc_by_kind :: "artifact_record list \<Rightarrow> (string \<times> (string \<times> string) list) list" where
  "heading_desc_by_kind arts =
     foldl (\<lambda>d a. case ar_constraints a of None \<Rightarrow> d
                   | Some c \<Rightarrow> dset (art_kind a) (heading_descs (heading_list_of c)) d) [] arts"

definition nested_kinds :: "kind_constraints \<Rightarrow> string list" where
  "nested_kinds c = remdups (filter (\<lambda>k. k \<noteq> []) (map norm_kind (kc_defined_id c)))"

definition composite_by_base :: "(string \<times> kind_constraints) list \<Rightarrow> (string \<times> string list) list" where
  "composite_by_base by_kind =
     foldl (\<lambda>d (ak, c). if nested_kinds c = [] then d else dset (lower (strip ak)) (nested_kinds c) d) [] by_kind"

definition all_kind_tokens :: "(string \<times> kind_constraints) list \<Rightarrow> string list" where
  "all_kind_tokens by_kind = remdups (concat (map (\<lambda>(ak, c). nested_kinds c) by_kind))"

definition missing_constraints_errors :: "artifact_record list \<Rightarrow> issue list" where
  "missing_constraints_errors arts =
     (if missing_kinds arts = [] then []
      else [error ''constraints'' MISSING_CONSTRAINTS ''<constraints.toml>'' 1
             [(''kinds'', strs_obj (sorted_strs (missing_kinds arts)))]])"

subsection \<open>The index\<close>

record xref_index =
  xi_defs :: "(string \<times> row list) list"
  xi_refs :: "(string \<times> row list) list"
  xi_present :: "(string \<times> string list) list"
  xi_sys_refs :: "((string \<times> string) \<times> row list) list"

text \<open>What the analysis of IDs needs: the registered systems and the kinds.\<close>

record xref_ctx =
  xc_systems :: "string list"
  xc_tokens :: "string list"
  xc_composite :: "(string \<times> string list) list"

definition mk_row :: "xref_ctx \<Rightarrow> artifact_record \<Rightarrow> string list list \<Rightarrow> hit \<Rightarrow> row" where
  "mk_row xc a headings_at h =
     (let hid = strip (h_id h); system = match_system_from_id (xc_systems xc) (xc_tokens xc) hid
      in \<lparr>w_id = hid, w_line = h_line h, w_checked = h_checked h, w_priority = h_priority h,
          w_has_task = h_has_task h, w_has_priority = h_has_priority h, w_kind = art_kind a,
          w_path = ar_path a, w_system = system,
          w_id_kind = cross_extract_kind_from_id (xc_composite xc) (xc_tokens xc) hid system,
          w_headings = headings_row headings_at (h_line h)\<rparr>)"

definition add_present :: "row \<Rightarrow> (string \<times> string list) list \<Rightarrow> (string \<times> string list) list" where
  "add_present r d =
     (case nonempty_opt (w_system r) of None \<Rightarrow> d | Some s \<Rightarrow> dset s (sadd (w_kind r) (dgetl d s)) d)"

definition index_hit :: "xref_ctx \<Rightarrow> artifact_record \<Rightarrow> string list list \<Rightarrow> xref_index \<Rightarrow> hit \<Rightarrow> xref_index" where
  "index_hit xc a headings_at xi h =
     (let r = mk_row xc a headings_at h
      in if w_id r = [] then xi
         else if h_type h = Definition
         then xi\<lparr>xi_defs := dappend (w_id r) r (xi_defs xi), xi_present := add_present r (xi_present xi)\<rparr>
         else xi\<lparr>xi_refs := dappend (w_id r) r (xi_refs xi), xi_present := add_present r (xi_present xi),
                xi_sys_refs := (case nonempty_opt (w_system r) of
                   None \<Rightarrow> xi_sys_refs xi
                 | Some s \<Rightarrow> dappend (s, w_kind r) r (xi_sys_refs xi))\<rparr>)"

definition art_headings :: "rx \<Rightarrow> fs \<Rightarrow> artifact_record \<Rightarrow> string list list" where
  "art_headings rx fs a =
     (let hcs = (case ar_constraints a of None \<Rightarrow> [] | Some c \<Rightarrow> heading_list_of c)
      in if hcs \<noteq> [] then heading_constraint_ids_by_line rx fs (ar_path a) hcs else headings_by_line fs (ar_path a))"

fun index_go :: "rx \<Rightarrow> fs \<Rightarrow> xref_ctx \<Rightarrow> (string \<times> string list list) list \<Rightarrow> xref_index \<Rightarrow> artifact_record list
    \<Rightarrow> xref_index" where
  "index_go rx fs xc cache xi [] = xi"
| "index_go rx fs xc cache xi (a # arts) =
     (let cache' = (if dhas cache (ar_path a) then cache else dset (ar_path a) (art_headings rx fs a) cache);
          at = dgetl cache' (ar_path a)
      in index_go rx fs xc cache' (foldl (index_hit xc a at) xi (scan_cpt_ids fs (ar_path a))) arts)"

definition empty_index :: xref_index where
  "empty_index = \<lparr>xi_defs = [], xi_refs = [], xi_present = [], xi_sys_refs = []\<rparr>"

subsection \<open>References and definitions\<close>

definition ref_error :: "error_code \<Rightarrow> row \<Rightarrow> (string \<times> pyobj) list \<Rightarrow> issue" where
  "ref_error code r extra = error ''structure'' code (w_path r) (w_line r) ((''id'', PStr (w_id r)) # extra)"

definition no_definition_errors :: "string list \<Rightarrow> xref_index \<Rightarrow> issue list" where
  "no_definition_errors systems xi =
     concat (map (\<lambda>(rid, rows).
       if is_external_system_ref systems rid \<or> dhas (xi_defs xi) rid then []
       else map (\<lambda>r. ref_error REF_NO_DEFINITION r []) rows) (xi_refs xi))"

definition ref_done_errors :: "xref_index \<Rightarrow> issue list" where
  "ref_done_errors xi =
     concat (map (\<lambda>(rid, rows). concat (map (\<lambda>r.
       if w_has_task r \<and> w_checked r
       then map (\<lambda>d. ref_error REF_DONE_DEF_NOT_DONE r [])
              (filter (\<lambda>d. w_has_task d \<and> \<not> w_checked d) (dgetl (xi_defs xi) rid))
       else []) rows)) (xi_refs xi))"

definition def_done_errors :: "xref_index \<Rightarrow> issue list" where
  "def_done_errors xi =
     concat (map (\<lambda>(rid, rows).
       case filter w_has_task (dgetl (xi_defs xi) rid) of
         [] \<Rightarrow> []
       | d # ds \<Rightarrow>
           if list_all w_checked (d # ds)
           then map (\<lambda>r. ref_error DEF_DONE_REF_NOT_DONE r [(''def_artifact_kind'', PStr (w_kind d))])
                  (filter (\<lambda>r. w_has_task r \<and> \<not> w_checked r) rows)
           else []) (xi_refs xi))"

definition ref_task_errors :: "xref_index \<Rightarrow> issue list" where
  "ref_task_errors xi =
     concat (map (\<lambda>(rid, rows).
       if dgetl (xi_defs xi) rid = [] \<or> list_ex w_has_task (dgetl (xi_defs xi) rid) then []
       else map (\<lambda>r. ref_error REF_TASK_DEF_NO_TASK r []) (filter w_has_task rows)) (xi_refs xi))"

subsection \<open>Kinds, required kinds and headings of definitions\<close>

definition row_kind :: "row \<Rightarrow> string" where
  "row_kind r = lower (str_or_empty (w_id_kind r))"

definition defs_in_file :: "xref_index \<Rightarrow> artifact_record \<Rightarrow> row list" where
  "defs_in_file xi a =
     filter (\<lambda>d. w_path d = ar_path a \<and> w_system d \<noteq> None) (concat (map snd (xi_defs xi)))"

definition info_for_kind :: "(string \<times> (string \<times> string) list) list \<Rightarrow> string \<Rightarrow> string list \<Rightarrow> pyobj" where
  "info_for_kind descs kind ids =
     headings_info (case dget descs (upper (strip kind)) of None \<Rightarrow> [] | Some km \<Rightarrow> km)
       (filter (\<lambda>i. i \<noteq> []) (map strip ids))"

definition kind_not_allowed_errors :: "artifact_record \<Rightarrow> kind_constraints \<Rightarrow> row list \<Rightarrow> issue list" where
  "kind_not_allowed_errors a c rows =
     (let allowed = map norm_kind (kc_defined_id c)
      in map (\<lambda>d. error ''constraints'' ID_KIND_NOT_ALLOWED (ar_path a) (w_line d)
               [(''artifact_kind'', PStr (art_kind a)), (''id_kind'', PStr (row_kind d)), (''id'', PStr (w_id d))])
           (filter (\<lambda>d. row_kind d \<noteq> [] \<and> allowed \<noteq> [] \<and> row_kind d \<notin> set allowed) rows))"

definition kind_rule_errors :: "(string \<times> (string \<times> string) list) list \<Rightarrow> artifact_record \<Rightarrow> row list
    \<Rightarrow> id_constraint \<Rightarrow> issue list" where
  "kind_rule_errors descs a rows ic =
     (let k = norm_kind ic; of_kind = filter (\<lambda>d. row_kind d = k) rows;
          id_headings = filter (\<lambda>h. strip h \<noteq> []) (case ic_headings ic of None \<Rightarrow> [] | Some hs \<Rightarrow> hs);
          allowed = remdups (clean_headings (ic_headings ic))
      in if ic_required ic \<and> k \<noteq> [] \<and> of_kind = []
         then [error ''constraints'' REQUIRED_ID_KIND_MISSING (ar_path a) 1
                ([(''artifact_kind'', PStr (art_kind a)), (''id_kind'', PStr k)] @ kind_fields ic
                 @ [(''target_headings'', if id_headings = [] then PNone else strs_obj id_headings),
                    (''target_headings_info'', if id_headings = [] then PNone
                       else info_for_kind descs (art_kind a) id_headings)])]
         else if allowed = [] then []
         else map (\<lambda>d. error ''constraints'' DEF_WRONG_HEADINGS (ar_path a) (w_line d)
                ([(''artifact_kind'', PStr (art_kind a)), (''id_kind'', PStr k), (''id'', PStr (w_id d)),
                  (''headings'', strs_obj (sorted_strs allowed)),
                  (''headings_info'', info_for_kind descs (art_kind a) (sorted_strs allowed)),
                  (''found_headings'', strs_obj (w_headings d))] @ kind_fields ic))
               (filter (\<lambda>d. \<not> list_ex (\<lambda>h. h \<in> set allowed) (w_headings d)) of_kind))"

definition artifact_kind_errors :: "(string \<times> (string \<times> string) list) list \<Rightarrow> (string \<times> kind_constraints) list
    \<Rightarrow> xref_index \<Rightarrow> artifact_record \<Rightarrow> issue list" where
  "artifact_kind_errors descs by_kind xi a =
     (case dget by_kind (art_kind a) of
        None \<Rightarrow> []
      | Some c \<Rightarrow>
          kind_not_allowed_errors a c (defs_in_file xi a)
          @ concat (map (kind_rule_errors descs a (defs_in_file xi a)) (kc_defined_id c)))"

subsection \<open>Reference rules\<close>

record rule_ctx =
  ru_kind :: string
  ru_ic :: id_constraint
  ru_def :: row
  ru_target :: string
  ru_rule :: reference_rule
  ru_info :: "string list \<Rightarrow> pyobj"

definition rule_error :: "rule_ctx \<Rightarrow> error_code \<Rightarrow> row \<Rightarrow> (string \<times> pyobj) list \<Rightarrow> issue" where
  "rule_error ru code at extra =
     error ''constraints'' code (w_path at) (w_line at)
       ([(''id'', PStr (w_id (ru_def ru))), (''artifact_kind'', PStr (ru_kind ru)), (''target_kind'', PStr (ru_target ru))]
        @ extra @ [(''id_kind'', PStr (norm_kind (ru_ic ru)))] @ kind_fields (ru_ic ru))"

definition rule_headings :: "rule_ctx \<Rightarrow> string list" where
  "rule_headings ru = sorted_strs (remdups (clean_headings (rr_headings (ru_rule ru))))"

definition first_violation :: "rule_ctx \<Rightarrow> bool option \<Rightarrow> (row \<Rightarrow> bool) \<Rightarrow> error_code \<Rightarrow> error_code \<Rightarrow> row list \<Rightarrow> issue list" where
  "first_violation ru rule has missing prohibited refs =
     (case rule of
        None \<Rightarrow> []
      | Some True \<Rightarrow> (case find (\<lambda>r. \<not> has r) refs of None \<Rightarrow> [] | Some r \<Rightarrow> [rule_error ru missing r []])
      | Some False \<Rightarrow> (case find has refs of None \<Rightarrow> [] | Some r \<Rightarrow> [rule_error ru prohibited r []]))"

definition marker_errors :: "rule_ctx \<Rightarrow> row list \<Rightarrow> issue list" where
  "marker_errors ru refs =
     first_violation ru (rr_task (ru_rule ru)) w_has_task REF_MISSING_TASK REF_PROHIBITED_TASK refs
     @ first_violation ru (rr_priority (ru_rule ru)) w_has_priority REF_MISSING_PRIORITY REF_PROHIBITED_PRIORITY refs"

definition ref_heading_errors :: "rule_ctx \<Rightarrow> row list \<Rightarrow> issue list" where
  "ref_heading_errors ru refs =
     (let allowed = rule_headings ru
      in if allowed \<noteq> [] \<and> \<not> list_ex (\<lambda>r. list_ex (\<lambda>h. h \<in> set allowed) (w_headings r)) refs
         then (case refs of [] \<Rightarrow> [] | first # _ \<Rightarrow>
                [rule_error ru REF_WRONG_HEADINGS first
                  [(''headings'', strs_obj allowed), (''headings_info'', ru_info ru allowed),
                   (''found_headings'', strs_obj (w_headings first))]])
         else [])"

text \<open>The errors and warnings of one rule for one definition.\<close>

definition rule_issues :: "rule_ctx \<Rightarrow> string list \<Rightarrow> row list \<Rightarrow> issue list \<times> issue list" where
  "rule_issues ru present refs =
     (let d = ru_def ru; allowed = rule_headings ru
      in case rr_coverage (ru_rule ru) of
           Some True \<Rightarrow>
             if w_has_task d \<and> \<not> w_checked d then ([], [])
             else if ru_target ru \<notin> set present
             then ([], [error ''constraints'' REF_TARGET_NOT_IN_SCOPE (w_path d) (w_line d)
                         [(''id'', PStr (w_id d)), (''artifact_kind'', PStr (ru_kind ru)),
                          (''target_kind'', PStr (ru_target ru))]])
             else if refs = []
             then ([rule_error ru REF_MISSING_FROM_KIND d
                     [(''target_headings'', if allowed = [] then PNone else strs_obj allowed),
                      (''target_headings_info'', if allowed = [] then PNone else ru_info ru allowed)]], [])
             else (ref_heading_errors ru refs @ marker_errors ru refs, [])
         | Some False \<Rightarrow>
             (case refs of
                [] \<Rightarrow> ([], [])
              | first # _ \<Rightarrow> ([rule_error ru REF_FROM_PROHIBITED_KIND first []], []))
         | None \<Rightarrow> (marker_errors ru refs, []))"

definition def_rule_issues :: "(string \<times> (string \<times> string) list) list \<Rightarrow> xref_index \<Rightarrow> string \<Rightarrow> id_constraint
    \<Rightarrow> row \<Rightarrow> (issue list \<times> issue list) list" where
  "def_rule_issues descs xi ak ic d =
     (case w_system d of
        None \<Rightarrow> []
      | Some sys \<Rightarrow>
          if w_kind d \<noteq> ak \<or> row_kind d \<noteq> norm_kind ic then []
          else map (\<lambda>(target, rule).
                 let tk = upper (strip target)
                 in rule_issues \<lparr>ru_kind = ak, ru_ic = ic, ru_def = d, ru_target = tk, ru_rule = rule,
                                 ru_info = info_for_kind descs tk\<rparr>
                      (dgetl (xi_present xi) sys)
                      (filter (\<lambda>r. w_id r = w_id d) (dgetl (xi_sys_refs xi) (sys, tk))))
               (case ic_references ic of None \<Rightarrow> [] | Some rs \<Rightarrow> rs))"

definition coverage_issues :: "(string \<times> (string \<times> string) list) list \<Rightarrow> (string \<times> kind_constraints) list
    \<Rightarrow> xref_index \<Rightarrow> (issue list \<times> issue list) list" where
  "coverage_issues descs by_kind xi =
     concat (map (\<lambda>(ak, c). concat (map (\<lambda>ic. concat (map (\<lambda>(did, drows).
       concat (map (def_rule_issues descs xi ak ic) drows)) (xi_defs xi))) (kc_defined_id c))) by_kind)"

subsection \<open>The whole check\<close>

definition mk_index :: "rx \<Rightarrow> fs \<Rightarrow> artifact_record list \<Rightarrow> string list \<Rightarrow> xref_index" where
  "mk_index rx fs arts systems =
     (let by_kind = constraints_by_kind arts
      in index_go rx fs \<lparr>xc_systems = systems, xc_tokens = all_kind_tokens by_kind,
            xc_composite = composite_by_base by_kind\<rparr> [] empty_index arts)"

definition cross_validate_artifacts :: "rx \<Rightarrow> fs \<Rightarrow> artifact_record list \<Rightarrow> string list option \<Rightarrow> report" where
  "cross_validate_artifacts rx fs arts registered_systems =
     (let by_kind = constraints_by_kind arts; descs = heading_desc_by_kind arts;
          systems = remdups (map lower (case registered_systems of None \<Rightarrow> [] | Some ss \<Rightarrow> ss));
          xi = mk_index rx fs arts systems; cov = coverage_issues descs by_kind xi
      in \<lparr>r_errors = missing_constraints_errors arts
            @ no_definition_errors systems xi @ ref_done_errors xi @ def_done_errors xi @ ref_task_errors xi
            @ concat (map (artifact_kind_errors descs by_kind xi) arts)
            @ concat (map fst cov),
          r_warnings = concat (map snd cov)\<rparr>)"

end
