(* ===== verification/Cross_Facts.thy ===== *)
theory Cross_Facts
  imports Cross_Check Artifact_Facts
begin

section \<open>Correctness of the cross-artifact check\<close>

text \<open>
  The index holds exactly the scanned definitions and references, grouped by ID and by system
  and artifact kind. On it, the check is silent about references exactly when every internal
  one is defined and check boxes agree, and a required coverage without an error is met.
\<close>

subsection \<open>Grouping\<close>

text \<open>A dictionary of lists that groups a list by a key, as repeated \<open>setdefault(k, []).append(x)\<close> builds it.\<close>

definition grouped :: "('k \<times> 'a list) list \<Rightarrow> ('a \<Rightarrow> 'k) \<Rightarrow> 'a list \<Rightarrow> bool" where
  "grouped d f xs \<longleftrightarrow> distinct (map fst d)
     \<and> (\<forall>i. dget d i = (if i \<in> f ` set xs then Some (filter (\<lambda>x. f x = i) xs) else None))"

lemma grouped_Nil [simp]: "grouped [] f []"
  by (simp add: grouped_def)

lemma grouped_dgetl: "grouped d f xs \<Longrightarrow> dgetl d i = filter (\<lambda>x. f x = i) xs"
proof -
  assume g: "grouped d f xs"
  have "i \<notin> f ` set xs \<Longrightarrow> filter (\<lambda>x. f x = i) xs = []" by (auto simp: filter_empty_conv)
  with g show ?thesis by (simp add: grouped_def dgetl_def)
qed

lemma grouped_append: "grouped d f xs \<Longrightarrow> grouped (dappend (f x) x d) f (xs @ [x])"
  using grouped_dgetl [of d f xs "f x"]
  by (auto simp: grouped_def map_of_dappend dappend_def) (simp add: dgetl_def)

lemma grouped_entry:
  assumes "grouped d f xs"
  shows "(i, ys) \<in> set d \<longleftrightarrow> i \<in> f ` set xs \<and> ys = filter (\<lambda>x. f x = i) xs"
proof -
  have "(i, ys) \<in> set d \<longleftrightarrow> dget d i = Some ys"
    using assms unfolding grouped_def by (metis map_of_eq_Some_iff)
  then show ?thesis using assms unfolding grouped_def by (metis option.distinct(1) option.inject)
qed

lemma grouped_dhas: "grouped d f xs \<Longrightarrow> dhas d i \<longleftrightarrow> i \<in> f ` set xs"
  by (auto simp: grouped_def dhas_def)

subsection \<open>The index\<close>

text \<open>The rows of an artifact of one type, and those of all artifacts.\<close>

definition art_rows :: "rx \<Rightarrow> fs \<Rightarrow> xref_ctx \<Rightarrow> hit_type \<Rightarrow> artifact_record \<Rightarrow> row list" where
  "art_rows rx fs xc ty a =
     map (mk_row xc a (art_headings rx fs a))
       (filter (\<lambda>h. strip (h_id h) \<noteq> [] \<and> h_type h = ty) (scan_cpt_ids fs (ar_path a)))"

definition rows_of :: "rx \<Rightarrow> fs \<Rightarrow> xref_ctx \<Rightarrow> hit_type \<Rightarrow> artifact_record list \<Rightarrow> row list" where
  "rows_of rx fs xc ty arts = concat (map (art_rows rx fs xc ty) arts)"

definition sys_key :: "row \<Rightarrow> string \<times> string" where
  "sys_key r = (str_or_empty (w_system r), w_kind r)"

definition has_sys :: "row \<Rightarrow> bool" where
  "has_sys r = (nonempty_opt (w_system r) \<noteq> None)"

definition index_ok :: "xref_index \<Rightarrow> row list \<Rightarrow> row list \<Rightarrow> bool" where
  "index_ok xi ds rs \<longleftrightarrow> grouped (xi_defs xi) w_id ds \<and> grouped (xi_refs xi) w_id rs
     \<and> grouped (xi_sys_refs xi) sys_key (filter has_sys rs)
     \<and> (\<forall>s. set (dgetl (xi_present xi) s) =
           {w_kind r | r. r \<in> set ds \<union> set rs \<and> has_sys r \<and> str_or_empty (w_system r) = s})"

lemma w_id_mk_row [simp]: "w_id (mk_row xc a at h) = strip (h_id h)"
  by (simp add: mk_row_def Let_def)

lemma add_present_set:
  "set (dgetl (add_present r d) s) =
   (if has_sys r \<and> str_or_empty (w_system r) = s then insert (w_kind r) (set (dgetl d s)) else set (dgetl d s))"
  by (cases "w_system r"; cases "str_or_empty (w_system r)")
    (auto simp: add_present_def has_sys_def nonempty_opt_def dgetl_def str_or_empty_def)

lemma sys_refs_step:
  "grouped d sys_key (filter has_sys rs) \<Longrightarrow>
   grouped (case nonempty_opt (w_system r) of None \<Rightarrow> d | Some s \<Rightarrow> dappend (s, w_kind r) r d)
     sys_key (filter has_sys (rs @ [r]))"
  using grouped_append [of d sys_key "filter has_sys rs" r]
  by (cases "w_system r"; cases "str_or_empty (w_system r)")
    (auto simp: has_sys_def nonempty_opt_def sys_key_def str_or_empty_def)

lemma index_hit_ok:
  assumes "index_ok xi ds rs"
  shows "index_ok (index_hit xc a at xi h)
    (ds @ map (mk_row xc a at) (filter (\<lambda>h. strip (h_id h) \<noteq> [] \<and> h_type h = Definition) [h]))
    (rs @ map (mk_row xc a at) (filter (\<lambda>h. strip (h_id h) \<noteq> [] \<and> h_type h = Reference) [h]))"
proof (cases "strip (h_id h) = []")
  case True
  then show ?thesis using assms by (simp add: index_hit_def Let_def)
next
  case False
  let ?r = "mk_row xc a at h"
  have g: "grouped (dappend (w_id ?r) ?r (xi_defs xi)) w_id (ds @ [?r])"
    "grouped (dappend (w_id ?r) ?r (xi_refs xi)) w_id (rs @ [?r])"
    using assms grouped_append [where f = w_id and x = ?r] unfolding index_ok_def by blast+
  show ?thesis
  proof (cases "h_type h")
    case Definition
    then show ?thesis
      using False assms g(1) by (auto simp: index_hit_def Let_def index_ok_def add_present_set)
  next
    case Reference
    then show ?thesis
      using False assms g(2) sys_refs_step [of "xi_sys_refs xi" rs ?r]
      by (auto simp: index_hit_def Let_def index_ok_def add_present_set)
  qed
qed

lemma index_hits_ok:
  assumes "index_ok xi ds rs"
  shows "index_ok (foldl (index_hit xc a at) xi hs)
    (ds @ map (mk_row xc a at) (filter (\<lambda>h. strip (h_id h) \<noteq> [] \<and> h_type h = Definition) hs))
    (rs @ map (mk_row xc a at) (filter (\<lambda>h. strip (h_id h) \<noteq> [] \<and> h_type h = Reference) hs))"
  using assms
proof (induction hs arbitrary: xi ds rs)
  case (Cons h hs)
  from Cons.IH [OF index_hit_ok [OF Cons.prems, of xc a at h]] show ?case
    by (cases "h_type h"; cases "strip (h_id h) = []") simp_all
qed simp

lemma index_go_ok:
  assumes "index_ok xi ds rs" and "distinct (map ar_path arts)"
    and "\<forall>a \<in> set arts. \<not> dhas cache (ar_path a)"
  shows "index_ok (index_go rx fs xc cache xi arts)
    (ds @ rows_of rx fs xc Definition arts) (rs @ rows_of rx fs xc Reference arts)"
  using assms
proof (induction arts arbitrary: cache xi ds rs)
  case (Cons a arts)
  let ?cache = "dset (ar_path a) (art_headings rx fs a) cache"
  let ?xi = "foldl (index_hit xc a (art_headings rx fs a)) xi (scan_cpt_ids fs (ar_path a))"
  from Cons.prems(3) have "index_go rx fs xc cache xi (a # arts) = index_go rx fs xc ?cache ?xi arts"
    by (simp add: dgetl_def)
  moreover have "\<forall>b \<in> set arts. ar_path b \<noteq> ar_path a" using Cons.prems(2) by (metis distinct.simps(2) image_eqI list.set_map list.simps(9))
  then have "index_ok (index_go rx fs xc ?cache ?xi arts)
      ((ds @ art_rows rx fs xc Definition a) @ rows_of rx fs xc Definition arts)
      ((rs @ art_rows rx fs xc Reference a) @ rows_of rx fs xc Reference arts)"
    using Cons.prems index_hits_ok [OF Cons.prems(1), of xc a "art_headings rx fs a" "scan_cpt_ids fs (ar_path a)"]
    by (intro Cons.IH) (auto simp: art_rows_def dhas_def)
  ultimately show ?case by (simp add: rows_of_def)
qed (simp add: rows_of_def)

definition ctx_of :: "artifact_record list \<Rightarrow> string list \<Rightarrow> xref_ctx" where
  "ctx_of arts systems = \<lparr>xc_systems = systems, xc_tokens = all_kind_tokens (constraints_by_kind arts),
     xc_composite = composite_by_base (constraints_by_kind arts)\<rparr>"

lemma mk_index_ok:
  assumes "distinct (map ar_path arts)"
  shows "index_ok (mk_index rx fs arts systems)
    (rows_of rx fs (ctx_of arts systems) Definition arts) (rows_of rx fs (ctx_of arts systems) Reference arts)"
  using index_go_ok [of empty_index "[]" "[]" arts "[]" rx fs "ctx_of arts systems"] assms
  by (simp add: mk_index_def ctx_of_def Let_def index_ok_def empty_index_def dgetl_def dhas_def)

text \<open>C34. The index is complete and sound: for artifacts at distinct paths, it lists under each ID
  exactly the definitions and the references with that ID that scanning the artifacts finds, in
  document order.\<close>

theorem index_complete:
  assumes "distinct (map ar_path arts)"
  shows "dgetl (xi_defs (mk_index rx fs arts systems)) i =
      filter (\<lambda>r. w_id r = i) (rows_of rx fs (ctx_of arts systems) Definition arts)
    \<and> dgetl (xi_refs (mk_index rx fs arts systems)) i =
      filter (\<lambda>r. w_id r = i) (rows_of rx fs (ctx_of arts systems) Reference arts)"
  using mk_index_ok [OF assms, of rx fs systems] by (auto simp: index_ok_def grouped_dgetl)

definition sample_fs :: fs where
  "sample_fs p = (if p = ''a.md'' then Some ''- [x] **ID**: `cpt-s-flow-a`'' else if p = ''b.md'' then Some ''[x] - `cpt-s-flow-a`''
     else None)"

definition sample_arts :: "artifact_record list" where
  "sample_arts = [\<lparr>ar_path = ''a.md'', ar_kind = ''PRD'', ar_constraints = None\<rparr>,
     \<lparr>ar_path = ''b.md'', ar_kind = ''DESIGN'', ar_constraints = None\<rparr>]"

theorem index_complete_witness:
  "map w_path (dgetl (xi_refs (mk_index (\<lambda>_. Inl []) sample_fs sample_arts [''s''])) ''cpt-s-flow-a'') = [''b.md'']
   \<and> dgetl (xi_refs (mk_index (\<lambda>_. Inl []) sample_fs sample_arts [''s''])) ''cpt-s-flow-a'' =
      filter (\<lambda>r. w_id r = ''cpt-s-flow-a'')
        (rows_of (\<lambda>_. Inl []) sample_fs (ctx_of sample_arts [''s'']) Reference sample_arts)"
proof -
  have d: "distinct (map ar_path sample_arts)" by code_simp
  have "map w_path (dgetl (xi_refs (mk_index (\<lambda>_. Inl []) sample_fs sample_arts [''s''])) ''cpt-s-flow-a'') = [''b.md'']"
    by code_simp
  then show ?thesis using index_complete [OF d] by blast
qed

subsection \<open>References and check boxes\<close>

lemma grouped_ball:
  assumes "grouped d f xs"
  shows "(\<forall>(i, ys) \<in> set d. P i ys) \<longleftrightarrow> (\<forall>x \<in> set xs. P (f x) (filter (\<lambda>y. f y = f x) xs))"
proof -
  have "set d = (\<lambda>i. (i, filter (\<lambda>y. f y = i) xs)) ` f ` set xs"
    using grouped_entry [OF assms] by auto
  then show ?thesis by auto
qed

lemma no_definition_Nil_iff:
  assumes "index_ok xi ds rs"
  shows "no_definition_errors systems xi = [] \<longleftrightarrow>
    (\<forall>r \<in> set rs. is_external_system_ref systems (w_id r) \<or> w_id r \<in> w_id ` set ds)"
proof -
  have g: "grouped (xi_refs xi) w_id rs" "grouped (xi_defs xi) w_id ds" using assms by (auto simp: index_ok_def)
  have "no_definition_errors systems xi = [] \<longleftrightarrow> (\<forall>(rid, rows) \<in> set (xi_refs xi).
      is_external_system_ref systems rid \<or> dhas (xi_defs xi) rid \<or> rows = [])"
    by (auto simp: no_definition_errors_def concat_map_Nil_iff split: if_splits)
  also have "\<dots> \<longleftrightarrow> (\<forall>r \<in> set rs. is_external_system_ref systems (w_id r) \<or> dhas (xi_defs xi) (w_id r)
      \<or> filter (\<lambda>y. w_id y = w_id r) rs = [])" by (rule grouped_ball [OF g(1)])
  also have "\<dots> \<longleftrightarrow> (\<forall>r \<in> set rs. is_external_system_ref systems (w_id r) \<or> w_id r \<in> w_id ` set ds)"
    by (intro ball_cong refl) (auto simp: grouped_dhas [OF g(2)] filter_empty_conv)
  finally show ?thesis .
qed

text \<open>Nothing is reported about missing definitions exactly when every reference either belongs
  to a system that is not registered or is defined in one of the artifacts.\<close>

theorem references_defined:
  assumes "distinct (map ar_path arts)"
  shows "no_definition_errors systems (mk_index rx fs arts systems) = [] \<longleftrightarrow>
    list_all (\<lambda>r. is_external_system_ref systems (w_id r)
        \<or> w_id r \<in> w_id ` set (rows_of rx fs (ctx_of arts systems) Definition arts))
      (rows_of rx fs (ctx_of arts systems) Reference arts)"
  using no_definition_Nil_iff [OF mk_index_ok [OF assms]] by (simp add: list_all_iff)

theorem references_defined_witness:
  "no_definition_errors [''s''] (mk_index (\<lambda>_. Inl []) sample_fs sample_arts [''s'']) = []
   \<and> list_all (\<lambda>r. is_external_system_ref [''s''] (w_id r)
        \<or> w_id r \<in> w_id ` set (rows_of (\<lambda>_. Inl []) sample_fs (ctx_of sample_arts [''s'']) Definition sample_arts))
      (rows_of (\<lambda>_. Inl []) sample_fs (ctx_of sample_arts [''s'']) Reference sample_arts)"
proof -
  have d: "distinct (map ar_path sample_arts)" by code_simp
  have "no_definition_errors [''s''] (mk_index (\<lambda>_. Inl []) sample_fs sample_arts [''s'']) = []" by code_simp
  then show ?thesis using references_defined [OF d] by blast
qed

text \<open>
  A tracked reference to a defined ID agrees with it when some definition is tracked and the
  reference is checked exactly if all tracked definitions are.
\<close>

definition status_ok :: "row list \<Rightarrow> row \<Rightarrow> bool" where
  "status_ok ds r \<longleftrightarrow>
     (let D = filter (\<lambda>d. w_id d = w_id r) ds; T = filter w_has_task D
      in w_has_task r \<and> D \<noteq> [] \<longrightarrow> T \<noteq> [] \<and> w_checked r = list_all w_checked T)"

lemma status_errors_Nil_iff:
  assumes "index_ok xi ds rs"
  shows "ref_done_errors xi @ def_done_errors xi @ ref_task_errors xi = [] \<longleftrightarrow> list_all (status_ok ds) rs"
proof -
  have g: "grouped (xi_refs xi) w_id rs" "grouped (xi_defs xi) w_id ds" using assms by (auto simp: index_ok_def)
  let ?D = "\<lambda>i. filter (\<lambda>d. w_id d = i) ds"
  let ?T = "\<lambda>i. filter w_has_task (?D i)"
  note dg = grouped_dgetl [OF g(2)]
  have "ref_done_errors xi = [] \<longleftrightarrow> (\<forall>(i, rows) \<in> set (xi_refs xi). \<forall>r \<in> set rows.
      w_has_task r \<and> w_checked r \<longrightarrow> list_all w_checked (?T i))"
  proof -
    have "concat (map (\<lambda>r. if w_has_task r \<and> w_checked r then map (\<lambda>d. ref_error REF_DONE_DEF_NOT_DONE r [])
          (filter (\<lambda>d. w_has_task d \<and> \<not> w_checked d) (?D i)) else []) rows) = [] \<longleftrightarrow>
        (\<forall>r \<in> set rows. w_has_task r \<and> w_checked r \<longrightarrow> list_all w_checked (?T i))" for i rows
      unfolding concat_map_Nil_iff by (auto simp: list_all_iff filter_empty_conv)
    then show ?thesis
      unfolding ref_done_errors_def concat_map_Nil_iff [where xs = "xi_refs xi"] dg
      by (simp only: split_beta) (simp add: split_beta)
  qed
  moreover have "def_done_errors xi = [] \<longleftrightarrow> (\<forall>(i, rows) \<in> set (xi_refs xi). \<forall>r \<in> set rows.
      w_has_task r \<and> ?T i \<noteq> [] \<and> list_all w_checked (?T i) \<longrightarrow> w_checked r)"
  proof -
    have "(case T of [] \<Rightarrow> [] | d # ds \<Rightarrow> if list_all w_checked (d # ds)
          then map (\<lambda>r. ref_error DEF_DONE_REF_NOT_DONE r [(''def_artifact_kind'', PStr (w_kind d))])
                 (filter (\<lambda>r. w_has_task r \<and> \<not> w_checked r) rows) else []) = [] \<longleftrightarrow>
        (\<forall>r \<in> set rows. w_has_task r \<and> T \<noteq> [] \<and> list_all w_checked T \<longrightarrow> w_checked r)" for T rows
      by (cases T) (auto simp: filter_empty_conv)
    note row = this
    show ?thesis
      unfolding def_done_errors_def concat_map_Nil_iff [where xs = "xi_refs xi"] dg split_beta
      by (intro ball_cong refl row)
  qed
  moreover have "ref_task_errors xi = [] \<longleftrightarrow> (\<forall>(i, rows) \<in> set (xi_refs xi). \<forall>r \<in> set rows.
      w_has_task r \<and> ?D i \<noteq> [] \<longrightarrow> ?T i \<noteq> [])"
    unfolding ref_task_errors_def concat_map_Nil_iff dg
    by (intro ball_cong refl) (auto simp: filter_empty_conv list_ex_iff split: prod.splits)
  ultimately have "ref_done_errors xi @ def_done_errors xi @ ref_task_errors xi = [] \<longleftrightarrow>
      (\<forall>(i, rows) \<in> set (xi_refs xi). \<forall>r \<in> set rows. w_has_task r \<longrightarrow>
        (w_checked r \<longrightarrow> list_all w_checked (?T i)) \<and> (?T i \<noteq> [] \<and> list_all w_checked (?T i) \<longrightarrow> w_checked r)
        \<and> (?D i \<noteq> [] \<longrightarrow> ?T i \<noteq> []))" by fastforce
  also have "\<dots> \<longleftrightarrow> (\<forall>x \<in> set rs. \<forall>r \<in> set (filter (\<lambda>y. w_id y = w_id x) rs). w_has_task r \<longrightarrow>
        (w_checked r \<longrightarrow> list_all w_checked (?T (w_id x))) \<and> (?T (w_id x) \<noteq> [] \<and> list_all w_checked (?T (w_id x)) \<longrightarrow> w_checked r)
        \<and> (?D (w_id x) \<noteq> [] \<longrightarrow> ?T (w_id x) \<noteq> []))" by (rule grouped_ball [OF g(1)])
  also have "\<dots> \<longleftrightarrow> (\<forall>r \<in> set rs. w_has_task r \<longrightarrow>
        (w_checked r \<longrightarrow> list_all w_checked (?T (w_id r))) \<and> (?T (w_id r) \<noteq> [] \<and> list_all w_checked (?T (w_id r)) \<longrightarrow> w_checked r)
        \<and> (?D (w_id r) \<noteq> [] \<longrightarrow> ?T (w_id r) \<noteq> []))" by auto
  also have "\<dots> \<longleftrightarrow> list_all (status_ok ds) rs"
  proof -
    have "(w_has_task r \<longrightarrow> (w_checked r \<longrightarrow> list_all w_checked (?T (w_id r)))
        \<and> (?T (w_id r) \<noteq> [] \<and> list_all w_checked (?T (w_id r)) \<longrightarrow> w_checked r)
        \<and> (?D (w_id r) \<noteq> [] \<longrightarrow> ?T (w_id r) \<noteq> [])) \<longleftrightarrow> status_ok ds r" for r
      unfolding status_ok_def Let_def by (cases "?D (w_id r) = []") auto
    then show ?thesis by (simp only: list_all_iff)
  qed
  finally show ?thesis .
qed

text \<open>C35. The check boxes of references and definitions agree exactly when nothing is reported about
  them: a tracked reference to a defined ID has a tracked definition, and is checked if and
  only if all tracked definitions of the ID are.\<close>

theorem status_consistent:
  assumes "distinct (map ar_path arts)"
  shows "(let xi = mk_index rx fs arts systems in ref_done_errors xi @ def_done_errors xi @ ref_task_errors xi = [])
    \<longleftrightarrow> list_all (status_ok (rows_of rx fs (ctx_of arts systems) Definition arts))
          (rows_of rx fs (ctx_of arts systems) Reference arts)"
  unfolding Let_def using status_errors_Nil_iff [OF mk_index_ok [OF assms]] by blast

theorem status_consistent_witness:
  "list_all (status_ok (rows_of (\<lambda>_. Inl []) sample_fs (ctx_of sample_arts [''s'']) Definition sample_arts))
     (rows_of (\<lambda>_. Inl []) sample_fs (ctx_of sample_arts [''s'']) Reference sample_arts)"
proof -
  have d: "distinct (map ar_path sample_arts)" by code_simp
  have "let xi = mk_index (\<lambda>_. Inl []) sample_fs sample_arts [''s'']
    in ref_done_errors xi @ def_done_errors xi @ ref_task_errors xi = []" by code_simp
  then show ?thesis using status_consistent [OF d] by blast
qed

subsection \<open>Reference rules\<close>

lemma first_violation_Nil_iff:
  "first_violation ru rule has m p refs = [] \<longleftrightarrow> (case rule of None \<Rightarrow> True | Some b \<Rightarrow> list_all (\<lambda>r. has r = b) refs)"
  by (auto simp: first_violation_def find_None_iff list_all_iff split: option.splits bool.splits
      dest: find_mem)

definition rule_met :: "reference_rule \<Rightarrow> row list \<Rightarrow> bool" where
  "rule_met rule refs \<longleftrightarrow> refs \<noteq> []
     \<and> (case rr_task rule of None \<Rightarrow> True | Some b \<Rightarrow> list_all (\<lambda>r. w_has_task r = b) refs)
     \<and> (case rr_priority rule of None \<Rightarrow> True | Some b \<Rightarrow> list_all (\<lambda>r. w_has_priority r = b) refs)
     \<and> (clean_headings (rr_headings rule) = []
        \<or> list_ex (\<lambda>r. list_ex (\<lambda>h. h \<in> set (clean_headings (rr_headings rule))) (w_headings r)) refs)"

lemma rule_issues_met:
  assumes "fst (rule_issues ru present refs) = []" and "rr_coverage (ru_rule ru) = Some True"
    and "\<not> (w_has_task (ru_def ru) \<and> \<not> w_checked (ru_def ru))" and "ru_target ru \<in> set present"
  shows "rule_met (ru_rule ru) refs"
proof -
  have ne: "refs \<noteq> []" using assms by (auto simp: rule_issues_def Let_def split: if_splits)
  with assms have e: "ref_heading_errors ru refs = []" "marker_errors ru refs = []"
    by (auto simp: rule_issues_def Let_def split: if_splits)
  have "rule_headings ru = [] \<longleftrightarrow> clean_headings (rr_headings (ru_rule ru)) = []"
    "set (rule_headings ru) = set (clean_headings (rr_headings (ru_rule ru)))"
    by (simp_all add: rule_headings_def)
  with e ne show ?thesis
    by (auto simp: rule_met_def ref_heading_errors_def marker_errors_def first_violation_Nil_iff Let_def
        split: if_splits list.splits)
qed

lemma sys_refs_filter:
  assumes "index_ok xi ds rs" and "sys \<noteq> []"
  shows "dgetl (xi_sys_refs xi) (sys, tk) = filter (\<lambda>r. w_system r = Some sys \<and> w_kind r = tk) rs"
proof -
  have "dgetl (xi_sys_refs xi) (sys, tk) = filter (\<lambda>r. sys_key r = (sys, tk)) (filter has_sys rs)"
    using assms(1) grouped_dgetl [of "xi_sys_refs xi" sys_key "filter has_sys rs" "(sys, tk)"]
    unfolding index_ok_def by blast
  also have "has_sys r \<and> sys_key r = (sys, tk) \<longleftrightarrow> w_system r = Some sys \<and> w_kind r = tk" for r
    using assms(2) by (cases "w_system r"; cases "the (w_system r)")
      (auto simp: sys_key_def has_sys_def nonempty_opt_def str_or_empty_def)
  then have "filter (\<lambda>r. sys_key r = (sys, tk)) (filter has_sys rs) =
      filter (\<lambda>r. w_system r = Some sys \<and> w_kind r = tk) rs"
    by (simp add: conj_commute)
  finally show ?thesis .
qed

lemma coverage_mem:
  assumes "(ak, c) \<in> set by_kind" and "ic \<in> set (kc_defined_id c)" and "(did, drows) \<in> set (xi_defs xi)"
    and "d \<in> set drows" and "x \<in> set (def_rule_issues descs xi ak ic d)"
  shows "x \<in> set (coverage_issues descs by_kind xi)"
  using assms unfolding coverage_issues_def by fastforce

text \<open>C36. When the cross check reports no error, every required coverage is met: for a definition of
  the constrained kind that is not an open task, and a target artifact kind present in its
  system, there are references from that kind, they carry the task boxes and priorities the
  rule demands, and one of them stands under an allowed heading.\<close>

theorem coverage_met:
  assumes "distinct (map ar_path arts)"
    and "r_errors (cross_validate_artifacts rx fs arts (Some systems)) = []"
    and "(ak, c) \<in> set (constraints_by_kind arts)" and "ic \<in> set (kc_defined_id c)"
    and "ic_references ic = Some rules" and "(target, rule) \<in> set rules" and "rr_coverage rule = Some True"
    and "d \<in> set (rows_of rx fs (ctx_of arts (remdups (map lower systems))) Definition arts)"
    and "w_kind d = ak" and "row_kind d = norm_kind ic" and "w_system d = Some sys" and "sys \<noteq> []"
    and "\<not> (w_has_task d \<and> \<not> w_checked d)"
    and "upper (strip target) \<in> set (dgetl (xi_present (mk_index rx fs arts (remdups (map lower systems)))) sys)"
  shows "rule_met rule (filter (\<lambda>r. w_id r = w_id d \<and> w_system r = Some sys \<and> w_kind r = upper (strip target))
    (rows_of rx fs (ctx_of arts (remdups (map lower systems))) Reference arts))"
proof -
  let ?S = "remdups (map lower systems)"
  let ?xi = "mk_index rx fs arts ?S" and ?tk = "upper (strip target)" and ?descs = "heading_desc_by_kind arts"
  let ?ds = "rows_of rx fs (ctx_of arts ?S) Definition arts"
  let ?rs = "rows_of rx fs (ctx_of arts ?S) Reference arts"
  let ?ru = "\<lparr>ru_kind = ak, ru_ic = ic, ru_def = d, ru_target = ?tk, ru_rule = rule,
    ru_info = info_for_kind ?descs ?tk\<rparr>"
  let ?refs = "filter (\<lambda>r. w_id r = w_id d) (dgetl (xi_sys_refs ?xi) (sys, ?tk))"
  let ?x = "rule_issues ?ru (dgetl (xi_present ?xi) sys) ?refs"
  have ok: "index_ok ?xi ?ds ?rs" by (rule mk_index_ok [OF assms(1)])
  have "(w_id d, filter (\<lambda>x. w_id x = w_id d) ?ds) \<in> set (xi_defs ?xi)"
    using ok assms(8) grouped_entry [of "xi_defs ?xi" w_id ?ds] by (auto simp: index_ok_def)
  note entry = this
  have x: "?x \<in> set (def_rule_issues ?descs ?xi ak ic d)"
    using assms(5,6,9-11) by (force simp: def_rule_issues_def Let_def)
  have "?x \<in> set (coverage_issues ?descs (constraints_by_kind arts) ?xi)"
    by (rule coverage_mem [OF assms(3,4) entry _ x]) (use assms(8) in simp)
  moreover have "concat (map fst (coverage_issues ?descs (constraints_by_kind arts) ?xi)) = []"
    using assms(2) by (simp add: cross_validate_artifacts_def Let_def)
  ultimately have "fst ?x = []" unfolding concat_map_Nil_iff by blast
  from rule_issues_met [OF this] assms(7,13,14) have "rule_met rule ?refs" by simp
  then show ?thesis by (simp add: sys_refs_filter [OF ok assms(12)] conj_ac)
qed

definition cov_rule :: reference_rule where
  "cov_rule = \<lparr>rr_coverage = Some True, rr_task = Some True, rr_priority = None, rr_headings = None\<rparr>"

definition cov_id :: id_constraint where
  "cov_id = \<lparr>ic_kind = ''flow'', ic_required = True, ic_name = None, ic_description = None, ic_template = None,
     ic_examples = None, ic_task = Some True, ic_priority = None, ic_to_code = None, ic_headings = None,
     ic_references = Some [(''design'', cov_rule)]\<rparr>"

definition cov_kind :: "id_constraint list \<Rightarrow> kind_constraints" where
  "cov_kind ics = \<lparr>kc_name = None, kc_description = None, kc_defined_id = ics, kc_headings = None, kc_toc = True\<rparr>"

definition cov_arts :: "artifact_record list" where
  "cov_arts = [\<lparr>ar_path = ''a.md'', ar_kind = ''PRD'', ar_constraints = Some (cov_kind [cov_id])\<rparr>,
     \<lparr>ar_path = ''b.md'', ar_kind = ''DESIGN'', ar_constraints = Some (cov_kind [])\<rparr>]"

theorem coverage_met_witness:
  "rule_met cov_rule (filter (\<lambda>r. w_id r = ''cpt-s-flow-a'' \<and> w_system r = Some ''s'' \<and> w_kind r = ''DESIGN'')
    (rows_of (\<lambda>_. Inl []) sample_fs (ctx_of cov_arts (remdups (map lower [''s'']))) Reference cov_arts))"
proof -
  let ?ds = "rows_of (\<lambda>_. Inl []) sample_fs (ctx_of cov_arts (remdups (map lower [''s'']))) Definition cov_arts"
  have d: "distinct (map ar_path cov_arts)" by code_simp
  have e: "r_errors (cross_validate_artifacts (\<lambda>_. Inl []) sample_fs cov_arts (Some [''s''])) = []" by code_simp
  have k: "(''PRD'', cov_kind [cov_id]) \<in> set (constraints_by_kind cov_arts)"
    and i: "cov_id \<in> set (kc_defined_id (cov_kind [cov_id]))"
    and r: "ic_references cov_id = Some [(''design'', cov_rule)]"
    and r': "(''design'', cov_rule) \<in> set [(''design'', cov_rule)]" and c: "rr_coverage cov_rule = Some True"
    by (code_simp | simp add: cov_kind_def cov_id_def cov_rule_def)+
  have "?ds \<noteq> []" by code_simp
  then have m: "hd ?ds \<in> set ?ds" by simp
  have f: "w_kind (hd ?ds) = ''PRD''" "row_kind (hd ?ds) = norm_kind cov_id" "w_system (hd ?ds) = Some ''s''"
    "''s'' \<noteq> []" "\<not> (w_has_task (hd ?ds) \<and> \<not> w_checked (hd ?ds))" by code_simp+
  have p: "upper (strip ''design'') \<in> set (dgetl (xi_present (mk_index (\<lambda>_. Inl []) sample_fs cov_arts
    (remdups (map lower [''s''])))) ''s'')" by code_simp
  have n: "w_id (hd ?ds) = ''cpt-s-flow-a''" "upper (strip ''design'') = ''DESIGN''" by code_simp+
  show ?thesis using coverage_met [OF d e k i r r' c m f p] unfolding n .
qed

end
