(* ===== verification/Py_Values.thy ===== *)
theory Py_Values
  imports Py_Prelude
begin

section \<open>Conversions and patterns of the standard library\<close>

text \<open>
  \<open>str(x)\<close>, \<open>repr(x)\<close> and \<open>bool(x)\<close> on the objects that TOML and JSON loaders produce, field
  access with a default, and \<open>fnmatch.fnmatch\<close>. The registry uses them on untyped data.
\<close>

subsection \<open>Text and truth of an object\<close>

definition hex_digit :: "nat \<Rightarrow> char" where
  "hex_digit n = ''0123456789abcdef'' ! n"

text \<open>One character inside the quotes \<open>qu\<close> of a \<open>repr\<close>; U+007F to U+00A0 and U+00AD do not print.\<close>

definition repr_char :: "char \<Rightarrow> char \<Rightarrow> string" where
  "repr_char qu c =
     (if c = qu \<or> c = CHR 0x5C then [CHR 0x5C, c]
      else if c = NL then [CHR 0x5C, CHR ''n'']
      else if c = CR then [CHR 0x5C, CHR ''r'']
      else if c = CHR 0x09 then [CHR 0x5C, CHR ''t'']
      else if ord c < (32::nat) \<or> (127 \<le> (ord c :: nat) \<and> ord c \<le> (160::nat)) \<or> ord c = (173::nat)
      then [CHR 0x5C, CHR ''x'', hex_digit (ord c div 16), hex_digit (ord c mod 16)]
      else [c])"

definition repr_str :: "string \<Rightarrow> string" where
  "repr_str s =
     (let qu = (if CHR 0x27 \<in> set s \<and> CHR 0x22 \<notin> set s then CHR 0x22 else CHR 0x27)
      in [qu] @ concat (map (repr_char qu) s) @ [qu])"

function py_repr :: "pyobj \<Rightarrow> string" where
  "py_repr PNone = ''None''"
| "py_repr (PBool b) = (if b then ''True'' else ''False'')"
| "py_repr (PInt i) = int_str i"
| "py_repr (PStr s) = repr_str s"
| "py_repr (POther _ _ r _) = r"
| "py_repr (PList xs) = ''['' @ join_with '', '' (map py_repr xs) @ '']''"
| "py_repr (PDict d) = ''{'' @ join_with '', '' (map (\<lambda>kv. py_repr (fst kv) @ '': '' @ py_repr (snd kv)) d) @ ''}''"
  by pat_completeness auto

lemma size_pair_mem: "kv \<in> set d \<Longrightarrow> size (fst kv) + size (snd kv) < size_list (size_prod size size) d"
  by (induction d) auto

termination py_repr
proof (relation "measure size")
  fix d :: "(pyobj \<times> pyobj) list" and kv
  assume "kv \<in> set d"
  from size_pair_mem [OF this] show "(fst kv, PDict d) \<in> measure size" "(snd kv, PDict d) \<in> measure size"
    by auto
qed (auto simp: less_Suc_eq_le size_list_estimation')

definition py_str :: "pyobj \<Rightarrow> string" where
  "py_str x = (case x of PStr s \<Rightarrow> s | POther _ s _ _ \<Rightarrow> s | _ \<Rightarrow> py_repr x)"

definition py_truth :: "pyobj \<Rightarrow> bool" where
  "py_truth x =
     (case x of PNone \<Rightarrow> False | PBool b \<Rightarrow> b | PInt i \<Rightarrow> i \<noteq> 0 | PStr s \<Rightarrow> s \<noteq> [] | POther _ _ _ b \<Rightarrow> b
      | PList xs \<Rightarrow> xs \<noteq> [] | PDict d \<Rightarrow> d \<noteq> [])"

lemma py_str_PStr [simp]: "py_str (PStr s) = s"
  by (simp add: py_str_def)

subsection \<open>Replacement of a substring\<close>

text \<open>\<open>s.replace(old, new)\<close> for a non-empty \<open>old\<close>, from left to right.\<close>

function replace_all :: "string \<Rightarrow> string \<Rightarrow> string \<Rightarrow> string" where
  "replace_all old new [] = []"
| "replace_all old new (c # cs) =
     (if old \<noteq> [] \<and> startswith (c # cs) old then new @ replace_all old new (drop (length old) (c # cs))
      else c # replace_all old new cs)"
  by pat_completeness auto
termination replace_all
  by (relation "measure (\<lambda>(old, new, s). length s)") (auto simp: neq_Nil_conv less_Suc_eq_le)

text \<open>\<open>needle in hay\<close>\<close>

definition has_sub :: "string \<Rightarrow> string \<Rightarrow> bool" where
  "has_sub hay needle = (find_sub hay needle \<noteq> None)"

subsection \<open>Fields with a default\<close>

text \<open>\<open>d.get(k, v)\<close>; \<open>dict_items\<close> and \<open>list_items\<close> are the loops over a field that is checked to be a
  dictionary or a list, and \<open>dicts_of\<close> keeps the elements that are dictionaries.\<close>

definition pget_or :: "(pyobj \<times> pyobj) list \<Rightarrow> string \<Rightarrow> pyobj \<Rightarrow> pyobj" where
  "pget_or d k v = (case map_of d (PStr k) of None \<Rightarrow> v | Some x \<Rightarrow> x)"

definition list_items :: "(pyobj \<times> pyobj) list \<Rightarrow> string \<Rightarrow> pyobj list" where
  "list_items d k = (case pget d k of PList xs \<Rightarrow> xs | _ \<Rightarrow> [])"

definition dict_items :: "(pyobj \<times> pyobj) list \<Rightarrow> string \<Rightarrow> (pyobj \<times> pyobj) list" where
  "dict_items d k = (case pget d k of PDict xs \<Rightarrow> xs | _ \<Rightarrow> [])"

fun dicts_of :: "pyobj list \<Rightarrow> (pyobj \<times> pyobj) list list" where
  "dicts_of [] = []"
| "dicts_of (PDict d # xs) = d # dicts_of xs"
| "dicts_of (_ # xs) = dicts_of xs"

fun strs_of :: "pyobj list \<Rightarrow> string list" where
  "strs_of [] = []"
| "strs_of (PStr s # xs) = s # strs_of xs"
| "strs_of (_ # xs) = strs_of xs"

abbreviation dict_size :: "(pyobj \<times> pyobj) list \<Rightarrow> nat" where
  "dict_size d \<equiv> size_list (size_prod size size) d"

lemma dicts_of_size: "c \<in> set (dicts_of xs) \<Longrightarrow> dict_size c < size_list size xs"
  by (induction xs rule: dicts_of.induct) auto

lemma list_items_size: "size_list size (list_items d k) \<le> dict_size d"
proof (cases "map_of d (PStr k)")
  case (Some x)
  then have "(PStr k, x) \<in> set d" by (rule map_of_SomeD)
  from size_pair_mem [OF this] show ?thesis by (auto simp: list_items_def pget_def Some split: pyobj.splits)
qed (simp add: list_items_def pget_def)

lemma child_dict_size: "c \<in> set (dicts_of (list_items d k)) \<Longrightarrow> dict_size c < dict_size d"
  using dicts_of_size [of c "list_items d k"] list_items_size [of d k] by linarith

end
