(* ===== verification/Py_Fnmatch.thy ===== *)
theory Py_Fnmatch
  imports Py_Prelude
begin

section \<open>Shell patterns (\<open>fnmatch.fnmatch\<close>)\<close>

text \<open>
  The registry's ignore rules are shell patterns. \<open>translate\<close> of the module turns a pattern
  into a regular expression; here it becomes a list of items: a star, any character, a
  literal character, or a set of characters and ranges, possibly negated. On POSIX systems
  names and patterns are compared as they are.
\<close>

datatype fitem = FStar | FAny | FChar char | FSet bool "string list"

text \<open>
  Splitting a bracket's body at the hyphens that form ranges: the first is looked for from
  position \<open>k\<close>, and the next from the third character after it, so each middle chunk has two
  characters at least.
\<close>

fun next_hyphen :: "string \<Rightarrow> nat \<Rightarrow> nat option" where
  "next_hyphen [] k = None"
| "next_hyphen (c # cs) 0 = (if c = CHR ''-'' then Some 0 else map_option Suc (next_hyphen cs 0))"
| "next_hyphen (c # cs) (Suc k) = map_option Suc (next_hyphen cs k)"

lemma next_hyphen_less: "next_hyphen s k = Some i \<Longrightarrow> i < length s"
  by (induction s k arbitrary: i rule: next_hyphen.induct) (auto split: if_splits)

function chunks_go :: "string \<Rightarrow> nat \<Rightarrow> string list" where
  "chunks_go s k =
     (case next_hyphen s k of
        None \<Rightarrow> [s]
      | Some i \<Rightarrow> take i s # chunks_go (drop (Suc i) s) 2)"
  by pat_completeness auto
termination chunks_go
  by (relation "measure (length \<circ> fst)") (auto dest: next_hyphen_less)

text \<open>An empty last chunk, of a body that ends in a hyphen, is a hyphen of the chunk before it.\<close>

fun fix_last :: "string list \<Rightarrow> string list" where
  "fix_last [c, []] = [c @ ''-'']"
| "fix_last (c # cs) = c # fix_last cs"
| "fix_last [] = []"

text \<open>Empty ranges are removed, from the last one on.\<close>

fun drop_empty :: "string list \<Rightarrow> string list" where
  "drop_empty [] = []"
| "drop_empty (c # cs) =
     (case drop_empty cs of
        [] \<Rightarrow> [c]
      | d # ds \<Rightarrow> if c \<noteq> [] \<and> d \<noteq> [] \<and> ord (hd d) < (ord (last c) :: nat)
                  then (butlast c @ tl d) # ds else c # d # ds)"

definition bracket_chunks :: "string \<Rightarrow> string list" where
  "bracket_chunks body =
     (if CHR ''-'' \<notin> set body then [body]
      else drop_empty (fix_last (chunks_go body (if startswith body ''!'' then 2 else 1))))"

definition bracket_item :: "string \<Rightarrow> fitem" where
  "bracket_item body =
     (case bracket_chunks body of
        (CHR 0x21 # c) # cs \<Rightarrow> FSet True (c # cs)
      | cs \<Rightarrow> FSet False cs)"

text \<open>The position of the bracket that closes a set: a bracket first in the set is a member.\<close>

definition close_bracket :: "string \<Rightarrow> nat option" where
  "close_bracket s =
     (let a = (if startswith s ''!'' then 1 else 0); b = (if startswith (drop a s) '']'' then Suc a else a)
      in map_option (\<lambda>i. b + i) (find_sub (drop b s) '']''))"

function fn_items :: "string \<Rightarrow> fitem list" where
  "fn_items [] = []"
| "fn_items (c # cs) =
     (if c = CHR ''*'' then FStar # fn_items cs
      else if c = CHR ''?'' then FAny # fn_items cs
      else if c = CHR ''['' then
        (case close_bracket cs of
           None \<Rightarrow> FChar c # fn_items cs
         | Some j \<Rightarrow> bracket_item (take j cs) # fn_items (drop (Suc j) cs))
      else FChar c # fn_items cs)"
  by pat_completeness auto
termination fn_items
  by (relation "measure length") (auto simp: less_Suc_eq_le)

fun in_chunks :: "string list \<Rightarrow> char \<Rightarrow> bool" where
  "in_chunks [] x = False"
| "in_chunks [c] x = (x \<in> set c)"
| "in_chunks (c # d # cs) x =
     (x \<in> set c
      \<or> (c \<noteq> [] \<and> d \<noteq> [] \<and> (ord (last c) :: nat) \<le> ord x \<and> (ord x :: nat) \<le> ord (hd d))
      \<or> in_chunks (d # cs) x)"

fun item_char :: "fitem \<Rightarrow> char \<Rightarrow> bool" where
  "item_char FStar x = False"
| "item_char FAny x = True"
| "item_char (FChar c) x = (x = c)"
| "item_char (FSet neg cs) x = (in_chunks cs x \<noteq> neg)"

fun items_match :: "fitem list \<Rightarrow> string \<Rightarrow> bool" where
  "items_match [] s = (s = [])"
| "items_match (FStar # ps) s = (items_match ps s \<or> (case s of [] \<Rightarrow> False | _ # t \<Rightarrow> items_match (FStar # ps) t))"
| "items_match (p # ps) s = (case s of [] \<Rightarrow> False | x # t \<Rightarrow> item_char p x \<and> items_match ps t)"

definition fnmatch :: "string \<Rightarrow> string \<Rightarrow> bool" where
  "fnmatch name pat = items_match (fn_items pat) name"

subsection \<open>What patterns match\<close>

lemma items_match_star: "items_match (FStar # ps) s \<longleftrightarrow> (\<exists>u v. s = u @ v \<and> items_match ps v)"
proof (induction s)
  case (Cons x s)
  then show ?case by (auto simp: Cons_eq_append_conv)
qed simp

lemma items_match_literal: "items_match (map FChar p @ ps) s \<longleftrightarrow> (\<exists>t. s = p @ t \<and> items_match ps t)"
  by (induction p arbitrary: s) (auto split: list.splits)

definition fn_plain :: "string \<Rightarrow> bool" where
  "fn_plain p \<longleftrightarrow> list_all (\<lambda>c. c \<noteq> CHR ''*'' \<and> c \<noteq> CHR ''?'' \<and> c \<noteq> CHR ''['') p"

lemma fn_items_plain: "fn_plain p \<Longrightarrow> fn_items (p @ q) = map FChar p @ fn_items q"
  by (induction p) (auto simp: fn_plain_def)

text \<open>A pattern without metacharacters matches itself, and \<open>dir/*\<close> everything below \<open>dir\<close>.\<close>

lemma fnmatch_plain: "fn_plain p \<Longrightarrow> fnmatch name p \<longleftrightarrow> name = p"
  using fn_items_plain [of p "[]"] items_match_literal [of p "[]"] by (simp add: fnmatch_def)

lemma fnmatch_below: "fn_plain d \<Longrightarrow> fnmatch name (d @ ''/*'') \<longleftrightarrow> startswith name (d @ ''/'')"
proof -
  assume "fn_plain d"
  then have "fn_plain (d @ ''/'')" by (simp add: fn_plain_def)
  from fn_items_plain [OF this, of "''*''"] have "fn_items (d @ ''/*'') = map FChar (d @ ''/'') @ [FStar]" by simp
  then have "fnmatch name (d @ ''/*'') \<longleftrightarrow> (\<exists>t. name = (d @ ''/'') @ t \<and> items_match [FStar] t)"
    by (simp only: fnmatch_def items_match_literal)
  moreover have "items_match [FStar] t" for t by (simp only: items_match_star) simp
  ultimately show ?thesis by (simp add: startswith_iff)
qed

end
