(* ===== verification/Registry.thy ===== *)
theory Registry
  imports Py_Values Py_Fnmatch Py_Regex
begin

section \<open>The artifact registry (\<open>utils/artifacts_meta.py\<close>)\<close>

text \<open>
  The registry lists kits, ignore rules and a tree of systems with their artifacts and
  codebases. It is read from untyped TOML or JSON data: every \<open>from_dict\<close> of the source is a
  total function here, since it skips what has the wrong type. A node refers to its parent in
  the source; here the nodes on the way from a node to its root, the node first, are passed
  along as a list. Autodetection, which globs the file system, is in \<open>Autodetect\<close>.
\<close>

subsection \<open>Slugs\<close>

definition slug_c :: "char \<Rightarrow> bool" where
  "slug_c c = (is_lower_az c \<or> is_digit c)"

definition SLUG_PATTERN :: regex where
  "SLUG_PATTERN = RCat [RPlus (RCls slug_c), RStar (RSeq (RCls (cOne (CHR ''-''))) (RPlus (RCls slug_c))), REnd]"

definition SLUG_SEP_RE :: regex where
  "SLUG_SEP_RE = RPlus (RCls (\<lambda>c. \<not> slug_c c))"

definition HYPHENS_RE :: regex where
  "HYPHENS_RE = RPlus (RCls (cOne (CHR ''-'')))"

definition name_slug :: "string \<Rightarrow> string" where
  "name_slug name = strip_by (cOne (CHR ''-'')) (re_sub SLUG_SEP_RE (\<lambda>_. ''-'') (lower name))"

definition generate_slug :: "string \<Rightarrow> string" where
  "generate_slug name =
     (let slug = re_sub HYPHENS_RE (\<lambda>_. ''-'') (name_slug name) in if slug \<noteq> [] then slug else ''unnamed'')"

text \<open>The candidates for the system of an ID; \<open>kind_tokens\<close> is a set in iteration order.\<close>

fun scan_kinds :: "string \<Rightarrow> string list \<Rightarrow> nat option \<Rightarrow> string list \<Rightarrow> string list \<times> nat option" where
  "scan_kinds remainder matched first [] = (matched, first)"
| "scan_kinds remainder matched first (kind # kinds) =
     (case find_sub remainder (''-'' @ kind @ ''-'') of
        None \<Rightarrow> scan_kinds remainder matched first kinds
      | Some idx \<Rightarrow>
          scan_kinds remainder (sadd kind matched)
            (case first of None \<Rightarrow> Some idx | Some f \<Rightarrow> if idx < f then Some idx else first) kinds)"

definition extract_system_slug_candidates :: "string \<Rightarrow> string \<Rightarrow> string list \<Rightarrow> string list" where
  "extract_system_slug_candidates cpt_id parent_prefix kind_tokens =
     (if \<not> startswith cpt_id ''cpt-'' then []
      else
        (let remainder = drop 4 cpt_id; expected = parent_prefix @ ''-''
         in if parent_prefix \<noteq> [] \<and> \<not> startswith remainder expected then []
            else
              (let remainder = (if parent_prefix \<noteq> [] then drop (length expected) remainder else remainder)
               in case scan_kinds remainder [] None kind_tokens of
                    ([_], Some first_pos) \<Rightarrow> if first_pos = 0 then [] else [take first_pos remainder]
                  | _ \<Rightarrow> [])))"

subsection \<open>Kits\<close>

record kit =
  k_id :: pyobj
  k_format :: string
  k_path :: string
  k_artifacts :: "(string \<times> string \<times> string) list"

definition str_field :: "(pyobj \<times> pyobj) list \<Rightarrow> string \<Rightarrow> string" where
  "str_field d k = (case pget d k of PStr s \<Rightarrow> strip s | _ \<Rightarrow> [])"

definition kit_artifact :: "(string \<times> string \<times> string) list \<Rightarrow> pyobj \<times> pyobj \<Rightarrow> (string \<times> string \<times> string) list" where
  "kit_artifact arts kv =
     (case kv of
        (PStr kind, PDict spec) \<Rightarrow>
          if strip kind = [] \<or> str_field spec ''template'' = [] \<or> str_field spec ''examples'' = [] then arts
          else dset (upper (strip kind)) (str_field spec ''template'', str_field spec ''examples'') arts
      | _ \<Rightarrow> arts)"

definition kit_from_dict :: "pyobj \<Rightarrow> (pyobj \<times> pyobj) list \<Rightarrow> kit" where
  "kit_from_dict kit_id data =
     \<lparr>k_id = kit_id, k_format = str_field data ''format'', k_path = str_field data ''path'',
      k_artifacts = foldl kit_artifact [] (dict_items data ''artifacts'')\<rparr>"

definition is_cypilot_format :: "kit \<Rightarrow> bool" where
  "is_cypilot_format k = (k_format k = ''Cypilot'')"

definition substitute_registry_tokens :: "string \<Rightarrow> string" where
  "substitute_registry_tokens t = replace_all ''{project_root}'' ''.'' t"

definition kit_file :: "(string \<times> string \<Rightarrow> string) \<Rightarrow> string \<Rightarrow> kit \<Rightarrow> string \<Rightarrow> string" where
  "kit_file sel dflt k kind =
     (let default_path = rstrip_by (cOne (CHR ''/'')) (k_path k) @ ''/artifacts/'' @ kind @ ''/'' @ dflt
      in case dget (k_artifacts k) (upper (strip kind)) of
           None \<Rightarrow> default_path
         | Some e \<Rightarrow> if strip (sel e) = [] then default_path else substitute_registry_tokens (strip (sel e)))"

definition get_template_path :: "kit \<Rightarrow> string \<Rightarrow> string" where
  "get_template_path = kit_file fst ''template.md''"

definition get_examples_path :: "kit \<Rightarrow> string \<Rightarrow> string" where
  "get_examples_path = kit_file snd ''examples''"

subsection \<open>Artifacts, codebases and ignore rules\<close>

record artifact =
  a_path :: string
  a_kind :: string
  a_traceability :: string
  a_name :: "string option"

definition opt_name :: "(pyobj \<times> pyobj) list \<Rightarrow> string option" where
  "opt_name d = (let name = pget d ''name'' in if py_truth name then Some (py_str name) else None)"

definition artifact_from_dict :: "(pyobj \<times> pyobj) list \<Rightarrow> artifact" where
  "artifact_from_dict data =
     \<lparr>a_path = py_str (pget_or data ''path'' (PStr [])),
      a_kind = py_str (pget_or data ''kind'' (pget_or data ''type'' (PStr []))),
      a_traceability = py_str (pget_or data ''traceability'' (PStr ''DOCS-ONLY'')),
      a_name = opt_name data\<rparr>"

record codebase_entry =
  cb_path :: string
  cb_extensions :: "string list"
  cb_name :: "string option"
  cb_single :: "string list option"
  cb_multi :: "(string \<times> string) list option"

definition comment_pairs :: "pyobj list \<Rightarrow> (string \<times> string) list" where
  "comment_pairs items =
     map (\<lambda>d. (py_str (pget d ''start''), py_str (pget d ''end'')))
       (filter (\<lambda>d. phas d ''start'' \<and> phas d ''end'') (dicts_of items))"

definition codebase_from_dict :: "(pyobj \<times> pyobj) list \<Rightarrow> codebase_entry" where
  "codebase_from_dict data =
     \<lparr>cb_path = py_str (pget_or data ''path'' (PStr [])),
      cb_extensions = strs_of (list_items data ''extensions''),
      cb_name = opt_name data,
      cb_single = (case pget data ''singleLineComments'' of
                     PList xs \<Rightarrow> Some (filter (\<lambda>s. strip s \<noteq> []) (strs_of xs))
                   | _ \<Rightarrow> None),
      cb_multi = (case pget data ''multiLineComments'' of
                    PList xs \<Rightarrow> if comment_pairs xs = [] then None else Some (comment_pairs xs)
                  | _ \<Rightarrow> None)\<rparr>"

record ignore_block =
  ib_reason :: string
  ib_patterns :: "string list"

text \<open>\<open>str(d.get(k, v) or v).strip()\<close>\<close>

definition stripped_or :: "(pyobj \<times> pyobj) list \<Rightarrow> string \<Rightarrow> string \<Rightarrow> string" where
  "stripped_or d k v =
     (let x = pget_or d k (PStr v) in strip (if py_truth x then py_str x else v))"

definition ignore_from_dict :: "(pyobj \<times> pyobj) list \<Rightarrow> ignore_block" where
  "ignore_from_dict data =
     \<lparr>ib_reason = stripped_or data ''reason'' [],
      ib_patterns = filter (\<lambda>p. p \<noteq> []) (map strip (strs_of (list_items data ''patterns'')))\<rparr>"

subsection \<open>Autodetect rules\<close>

record autodetect_pattern =
  ap_pattern :: string
  ap_traceability :: string
  ap_required :: bool

definition pattern_from_dict :: "(pyobj \<times> pyobj) list \<Rightarrow> autodetect_pattern" where
  "pattern_from_dict data =
     \<lparr>ap_pattern = stripped_or data ''pattern'' [], ap_traceability = stripped_or data ''traceability'' ''FULL'',
      ap_required = py_truth (pget_or data ''required'' (PBool True))\<rparr>"

datatype autodetect_rule = AutodetectRule
  (ad_kit: "string option")
  (ad_system_root: "string option")
  (ad_artifacts_root: "string option")
  (ad_aliases: "(string \<times> (pyobj \<times> pyobj) list) list")
  (ad_artifacts: "(string \<times> autodetect_pattern) list")
  (ad_codebase: "codebase_entry list")
  (ad_validation: "(pyobj \<times> pyobj) list")
  (ad_children: "autodetect_rule list")

fun str_dicts :: "(pyobj \<times> pyobj) list \<Rightarrow> (string \<times> (pyobj \<times> pyobj) list) list" where
  "str_dicts [] = []"
| "str_dicts ((PStr k, PDict v) # kvs) = (k, v) # str_dicts kvs"
| "str_dicts (_ # kvs) = str_dicts kvs"

definition nonempty_or_none :: "string \<Rightarrow> string option" where
  "nonempty_or_none s = (if s = [] then None else Some s)"

function rule_from_dict :: "(pyobj \<times> pyobj) list \<Rightarrow> autodetect_rule" where
  "rule_from_dict data =
     AutodetectRule
       (nonempty_or_none (str_field data ''kit''))
       (nonempty_or_none (stripped_or data ''system_root'' []))
       (nonempty_or_none (stripped_or data ''artifacts_root'' []))
       (str_dicts (dict_items data ''aliases''))
       (map (apsnd pattern_from_dict) (str_dicts (dict_items data ''artifacts'')))
       (map codebase_from_dict (dicts_of (list_items data ''codebase'')))
       (dict_items data ''validation'')
       (map rule_from_dict (dicts_of (list_items data ''children'')))"
  by pat_completeness auto
termination rule_from_dict
  by (relation "measure dict_size") (auto intro: child_dict_size)

subsection \<open>Systems\<close>

datatype system_node = SystemNode
  (sn_name: string)
  (sn_slug: string)
  (sn_kit: string)
  (sn_artifacts: "artifact list")
  (sn_codebase: "codebase_entry list")
  (sn_children: "system_node list")
  (sn_autodetect: "autodetect_rule list")

definition node_slug :: "(pyobj \<times> pyobj) list \<Rightarrow> string \<Rightarrow> string" where
  "node_slug data name =
     (let slug = (case pget data ''slug'' of PStr s \<Rightarrow> s | _ \<Rightarrow> [])
      in if slug = [] \<and> \<not> phas data ''slug'' \<and> name \<noteq> [] then name_slug name else slug)"

function system_from_dict :: "(pyobj \<times> pyobj) list \<Rightarrow> system_node" where
  "system_from_dict data =
     (let name = py_str (pget_or data ''name'' (PStr []))
      in SystemNode name (node_slug data name)
           (py_str (pget_or data ''kit'' (pget_or data ''kits'' (PStr []))))
           (map artifact_from_dict (dicts_of (list_items data ''artifacts'')))
           (map codebase_from_dict (dicts_of (list_items data ''codebase'')))
           (map system_from_dict (dicts_of (list_items data ''children'')))
           (map rule_from_dict (dicts_of (list_items data ''autodetect''))))"
  by pat_completeness auto
termination system_from_dict
  by (relation "measure dict_size") (auto intro: child_dict_size)

text \<open>A node with its ancestors, the node first.\<close>

type_synonym chain = "system_node list"

definition get_hierarchy_prefix :: "chain \<Rightarrow> string" where
  "get_hierarchy_prefix ch = join_with ''-'' (rev (filter (\<lambda>s. s \<noteq> []) (map sn_slug ch)))"

subsection \<open>The registry and its index\<close>

record artifacts_meta =
  am_version :: string
  am_project_root :: string
  am_kits :: "(pyobj \<times> kit) list"
  am_systems :: "system_node list"
  am_ignore :: "ignore_block list"
  am_patterns :: "string list"
  am_index :: "(string \<times> artifact \<times> chain) list"

definition normalize_path :: "string \<Rightarrow> string" where
  "normalize_path path = (let p = strip path in if startswith p ''./'' then drop 2 p else p)"

definition ignored_by :: "string list \<Rightarrow> string \<Rightarrow> bool" where
  "ignored_by patterns rel_path =
     (let rp = normalize_path rel_path
      in list_ex (\<lambda>pat. fnmatch rp pat \<or> (endswith pat ''/*'' \<and> rp = take (length pat - 2) pat)) patterns)"

definition is_ignored :: "artifacts_meta \<Rightarrow> string \<Rightarrow> bool" where
  "is_ignored m = ignored_by (am_patterns m)"

definition index_artifact :: "string list \<Rightarrow> chain \<Rightarrow> (string \<times> artifact \<times> chain) list \<Rightarrow> artifact
    \<Rightarrow> (string \<times> artifact \<times> chain) list" where
  "index_artifact patterns ch idx a =
     (if ignored_by patterns (a_path a) then idx else dset (normalize_path (a_path a)) (a, ch) idx)"

fun index_system :: "string list \<Rightarrow> chain \<Rightarrow> (string \<times> artifact \<times> chain) list \<Rightarrow> system_node
    \<Rightarrow> (string \<times> artifact \<times> chain) list"
  and index_systems :: "string list \<Rightarrow> chain \<Rightarrow> (string \<times> artifact \<times> chain) list \<Rightarrow> system_node list
    \<Rightarrow> (string \<times> artifact \<times> chain) list" where
  "index_system patterns anc idx (SystemNode nm sl kt arts cbs children rules) =
     (let ch = SystemNode nm sl kt arts cbs children rules # anc
      in index_systems patterns ch (foldl (index_artifact patterns ch) idx arts) children)"
| "index_systems patterns anc idx [] = idx"
| "index_systems patterns anc idx (n # ns) = index_systems patterns anc (index_system patterns anc idx n) ns"

definition build_indices :: "string list \<Rightarrow> system_node list \<Rightarrow> (string \<times> artifact \<times> chain) list" where
  "build_indices patterns systems = index_systems patterns [] [] systems"

definition ignore_patterns :: "ignore_block list \<Rightarrow> string list" where
  "ignore_patterns blocks = filter (\<lambda>p. p \<noteq> []) (map strip (concat (map ib_patterns blocks)))"

definition new_meta :: "string \<Rightarrow> string \<Rightarrow> (pyobj \<times> kit) list \<Rightarrow> system_node list \<Rightarrow> ignore_block list \<Rightarrow> artifacts_meta" where
  "new_meta version project_root kits systems ignore =
     \<lparr>am_version = version, am_project_root = project_root, am_kits = kits, am_systems = systems,
      am_ignore = ignore, am_patterns = ignore_patterns ignore,
      am_index = build_indices (ignore_patterns ignore) systems\<rparr>"

definition rebuild_indices :: "artifacts_meta \<Rightarrow> artifacts_meta" where
  "rebuild_indices m = m\<lparr>am_index := build_indices (am_patterns m) (am_systems m)\<rparr>"

definition kits_of :: "(pyobj \<times> pyobj) list \<Rightarrow> (pyobj \<times> kit) list" where
  "kits_of raw =
     foldl (\<lambda>ks kv. case snd kv of PDict d \<Rightarrow> dset (fst kv) (kit_from_dict (fst kv) d) ks | _ \<Rightarrow> ks) [] raw"

definition meta_from_dict :: "(pyobj \<times> pyobj) list \<Rightarrow> artifacts_meta" where
  "meta_from_dict data =
     new_meta (py_str (pget_or data ''version'' (PStr ''1.0''))) (py_str (pget_or data ''project_root'' (PStr ''..'')))
       (kits_of (dict_items data ''kits''))
       (map system_from_dict (dicts_of (list_items data ''systems'')))
       (map ignore_from_dict (dicts_of (list_items data ''ignore'')))"

subsection \<open>Queries\<close>

definition get_kit :: "artifacts_meta \<Rightarrow> string \<Rightarrow> kit option" where
  "get_kit m kit_id = dget (am_kits m) (PStr kit_id)"

definition get_artifact_by_path :: "artifacts_meta \<Rightarrow> string \<Rightarrow> (artifact \<times> chain) option" where
  "get_artifact_by_path m path = dget (am_index m) (normalize_path path)"

definition iter_all_artifacts :: "artifacts_meta \<Rightarrow> (artifact \<times> chain) list" where
  "iter_all_artifacts m = map snd (am_index m)"

fun codebase_of :: "string list \<Rightarrow> chain \<Rightarrow> system_node \<Rightarrow> (codebase_entry \<times> chain) list"
  and codebase_of_all :: "string list \<Rightarrow> chain \<Rightarrow> system_node list \<Rightarrow> (codebase_entry \<times> chain) list" where
  "codebase_of patterns anc (SystemNode nm sl kt arts cbs children rules) =
     (let ch = SystemNode nm sl kt arts cbs children rules # anc
      in map (\<lambda>cb. (cb, ch)) (filter (\<lambda>cb. \<not> ignored_by patterns (cb_path cb)) cbs)
         @ codebase_of_all patterns ch children)"
| "codebase_of_all patterns anc [] = []"
| "codebase_of_all patterns anc (n # ns) = codebase_of patterns anc n @ codebase_of_all patterns anc ns"

definition iter_all_codebase :: "artifacts_meta \<Rightarrow> (codebase_entry \<times> chain) list" where
  "iter_all_codebase m = codebase_of_all (am_patterns m) [] (am_systems m)"

fun prefixes_of :: "chain \<Rightarrow> system_node \<Rightarrow> string list"
  and prefixes_of_all :: "chain \<Rightarrow> system_node list \<Rightarrow> string list" where
  "prefixes_of anc (SystemNode nm sl kt arts cbs children rules) =
     (let ch = SystemNode nm sl kt arts cbs children rules # anc; p = get_hierarchy_prefix ch
      in (if p = [] then [] else [p]) @ prefixes_of_all ch children)"
| "prefixes_of_all anc [] = []"
| "prefixes_of_all anc (n # ns) = prefixes_of anc n @ prefixes_of_all anc ns"

definition iter_all_system_prefixes :: "artifacts_meta \<Rightarrow> string list" where
  "iter_all_system_prefixes m = prefixes_of_all [] (am_systems m)"

definition get_all_system_prefixes :: "artifacts_meta \<Rightarrow> string list" where
  "get_all_system_prefixes m = remdups (map lower (iter_all_system_prefixes m))"

subsection \<open>The pipeline\<close>

definition PIPELINE_ORDER :: "string list" where
  "PIPELINE_ORDER = [''PRD'', ''DESIGN'', ''ADR'', ''DECOMPOSITION'', ''FEATURE'']"

record pipeline =
  pl_present :: "string list"
  pl_missing :: "string list"
  pl_recommendation :: "string option"

definition pipeline_kinds :: "artifacts_meta \<Rightarrow> string \<Rightarrow> string list" where
  "pipeline_kinds m system_slug =
     remdups (map (\<lambda>(a, ch). upper (a_kind a))
       (filter (\<lambda>(a, ch). sn_slug (hd ch) = system_slug \<or> has_sub (get_hierarchy_prefix ch) system_slug)
         (iter_all_artifacts m)))"

definition recommend :: "string list \<Rightarrow> string list \<Rightarrow> string option" where
  "recommend present missing =
     (if missing = [] then Some ''CODE''
      else find (\<lambda>kind. list_all (\<lambda>d. d \<in> set present) (takeWhile (\<lambda>k. k \<noteq> kind) PIPELINE_ORDER)) missing)"

definition resolve_pipeline :: "artifacts_meta \<Rightarrow> string \<Rightarrow> pipeline" where
  "resolve_pipeline m system_slug =
     (let present = pipeline_kinds m system_slug;
          missing = filter (\<lambda>k. k \<notin> set present) PIPELINE_ORDER
      in \<lparr>pl_present = sorted_strs present, pl_missing = missing, pl_recommendation = recommend present missing\<rparr>)"

subsection \<open>Loading\<close>

text \<open>
  \<open>ld\<close> gives for a path the object that the TOML or JSON loader returns, or its exception, and
  \<open>None\<close> where there is no file. A failure keeps the path and not the exception's text.
\<close>

datatype load_error = MissingRegistry string | FailedLoad string

definition ARTIFACTS_REGISTRY_FILENAME :: string where
  "ARTIFACTS_REGISTRY_FILENAME = ''artifacts.toml''"

definition merge_core :: "(pyobj \<times> pyobj) list \<Rightarrow> (pyobj \<times> pyobj) list \<Rightarrow> (pyobj \<times> pyobj) list" where
  "merge_core core data =
     (let d1 = (if is_pystr (pget core ''version'') \<and> \<not> phas data ''version''
                then dset (PStr ''version'') (pget core ''version'') data else data);
          d2 = (if is_pystr (pget core ''project_root'') \<and> \<not> phas d1 ''project_root''
                then dset (PStr ''project_root'') (pget core ''project_root'') d1 else d1)
      in if \<not> py_truth (pget d2 ''kits'') \<and> (case pget core ''kits'' of PDict _ \<Rightarrow> True | _ \<Rightarrow> False)
         then dset (PStr ''kits'') (pget core ''kits'') d2 else d2)"

definition registry_path :: "(string \<Rightarrow> (string + pyobj) option) \<Rightarrow> string \<Rightarrow> string option" where
  "registry_path ld dir =
     find (\<lambda>p. ld p \<noteq> None)
       [dir @ ''/config/'' @ ARTIFACTS_REGISTRY_FILENAME, dir @ ''/'' @ ARTIFACTS_REGISTRY_FILENAME,
        dir @ ''/artifacts.json'']"

definition load_artifacts_meta :: "(string \<Rightarrow> (string + pyobj) option) \<Rightarrow> string \<Rightarrow> load_error + artifacts_meta" where
  "load_artifacts_meta ld dir =
     (case registry_path ld dir of
        None \<Rightarrow> Inl (MissingRegistry (dir @ ''/config/'' @ ARTIFACTS_REGISTRY_FILENAME))
      | Some path \<Rightarrow>
          (case (ld path, find (\<lambda>p. ld p \<noteq> None) [dir @ ''/config/core.toml'', dir @ ''/core.toml'']) of
             (Some (Inr (PDict data)), None) \<Rightarrow> Inr (meta_from_dict data)
           | (Some (Inr (PDict data)), Some core_path) \<Rightarrow>
               (case ld core_path of
                  Some (Inr (PDict core)) \<Rightarrow> Inr (meta_from_dict (merge_core core data))
                | _ \<Rightarrow> Inl (FailedLoad path))
           | _ \<Rightarrow> Inl (FailedLoad path)))"

definition generate_default_registry :: "string \<Rightarrow> string \<Rightarrow> (pyobj \<times> pyobj) list" where
  "generate_default_registry project_name kit_slug =
     [(PStr ''systems'',
       PList [PDict [(PStr ''name'', PStr project_name), (PStr ''slug'', PStr (generate_slug project_name)),
         (PStr ''kit'', PStr kit_slug), (PStr ''artifacts'', PList []), (PStr ''codebase'', PList []),
         (PStr ''children'', PList [])]])]"

end
