(* ===== verification/Py_Dict.thy ===== *)
theory Py_Dict
  imports Py_Prelude
begin

section \<open>Dictionaries that are filled in a loop\<close>

text \<open>
  Many components fill a dictionary while they walk over a list and read it afterwards. What
  they rely on is the interface \<open>dict_ops\<close>: what a lookup returns after an assignment, and that
  keys are unique. The loop's result is derived once: the last assignment to a key wins, and
  the values are the entries that no later one overwrites. Python's insertion-ordered
  dictionaries, \<^const>\<open>dset\<close> on association lists, are an instance.
\<close>

locale dict_ops =
  fixes empty :: 'd
    and get :: "'d \<Rightarrow> 'k \<Rightarrow> 'v option"
    and put :: "'k \<Rightarrow> 'v \<Rightarrow> 'd \<Rightarrow> 'd"
    and items :: "'d \<Rightarrow> ('k \<times> 'v) list"
  assumes get_empty: "get empty k = None"
    and get_put: "get (put k v d) k' = (if k' = k then Some v else get d k')"
    and items_empty: "items empty = []"
    and keys_put: "distinct (map fst (items d)) \<Longrightarrow> distinct (map fst (items (put k v d)))"
    and items_get: "distinct (map fst (items d)) \<Longrightarrow> (k, v) \<in> set (items d) \<longleftrightarrow> get d k = Some v"
begin

definition fill :: "('a \<Rightarrow> 'k) \<Rightarrow> ('a \<Rightarrow> 'v) \<Rightarrow> 'd \<Rightarrow> 'a list \<Rightarrow> 'd" where
  "fill key val d xs = foldl (\<lambda>d x. put (key x) (val x) d) d xs"

lemma fill_simps [simp]: "fill key val d [] = d" "fill key val d (x # xs) = fill key val (put (key x) (val x) d) xs"
  by (simp_all add: fill_def)

lemma fill_append: "fill key val d (xs @ ys) = fill key val (fill key val d xs) ys"
  by (simp add: fill_def)

lemma get_fill:
  "get (fill key val d xs) k = (case find (\<lambda>x. key x = k) (rev xs) of None \<Rightarrow> get d k | Some x \<Rightarrow> Some (val x))"
proof (induction xs rule: rev_induct)
  case (snoc x xs)
  then show ?case by (simp add: fill_append get_put)
qed simp

lemma distinct_fill: "distinct (map fst (items d)) \<Longrightarrow> distinct (map fst (items (fill key val d xs)))"
  by (induction xs arbitrary: d) (simp_all add: keys_put)

lemma fill_keys_distinct: "distinct (map fst (items (fill key val empty xs)))"
  by (rule distinct_fill) (simp add: items_empty)

lemma items_fill:
  "(k, v) \<in> set (items (fill key val empty xs)) \<longleftrightarrow>
     (\<exists>x. find (\<lambda>x. key x = k) (rev xs) = Some x \<and> v = val x)"
  unfolding items_get [OF fill_keys_distinct] get_fill
  by (auto simp: get_empty split: option.splits)

end

interpretation pd: dict_ops "[]" map_of dset "\<lambda>d. d"
  by unfold_locales (auto simp: map_of_eq_Some_iff)

lemma pd_fill_eq: "foldl (\<lambda>d x. dset (key x) (val x) d) d xs = pd.fill key val d xs"
  by (simp add: pd.fill_def)

end
