(* ===== verification/Registry_Facts.thy ===== *)
theory Registry_Facts
  imports Registry Py_Dict
begin

section \<open>Correctness of the registry\<close>

text \<open>
  The index refines the list of all visible artifacts of the system tree, slugs are valid,
  the pipeline always has a next step, prefixes follow the tree, and what a loaded registry
  takes from its two files.
\<close>

subsection \<open>The index refines the tree\<close>

text \<open>All artifacts of a tree with their nodes, in preorder, and those that are not ignored.\<close>

fun tree_artifacts :: "chain \<Rightarrow> system_node \<Rightarrow> (artifact \<times> chain) list"
  and forest_artifacts :: "chain \<Rightarrow> system_node list \<Rightarrow> (artifact \<times> chain) list" where
  "tree_artifacts anc (SystemNode nm sl kt arts cbs children rules) =
     (let ch = SystemNode nm sl kt arts cbs children rules # anc
      in map (\<lambda>a. (a, ch)) arts @ forest_artifacts ch children)"
| "forest_artifacts anc [] = []"
| "forest_artifacts anc (n # ns) = tree_artifacts anc n @ forest_artifacts anc ns"

definition art_key :: "artifact \<times> chain \<Rightarrow> string" where
  "art_key x = normalize_path (a_path (fst x))"

definition visible :: "string list \<Rightarrow> artifact \<times> chain \<Rightarrow> bool" where
  "visible patterns x \<longleftrightarrow> \<not> ignored_by patterns (a_path (fst x))"

definition visible_artifacts :: "artifacts_meta \<Rightarrow> (artifact \<times> chain) list" where
  "visible_artifacts m = filter (visible (am_patterns m)) (forest_artifacts [] (am_systems m))"

lemma index_artifacts_fill:
  "foldl (index_artifact patterns ch) idx arts =
     pd.fill art_key (\<lambda>x. x) idx (filter (visible patterns) (map (\<lambda>a. (a, ch)) arts))"
  by (induction arts arbitrary: idx) (auto simp: index_artifact_def art_key_def visible_def)

lemma index_system_fill:
  "index_system patterns anc idx n = pd.fill art_key (\<lambda>x. x) idx (filter (visible patterns) (tree_artifacts anc n))"
  "index_systems patterns anc idx ns = pd.fill art_key (\<lambda>x. x) idx (filter (visible patterns) (forest_artifacts anc ns))"
  by (induction patterns anc idx n and patterns anc idx ns rule: index_system_index_systems.induct)
    (auto simp: Let_def index_artifacts_fill pd.fill_append)

definition meta_ok :: "artifacts_meta \<Rightarrow> bool" where
  "meta_ok m \<longleftrightarrow> am_index m = build_indices (am_patterns m) (am_systems m)"

lemma meta_ok_from_dict: "meta_ok (meta_from_dict data)"
  by (simp add: meta_ok_def meta_from_dict_def new_meta_def)

lemma meta_ok_rebuild: "meta_ok (rebuild_indices m)"
  by (simp add: meta_ok_def rebuild_indices_def)

lemma index_fill: "meta_ok m \<Longrightarrow> am_index m = pd.fill art_key (\<lambda>x. x) [] (visible_artifacts m)"
  by (simp add: meta_ok_def build_indices_def index_system_fill visible_artifacts_def)

lemma find_key: "find P xs = Some x \<Longrightarrow> P x \<and> x \<in> set xs"
  by (auto simp: find_Some_iff)

lemma registry_lookup_ok:
  assumes "meta_ok m"
  shows "get_artifact_by_path m path = find (\<lambda>x. art_key x = normalize_path path) (rev (visible_artifacts m))"
    and "distinct (map art_key (iter_all_artifacts m))"
    and "set (iter_all_artifacts m) =
      {x \<in> set (visible_artifacts m). find (\<lambda>y. art_key y = art_key x) (rev (visible_artifacts m)) = Some x}"
proof -
  let ?V = "visible_artifacts m"
  note f = index_fill [OF assms]
  show "get_artifact_by_path m path = find (\<lambda>x. art_key x = normalize_path path) (rev ?V)"
    by (simp add: get_artifact_by_path_def f pd.get_fill split: option.splits)
  have item: "(k, x) \<in> set (am_index m) \<longleftrightarrow> find (\<lambda>y. art_key y = k) (rev ?V) = Some x" for k x
    unfolding f pd.items_fill by blast
  have k: "art_key x = k" "x \<in> set ?V" if "(k, x) \<in> set (am_index m)" for k x
  proof -
    from that have "find (\<lambda>y. art_key y = k) (rev ?V) = Some x" by (simp only: item)
    from find_key [OF this] show "art_key x = k" "x \<in> set ?V" by simp_all
  qed
  then have "map art_key (iter_all_artifacts m) = map fst (am_index m)"
    unfolding iter_all_artifacts_def map_map by (intro map_cong refl) (metis comp_apply prod.collapse)
  then show "distinct (map art_key (iter_all_artifacts m))"
    by (simp only: f pd.fill_keys_distinct)
  show "set (iter_all_artifacts m) = {x \<in> set ?V. find (\<lambda>y. art_key y = art_key x) (rev ?V) = Some x}"
  proof (intro equalityI subsetI)
    fix x
    assume "x \<in> set (iter_all_artifacts m)"
    then obtain k where "(k, x) \<in> set (am_index m)" by (auto simp: iter_all_artifacts_def)
    with k [OF this] item show "x \<in> {x \<in> set ?V. find (\<lambda>y. art_key y = art_key x) (rev ?V) = Some x}" by simp
  next
    fix x
    assume "x \<in> {x \<in> set ?V. find (\<lambda>y. art_key y = art_key x) (rev ?V) = Some x}"
    with item have "(art_key x, x) \<in> set (am_index m)" by blast
    then show "x \<in> set (iter_all_artifacts m)" unfolding iter_all_artifacts_def by force
  qed
qed

text \<open>C6. The registry's index refines the system tree: a lookup by path finds, among the artifacts
  of all systems that no ignore rule hides, the last one in preorder whose normalized path is
  the given one; iteration yields exactly one artifact for each such path, the one the lookup
  finds, and never an ignored one.\<close>

theorem registry_lookup:
  "let m = meta_from_dict data; V = visible_artifacts m
   in get_artifact_by_path m path = find (\<lambda>x. art_key x = normalize_path path) (rev V)
      \<and> distinct (map art_key (iter_all_artifacts m))
      \<and> set (iter_all_artifacts m) = {x \<in> set V. find (\<lambda>y. art_key y = art_key x) (rev V) = Some x}
      \<and> list_all (\<lambda>(a, ch). \<not> is_ignored m (a_path a)) (iter_all_artifacts m)"
proof -
  let ?m = "meta_from_dict data"
  note L = registry_lookup_ok [OF meta_ok_from_dict [of data]]
  have "\<forall>x \<in> set (iter_all_artifacts ?m). \<not> is_ignored ?m (a_path (fst x))"
    unfolding L(3) by (auto simp: visible_artifacts_def visible_def is_ignored_def)
  then have "list_all (\<lambda>(a, ch). \<not> is_ignored ?m (a_path a)) (iter_all_artifacts ?m)"
    by (auto simp: list_all_iff)
  with L show ?thesis unfolding Let_def by blast
qed

subsection \<open>Slugs\<close>

text \<open>Slugs without the expression: lower-case letters and digits, with single hyphens inside.\<close>

fun tidy :: "string \<Rightarrow> bool" where
  "tidy [] = True"
| "tidy [c] = (slug_c c \<or> c = CHR ''-'')"
| "tidy (c # d # cs) = ((slug_c c \<or> c = CHR ''-'') \<and> \<not> (c = CHR ''-'' \<and> d = CHR ''-'') \<and> tidy (d # cs))"

definition valid_slug :: "string \<Rightarrow> bool" where
  "valid_slug s \<longleftrightarrow> s \<noteq> [] \<and> tidy s \<and> hd s \<noteq> CHR ''-'' \<and> last s \<noteq> CHR ''-''"

lemma slug_c_not_hyphen [simp]: "\<not> slug_c (CHR ''-'')" "slug_c c \<Longrightarrow> c \<noteq> CHR ''-''"
  by (auto simp: slug_c_def is_lower_az_def is_digit_def)

lemma tidy_append: "tidy (s @ t) \<longleftrightarrow>
    tidy s \<and> tidy t \<and> \<not> (s \<noteq> [] \<and> t \<noteq> [] \<and> last s = CHR ''-'' \<and> hd t = CHR ''-'')"
proof (induction s rule: tidy.induct)
  case (2 c)
  then show ?case by (cases t) auto
qed auto

lemma tidy_slug: "list_all slug_c s \<Longrightarrow> tidy s"
  by (induction s rule: tidy.induct) auto

lemma tidy_strip: "tidy s \<Longrightarrow> tidy (strip_by p s)"
proof -
  assume "tidy s"
  moreover have "\<exists>u v. s = u @ strip_by p s @ v"
  proof -
    have "s = takeWhile p s @ dropWhile p s" by simp
    moreover have "dropWhile p s = strip_by p s @ rev (takeWhile p (rev (dropWhile p s)))"
      by (metis (no_types, lifting) lstrip_by_def rev_append rev_rev_ident rstrip_by_def strip_by_def takeWhile_dropWhile_id)
    ultimately show ?thesis by metis
  qed
  ultimately show ?thesis by (metis tidy_append)
qed

text \<open>Replacing every run of a class.\<close>

fun runs_sub :: "(char \<Rightarrow> bool) \<Rightarrow> string \<Rightarrow> bool \<Rightarrow> string \<Rightarrow> string" where
  "runs_sub p d in_run [] = []"
| "runs_sub p d in_run (c # cs) =
     (if p c then (if in_run then [] else d) @ runs_sub p d True cs else c # runs_sub p d False cs)"

lemma runs_sub_dropWhile: "runs_sub p d True cs = runs_sub p d False (dropWhile p cs)"
  by (induction cs) auto

lemma re_match_plus_cls:
  "re_match (RPlus (RCls p)) (c # cs) =
     (if p c then Some (mk_match (c # cs) (dropWhile p cs, [])) else None)"
proof (cases "p c")
  case True
  obtain more where "rmatch (RStar (RCls p)) cs [] = (dropWhile p cs, []) # more"
    using rmatch_star_cls_hd [of p cs "[]"] by blast
  with True show ?thesis by (simp add: re_match_def RPlus_def del: rmatch.simps(5))
qed (simp add: re_match_def RPlus_def)

lemma re_sub_plus_cls: "re_sub (RPlus (RCls p)) (\<lambda>_. d) s = runs_sub p d False s"
proof -
  have "length s \<le> n \<Longrightarrow> sub_go n (RPlus (RCls p)) (\<lambda>_. d) s = runs_sub p d False s" for n
  proof (induction n arbitrary: s)
    case (Suc n)
    show ?case
    proof (cases s)
      case (Cons c cs)
      have l: "length (dropWhile p cs) \<le> length cs" by (rule length_dropWhile_le)
      then have "length (dropWhile p cs) \<le> n" "\<not> Suc (length cs) \<le> length (dropWhile p cs)"
        using Suc.prems Cons by simp_all
      then show ?thesis
        using Suc Cons by (auto simp: re_match_plus_cls mk_match_def runs_sub_dropWhile)
    qed simp
  qed simp
  then show ?thesis by (simp add: re_sub_def)
qed

lemma tidy_runs:
  "tidy (runs_sub (\<lambda>c. \<not> slug_c c) ''-'' b s)
   \<and> (b \<longrightarrow> (case runs_sub (\<lambda>c. \<not> slug_c c) ''-'' b s of [] \<Rightarrow> True | c # _ \<Rightarrow> c \<noteq> CHR ''-''))"
proof (induction s arbitrary: b)
  case (Cons c s)
  have cons: "slug_c c \<Longrightarrow> tidy t \<Longrightarrow> tidy (c # t)" for t by (cases t) auto
  have hyp: "tidy t \<Longrightarrow> (case t of [] \<Rightarrow> True | c # _ \<Rightarrow> c \<noteq> CHR ''-'') \<Longrightarrow> tidy (CHR ''-'' # t)" for t
    by (cases t) auto
  from Cons [of True] Cons [of False] cons hyp show ?case by auto
qed simp

lemma hyphens_id: "tidy s \<Longrightarrow> runs_sub (cOne (CHR ''-'')) ''-'' False s = s"
  by (induction s rule: tidy.induct) (auto simp: cOne_def)

lemma name_slug_tidy: "tidy (name_slug name)"
  unfolding name_slug_def SLUG_SEP_RE_def re_sub_plus_cls using tidy_runs tidy_strip by blast

lemma generate_slug_eq: "generate_slug name = (if name_slug name = [] then ''unnamed'' else name_slug name)"
  using hyphens_id [OF name_slug_tidy [of name]] unfolding generate_slug_def HYPHENS_RE_def re_sub_plus_cls by simp

lemma name_slug_valid: "name_slug name = [] \<or> valid_slug (name_slug name)"
  using strip_by_ends [of "cOne (CHR ''-'')"] name_slug_tidy [of name]
  by (auto simp: valid_slug_def name_slug_def cOne_def)

lemma generate_slug_valid_slug: "valid_slug (generate_slug name)"
proof -
  have "valid_slug ''unnamed''" by code_simp
  with name_slug_valid [of name] show ?thesis by (auto simp: generate_slug_eq)
qed

lemma runs_sub_id: "list_all (\<lambda>c. \<not> p c) s \<Longrightarrow> runs_sub p d b s = s"
  by (induction s arbitrary: b) auto

lemma valid_slug_fixed: "valid_slug s \<Longrightarrow> generate_slug s = s"
proof -
  assume v: "valid_slug s"
  have keep: "tidy t \<Longrightarrow> runs_sub (\<lambda>c. \<not> slug_c c) ''-'' False t = t" for t
    by (induction t rule: tidy.induct) auto
  have "slug_c c \<Longrightarrow> lower_char c = c" for c
    by (auto simp: lower_char_def slug_c_def is_lower_az_def is_digit_def Let_def)
  moreover have "lower_char (CHR ''-'') = CHR ''-''" by code_simp
  ultimately have "tidy t \<Longrightarrow> lower t = t" for t
    by (induction t rule: tidy.induct) (auto simp: lower_def)
  with v keep have "name_slug s = strip_by (cOne (CHR ''-'')) s"
    by (simp add: name_slug_def SLUG_SEP_RE_def re_sub_plus_cls valid_slug_def)
  also have "\<dots> = s" using v by (intro strip_by_id) (auto simp: valid_slug_def cOne_def)
  finally show ?thesis using v by (simp add: generate_slug_eq valid_slug_def)
qed

definition segments :: "string \<Rightarrow> bool" where
  "segments w \<longleftrightarrow> w = [] \<or> hd w = CHR ''-'' \<and> tidy w \<and> last w \<noteq> CHR ''-''"

abbreviation SEGMENT :: regex where
  "SEGMENT \<equiv> RSeq (RCls (cOne (CHR ''-''))) (RPlus (RCls slug_c))"

lemma rder_segment: "rder SEGMENT u t \<longleftrightarrow> (\<exists>p. u = CHR ''-'' # p \<and> p \<noteq> [] \<and> list_all slug_c p)"
  by (auto simp: rder_plus_cls cOne_def)

lemma last_slug: "p \<noteq> [] \<Longrightarrow> list_all slug_c p \<Longrightarrow> last p \<noteq> CHR ''-''"
  by (induction p) (auto split: if_splits)

lemma segment_run:
  assumes "tidy w" and "w \<noteq> []" and "hd w \<noteq> CHR ''-''" and "last w \<noteq> CHR ''-''"
  shows "takeWhile slug_c w \<noteq> []" and "segments (dropWhile slug_c w)"
proof -
  from assms(1-3) show "takeWhile slug_c w \<noteq> []"
    by (cases w rule: tidy.cases) auto
  have w: "w = takeWhile slug_c w @ dropWhile slug_c w" by simp
  with assms(1) have t: "tidy (dropWhile slug_c w)" by (metis tidy_append)
  show "segments (dropWhile slug_c w)"
  proof (cases "dropWhile slug_c w")
    case (Cons c cs)
    then have "\<not> slug_c c" by (metis hd_dropWhile list.discI list.sel(1))
    with t Cons have "c = CHR ''-''" by (cases cs) auto
    moreover have "last (dropWhile slug_c w) = last w" using Cons by (metis last_appendR list.discI w)
    ultimately show ?thesis using t assms(4) Cons by (simp add: segments_def)
  qed (simp add: segments_def)
qed

lemma star_segments: "rder (RStar SEGMENT) w t \<longleftrightarrow> segments w"
proof
  assume "rder (RStar SEGMENT) w t"
  then have "star_der (rder SEGMENT) w t" by (simp only: rder.simps(5))
  then show "segments w"
  proof (induction rule: star_der.induct)
    case (star_step u v t)
    then obtain p where p: "u = CHR ''-'' # p" "p \<noteq> []" "list_all slug_c p" by (auto simp only: rder_segment)
    then have "tidy u" using tidy_slug [of p] by (cases p) auto
    with tidy_append [of u v] star_step.IH p last_slug [OF p(2,3)] show ?case
      by (cases "v = []") (auto simp: segments_def)
  qed (simp add: segments_def)
next
  assume "segments w"
  then have "star_der (rder SEGMENT) w t"
  proof (induction "length w" arbitrary: w rule: less_induct)
    case less
    show ?case
    proof (cases w)
      case (Cons c w')
      with less.prems have c: "c = CHR ''-''" "tidy w" "last w \<noteq> CHR ''-''" by (auto simp: segments_def)
      with Cons have w': "w' \<noteq> []" "hd w' \<noteq> CHR ''-''" "tidy w'" "last w' \<noteq> CHR ''-''"
        by (cases w'; auto)+
      note r = segment_run [OF w'(3,1,2,4)]
      let ?p = "takeWhile slug_c w'" and ?v = "dropWhile slug_c w'"
      have "list_all slug_c ?p" by (simp add: list_all_iff) (meson set_takeWhileD)
      with r(1) c(1) have "rder SEGMENT (c # ?p) (?v @ t)" by (auto simp only: rder_segment)
      moreover have "length ?v < length w" using Cons length_dropWhile_le [of slug_c w'] by simp
      then have "star_der (rder SEGMENT) ?v t" using less.hyps r(2) by blast
      ultimately have "star_der (rder SEGMENT) ((c # ?p) @ ?v) t" by (intro star_step) auto
      with Cons show ?thesis by simp
    qed (simp add: star_nil)
  qed
  then show "rder (RStar SEGMENT) w t" by (simp only: rder.simps(5))
qed

lemma slug_pattern_iff: "rder SLUG_PATTERN w t \<longleftrightarrow> valid_slug w \<and> (t = [] \<or> t = [NL])"
proof -
  have "rder SLUG_PATTERN w t \<longleftrightarrow>
      (\<exists>u v. w = u @ v \<and> u \<noteq> [] \<and> list_all slug_c u \<and> segments v) \<and> (t = [] \<or> t = [NL])"
    unfolding SLUG_PATTERN_def RCat.simps rder.simps(3) star_segments rder_plus_cls by auto
  moreover have "(\<exists>u v. w = u @ v \<and> u \<noteq> [] \<and> list_all slug_c u \<and> segments v) \<longleftrightarrow> valid_slug w"
  proof
    assume "\<exists>u v. w = u @ v \<and> u \<noteq> [] \<and> list_all slug_c u \<and> segments v"
    then obtain u v where w: "w = u @ v" "u \<noteq> []" "list_all slug_c u" "segments v" by blast
    then have "hd w \<noteq> CHR ''-''" "last u \<noteq> CHR ''-''" using last_slug by (cases u; auto)+
    with w tidy_slug [OF w(3)] show "valid_slug w"
      by (cases "v = []") (auto simp: valid_slug_def segments_def tidy_append)
  next
    assume v: "valid_slug w"
    then have "takeWhile slug_c w \<noteq> []" "segments (dropWhile slug_c w)"
      using segment_run [of w] by (simp_all add: valid_slug_def)
    moreover have "list_all slug_c (takeWhile slug_c w)" by (simp add: list_all_iff) (meson set_takeWhileD)
    ultimately show "\<exists>u v. w = u @ v \<and> u \<noteq> [] \<and> list_all slug_c u \<and> segments v"
      by (metis takeWhile_dropWhile_id)
  qed
  ultimately show ?thesis by blast
qed

text \<open>Every slug that \<open>generate_slug\<close> returns is accepted by \<open>SLUG_PATTERN\<close> and unchanged by a
  second application, and the pattern accepts as a whole exactly the strings of lower-case
  letters, digits and single inner hyphens.\<close>

theorem generate_slug_valid:
  "re_match SLUG_PATTERN (generate_slug name) \<noteq> None
   \<and> generate_slug (generate_slug name) = generate_slug name
   \<and> (re_fullmatch SLUG_PATTERN s \<noteq> None \<longleftrightarrow> valid_slug s)"
proof -
  have "rder SLUG_PATTERN (generate_slug name) []"
    using generate_slug_valid_slug by (simp add: slug_pattern_iff)
  then have "re_match SLUG_PATTERN (generate_slug name) \<noteq> None"
    using re_match_None_iff [of SLUG_PATTERN "generate_slug name"] by (metis append_Nil2)
  then show ?thesis
    using valid_slug_fixed [OF generate_slug_valid_slug] re_fullmatch_iff [of SLUG_PATTERN s]
      slug_pattern_iff [of s "[]"] by blast
qed

subsection \<open>The pipeline\<close>

lemma recommend_first:
  "recommend present (filter (\<lambda>k. k \<notin> set present) PIPELINE_ORDER) =
     Some (case filter (\<lambda>k. k \<notin> set present) PIPELINE_ORDER of [] \<Rightarrow> ''CODE'' | k # _ \<Rightarrow> k)"
proof -
  have "find (\<lambda>kind. list_all (\<lambda>d. d \<in> A) (takeWhile (\<lambda>k. k \<noteq> kind) ks)) (filter (\<lambda>k. k \<notin> A) ks) =
      (case filter (\<lambda>k. k \<notin> A) ks of [] \<Rightarrow> None | k # _ \<Rightarrow> Some k)" for A and ks :: "string list"
  proof (cases "filter (\<lambda>k. k \<notin> A) ks")
    case (Cons k rest)
    then obtain us vs where ks: "ks = us @ k # vs" "\<forall>u \<in> set us. u \<in> A" "k \<notin> A"
      by (auto simp: filter_eq_Cons_iff)
    then have "takeWhile (\<lambda>x. x \<noteq> k) ks = us" by (auto simp: takeWhile_append takeWhile_eq_all_conv)
    with ks(2) Cons show ?thesis by (simp add: list_all_iff)
  qed simp
  then show ?thesis by (simp add: recommend_def split: list.splits)
qed

text \<open>The pipeline never stalls: for every registry and every slug it recommends a next step. This
  is the first kind of the fixed order that the system does not have, so that every kind before
  it is present, and \<open>CODE\<close> when all are.\<close>

theorem resolve_pipeline_next:
  "let pl = resolve_pipeline m slug
   in pl_missing pl = filter (\<lambda>k. k \<notin> set (pl_present pl)) PIPELINE_ORDER
      \<and> pl_recommendation pl = Some (case pl_missing pl of [] \<Rightarrow> ''CODE'' | k # _ \<Rightarrow> k)
      \<and> list_all (\<lambda>d. d \<in> set (pl_present pl)) (takeWhile (\<lambda>k. pl_recommendation pl \<noteq> Some k) PIPELINE_ORDER)"
proof -
  let ?P = "pipeline_kinds m slug" and ?M = "filter (\<lambda>k. k \<notin> set (pipeline_kinds m slug)) PIPELINE_ORDER"
  have "list_all (\<lambda>d. d \<in> set ?P) (takeWhile (\<lambda>k. (case ?M of [] \<Rightarrow> ''CODE'' | k # _ \<Rightarrow> k) \<noteq> k) PIPELINE_ORDER)"
  proof (cases ?M)
    case Nil
    then have "\<forall>k \<in> set PIPELINE_ORDER. k \<in> set ?P" by (simp add: filter_empty_conv)
    then show ?thesis by (auto simp: list_all_iff dest: set_takeWhileD)
  next
    case (Cons k rest)
    then obtain us vs where ks: "PIPELINE_ORDER = us @ k # vs" "\<forall>u \<in> set us. u \<in> set ?P"
      "k \<notin> set ?P" by (auto simp: filter_eq_Cons_iff)
    have "takeWhile (\<lambda>x. k \<noteq> x) PIPELINE_ORDER = us"
      unfolding ks(1) using ks(2,3) by (subst takeWhile_append2) auto
    with ks(2) Cons show ?thesis by (simp add: list_all_iff)
  qed
  then show ?thesis
    by (simp add: resolve_pipeline_def Let_def recommend_first)
qed

text \<open>
  The artifacts of a system are selected by a substring test on the prefix, so those of an
  unrelated system count as well: here \<open>core\<close> has no artifact and \<open>score\<close> has a PRD.
\<close>

lemma pipeline_substring:
  "let node = (\<lambda>slug arts. SystemNode slug slug [] arts [] [] []);
       m = new_meta ''1.0'' ''..'' []
         [node ''core'' [], node ''score'' [\<lparr>a_path = ''p.md'', a_kind = ''PRD'', a_traceability = ''FULL'', a_name = None\<rparr>]] []
   in pl_present (resolve_pipeline m ''core'') = [''PRD''] \<and> pl_recommendation (resolve_pipeline m ''core'') = Some ''DESIGN''"
  by code_simp

subsection \<open>Prefixes\<close>

lemma join_with_snoc: "join_with sep (xs @ [x]) = (if xs = [] then x else join_with sep xs @ sep @ x)"
proof (induction xs)
  case (Cons y ys)
  then show ?case by (cases ys) auto
qed simp

text \<open>The prefix of a node extends the prefix of its parent by the node's own slug.\<close>

lemma hierarchy_prefix_Cons:
  "get_hierarchy_prefix (n # ch) =
     (if sn_slug n = [] then get_hierarchy_prefix ch
      else if list_all (\<lambda>a. sn_slug a = []) ch then sn_slug n
      else get_hierarchy_prefix ch @ ''-'' @ sn_slug n)"
proof -
  have "(filter (\<lambda>s. s \<noteq> []) (map sn_slug ch) = []) = list_all (\<lambda>a. sn_slug a = []) ch"
    by (auto simp: filter_empty_conv list_all_iff)
  then show ?thesis by (simp add: get_hierarchy_prefix_def join_with_snoc del: join_with.simps)
qed

subsection \<open>Loading\<close>

definition opt_str :: "pyobj \<Rightarrow> string option" where
  "opt_str x = (case x of PStr s \<Rightarrow> Some s | _ \<Rightarrow> None)"

definition field_or_core :: "(pyobj \<times> pyobj) list \<Rightarrow> (pyobj \<times> pyobj) list \<Rightarrow> string \<Rightarrow> string \<Rightarrow> string" where
  "field_or_core data core k dflt =
     (if phas data k then py_str (pget data k) else case opt_str (pget core k) of Some s \<Rightarrow> s | None \<Rightarrow> dflt)"

lemma phas_dset [simp]: "phas (dset (PStr k) v d) k' = (k' = k \<or> phas d k')"
  by (simp add: phas_def)

lemma pget_dset [simp]: "pget (dset (PStr k) v d) k' = (if k' = k then v else pget d k')"
  by (simp add: pget_def)

lemma pget_or_eq: "pget_or d k v = (if phas d k then pget d k else v)"
  by (simp add: pget_or_def phas_def pget_def split: option.splits)

definition take_str :: "(pyobj \<times> pyobj) list \<Rightarrow> string \<Rightarrow> (pyobj \<times> pyobj) list \<Rightarrow> (pyobj \<times> pyobj) list" where
  "take_str core k d = (if is_pystr (pget core k) \<and> \<not> phas d k then dset (PStr k) (pget core k) d else d)"

lemma take_str_field: "py_str (pget_or (take_str core k d) k (PStr v)) = field_or_core d core k v"
  by (cases "pget core k") (auto simp: take_str_def pget_or_eq field_or_core_def opt_str_def)

lemma take_str_other: "k' \<noteq> k \<Longrightarrow> pget_or (take_str core k d) k' v = pget_or d k' v"
  by (simp add: take_str_def pget_or_eq)

lemma field_or_core_take_str: "k' \<noteq> k \<Longrightarrow> field_or_core (take_str core k d) core k' v = field_or_core d core k' v"
  by (simp add: field_or_core_def take_str_def)

lemma merge_core_other:
  assumes "k \<noteq> ''kits''"
  shows "pget_or (merge_core core data) k v = pget_or (take_str core ''project_root'' (take_str core ''version'' data)) k v"
  using assms unfolding merge_core_def Let_def take_str_def [symmetric] by (simp add: pget_or_eq)

lemma merge_core_field:
  "py_str (pget_or (merge_core core data) ''version'' (PStr v)) = field_or_core data core ''version'' v"
  "py_str (pget_or (merge_core core data) ''project_root'' (PStr v)) = field_or_core data core ''project_root'' v"
  by (simp_all add: merge_core_other take_str_other take_str_field field_or_core_take_str)

text \<open>Where the registry file and \<open>core.toml\<close> both exist, the version and the project root come from
  the registry file when it has them, and from \<open>core.toml\<close> only otherwise.\<close>

theorem load_precedence:
  assumes "ld (dir @ ''/config/artifacts.toml'') = Some (Inr (PDict data))"
    and "ld (dir @ ''/config/core.toml'') = Some (Inr (PDict core))"
  shows "\<exists>m. load_artifacts_meta ld dir = Inr m
    \<and> am_version m = field_or_core data core ''version'' ''1.0''
    \<and> am_project_root m = field_or_core data core ''project_root'' ''..''"
proof -
  have "load_artifacts_meta ld dir = Inr (meta_from_dict (merge_core core data))"
    using assms by (simp add: load_artifacts_meta_def registry_path_def ARTIFACTS_REGISTRY_FILENAME_def)
  then show ?thesis by (simp add: meta_from_dict_def new_meta_def merge_core_field)
qed

theorem load_precedence_witness:
  "\<exists>m. load_artifacts_meta
      (\<lambda>p. if p = ''a/config/artifacts.toml'' then Some (Inr (PDict [(PStr ''version'', PStr ''2.0'')]))
           else if p = ''a/config/core.toml''
           then Some (Inr (PDict [(PStr ''version'', PStr ''3.0''), (PStr ''project_root'', PStr ''.'')]))
           else None) ''a'' = Inr m
    \<and> am_version m = ''2.0'' \<and> am_project_root m = ''.''"
proof -
  let ?data = "[(PStr ''version'', PStr ''2.0'')]" and ?core = "[(PStr ''version'', PStr ''3.0''), (PStr ''project_root'', PStr ''.'')]"
  have "field_or_core ?data ?core ''version'' ''1.0'' = ''2.0''" "field_or_core ?data ?core ''project_root'' ''..'' = ''.''"
    by code_simp+
  then show ?thesis
    using load_precedence [where dir = "''a''" and data = ?data and core = ?core and
      ld = "\<lambda>p. if p = ''a/config/artifacts.toml'' then Some (Inr (PDict ?data))
           else if p = ''a/config/core.toml'' then Some (Inr (PDict ?core)) else None"] by simp
qed

text \<open>The default registry is read back as one system with the generated slug as its prefix.\<close>

lemma default_registry_loads:
  "iter_all_system_prefixes (meta_from_dict (generate_default_registry name kit_slug)) = [generate_slug name]"
proof -
  have "generate_slug name \<noteq> []" using generate_slug_valid_slug [of name] by (simp add: valid_slug_def)
  then show ?thesis
    by (simp add: iter_all_system_prefixes_def meta_from_dict_def new_meta_def generate_default_registry_def
        list_items_def dict_items_def pget_def pget_or_def node_slug_def phas_def Let_def
        get_hierarchy_prefix_def)
qed

end
