(* ===== verification/Validate_Run.thy ===== *)
theory Validate_Run
  imports Cross_Check Codebase Registry
begin

section \<open>The validate command (\<open>commands/validate.py\<close>)\<close>

text \<open>
  \<open>cmd_validate\<close> composes the other components: it selects artifacts from the registry, checks
  each of them, then all of them together, then the code of all systems against them, and
  returns an exit code. Later phases run only when the earlier ones report nothing. Argument
  parsing, printing and the prompts of \<open>enrich_issues\<close> are left out.

  The file system is a record of parameters: contents, existence, paths resolved against the
  project root, recursive globbing by extension, and paths relative to the root. The context,
  which \<open>context.py\<close> loads, holds the registry, the kits with their constraints, the set of
  system prefixes in iteration order, and the errors of loading, which have no code. An empty
  argument \<open>--artifact\<close> counts as absent.
\<close>

record world =
  w_fs :: fs
  w_exists :: "string \<Rightarrow> bool"
  w_is_file :: "string \<Rightarrow> bool"
  w_resolve :: "string \<Rightarrow> string"
  w_rglob :: "string \<Rightarrow> string \<Rightarrow> string list"
  w_rel :: "string \<Rightarrow> string option"

record loaded_kit =
  lk_kit :: kit
  lk_constraints :: "kit_constraints option"

record ctx_error =
  ce_type :: string
  ce_path :: string

record cyp_context =
  cx_world :: world
  cx_meta :: artifacts_meta
  cx_loaded :: "(string \<times> loaded_kit) list"
  cx_systems :: "string list"
  cx_errors :: "ctx_error list"

subsection \<open>Selecting the artifacts\<close>

record selected =
  va_path :: string
  va_kind :: string
  va_trace :: string
  va_kit :: string

definition kit_usable :: "artifacts_meta \<Rightarrow> chain \<Rightarrow> bool" where
  "kit_usable m ch = (case get_kit m (sn_kit (hd ch)) of None \<Rightarrow> False | Some k \<Rightarrow> is_cypilot_format k)"

definition mk_selected :: "string \<Rightarrow> artifact \<Rightarrow> chain \<Rightarrow> selected" where
  "mk_selected path a ch =
     \<lparr>va_path = path, va_kind = a_kind a, va_trace = a_traceability a, va_kit = sn_kit (hd ch)\<rparr>"

definition select_one :: "cyp_context \<Rightarrow> string \<Rightarrow> selected list" where
  "select_one cx path =
     (case w_rel (cx_world cx) path of
        None \<Rightarrow> []
      | Some rel \<Rightarrow>
          if rel = [] then []
          else (case get_artifact_by_path (cx_meta cx) rel of
                  None \<Rightarrow> []
                | Some (a, ch) \<Rightarrow> if kit_usable (cx_meta cx) ch then [mk_selected path a ch] else []))"

definition select_all :: "cyp_context \<Rightarrow> selected list" where
  "select_all cx =
     concat (map (\<lambda>(a, ch).
       let path = w_resolve (cx_world cx) (a_path a)
       in if kit_usable (cx_meta cx) ch \<and> w_exists (cx_world cx) path then [mk_selected path a ch] else [])
       (iter_all_artifacts (cx_meta cx)))"

subsection \<open>Each artifact\<close>

definition constraints_for :: "cyp_context \<Rightarrow> string \<Rightarrow> string \<Rightarrow> kind_constraints option" where
  "constraints_for cx kit_id kind =
     (case dget (cx_loaded cx) kit_id of
        None \<Rightarrow> None
      | Some lk \<Rightarrow> (case lk_constraints lk of None \<Rightarrow> None | Some by_kind \<Rightarrow> dget by_kind kind))"

definition constraints_path :: "cyp_context \<Rightarrow> string \<Rightarrow> string option" where
  "constraints_path cx kit_id =
     (case dget (cx_loaded cx) kit_id of
        None \<Rightarrow> None
      | Some lk \<Rightarrow>
          (let p = strip_by (cOne (CHR ''/'')) (strip (k_path (lk_kit lk)))
           in Some (w_resolve (cx_world cx) (if p = [] then ''constraints.toml'' else p @ ''/constraints.toml''))))"

definition artifact_record_of :: "cyp_context \<Rightarrow> selected \<Rightarrow> artifact_record" where
  "artifact_record_of cx va =
     \<lparr>ar_path = va_path va, ar_kind = va_kind va, ar_constraints = constraints_for cx (va_kit va) (va_kind va)\<rparr>"

definition check_artifact :: "rx \<Rightarrow> cyp_context \<Rightarrow> selected \<Rightarrow> report" where
  "check_artifact rx cx va =
     validate_artifact_file rx (w_fs (cx_world cx)) (va_path va) (va_kind va)
       (constraints_for cx (va_kit va) (va_kind va)) (Some (cx_systems cx))
       (constraints_path cx (va_kit va)) (Some (va_kit va))"

record art_report =
  rp_path :: string
  rp_kind :: string
  rp_trace :: string
  rp_fail :: bool
  rp_errors :: nat
  rp_warnings :: nat

definition mk_art_report :: "selected \<Rightarrow> report \<Rightarrow> art_report" where
  "mk_art_report va r =
     \<lparr>rp_path = va_path va, rp_kind = va_kind va, rp_trace = va_trace va, rp_fail = (r_errors r \<noteq> []),
      rp_errors = length (r_errors r), rp_warnings = length (r_warnings r)\<rparr>"

text \<open>\<open>_attach_issue_to_artifact_report\<close>: an issue counts for the last report with its path.\<close>

fun bump :: "bool \<Rightarrow> issue \<Rightarrow> art_report list \<Rightarrow> art_report list" where
  "bump is_error i [] = []"
| "bump is_error i (r # rs) =
     (if rp_path r = i_path i
      then (if is_error then r\<lparr>rp_fail := True, rp_errors := Suc (rp_errors r)\<rparr>
            else r\<lparr>rp_warnings := Suc (rp_warnings r)\<rparr>) # rs
      else r # bump is_error i rs)"

definition attach_issue :: "bool \<Rightarrow> art_report list \<Rightarrow> issue \<Rightarrow> art_report list" where
  "attach_issue is_error reps i = rev (bump is_error i (rev reps))"

subsection \<open>All artifacts together\<close>

definition other_records :: "cyp_context \<Rightarrow> string list \<Rightarrow> artifact_record list" where
  "other_records cx validated =
     concat (map (\<lambda>(a, ch).
       let path = w_resolve (cx_world cx) (a_path a)
       in if kit_usable (cx_meta cx) ch \<and> path \<notin> set validated \<and> w_exists (cx_world cx) path
          then [\<lparr>ar_path = path, ar_kind = a_kind a,
                 ar_constraints = constraints_for cx (sn_kit (hd ch)) (a_kind a)\<rparr>]
          else [])
       (iter_all_artifacts (cx_meta cx)))"

definition at_paths :: "string list \<Rightarrow> issue list \<Rightarrow> issue list" where
  "at_paths validated is = filter (\<lambda>i. i_path i \<in> set validated) is"

subsection \<open>IDs that must or must not be in code\<close>

record code_ids_st =
  tc_defined :: "string list"
  tc_to_code :: "string list"
  tc_unchecked :: "string list"

definition to_code_kind :: "kind_constraints \<Rightarrow> string \<Rightarrow> bool" where
  "to_code_kind c did =
     list_ex (\<lambda>ic. norm_kind ic \<noteq> [] \<and> has_sub (lower did) (''-'' @ norm_kind ic @ ''-'') \<and> ic_to_code ic = Some True)
       (kc_defined_id c)"

definition add_def_id :: "bool \<Rightarrow> kind_constraints option \<Rightarrow> code_ids_st \<Rightarrow> hit \<Rightarrow> code_ids_st" where
  "add_def_id full constraints st h =
     (if h_type h \<noteq> Definition \<or> h_id h = [] then st
      else
        (let did = h_id h; st = st\<lparr>tc_defined := sadd did (tc_defined st)\<rparr>
         in case constraints of
              None \<Rightarrow> st
            | Some c \<Rightarrow>
                if \<not> full \<or> \<not> to_code_kind c did then st
                else if \<not> h_has_task h then st\<lparr>tc_to_code := sadd did (tc_to_code st)\<rparr>
                else if h_checked h
                then st\<lparr>tc_unchecked := filter (\<lambda>i. i \<noteq> did) (tc_unchecked st),
                        tc_to_code := sadd did (tc_to_code st)\<rparr>
                else st\<lparr>tc_unchecked := sadd did (tc_unchecked st)\<rparr>))"

definition trace_of :: "selected list \<Rightarrow> string \<Rightarrow> string" where
  "trace_of sel path =
     (case map_of (rev (map (\<lambda>va. (va_path va, va_trace va)) sel)) path of None \<Rightarrow> ''FULL'' | Some t \<Rightarrow> t)"

definition collect_ids :: "fs \<Rightarrow> selected list \<Rightarrow> artifact_record list \<Rightarrow> code_ids_st" where
  "collect_ids fs sel recs =
     foldl (\<lambda>st a. foldl (add_def_id (trace_of sel (ar_path a) = ''FULL'') (ar_constraints a)) st
                     (scan_cpt_ids fs (ar_path a)))
       \<lparr>tc_defined = [], tc_to_code = [], tc_unchecked = []\<rparr> recs"

definition full_ids :: "fs \<Rightarrow> selected list \<Rightarrow> string list" where
  "full_ids fs sel =
     concat (map (\<lambda>va. map h_id (filter (\<lambda>h. h_type h = Definition \<and> h_id h \<noteq> []) (scan_cpt_ids fs (va_path va))))
       (filter (\<lambda>va. va_trace va = ''FULL'') sel))"

subsection \<open>Scanning code\<close>

record scan_st =
  sc_full :: "code_file list"
  sc_errors :: "issue list"
  sc_warnings :: "issue list"
  sc_ids :: "string list"
  sc_scanned :: "(string \<times> nat \<times> nat \<times> nat) list"

definition scan_file :: "cyp_context \<Rightarrow> bool \<Rightarrow> string \<Rightarrow> scan_st \<Rightarrow> string \<Rightarrow> scan_st" where
  "scan_file cx strict trace st path =
     (if (case w_rel (cx_world cx) path of None \<Rightarrow> False | Some rel \<Rightarrow> rel \<noteq> [] \<and> is_ignored (cx_meta cx) rel) then st
      else (case from_path (w_fs (cx_world cx)) path of
              (None, errs) \<Rightarrow> if strict then st\<lparr>sc_errors := sc_errors st @ errs\<rparr> else st
            | (Some cf, errs) \<Rightarrow>
                if errs \<noteq> [] then (if strict then st\<lparr>sc_errors := sc_errors st @ errs\<rparr> else st)
                else
                  (let rep = validate_code cf; ids = list_ids cf
                   in \<lparr>sc_full = (if trace = ''FULL'' then sc_full st @ [cf] else sc_full st),
                       sc_errors = (if strict then sc_errors st @ r_errors rep else sc_errors st),
                       sc_warnings = (if strict then sc_warnings st @ r_warnings rep else sc_warnings st),
                       sc_ids = foldl (\<lambda>s i. sadd i s) (sc_ids st) ids,
                       sc_scanned = (if ids \<noteq> [] \<or> cf_scopes cf \<noteq> [] \<or> cf_blocks cf \<noteq> []
                         then sc_scanned st @ [(path, length (cf_scopes cf), length (cf_blocks cf), length ids)]
                         else sc_scanned st)\<rparr>)))"

definition entry_files :: "world \<Rightarrow> codebase_entry \<Rightarrow> string list" where
  "entry_files w cb =
     (let code_path = w_resolve w (cb_path cb);
          extensions = (if cb_extensions cb = [] then [''.py''] else cb_extensions cb)
      in if \<not> w_exists w code_path then []
         else if w_is_file w code_path then [code_path]
         else concat (map (w_rglob w code_path) extensions))"

definition scan_codebase_entry :: "cyp_context \<Rightarrow> bool \<Rightarrow> scan_st \<Rightarrow> codebase_entry \<times> string \<Rightarrow> scan_st" where
  "scan_codebase_entry cx strict st e =
     foldl (scan_file cx strict (snd e)) st (entry_files (cx_world cx) (fst e))"

definition node_trace :: "system_node \<Rightarrow> string" where
  "node_trace n = (if list_ex (\<lambda>a. a_traceability a = ''DOCS-ONLY'') (sn_artifacts n) then ''DOCS-ONLY'' else ''FULL'')"

fun node_entries :: "system_node \<Rightarrow> (codebase_entry \<times> string) list"
  and forest_entries :: "system_node list \<Rightarrow> (codebase_entry \<times> string) list" where
  "node_entries (SystemNode nm sl kt arts cbs children rules) =
     map (\<lambda>cb. (cb, node_trace (SystemNode nm sl kt arts cbs children rules))) cbs @ forest_entries children"
| "forest_entries [] = []"
| "forest_entries (n # ns) = node_entries n @ forest_entries ns"

definition scan_code :: "cyp_context \<Rightarrow> bool \<Rightarrow> scan_st" where
  "scan_code cx strict =
     foldl (scan_codebase_entry cx strict)
       \<lparr>sc_full = [], sc_errors = [], sc_warnings = [], sc_ids = [], sc_scanned = []\<rparr>
       (forest_entries (am_systems (cx_meta cx)))"

definition add_step :: "inst_map \<times> inst_map \<Rightarrow> cdsl_hit \<Rightarrow> inst_map \<times> inst_map" where
  "add_step im s =
     (case (str_or_empty (c_parent_id s), c_inst s) of
        ([], _) \<Rightarrow> im
      | (_, []) \<Rightarrow> im
      | (pid, inst) \<Rightarrow>
          (if c_checked s then dset pid (sadd inst (dgetl (fst im) pid)) (fst im) else fst im,
           dset pid (sadd inst (dgetl (snd im) pid)) (snd im)))"

definition collect_steps :: "fs \<Rightarrow> selected list \<Rightarrow> artifact_record list \<Rightarrow> inst_map \<times> inst_map" where
  "collect_steps fs sel recs =
     foldl (\<lambda>im a. foldl add_step im (scan_cdsl_instructions fs (ar_path a))) ([], [])
       (filter (\<lambda>a. trace_of sel (ar_path a) = ''FULL'') recs)"

subsection \<open>References to IDs of unconstrained kinds\<close>

definition ref_kinds :: "fs \<Rightarrow> artifact_record list \<Rightarrow> string \<Rightarrow> string list" where
  "ref_kinds fs recs did =
     remdups (map ar_kind (filter (\<lambda>a. list_ex (\<lambda>h. h_type h = Reference \<and> strip (h_id h) = did)
       (scan_cpt_ids fs (ar_path a))) recs))"

definition unreferenced_issues :: "fs \<Rightarrow> selected list \<Rightarrow> artifact_record list \<Rightarrow> string list \<Rightarrow> artifact_record
    \<Rightarrow> report" where
  "unreferenced_issues fs sel recs found a =
     (let kind = ar_kind a; others = sorted_strs (filter (\<lambda>k. k \<noteq> kind) (remdups (map ar_kind recs)));
          defs = filter (\<lambda>h. h_type h = Definition \<and> strip (h_id h) \<noteq> []) (scan_cpt_ids fs (ar_path a));
          issue = (\<lambda>code h extra. error ''structure'' code (ar_path a) (h_line h) ((''id'', PStr (strip (h_id h))) # extra))
      in if ar_path a \<notin> set (map va_path sel) \<or> ar_constraints a \<noteq> None then \<lparr>r_errors = [], r_warnings = []\<rparr>
         else if others = []
         then \<lparr>r_errors = [], r_warnings = map (\<lambda>h. issue ID_NOT_REFERENCED_NO_SCOPE h []) defs\<rparr>
         else \<lparr>r_errors = map (\<lambda>h. issue ID_NOT_REFERENCED h [(''other_kinds'', strs_obj others)])
                 (filter (\<lambda>h. filter (\<lambda>k. k \<noteq> kind) (ref_kinds fs recs (strip (h_id h))) = []
                    \<and> \<not> (trace_of sel (ar_path a) = ''FULL'' \<and> strip (h_id h) \<in> set found)) defs),
               r_warnings = []\<rparr>)"

subsection \<open>Where a missing reference should go\<close>

fun find_artifact_in_system :: "world \<Rightarrow> string \<Rightarrow> system_node \<Rightarrow> string option"
  and find_artifact_in_systems :: "world \<Rightarrow> string \<Rightarrow> system_node list \<Rightarrow> string option" where
  "find_artifact_in_system w target (SystemNode nm sl kt arts cbs children rules) =
     (case find (\<lambda>a. upper (a_kind a) = target \<and> w_exists w (w_resolve w (a_path a))) arts of
        Some a \<Rightarrow> Some (w_resolve w (a_path a))
      | None \<Rightarrow> find_artifact_in_systems w target children)"
| "find_artifact_in_systems w target [] = None"
| "find_artifact_in_systems w target (n # ns) =
     (case find_artifact_in_system w target n of
        Some p \<Rightarrow> if p = [] then find_artifact_in_systems w target ns else Some p
      | None \<Rightarrow> find_artifact_in_systems w target ns)"

definition expand_root :: "string \<Rightarrow> string \<Rightarrow> string" where
  "expand_root slug t = replace_all ''{system}'' slug (replace_all ''{project_root}'' ''.'' t)"

definition suggested_in_rule :: "string \<Rightarrow> string \<Rightarrow> autodetect_rule \<Rightarrow> string option" where
  "suggested_in_rule slug target rule =
     (case find (\<lambda>(k, ap). upper k = target) (rev (ad_artifacts rule)) of
        None \<Rightarrow> None
      | Some (k, ap) \<Rightarrow>
          if k = [] \<or> ap_pattern ap = [] then None
          else
            (let system_root = expand_root slug (case ad_system_root rule of None \<Rightarrow> ''{project_root}'' | Some r \<Rightarrow> r);
                 arts_root = expand_root slug (replace_all ''{system_root}'' system_root
                   (case ad_artifacts_root rule of None \<Rightarrow> ''{system_root}'' | Some r \<Rightarrow> r));
                 file = (if CHR ''*'' \<notin> set (ap_pattern ap) \<and> CHR ''?'' \<notin> set (ap_pattern ap)
                         then ap_pattern ap else target @ ''.md'')
             in Some (lstrip_by (cAny ''./'') (arts_root @ ''/'' @ file))))"

fun suggest_path_from_autodetect :: "string \<Rightarrow> string \<Rightarrow> autodetect_rule list \<Rightarrow> string option" where
  "suggest_path_from_autodetect slug target [] = None"
| "suggest_path_from_autodetect slug target (r # rs) =
     (case suggested_in_rule slug target r of Some p \<Rightarrow> Some p | None \<Rightarrow> suggest_path_from_autodetect slug target rs)"

definition target_kind_of :: "issue \<Rightarrow> string" where
  "target_kind_of i = (case dget (i_extra i) ''target_kind'' of None \<Rightarrow> [] | Some v \<Rightarrow> if py_truth v then upper (py_str v) else [])"

definition enrich_target :: "cyp_context \<Rightarrow> issue \<Rightarrow> issue" where
  "enrich_target cx i =
     (let target = target_kind_of i
      in if i_code i \<noteq> REF_MISSING_FROM_KIND \<or> target = [] then i
         else (case w_rel (cx_world cx) (i_path i) of
                 None \<Rightarrow> i
               | Some rel \<Rightarrow>
                   (case get_artifact_by_path (cx_meta cx) rel of
                      None \<Rightarrow> i
                    | Some (a, ch) \<Rightarrow>
                        (case find_artifact_in_system (cx_world cx) target (hd ch) of
                           Some p \<Rightarrow> i\<lparr>i_extra := dset ''target_artifact_path'' (PStr p) (i_extra i)\<rparr>
                         | None \<Rightarrow>
                             (case suggest_path_from_autodetect (sn_slug (hd ch)) target (sn_autodetect (hd ch)) of
                                None \<Rightarrow> i
                              | Some s \<Rightarrow>
                                  if s = [] then i
                                  else i\<lparr>i_extra := dset ''target_artifact_suggested_path'' (PStr s) (i_extra i)\<rparr>)))))"

subsection \<open>The command\<close>

record vargs =
  v_artifact :: "string option"
  v_skip_code :: bool

record code_stats =
  st_scanned :: nat
  st_to_code :: nat
  st_found :: nat
  st_covered :: nat

datatype status = PASS | FAIL | ERROR

record outcome =
  o_exit :: nat
  o_status :: status
  o_ctx_errors :: "ctx_error list"
  o_errors :: "issue list"
  o_warnings :: "issue list"
  o_reports :: "art_report list"
  o_stats :: "code_stats option"

definition error_outcome :: "nat \<Rightarrow> status \<Rightarrow> outcome" where
  "error_outcome rc s = \<lparr>o_exit = rc, o_status = s, o_ctx_errors = [], o_errors = [], o_warnings = [],
     o_reports = [], o_stats = None\<rparr>"

definition code_phase :: "cyp_context \<Rightarrow> vargs \<Rightarrow> selected list \<Rightarrow> artifact_record list \<Rightarrow> code_ids_st \<times> scan_st \<times> report" where
  "code_phase cx args sel recs =
     (let fs = w_fs (cx_world cx); strict = (v_artifact args = None);
          ids = (if strict then collect_ids fs sel recs else \<lparr>tc_defined = [], tc_to_code = [], tc_unchecked = []\<rparr>);
          none = \<lparr>sc_full = [], sc_errors = [], sc_warnings = [], sc_ids = [], sc_scanned = []\<rparr>
      in if v_skip_code args \<or> \<not> (strict \<or> full_ids fs sel \<noteq> [])
         then (ids, none, \<lparr>r_errors = [], r_warnings = []\<rparr>)
         else
           (let sc = scan_code cx strict
            in (ids, sc,
                if strict \<and> sc_full sc \<noteq> []
                then cross_validate_code (sc_full sc) (tc_defined ids) (tc_to_code ids) (tc_unchecked ids) ''FULL''
                       (fst (collect_steps fs sel recs)) (snd (collect_steps fs sel recs))
                else \<lparr>r_errors = [], r_warnings = []\<rparr>)))"

definition later_phases :: "rx \<Rightarrow> cyp_context \<Rightarrow> vargs \<Rightarrow> selected list \<Rightarrow> issue list \<Rightarrow> art_report list \<Rightarrow> outcome" where
  "later_phases rx cx args sel warns reps =
     (let fs = w_fs (cx_world cx); validated = map va_path sel;
          recs = map (artifact_record_of cx) sel @ other_records cx validated;
          cross = cross_validate_artifacts rx fs recs (Some (cx_systems cx));
          cross_errs = at_paths validated (r_errors cross); cross_warns = at_paths validated (r_warnings cross);
          (ids, sc, cv) = code_phase cx args sel recs;
          unref = map (unreferenced_issues fs sel recs (sc_ids sc)) recs;
          unref_errs = concat (map r_errors unref); unref_warns = concat (map r_warnings unref);
          errs = cross_errs @ sc_errors sc @ r_errors cv @ unref_errs;
          reps' = foldl (attach_issue False) (foldl (attach_issue True) (foldl (attach_issue False)
                    (foldl (attach_issue True) reps cross_errs) cross_warns) unref_errs) unref_warns
      in \<lparr>o_exit = (if errs = [] then 0 else 2), o_status = (if errs = [] then PASS else FAIL),
          o_ctx_errors = [], o_errors = map (enrich_target cx) errs,
          o_warnings = warns @ cross_warns @ sc_warnings sc @ r_warnings cv @ unref_warns,
          o_reports = reps',
          o_stats = (if v_skip_code args \<or> v_artifact args \<noteq> None then None
            else Some \<lparr>st_scanned = length (sc_scanned sc), st_to_code = length (tc_to_code ids),
                       st_found = length (sc_ids sc),
                       st_covered = length (filter (\<lambda>i. i \<in> set (sc_ids sc)) (tc_to_code ids))\<rparr>)\<rparr>)"

definition validate_selected :: "rx \<Rightarrow> cyp_context \<Rightarrow> vargs \<Rightarrow> selected list \<Rightarrow> outcome" where
  "validate_selected rx cx args sel =
     (let stop = (\<lambda>errs warns reps. \<lparr>o_exit = 2, o_status = FAIL, o_ctx_errors = cx_errors cx, o_errors = errs,
            o_warnings = warns, o_reports = reps, o_stats = None\<rparr>);
          results = map (check_artifact rx cx) sel;
          errs = concat (map r_errors results); warns = concat (map r_warnings results)
      in if sel = []
         then (if cx_errors cx \<noteq> [] then stop [] [] [] else error_outcome 0 PASS)
         else if list_ex (\<lambda>e. ce_type e = ''registry'') (cx_errors cx) then stop [] [] []
         else if cx_errors cx \<noteq> [] \<or> errs \<noteq> [] then stop errs warns (map2 mk_art_report sel results)
         else later_phases rx cx args sel warns (map2 mk_art_report sel results))"

text \<open>
  \<open>kits_check\<close> is the result of \<open>run_validate_kits\<close>, its exit code and status, or \<open>None\<close> when it
  raises; \<open>load_ctx\<close> loads the context at an artifact's location.
\<close>

definition cmd_validate :: "rx \<Rightarrow> cyp_context option \<Rightarrow> (string \<Rightarrow> cyp_context option)
    \<Rightarrow> (cyp_context \<Rightarrow> (nat \<times> string) option) \<Rightarrow> vargs \<Rightarrow> outcome" where
  "cmd_validate rx ctx load_ctx kits_check args =
     (case ctx of
        None \<Rightarrow> error_outcome 1 ERROR
      | Some cx0 \<Rightarrow>
          (let kits_bad = (if am_kits (cx_meta cx0) = [] then None
                 else (case kits_check cx0 of
                         None \<Rightarrow> Some (error_outcome 1 ERROR)
                       | Some (rc, st) \<Rightarrow>
                           if rc \<noteq> 0 \<or> st \<noteq> ''PASS''
                           then Some (if rc = 2 then error_outcome 2 FAIL else error_outcome 1 ERROR) else None))
           in case kits_bad of
                Some out \<Rightarrow> out
              | None \<Rightarrow>
                  (case v_artifact args of
                     None \<Rightarrow> validate_selected rx cx0 args (select_all cx0)
                   | Some path \<Rightarrow>
                       if \<not> w_exists (cx_world cx0) path then error_outcome 1 ERROR
                       else (case load_ctx path of
                               None \<Rightarrow> error_outcome 1 ERROR
                             | Some cx \<Rightarrow>
                                 if select_one cx path = [] then error_outcome 1 ERROR
                                 else validate_selected rx cx args (select_one cx path)))))"

end
