(* ===== verification/Validate_Facts.thy ===== *)
theory Validate_Facts
  imports Validate_Run Cross_Facts Codebase_Facts Registry_Facts
begin

section \<open>What a passing validation means\<close>

text \<open>
  The exit code determines the status and the absence of errors; a full run that passes means
  that every component's check is silent on the whole project, with one exception: an artifact
  kind without constraints is reported by the cross check at a path that the command drops.
\<close>

subsection \<open>Exit codes\<close>

definition coherent :: "outcome \<Rightarrow> bool" where
  "coherent out \<longleftrightarrow>
     (case o_status out of
        PASS \<Rightarrow> o_exit out = 0 \<and> o_errors out = [] \<and> o_ctx_errors out = []
      | FAIL \<Rightarrow> o_exit out = 2
      | ERROR \<Rightarrow> o_exit out = 1)"

lemma coherent_later: "coherent (later_phases rx cx args sel warns reps)"
  by (simp add: later_phases_def coherent_def Let_def split: prod.splits)

lemma coherent_selected: "coherent (validate_selected rx cx args sel)"
  using coherent_later
  by (auto simp: validate_selected_def Let_def error_outcome_def) (auto simp: coherent_def)

text \<open>The exit code of the command is 0, 1 or 2, in step with its status: 0 exactly for a pass, which
  has no errors, 2 exactly for a failure, and 1 when it could not run.\<close>

theorem validate_exit_codes:
  "let out = cmd_validate rx ctx load_ctx kits_check args
   in (case o_status out of
         PASS \<Rightarrow> o_exit out = 0 \<and> o_errors out = [] \<and> o_ctx_errors out = []
       | FAIL \<Rightarrow> o_exit out = 2
       | ERROR \<Rightarrow> o_exit out = 1)"
proof -
  have e: "coherent (error_outcome 1 ERROR)" "coherent (error_outcome 2 FAIL)"
    by (simp_all add: coherent_def error_outcome_def)
  have "coherent (cmd_validate rx ctx load_ctx kits_check args)"
    using e coherent_selected
    by (simp add: cmd_validate_def Let_def split: option.splits prod.splits)
  then show ?thesis by (simp add: coherent_def Let_def)
qed

subsection \<open>Paths of cross-artifact issues\<close>

lemma error_path [simp]: "i_path (error k c p l e) = p"
  by (simp add: error_def)

lemma rows_path: "r \<in> set (rows_of rx fs xc ty arts) \<Longrightarrow> w_path r \<in> ar_path ` set arts"
  by (auto simp: rows_of_def art_rows_def mk_row_def Let_def)

lemma grouped_rows: "grouped d f xs \<Longrightarrow> (i, ys) \<in> set d \<Longrightarrow> y \<in> set ys \<Longrightarrow> y \<in> set xs"
  by (simp add: grouped_entry)

lemma grouped_dgetl_mem: "grouped d f xs \<Longrightarrow> y \<in> set (dgetl d i) \<Longrightarrow> y \<in> set xs"
  by (simp add: grouped_dgetl)

definition paths_in :: "string set \<Rightarrow> issue list \<Rightarrow> bool" where
  "paths_in A is \<longleftrightarrow> (\<forall>i \<in> set is. i_path i \<in> A)"

lemma paths_in_simps [simp]: "paths_in A []" "paths_in A (i # is) \<longleftrightarrow> i_path i \<in> A \<and> paths_in A is"
  "paths_in A (is @ js) \<longleftrightarrow> paths_in A is \<and> paths_in A js"
  by (auto simp: paths_in_def)

lemma paths_in_concat: "(\<And>x. x \<in> set xs \<Longrightarrow> paths_in A (f x)) \<Longrightarrow> paths_in A (concat (map f xs))"
  by (auto simp: paths_in_def)

lemma paths_in_map: "(\<And>x. x \<in> set xs \<Longrightarrow> i_path (f x) \<in> A) \<Longrightarrow> paths_in A (map f xs)"
  by (auto simp: paths_in_def)

lemma at_paths_in: "paths_in (set validated) is \<Longrightarrow> at_paths validated is = is"
  by (simp add: at_paths_def paths_in_def filter_id_conv)

lemma ref_error_path [simp]: "i_path (ref_error c r e) = w_path r"
  by (simp add: ref_error_def)

lemma rule_error_path [simp]: "i_path (rule_error ru c r e) = w_path r"
  by (simp add: rule_error_def)

lemma reference_paths:
  assumes "\<And>i rows r. (i, rows) \<in> set (xi_refs xi) \<Longrightarrow> r \<in> set rows \<Longrightarrow> w_path r \<in> A"
  shows "paths_in A (no_definition_errors systems xi)" "paths_in A (ref_done_errors xi)"
    "paths_in A (def_done_errors xi)" "paths_in A (ref_task_errors xi)"
  unfolding no_definition_errors_def ref_done_errors_def def_done_errors_def ref_task_errors_def paths_in_def
  by (auto split: list.splits if_splits; blast intro: assms)+

lemma kind_paths: "ar_path a \<in> A \<Longrightarrow> paths_in A (artifact_kind_errors descs by_kind xi a)"
  by (auto simp: artifact_kind_errors_def kind_not_allowed_errors_def kind_rule_errors_def Let_def
      split: option.splits intro!: paths_in_map paths_in_concat)

lemma first_violation_paths: "(\<And>r. r \<in> set refs \<Longrightarrow> w_path r \<in> A) \<Longrightarrow> paths_in A (first_violation ru rule has m p refs)"
  by (auto simp: first_violation_def split: option.splits bool.splits dest!: find_mem)

lemma rule_paths:
  assumes "w_path (ru_def ru) \<in> A" and "\<And>r. r \<in> set refs \<Longrightarrow> w_path r \<in> A"
  shows "paths_in A (fst (rule_issues ru present refs))"
proof -
  have "paths_in A (first_violation ru rule has m p refs)" for rule has m p
    by (rule first_violation_paths [OF assms(2)])
  then have m: "paths_in A (marker_errors ru refs)" by (simp add: marker_errors_def)
  have h: "paths_in A (ref_heading_errors ru refs)"
    using assms(2) by (cases refs) (auto simp: ref_heading_errors_def Let_def)
  show ?thesis
    using m h assms by (cases refs) (auto simp: rule_issues_def Let_def split: option.split bool.split)
qed

lemma coverage_paths:
  assumes "\<And>i rows r. (i, rows) \<in> set (xi_defs xi) \<Longrightarrow> r \<in> set rows \<Longrightarrow> w_path r \<in> A"
    and "\<And>k r. r \<in> set (dgetl (xi_sys_refs xi) k) \<Longrightarrow> w_path r \<in> A"
  shows "paths_in A (concat (map fst (coverage_issues descs by_kind xi)))"
proof (rule paths_in_concat)
  fix x
  assume "x \<in> set (coverage_issues descs by_kind xi)"
  then obtain ak ic did drows d where d: "(did, drows) \<in> set (xi_defs xi)" "d \<in> set drows"
    "x \<in> set (def_rule_issues descs xi ak ic d)"
    unfolding coverage_issues_def by auto
  from assms(1) [OF d(1,2)] assms(2) d(3) show "paths_in A (fst x)"
    by (auto simp: def_rule_issues_def Let_def split: option.splits if_splits intro!: rule_paths)
qed

definition cross_rest :: "rx \<Rightarrow> fs \<Rightarrow> artifact_record list \<Rightarrow> string list \<Rightarrow> issue list" where
  "cross_rest rx fs arts systems =
     (let S = remdups (map lower systems); xi = mk_index rx fs arts S; by_kind = constraints_by_kind arts;
          descs = heading_desc_by_kind arts
      in no_definition_errors S xi @ ref_done_errors xi @ def_done_errors xi @ ref_task_errors xi
         @ concat (map (artifact_kind_errors descs by_kind xi) arts)
         @ concat (map fst (coverage_issues descs by_kind xi)))"

lemma cross_split:
  "r_errors (cross_validate_artifacts rx fs arts (Some systems)) = missing_constraints_errors arts @ cross_rest rx fs arts systems"
  by (simp add: cross_validate_artifacts_def cross_rest_def Let_def)

lemma cross_rest_paths:
  assumes "distinct (map ar_path arts)"
  shows "paths_in (ar_path ` set arts) (cross_rest rx fs arts systems)"
proof -
  let ?S = "remdups (map lower systems)" and ?A = "ar_path ` set arts"
  let ?xi = "mk_index rx fs arts ?S"
  have ok: "index_ok ?xi (rows_of rx fs (ctx_of arts ?S) Definition arts) (rows_of rx fs (ctx_of arts ?S) Reference arts)"
    by (rule mk_index_ok [OF assms])
  then have g: "grouped (xi_refs ?xi) w_id (rows_of rx fs (ctx_of arts ?S) Reference arts)"
    "grouped (xi_defs ?xi) w_id (rows_of rx fs (ctx_of arts ?S) Definition arts)"
    "grouped (xi_sys_refs ?xi) sys_key (filter has_sys (rows_of rx fs (ctx_of arts ?S) Reference arts))"
    by (simp_all add: index_ok_def)
  have r: "w_path r \<in> ?A" if "(i, rows) \<in> set (xi_refs ?xi)" "r \<in> set rows" for i rows r
    using grouped_rows [OF g(1) that] by (rule rows_path)
  have d: "w_path r \<in> ?A" if "(i, rows) \<in> set (xi_defs ?xi)" "r \<in> set rows" for i rows r
    using grouped_rows [OF g(2) that] by (rule rows_path)
  have s: "w_path r \<in> ?A" if "r \<in> set (dgetl (xi_sys_refs ?xi) k)" for k r
    using grouped_dgetl_mem [OF g(3) that] rows_path by force
  have "paths_in ?A (concat (map (artifact_kind_errors descs by_kind ?xi) arts))" for descs by_kind
    by (intro paths_in_concat kind_paths) simp
  then show ?thesis
    using reference_paths [OF r] coverage_paths [OF d s] by (simp add: cross_rest_def Let_def)
qed

subsection \<open>A full run\<close>

lemma selected_path:
  assumes "(a, ch) \<in> set (iter_all_artifacts (cx_meta cx))" and "kit_usable (cx_meta cx) ch"
    and "w_exists (cx_world cx) (w_resolve (cx_world cx) (a_path a))"
  shows "w_resolve (cx_world cx) (a_path a) \<in> va_path ` set (select_all cx)"
proof -
  have "mk_selected (w_resolve (cx_world cx) (a_path a)) a ch \<in> set (select_all cx)"
    using assms by (force simp: select_all_def Let_def)
  then show ?thesis by (rule rev_image_eqI) (simp add: mk_selected_def)
qed

lemma other_records_none: "other_records cx (map va_path (select_all cx)) = []"
  unfolding other_records_def concat_map_Nil_iff by (auto simp: Let_def dest: selected_path)

lemma later_pass:
  assumes "o_exit (later_phases rx cx args sel warns reps) = 0"
    and "recs = map (artifact_record_of cx) sel @ other_records cx (map va_path sel)"
    and "code_phase cx args sel recs = (ids, sc, cv)"
  shows "at_paths (map va_path sel) (r_errors (cross_validate_artifacts rx (w_fs (cx_world cx)) recs (Some (cx_systems cx)))) = []"
    and "sc_errors sc = []" and "r_errors cv = []"
  using assms(1) unfolding later_phases_def Let_def assms(2) [symmetric] assms(3) by (simp_all split: if_splits)

definition defined_ids :: "fs \<Rightarrow> artifact_record list \<Rightarrow> string set" where
  "defined_ids fs recs =
     {h_id h | a h. a \<in> set recs \<and> h \<in> set (scan_cpt_ids fs (ar_path a)) \<and> h_type h = Definition \<and> h_id h \<noteq> []}"

lemma tc_defined_add: "set (tc_defined (add_def_id full c st h)) =
    (if h_type h = Definition \<and> h_id h \<noteq> [] then insert (h_id h) (set (tc_defined st)) else set (tc_defined st))"
  by (auto simp: add_def_id_def Let_def split: option.splits)

lemma tc_defined_hits:
  "set (tc_defined (foldl (add_def_id full c) st hs)) =
     set (tc_defined st) \<union> {h_id h | h. h \<in> set hs \<and> h_type h = Definition \<and> h_id h \<noteq> []}"
  by (induction hs arbitrary: st) (auto simp: tc_defined_add)

lemma tc_defined_collect: "set (tc_defined (collect_ids fs sel recs)) = defined_ids fs recs"
proof -
  have "set (tc_defined (foldl (\<lambda>st a. foldl (add_def_id (trace_of sel (ar_path a) = ''FULL'') (ar_constraints a)) st
      (scan_cpt_ids fs (ar_path a))) st recs)) = set (tc_defined st) \<union> defined_ids fs recs" for st
    by (induction recs arbitrary: st) (auto simp: tc_defined_hits defined_ids_def)
  then show ?thesis by (simp add: collect_ids_def)
qed

lemma code_check_silent:
  assumes "r_errors (cross_validate_code files ids to_code fb ''FULL'' im im') = []"
  shows "set (code_ids files) \<subseteq> set ids" and "set to_code \<subseteq> set (code_ids files)"
proof -
  from assms have e: "orphan_errors ids (all_refs files) = []" "missing_errors to_code files = []"
    by (simp_all add: cross_validate_code_def)
  from e(1) have "ref_id ` snd ` set (all_refs files) \<subseteq> set ids"
    by (auto simp: orphan_errors_def filter_empty_conv)
  then show "set (code_ids files) \<subseteq> set ids" by (simp only: ref_ids_all_refs)
  from e(2) show "set to_code \<subseteq> set (code_ids files)"
    by (auto simp: missing_errors_def filter_empty_conv)
qed

lemma full_run_selected:
  assumes "o_exit (cmd_validate rx (Some cx) load_ctx kits_check args) = 0" and "v_artifact args = None"
    and "select_all cx \<noteq> []"
  shows "cx_errors cx = []" and "list_all (\<lambda>va. r_errors (check_artifact rx cx va) = []) (select_all cx)"
    and "\<exists>warns reps. o_exit (later_phases rx cx args (select_all cx) warns reps) = 0"
proof -
  have "o_exit (validate_selected rx cx args (select_all cx)) = 0"
    using assms(1,2) by (auto simp: cmd_validate_def error_outcome_def Let_def split: option.splits prod.splits if_splits)
  with assms(3) show "cx_errors cx = []" "list_all (\<lambda>va. r_errors (check_artifact rx cx va) = []) (select_all cx)"
    "\<exists>warns reps. o_exit (later_phases rx cx args (select_all cx) warns reps) = 0"
    by (auto simp: validate_selected_def Let_def concat_map_Nil_iff list_all_iff split: if_splits)
qed

lemma later_refs:
  assumes "o_exit (later_phases rx cx args (select_all cx) warns reps) = 0" and "distinct (map va_path (select_all cx))"
    and "fs = w_fs (cx_world cx)" and "recs = map (artifact_record_of cx) (select_all cx)"
    and "S = remdups (map lower (cx_systems cx))"
  shows "list_all (\<lambda>r. is_external_system_ref S (w_id r) \<or> w_id r \<in> w_id ` set (rows_of rx fs (ctx_of recs S) Definition recs))
        (rows_of rx fs (ctx_of recs S) Reference recs)"
    and "list_all (status_ok (rows_of rx fs (ctx_of recs S) Definition recs)) (rows_of rx fs (ctx_of recs S) Reference recs)"
proof -
  let ?sel = "select_all cx" and ?xi = "mk_index rx fs recs S"
  obtain ids sc cv where c: "code_phase cx args ?sel recs = (ids, sc, cv)" by (metis prod_cases3)
  have recs: "recs = map (artifact_record_of cx) ?sel @ other_records cx (map va_path ?sel)"
    by (simp add: assms(4) other_records_none)
  note parts = later_pass [OF assms(1) recs c]
  have p: "map ar_path recs = map va_path ?sel" by (simp add: assms(4) artifact_record_of_def comp_def)
  then have d: "distinct (map ar_path recs)" using assms(2) by simp
  from p have A: "ar_path ` set recs = set (map va_path ?sel)" by (metis list.set_map)
  have "at_paths (map va_path ?sel) (cross_rest rx fs recs (cx_systems cx)) = []"
    using parts(1) unfolding cross_split assms(3) [symmetric] by (simp add: at_paths_def)
  then have rest: "cross_rest rx fs recs (cx_systems cx) = []"
    using at_paths_in cross_rest_paths [OF d] unfolding A by metis
  then have "no_definition_errors S ?xi = []" "ref_done_errors ?xi @ def_done_errors ?xi @ ref_task_errors ?xi = []"
    by (simp_all add: cross_rest_def Let_def assms(5))
  note refs = this [unfolded no_definition_Nil_iff [OF mk_index_ok [OF d]] status_errors_Nil_iff [OF mk_index_ok [OF d]]]
  show "list_all (\<lambda>r. is_external_system_ref S (w_id r) \<or> w_id r \<in> w_id ` set (rows_of rx fs (ctx_of recs S) Definition recs))
        (rows_of rx fs (ctx_of recs S) Reference recs)"
    and "list_all (status_ok (rows_of rx fs (ctx_of recs S) Definition recs)) (rows_of rx fs (ctx_of recs S) Reference recs)"
    using refs by (simp_all add: list_all_iff)
qed


text \<open>A project with a defining artifact, a referring one, and a code file that implements the ID.\<close>

definition demo_kind :: "id_constraint list \<Rightarrow> kind_constraints" where
  "demo_kind ics = (cov_kind ics)\<lparr>kc_toc := False\<rparr>"

definition demo_art :: "string \<Rightarrow> string \<Rightarrow> artifact" where
  "demo_art path kind = \<lparr>a_path = path, a_kind = kind, a_traceability = ''FULL'', a_name = None\<rparr>"

definition demo_kit :: kit where
  "demo_kit = \<lparr>k_id = PStr ''k'', k_format = ''Cypilot'', k_path = ''kits/k'', k_artifacts = []\<rparr>"

definition demo_meta :: artifacts_meta where
  "demo_meta = new_meta ''1.1'' ''.'' [(PStr ''k'', demo_kit)]
     [SystemNode ''S'' ''s'' ''k'' [demo_art ''a.md'' ''PRD'', demo_art ''b.md'' ''DESIGN'']
        [\<lparr>cb_path = ''c.py'', cb_extensions = [], cb_name = None, cb_single = None, cb_multi = None\<rparr>] [] []] []"

definition demo_fs :: fs where
  "demo_fs p = (if p = ''c.py'' then Some ''# @cpt-flow:cpt-s-flow-a:p1'' else sample_fs p)"

definition demo_context :: "kit_constraints \<Rightarrow> cyp_context" where
  "demo_context cs =
     \<lparr>cx_world = \<lparr>w_fs = demo_fs, w_exists = (\<lambda>p. demo_fs p \<noteq> None), w_is_file = (\<lambda>p. demo_fs p \<noteq> None),
        w_resolve = (\<lambda>p. p), w_rglob = (\<lambda>_ _. []), w_rel = Some\<rparr>,
      cx_meta = demo_meta, cx_loaded = [(''k'', \<lparr>lk_kit = demo_kit, lk_constraints = Some cs\<rparr>)],
      cx_systems = get_all_system_prefixes demo_meta, cx_errors = []\<rparr>"

definition demo_constraints :: kit_constraints where
  "demo_constraints = [(''PRD'', demo_kind [cov_id\<lparr>ic_to_code := Some True\<rparr>]), (''DESIGN'', demo_kind [])]"



definition demo_sel :: "selected list" where
  "demo_sel = [\<lparr>va_path = ''a.md'', va_kind = ''PRD'', va_trace = ''FULL'', va_kit = ''k''\<rparr>,
     \<lparr>va_path = ''b.md'', va_kind = ''DESIGN'', va_trace = ''FULL'', va_kit = ''k''\<rparr>]"

definition demo_recs :: "artifact_record list" where
  "demo_recs = [\<lparr>ar_path = ''a.md'', ar_kind = ''PRD'', ar_constraints = Some (demo_kind [cov_id\<lparr>ic_to_code := Some True\<rparr>])\<rparr>,
     \<lparr>ar_path = ''b.md'', ar_kind = ''DESIGN'', ar_constraints = Some (demo_kind [])\<rparr>]"

definition demo_hit :: hit where
  "demo_hit = \<lparr>h_id = ''cpt-s-flow-a'', h_line = 1, h_type = Definition, h_checked = True, h_has_task = True,
     h_has_priority = False, h_priority = None\<rparr>"

definition demo_args :: vargs where
  "demo_args = \<lparr>v_artifact = None, v_skip_code = False\<rparr>"

lemma demo_parts:
  "select_all (demo_context cs) = demo_sel" "cx_systems (demo_context cs) = [''s'']"
  "w_fs (cx_world (demo_context cs)) = demo_fs" "cx_errors (demo_context cs) = []"
  "map (artifact_record_of (demo_context demo_constraints)) demo_sel = demo_recs"
  "map va_path demo_sel = [''a.md'', ''b.md'']"
  by (code_simp, code_simp, simp add: demo_context_def, simp add: demo_context_def, code_simp+)

lemma demo_scan:
  "scan_cpt_ids demo_fs ''a.md'' = [demo_hit]" "scan_cpt_ids demo_fs ''b.md'' = [demo_hit\<lparr>h_type := Reference\<rparr>]"
  "scan_cdsl_instructions demo_fs ''a.md'' = []" "scan_cdsl_instructions demo_fs ''b.md'' = []"
  "scan_headings demo_fs ''a.md'' = []" "scan_headings demo_fs ''b.md'' = []"
  by code_simp+

lemma nesting_errors_no_headings: "nesting_errors path [] defs refs = []"
  by (auto simp: nesting_errors_def nesting_errors_for_def heading_ctx_for_line_def)

lemma demo_checks: "list_all (\<lambda>va. check_artifact (\<lambda>_. Inl []) (demo_context demo_constraints) va = \<lparr>r_errors = [], r_warnings = []\<rparr>) demo_sel"
proof -
  have c: "constraints_for (demo_context demo_constraints) ''k'' ''PRD'' = Some (demo_kind [cov_id\<lparr>ic_to_code := Some True\<rparr>])"
    "constraints_for (demo_context demo_constraints) ''k'' ''DESIGN'' = Some (demo_kind [])" by code_simp+
  have e: "id_errors (mk_id_ctx (\<lambda>_. Inl []) demo_fs ''a.md'' ''PRD'' (demo_kind [cov_id\<lparr>ic_to_code := Some True\<rparr>])
      (Some [''s''])) [demo_hit] = []"
    "id_errors (mk_id_ctx (\<lambda>_. Inl []) demo_fs ''b.md'' ''DESIGN'' (demo_kind []) (Some [''s''])) [] = []"
    "cdsl_errors ''a.md'' [demo_hit] [] = []" "cdsl_errors ''b.md'' [] [] = []" "defs_of [demo_hit] = [demo_hit]"
    "defs_of [demo_hit\<lparr>h_type := Reference\<rparr>] = []" "upper (strip ''PRD'') = ''PRD''" "upper (strip ''DESIGN'') = ''DESIGN''"
    by code_simp+
  have k: "heading_list_of (demo_kind cs) = []" "kc_toc (demo_kind cs) = False" for cs
    by (simp_all add: heading_list_of_def demo_kind_def cov_kind_def)
  show ?thesis
    by (simp add: demo_sel_def check_artifact_def validate_artifact_file_def c e k demo_scan toc_phase_def demo_parts
        nesting_errors_no_headings)
qed

lemma demo_cross: "r_errors (cross_validate_artifacts (\<lambda>_. Inl []) demo_fs demo_recs (Some [''s''])) = []" by code_simp

lemma demo_code:
  "sc_errors (fst (snd (code_phase (demo_context demo_constraints) demo_args demo_sel demo_recs))) = []"
  "r_errors (snd (snd (code_phase (demo_context demo_constraints) demo_args demo_sel demo_recs))) = []"
  by code_simp+

lemma demo_other: "other_records (demo_context cs) [''a.md'', ''b.md''] = []"
  using other_records_none [of "demo_context cs"] by (simp add: demo_parts)

lemma later_exit:
  assumes "recs = map (artifact_record_of cx) sel @ other_records cx (map va_path sel)"
    and "at_paths (map va_path sel) (r_errors (cross_validate_artifacts rx (w_fs (cx_world cx)) recs (Some (cx_systems cx)))) = []"
    and "sc_errors (fst (snd (code_phase cx args sel recs))) = []" and "r_errors (snd (snd (code_phase cx args sel recs))) = []"
    and "list_all (\<lambda>a. r_errors (unreferenced_issues (w_fs (cx_world cx)) sel recs
           (sc_ids (fst (snd (code_phase cx args sel recs)))) a) = []) recs"
  shows "o_exit (later_phases rx cx args sel warns reps) = 0"
  using assms(2-5) unfolding later_phases_def Let_def assms(1) [symmetric]
  by (auto simp: concat_map_Nil_iff list_all_iff split: prod.splits)

lemma full_run_exit:
  assumes "list_all (\<lambda>va. r_errors (check_artifact rx cx va) = []) (select_all cx)" and "cx_errors cx = []"
    and "kits_check cx = Some (0, ''PASS'')" and "v_artifact args = None"
    and "\<And>warns reps. o_exit (later_phases rx cx args (select_all cx) warns reps) = 0"
  shows "o_exit (cmd_validate rx (Some cx) load_ctx kits_check args) = 0"
proof -
  have "concat (map r_errors (map (check_artifact rx cx) (select_all cx))) = []"
    using assms(1) by (auto simp: list_all_iff)
  with assms(2-5) show ?thesis
    by (simp add: cmd_validate_def validate_selected_def Let_def error_outcome_def)
qed

lemma demo_exit: "o_exit (cmd_validate (\<lambda>_. Inl []) (Some (demo_context demo_constraints)) (\<lambda>_. None) (\<lambda>_. Some (0, ''PASS''))
    demo_args) = 0"
proof (rule full_run_exit)
  show "list_all (\<lambda>va. r_errors (check_artifact (\<lambda>_. Inl []) (demo_context demo_constraints) va) = [])
      (select_all (demo_context demo_constraints))"
    using demo_checks by (auto simp: demo_parts list_all_iff)
  have "list_all (\<lambda>a. r_errors (unreferenced_issues demo_fs demo_sel demo_recs found a) = []) demo_recs" for found
    by (simp add: demo_recs_def unreferenced_issues_def)
  then show "o_exit (later_phases (\<lambda>_. Inl []) (demo_context demo_constraints) demo_args
      (select_all (demo_context demo_constraints)) warns reps) = 0" for warns reps
    unfolding demo_parts
    by (intro later_exit [where recs = demo_recs]) (simp_all add: demo_parts demo_other demo_cross demo_code at_paths_def)
qed (simp_all add: demo_parts demo_args_def)


text \<open>
  The cross check reports kinds without constraints at the path \<open><constraints.toml>\<close>, which is no
  artifact's, so the command drops the report: a project with no constraints at all passes.
\<close>

lemma missing_constraints_dropped:
  "i_path ` set (missing_constraints_errors recs) \<subseteq> {''<constraints.toml>''}
   \<and> (''<constraints.toml>'' \<notin> set validated \<longrightarrow> at_paths validated (missing_constraints_errors recs) = [])"
  by (simp add: missing_constraints_errors_def at_paths_def)

lemma unconstrained_passes:
  "o_exit (cmd_validate (\<lambda>_. Inl []) (Some (demo_context [])) (\<lambda>_. None) (\<lambda>_. Some (0, ''PASS'')) demo_args) = 0
   \<and> missing_constraints_errors (map (artifact_record_of (demo_context [])) demo_sel) \<noteq> []"
proof
  let ?recs = "map (artifact_record_of (demo_context [])) demo_sel"
  show "missing_constraints_errors ?recs \<noteq> []" by code_simp
  have c: "check_artifact (\<lambda>_. Inl []) (demo_context []) va = \<lparr>r_errors = [], r_warnings = []\<rparr>" for va
    by (simp add: check_artifact_def validate_artifact_file_def constraints_for_def demo_context_def split: option.splits)
  have x: "at_paths [''a.md'', ''b.md''] (r_errors (cross_validate_artifacts (\<lambda>_. Inl []) demo_fs ?recs (Some [''s'']))) = []"
    by code_simp
  have k: "sc_errors (fst (snd (code_phase (demo_context []) demo_args demo_sel ?recs))) = []"
    "r_errors (snd (snd (code_phase (demo_context []) demo_args demo_sel ?recs))) = []" by code_simp+
  have u: "list_all (\<lambda>a. r_errors (unreferenced_issues demo_fs demo_sel ?recs
      (sc_ids (fst (snd (code_phase (demo_context []) demo_args demo_sel ?recs)))) a) = []) ?recs" by code_simp
  show "o_exit (cmd_validate (\<lambda>_. Inl []) (Some (demo_context [])) (\<lambda>_. None) (\<lambda>_. Some (0, ''PASS'')) demo_args) = 0"
  proof (rule full_run_exit)
    show "o_exit (later_phases (\<lambda>_. Inl []) (demo_context []) demo_args (select_all (demo_context [])) warns reps) = 0" for warns reps
      unfolding demo_parts
      by (intro later_exit [where recs = ?recs]) (simp_all add: demo_parts demo_other x k u)
  qed (simp_all add: demo_parts demo_args_def c list_all_iff)
qed

text \<open>The suggested path of a missing artifact below a hidden directory loses the leading dot.\<close>

lemma suggested_path_loses_dot:
  "suggested_in_rule ''s'' ''PRD''
     (AutodetectRule None (Some ''{project_root}/.docs'') None [] [(''PRD'', \<lparr>ap_pattern = ''PRD.md'',
       ap_traceability = ''FULL'', ap_required = True\<rparr>)] [] [] []) = Some ''docs/PRD.md''"
  by code_simp

end
