(* ===== verification/Autodetect.thy ===== *)
theory Autodetect
  imports Registry Doc_Scan Error_Codes
begin

section \<open>Expansion of autodetect rules (\<open>ArtifactsMeta.expand_autodetect\<close>)\<close>

text \<open>
  Autodetect rules turn files found under the project root into artifacts and codebase entries
  of the system tree, and directories into new systems. The source mutates the tree in place;
  here a node is taken and returned, a discovered child is named by its position, since children
  are only appended, and the slugs of the ancestors, nearest first, are passed along. The
  messages are values of a type. The recursion over the growing tree takes fuel;
  \<open>Autodetect_Facts\<close> shows that \<open>expand_fuel\<close> is always enough.

  The file system is a record of parameters: paths joined to the adapter directory and to the
  project root and resolved, relative paths, globbing, and the two kinds of files. The call-backs
  of the kit are optional, as in the source.
\<close>

record ad_env =
  ae_fs :: fs
  ae_adapter :: "string \<Rightarrow> string"
  ae_project :: "string \<Rightarrow> string"
  ae_real :: "string \<Rightarrow> string"
  ae_rel :: "string \<Rightarrow> string option"
  ae_rel_to :: "string \<Rightarrow> string \<Rightarrow> string option"
  ae_glob :: "string \<Rightarrow> string \<Rightarrow> string list"
  ae_glob_dirs :: "string \<Rightarrow> string list"
  ae_is_file :: "string \<Rightarrow> bool"
  ae_is_dir :: "string \<Rightarrow> bool"
  ae_kind_registered :: "(string \<Rightarrow> string \<Rightarrow> bool) option"
  ae_kind_tokens :: "(string \<Rightarrow> string list) option"
  ae_patterns :: "string list"
  ae_root :: string

datatype autodetect_error =
    KindNotRegistered string string string
  | RequiredMissing string string string
  | NotMarkdown string
  | UnmatchedMarkdown string string
  | KindConflict string string string
  | MixedPrefixes string string string "string list"
  | MixedSlugs string string string "string list"
  | MissingParentPrefix string string string string
  | NoSystem string string string

subsection \<open>Paths\<close>

definition substitute :: "string \<Rightarrow> string \<Rightarrow> string \<Rightarrow> string \<Rightarrow> string" where
  "substitute system system_root parent_root s =
     replace_all ''{parent_root}'' parent_root (replace_all ''{system_root}'' system_root
       (replace_all ''{project_root}'' ''.'' (replace_all ''{system}'' system s)))"

definition resolve_path :: "ad_env \<Rightarrow> string \<Rightarrow> string" where
  "resolve_path env expanded =
     (let e = strip expanded; pr = strip (ae_root env)
      in if pr \<noteq> [] \<and> (e = pr \<or> startswith e (rstrip_by (cOne (CHR ''/'')) pr @ ''/''))
         then ae_adapter env e else ae_project env e)"

definition rel_visible :: "ad_env \<Rightarrow> string \<Rightarrow> bool" where
  "rel_visible env rel = (rel \<noteq> [] \<and> \<not> ignored_by (ae_patterns env) rel)"

definition visible_files :: "ad_env \<Rightarrow> string list \<Rightarrow> string list" where
  "visible_files env hits =
     map (ae_real env) (filter (\<lambda>h. ae_is_file env h
       \<and> (case ae_rel env (ae_real env h) of None \<Rightarrow> False | Some rel \<Rightarrow> rel_visible env rel)) hits)"

definition glob_files :: "ad_env \<Rightarrow> string \<Rightarrow> string \<Rightarrow> string list" where
  "glob_files env root pat = (if pat = [] then [] else visible_files env (ae_glob env root pat))"

definition iter_markdown_files :: "ad_env \<Rightarrow> string \<Rightarrow> string list" where
  "iter_markdown_files env root =
     (if \<not> ae_is_dir env root then [] else visible_files env (ae_glob env root ''**/*.md''))"

subsection \<open>Child systems\<close>

definition with_children :: "system_node \<Rightarrow> system_node list \<Rightarrow> system_node" where
  "with_children n cs = SystemNode (sn_name n) (sn_slug n) (sn_kit n) (sn_artifacts n) (sn_codebase n) cs (sn_autodetect n)"

definition with_entries :: "system_node \<Rightarrow> artifact list \<Rightarrow> codebase_entry list \<Rightarrow> system_node" where
  "with_entries n arts cbs = SystemNode (sn_name n) (sn_slug n) (sn_kit n) arts cbs (sn_children n) (sn_autodetect n)"

definition with_slug :: "system_node \<Rightarrow> string \<Rightarrow> system_node" where
  "with_slug n s = SystemNode (sn_name n) s (sn_kit n) (sn_artifacts n) (sn_codebase n) (sn_children n) (sn_autodetect n)"

definition get_or_create_child_system :: "system_node list \<Rightarrow> string \<Rightarrow> string \<Rightarrow> string \<Rightarrow> system_node list \<times> nat" where
  "get_or_create_child_system children slug name kit =
     (let i = length (takeWhile (\<lambda>c. sn_slug c \<noteq> slug) children)
      in if i < length children then (children, i)
         else (children @ [SystemNode name slug kit [] [] [] []], length children))"

definition path_name :: "string \<Rightarrow> string" where
  "path_name p = rev (takeWhile (\<lambda>c. c \<noteq> CHR ''/'') (rev p))"

definition str_or :: "string option \<Rightarrow> string \<Rightarrow> string" where
  "str_or x d = (case x of None \<Rightarrow> d | Some s \<Rightarrow> s)"

definition discover_hit :: "ad_env \<Rightarrow> string \<Rightarrow> system_node list \<times> (nat \<times> string) list \<Rightarrow> string
    \<Rightarrow> system_node list \<times> (nat \<times> string) list" where
  "discover_hit env kit_id st hit =
     (let h = ae_real env hit; (children, out) = st
      in if \<not> ae_is_dir env h then st
         else (case ae_rel env h of
                 None \<Rightarrow> st
               | Some rel \<Rightarrow>
                   if ignored_by (ae_patterns env) rel then st
                   else (let (children', i) = get_or_create_child_system children (generate_slug (path_name h)) (path_name h) kit_id
                         in (children', out @ [(i, rel)]))))"

definition is_discovery :: "autodetect_rule \<Rightarrow> bool" where
  "is_discovery rule = has_sub (str_or (ad_system_root rule) []) ''$system''"

definition discover_child_system_roots :: "ad_env \<Rightarrow> system_node \<Rightarrow> autodetect_rule \<Rightarrow> string
    \<Rightarrow> system_node list \<times> (nat \<times> string) list" where
  "discover_child_system_roots env parent rule parent_root =
     (let template = str_or (ad_system_root rule) ''{project_root}''
      in if \<not> has_sub template ''$system'' then (sn_children parent, [])
         else (let g = replace_all ''$system'' ''*'' (substitute (sn_slug parent) [] parent_root template)
               in foldl (discover_hit env (str_or (ad_kit rule) (sn_kit parent))) (sn_children parent, [])
                    (ae_glob_dirs env (resolve_path env g))))"

subsection \<open>Applying a rule\<close>

definition flag :: "autodetect_rule \<Rightarrow> string \<Rightarrow> bool" where
  "flag rule key = py_truth (pget (ad_validation rule) key)"

definition hit_artifact :: "ad_env \<Rightarrow> autodetect_rule \<Rightarrow> string \<Rightarrow> autodetect_pattern \<Rightarrow> string
    \<Rightarrow> artifact list \<times> autodetect_error list" where
  "hit_artifact env rule kind ap h =
     (case ae_rel env h of
        None \<Rightarrow> ([], [])
      | Some rel \<Rightarrow>
          if rel = [] then ([], [])
          else if flag rule ''require_md_extension'' \<and> \<not> endswith (lower rel) ''.md'' then ([], [NotMarkdown rel])
          else ([\<lparr>a_path = rel, a_kind = kind,
                  a_traceability = (if ap_traceability ap = [] then ''FULL'' else ap_traceability ap), a_name = None\<rparr>], []))"

definition rule_artifacts :: "ad_env \<Rightarrow> autodetect_rule \<Rightarrow> string \<Rightarrow> string \<Rightarrow> string \<Rightarrow> string \<times> autodetect_pattern
    \<Rightarrow> artifact list \<times> autodetect_error list" where
  "rule_artifacts env rule kit_id system root entry =
     (let (key, ap) = entry; kind = strip key
      in if kind = [] then ([], [])
         else if flag rule ''require_kind_registered_in_kit''
                 \<and> (case ae_kind_registered env of None \<Rightarrow> False | Some reg \<Rightarrow> \<not> reg kit_id kind)
         then ([], [KindNotRegistered kit_id kind system])
         else
           (let hits = glob_files env root (ap_pattern ap); res = map (hit_artifact env rule kind ap) hits
            in (concat (map fst res),
                (if ap_required ap \<and> hits = [] then [RequiredMissing system kind (ap_pattern ap)] else [])
                @ concat (map snd res))))"

definition used_patterns :: "autodetect_rule \<Rightarrow> string list" where
  "used_patterns rule =
     map (\<lambda>(k, ap). ap_pattern ap) (filter (\<lambda>(k, ap). strip k \<noteq> [] \<and> ap_pattern ap \<noteq> []) (ad_artifacts rule))"

definition unmatched_errors :: "ad_env \<Rightarrow> autodetect_rule \<Rightarrow> string \<Rightarrow> string \<Rightarrow> autodetect_error list" where
  "unmatched_errors env rule system root =
     (if \<not> flag rule ''fail_on_unmatched_markdown'' then []
      else concat (map (\<lambda>mf.
        case ae_rel_to env root mf of
          None \<Rightarrow> []
        | Some rel_to_root \<Rightarrow>
            if list_ex (fnmatch rel_to_root) (used_patterns rule) then []
            else (case ae_rel env mf of
                    None \<Rightarrow> []
                  | Some rel \<Rightarrow> if rel = [] then [] else [UnmatchedMarkdown system rel]))
        (iter_markdown_files env root)))"

definition none_if_empty :: "'a list option \<Rightarrow> 'a list option" where
  "none_if_empty x = (case x of Some (y # ys) \<Rightarrow> Some (y # ys) | _ \<Rightarrow> None)"

definition rule_codebase :: "ad_env \<Rightarrow> string \<Rightarrow> string \<Rightarrow> string \<Rightarrow> codebase_entry \<Rightarrow> codebase_entry list" where
  "rule_codebase env system system_root parent_root cb =
     (case ae_rel env (resolve_path env (substitute system system_root parent_root (cb_path cb))) of
        None \<Rightarrow> []
      | Some rel \<Rightarrow>
          if rel_visible env rel
          then [\<lparr>cb_path = rel, cb_extensions = cb_extensions cb, cb_name = cb_name cb,
                 cb_single = none_if_empty (cb_single cb), cb_multi = none_if_empty (cb_multi cb)\<rparr>]
          else [])"

record applied =
  ap_arts :: "artifact list"
  ap_code :: "codebase_entry list"
  ap_root :: string
  ap_rules :: "autodetect_rule list"
  ap_errors :: "autodetect_error list"

definition apply_rule :: "ad_env \<Rightarrow> system_node \<Rightarrow> autodetect_rule \<Rightarrow> string \<Rightarrow> string option \<Rightarrow> applied" where
  "apply_rule env node rule parent_root override =
     (let system_root = (case override of
            Some r \<Rightarrow> r
          | None \<Rightarrow> substitute (sn_slug node) [] parent_root (str_or (ad_system_root rule) ''{project_root}''));
          root = resolve_path env (substitute (sn_slug node) system_root parent_root
                   (str_or (ad_artifacts_root rule) ''{system_root}''));
          res = map (rule_artifacts env rule (str_or (ad_kit rule) (sn_kit node)) (sn_slug node) root) (ad_artifacts rule)
      in \<lparr>ap_arts = concat (map fst res),
          ap_code = concat (map (rule_codebase env (sn_slug node) system_root parent_root) (ad_codebase rule)),
          ap_root = system_root, ap_rules = ad_children rule,
          ap_errors = concat (map snd res) @ unmatched_errors env rule (sn_slug node) root\<rparr>)"

subsection \<open>Merging what was found\<close>

definition by_path :: "('a \<Rightarrow> string) \<Rightarrow> 'a list \<Rightarrow> (string \<times> 'a) list" where
  "by_path f xs = foldl (\<lambda>d x. dset (normalize_path (f x)) x d) [] xs"

fun merge_artifacts :: "(string \<times> artifact) list \<Rightarrow> artifact list \<Rightarrow> artifact list
    \<Rightarrow> artifact list \<times> autodetect_error list" where
  "merge_artifacts existing arts [] = (arts, [])"
| "merge_artifacts existing arts (da # das) =
     (case dget existing (normalize_path (a_path da)) of
        Some a \<Rightarrow>
          (let (arts', errs) = merge_artifacts existing arts das
           in (arts', (if a_kind a \<noteq> a_kind da then [KindConflict (a_path da) (a_kind a) (a_kind da)] else []) @ errs))
      | None \<Rightarrow> merge_artifacts (dset (normalize_path (a_path da)) da existing) (arts @ [da]) das)"

fun merge_codebase :: "(string \<times> codebase_entry) list \<Rightarrow> codebase_entry list \<Rightarrow> codebase_entry list
    \<Rightarrow> codebase_entry list" where
  "merge_codebase existing cbs [] = cbs"
| "merge_codebase existing cbs (dc # dcs) =
     (case dget existing (normalize_path (cb_path dc)) of
        Some _ \<Rightarrow> merge_codebase existing cbs dcs
      | None \<Rightarrow> merge_codebase (dset (normalize_path (cb_path dc)) dc existing) (cbs @ [dc]) dcs)"

text \<open>
  The source builds the dictionary of a node's own entries once and extends it with the entries,
  so it always lists the entries the node has.
\<close>

definition add_found :: "system_node \<Rightarrow> applied \<Rightarrow> system_node \<times> autodetect_error list" where
  "add_found node ap =
     (let (arts, errs) = merge_artifacts (by_path a_path (sn_artifacts node)) (sn_artifacts node) (ap_arts ap)
      in (with_entries node arts (merge_codebase (by_path cb_path (sn_codebase node)) (sn_codebase node) (ap_code ap)), errs))"

subsection \<open>The slug of a discovered system\<close>

definition slugs_prefix :: "string list \<Rightarrow> string" where
  "slugs_prefix slugs = join_with ''-'' (rev (filter (\<lambda>s. s \<noteq> []) slugs))"

definition node_def_ids :: "ad_env \<Rightarrow> system_node \<Rightarrow> string list" where
  "node_def_ids env n =
     concat (map (\<lambda>a. map h_id (filter (\<lambda>h. h_type h = Definition \<and> h_id h \<noteq> [])
       (scan_cpt_ids (ae_fs env) (resolve_path env (a_path a))))) (sn_artifacts n))"

definition candidates :: "string list \<Rightarrow> string \<Rightarrow> string list \<Rightarrow> string list" where
  "candidates ids prefix tokens = remdups (concat (map (\<lambda>i. extract_system_slug_candidates i prefix tokens) ids))"

definition detect_slug :: "ad_env \<Rightarrow> string \<Rightarrow> string \<Rightarrow> system_node \<Rightarrow> string \<times> autodetect_error list" where
  "detect_slug env kit_id parent_prefix child =
     (let slug = sn_slug child; name = sn_name child;
          tokens = (case ae_kind_tokens env of None \<Rightarrow> [] | Some f \<Rightarrow> f kit_id);
          ids = node_def_ids env child;
          child_slugs = candidates ids parent_prefix tokens; full = candidates ids [] tokens
      in if tokens = [] then (slug, [])
         else if child_slugs \<noteq> []
         then (if 1 < length full then (slug, [MixedPrefixes name slug parent_prefix (sorted_strs full)])
               else (case child_slugs of
                       [s] \<Rightarrow> (s, [])
                     | _ \<Rightarrow> (slug, [MixedSlugs name slug parent_prefix (sorted_strs child_slugs)])))
         else if ids \<noteq> []
         then (if 1 < length full then (slug, [MixedPrefixes name slug parent_prefix (sorted_strs full)])
               else (case full of
                       [s] \<Rightarrow> if parent_prefix \<noteq> [] then (slug, [MissingParentPrefix name slug parent_prefix s]) else (s, [])
                     | _ \<Rightarrow> (slug, [NoSystem name slug parent_prefix])))
         else (slug, []))"

subsection \<open>Expanding a node\<close>

type_synonym inherited = "(autodetect_rule \<times> string) list"
type_synonym expander = "string list \<Rightarrow> system_node \<Rightarrow> inherited \<Rightarrow> (system_node \<times> autodetect_error list) option"

record exp_st =
  es_node :: system_node
  es_errors :: "autodetect_error list"
  es_next :: inherited
  es_processed :: "string list"

fun fold_opt :: "('s \<Rightarrow> 'x \<Rightarrow> 's option) \<Rightarrow> 's \<Rightarrow> 'x list \<Rightarrow> 's option" where
  "fold_opt f s [] = Some s"
| "fold_opt f s (x # xs) = (case f s x of None \<Rightarrow> None | Some s' \<Rightarrow> fold_opt f s' xs)"

definition prepare_child :: "ad_env \<Rightarrow> string list \<Rightarrow> autodetect_rule \<Rightarrow> system_node \<Rightarrow> applied \<Rightarrow> system_node
    \<Rightarrow> system_node \<times> autodetect_error list" where
  "prepare_child env anc rule node ap child =
     (let (child', e1) = add_found child ap;
          (slug, e2) = detect_slug env (str_or (ad_kit rule) (sn_kit node)) (slugs_prefix (sn_slug node # anc)) child'
      in (with_slug child' slug, ap_errors ap @ e1 @ e2))"

definition expand_child :: "ad_env \<Rightarrow> expander \<Rightarrow> string list \<Rightarrow> autodetect_rule \<Rightarrow> string \<Rightarrow> exp_st \<Rightarrow> nat \<times> string
    \<Rightarrow> exp_st option" where
  "expand_child env rec anc rule parent_root st found =
     (let node = es_node st; child = sn_children node ! fst found;
          ap = apply_rule env child rule parent_root (Some (snd found));
          (child', errs) = prepare_child env anc rule node ap child
      in case rec (sn_slug node # anc) child' (map (\<lambda>cr. (cr, ap_root ap)) (ap_rules ap)) of
           None \<Rightarrow> None
         | Some (child'', errs') \<Rightarrow>
             Some (st\<lparr>es_node := with_children node ((sn_children node)[fst found := child'']),
                      es_errors := es_errors st @ errs @ errs',
                      es_processed := es_processed st @ [normalize_path (sn_slug child'')]\<rparr>))"

definition rule_step :: "ad_env \<Rightarrow> expander \<Rightarrow> string list \<Rightarrow> exp_st \<Rightarrow> autodetect_rule \<times> string \<Rightarrow> exp_st option" where
  "rule_step env rec anc st r =
     (let (rule, parent_root) = r; node = es_node st
      in if is_discovery rule
         then (let (children, found) = discover_child_system_roots env node rule parent_root
               in fold_opt (expand_child env rec anc rule parent_root) (st\<lparr>es_node := with_children node children\<rparr>) found)
         else (let ap = apply_rule env node rule parent_root None; (node', errs) = add_found node ap
               in Some (st\<lparr>es_node := node', es_errors := es_errors st @ ap_errors ap @ errs,
                           es_next := es_next st @ map (\<lambda>cr. (cr, ap_root ap)) (ap_rules ap)\<rparr>)))"

definition child_step :: "expander \<Rightarrow> string list \<Rightarrow> inherited \<Rightarrow> string list
    \<Rightarrow> system_node \<times> autodetect_error list \<Rightarrow> nat \<Rightarrow> (system_node \<times> autodetect_error list) option" where
  "child_step rec anc inherit processed st i =
     (let (node, errs) = st; child = sn_children node ! i
      in if normalize_path (sn_slug child) \<in> set processed then Some st
         else (case rec (sn_slug node # anc) child inherit of
                 None \<Rightarrow> None
               | Some (child', errs') \<Rightarrow> Some (with_children node ((sn_children node)[i := child']), errs @ errs')))"

definition effective_rules :: "ad_env \<Rightarrow> system_node \<Rightarrow> inherited \<Rightarrow> inherited" where
  "effective_rules env node inh =
     inh @ map (\<lambda>r. (r, case inh of [] \<Rightarrow> ae_root env | x # _ \<Rightarrow> snd x)) (sn_autodetect node)"

primrec expand_node :: "ad_env \<Rightarrow> nat \<Rightarrow> expander" where
  "expand_node env 0 = (\<lambda>anc node inh. None)"
| "expand_node env (Suc n) = (\<lambda>anc node inh.
     case fold_opt (rule_step env (expand_node env n) anc)
            \<lparr>es_node = node, es_errors = [], es_next = [], es_processed = []\<rparr> (effective_rules env node inh) of
       None \<Rightarrow> None
     | Some st \<Rightarrow>
         fold_opt (child_step (expand_node env n) anc (es_next st) (es_processed st)) (es_node st, es_errors st)
           [0..<length (sn_children (es_node st))])"

definition expand_system :: "ad_env \<Rightarrow> nat \<Rightarrow> system_node list \<times> autodetect_error list \<Rightarrow> system_node
    \<Rightarrow> (system_node list \<times> autodetect_error list) option" where
  "expand_system env fuel st n =
     (case expand_node env fuel [] n [] of
        None \<Rightarrow> None
      | Some (n', errs) \<Rightarrow> Some (fst st @ [n'], snd st @ errs))"

text \<open>The depth that the tree can reach bounds the depth of the recursion.\<close>

fun rule_height :: "autodetect_rule \<Rightarrow> nat" where
  "rule_height (AutodetectRule kt sr ar al arts cbs va children) = Suc (fold max (map rule_height children) 0)"

definition rules_height :: "autodetect_rule list \<Rightarrow> nat" where
  "rules_height rs = fold max (map rule_height rs) 0"

fun node_depth :: "system_node \<Rightarrow> nat" where
  "node_depth (SystemNode nm sl kt arts cbs children rules) =
     Suc (max (rules_height rules) (fold max (map node_depth children) 0))"

definition expand_fuel :: "system_node list \<Rightarrow> nat" where
  "expand_fuel systems = fold max (map node_depth systems) 1"

definition expand_autodetect :: "ad_env \<Rightarrow> artifacts_meta \<Rightarrow> (artifacts_meta \<times> autodetect_error list) option" where
  "expand_autodetect env m =
     (let env = env\<lparr>ae_patterns := am_patterns m, ae_root := am_project_root m\<rparr>
      in case fold_opt (expand_system env (expand_fuel (am_systems m))) ([], []) (am_systems m) of
           None \<Rightarrow> None
         | Some (systems, errs) \<Rightarrow> Some (rebuild_indices (m\<lparr>am_systems := systems\<rparr>), errs))"

end
