(* ===== verification/Manifest.thy ===== *)
theory Manifest
  imports Py_Values
begin

section \<open>Kit manifests (\<open>utils/manifest.py\<close>)\<close>

text \<open>
  A kit may come with a \<open>manifest.toml\<close> that declares the resources to install. The loader checks
  the shape of the data and reports every defect; \<open>validate_manifest\<close> checks the declared
  resources against the kit's files. The messages are values of a type. The result of the TOML
  loader is an argument, \<open>None\<close> when there is no file, and so is what the file system says about
  a path inside the kit.
\<close>

record manifest_resource =
  mr_id :: string
  mr_source :: string
  mr_default_path :: string
  mr_type :: string
  mr_description :: string
  mr_user_modifiable :: bool

record manifest =
  mf_version :: string
  mf_root :: string
  mf_user_modifiable :: bool
  mf_resources :: "manifest_resource list"

datatype schema_error =
    NoManifestSection
  | BadVersion
  | BadRoot
  | BadUserModifiable
  | NoResources
  | NotATable nat
  | NoId nat
  | BadId nat string
  | NoSource nat
  | NoDefaultPath nat
  | BadType nat string
  | BadDescription nat
  | BadResourceModifiable nat

datatype manifest_error =
    InvalidToml string
  | InvalidSchema "schema_error list"

subsection \<open>The shape of the data\<close>

text \<open>\<open>isinstance(v, str) and v.strip()\<close>\<close>

definition is_text :: "pyobj \<Rightarrow> bool" where
  "is_text v = (case v of PStr s \<Rightarrow> strip s \<noteq> [] | _ \<Rightarrow> False)"

definition is_bool :: "pyobj \<Rightarrow> bool" where
  "is_bool v = (case v of PBool _ \<Rightarrow> True | _ \<Rightarrow> False)"

definition is_str :: "pyobj \<Rightarrow> bool" where
  "is_str v = (case v of PStr _ \<Rightarrow> True | _ \<Rightarrow> False)"

definition id_char :: "char \<Rightarrow> bool" where
  "id_char c = (is_lower_az c \<or> is_digit c \<or> c = CHR ''_'')"

text \<open>
  The source asks that the first character is lower case and that all characters are among
  a-z, 0-9 and the underscore, of which only the letters are lower case.
\<close>

definition valid_id :: "string \<Rightarrow> bool" where
  "valid_id s = (case s of [] \<Rightarrow> False | c # _ \<Rightarrow> is_lower_az c \<and> list_all id_char s)"

definition when_bad :: "bool \<Rightarrow> 'e \<Rightarrow> 'e list" where
  "when_bad b e = (if b then [e] else [])"

definition id_errors_of :: "nat \<Rightarrow> pyobj \<Rightarrow> schema_error list" where
  "id_errors_of idx v =
     (if \<not> is_text v then [NoId idx]
      else (case v of PStr s \<Rightarrow> when_bad (\<not> valid_id s) (BadId idx s) | _ \<Rightarrow> []))"

definition valid_type :: "pyobj \<Rightarrow> bool" where
  "valid_type v = (case v of PStr s \<Rightarrow> s = ''file'' \<or> s = ''directory'' | _ \<Rightarrow> False)"

definition resource_errors :: "nat \<Rightarrow> pyobj \<Rightarrow> schema_error list" where
  "resource_errors idx res =
     (case res of
        PDict r \<Rightarrow>
          id_errors_of idx (pget r ''id'')
          @ when_bad (\<not> is_text (pget r ''source'')) (NoSource idx)
          @ when_bad (\<not> is_text (pget r ''default_path'')) (NoDefaultPath idx)
          @ when_bad (\<not> valid_type (pget r ''type'')) (BadType idx (py_repr (pget r ''type'')))
          @ when_bad (pget r ''description'' \<noteq> PNone \<and> \<not> is_str (pget r ''description'')) (BadDescription idx)
          @ when_bad (pget r ''user_modifiable'' \<noteq> PNone \<and> \<not> is_bool (pget r ''user_modifiable'')) (BadResourceModifiable idx)
      | _ \<Rightarrow> [NotATable idx])"

fun resources_errors :: "nat \<Rightarrow> pyobj list \<Rightarrow> schema_error list" where
  "resources_errors idx [] = []"
| "resources_errors idx (r # rs) = resource_errors idx r @ resources_errors (Suc idx) rs"

definition validate_against_schema :: "(pyobj \<times> pyobj) list \<Rightarrow> schema_error list" where
  "validate_against_schema data =
     (case pget data ''manifest'' of
        PDict m \<Rightarrow>
          when_bad (\<not> is_text (pget m ''version'')) BadVersion
          @ when_bad (pget m ''root'' \<noteq> PNone \<and> \<not> is_text (pget m ''root'')) BadRoot
          @ when_bad (pget m ''user_modifiable'' \<noteq> PNone \<and> \<not> is_bool (pget m ''user_modifiable'')) BadUserModifiable
          @ (case pget data ''resources'' of
               PList (r # rs) \<Rightarrow> resources_errors 0 (r # rs)
             | _ \<Rightarrow> [NoResources])
      | _ \<Rightarrow> [NoManifestSection])"

subsection \<open>Loading\<close>

definition resource_of :: "(pyobj \<times> pyobj) list \<Rightarrow> manifest_resource" where
  "resource_of r =
     \<lparr>mr_id = strip (py_str (pget r ''id'')), mr_source = strip (py_str (pget r ''source'')),
      mr_default_path = strip (py_str (pget r ''default_path'')), mr_type = strip (py_str (pget r ''type'')),
      mr_description = strip (py_str (pget_or r ''description'' (PStr []))),
      mr_user_modifiable = py_truth (pget_or r ''user_modifiable'' (PBool True))\<rparr>"

definition load_manifest :: "(string + (pyobj \<times> pyobj) list) option \<Rightarrow> manifest_error + manifest option" where
  "load_manifest toml =
     (case toml of
        None \<Rightarrow> Inr None
      | Some (Inl e) \<Rightarrow> Inl (InvalidToml e)
      | Some (Inr data) \<Rightarrow>
          (let errs = validate_against_schema data; m = dict_items data ''manifest''
           in if errs \<noteq> [] then Inl (InvalidSchema errs)
              else Inr (Some
                \<lparr>mf_version = strip (py_str (pget m ''version'')),
                 mf_root = strip (py_str (pget_or m ''root'' (PStr ''{cypilot_path}/config/kits/{slug}''))),
                 mf_user_modifiable = py_truth (pget_or m ''user_modifiable'' (PBool True)),
                 mf_resources = map resource_of (dicts_of (list_items data ''resources''))\<rparr>)))"

subsection \<open>Checking the manifest against the kit\<close>

record kit_files =
  kf_exists :: "string \<Rightarrow> bool"
  kf_is_file :: "string \<Rightarrow> bool"
  kf_is_dir :: "string \<Rightarrow> bool"
  kf_below :: "string \<Rightarrow> string list"

datatype kit_error =
    DuplicateId string nat nat
  | SourceMissing string string
  | NotAFile string string
  | NotADirectory string string
  | AbsolutePath string string
  | EscapingPath string string

fun duplicate_ids :: "(string \<times> nat) list \<Rightarrow> nat \<Rightarrow> manifest_resource list \<Rightarrow> kit_error list" where
  "duplicate_ids seen idx [] = []"
| "duplicate_ids seen idx (r # rs) =
     (case dget seen (mr_id r) of
        Some i \<Rightarrow> DuplicateId (mr_id r) i idx # duplicate_ids seen (Suc idx) rs
      | None \<Rightarrow> duplicate_ids (dset (mr_id r) idx seen) (Suc idx) rs)"

definition source_errors :: "kit_files \<Rightarrow> manifest_resource \<Rightarrow> kit_error list" where
  "source_errors kf r =
     (if \<not> kf_exists kf (mr_source r) then [SourceMissing (mr_id r) (mr_source r)]
      else if mr_type r = ''file'' \<and> \<not> kf_is_file kf (mr_source r) then [NotAFile (mr_id r) (mr_source r)]
      else if mr_type r = ''directory'' \<and> \<not> kf_is_dir kf (mr_source r) then [NotADirectory (mr_id r) (mr_source r)]
      else [])"

text \<open>The components of a path other than the empty one and the dot, as \<open>Path(p).as_posix()\<close> keeps them.\<close>

definition path_parts :: "string \<Rightarrow> string list" where
  "path_parts p = filter (\<lambda>c. c \<noteq> [] \<and> c \<noteq> ''.'') (split_on (CHR ''/'') p)"

definition default_path_errors :: "manifest_resource \<Rightarrow> kit_error list" where
  "default_path_errors r =
     (let dp = mr_default_path r
      in when_bad (startswith dp ''/'' \<or> startswith dp [CHR 0x5C]) (AbsolutePath (mr_id r) dp)
         @ when_bad (''..'' \<in> set (path_parts dp)) (EscapingPath (mr_id r) dp))"

definition validate_manifest :: "kit_files \<Rightarrow> manifest \<Rightarrow> kit_error list" where
  "validate_manifest kf m =
     duplicate_ids [] 0 (mf_resources m) @ concat (map (source_errors kf) (mf_resources m))
     @ concat (map default_path_errors (mf_resources m))"

subsection \<open>Where resources are\<close>

text \<open>
  \<open>resolve_resource_bindings\<close>: \<open>core\<close> is the result of the loader on \<open>core.toml\<close>; a file that
  cannot be parsed counts as none. The argument \<open>resolve\<close> joins a path to the adapter directory.
\<close>

definition binding_path :: "pyobj \<Rightarrow> string" where
  "binding_path b =
     (case b of PDict d \<Rightarrow> strip (py_str (pget_or d ''path'' (PStr []))) | PStr s \<Rightarrow> strip s | _ \<Rightarrow> [])"

definition add_binding :: "(string \<Rightarrow> string) \<Rightarrow> (pyobj \<times> string) list \<Rightarrow> pyobj \<times> pyobj \<Rightarrow> (pyobj \<times> string) list" where
  "add_binding resolve res kv =
     (if binding_path (snd kv) = [] then res else dset (fst kv) (resolve (binding_path (snd kv))) res)"

definition resolve_resource_bindings :: "(string + (pyobj \<times> pyobj) list) option \<Rightarrow> string \<Rightarrow> (string \<Rightarrow> string)
    \<Rightarrow> (pyobj \<times> string) list" where
  "resolve_resource_bindings core slug resolve =
     (case core of
        Some (Inr data) \<Rightarrow>
          (case pget (dict_items data ''kits'') slug of
             PDict kit \<Rightarrow> foldl (add_binding resolve) [] (dict_items kit ''resources'')
           | _ \<Rightarrow> [])
      | _ \<Rightarrow> [])"

record resource_info =
  ri_type :: string
  ri_source_base :: string

definition map_resource :: "kit_files \<Rightarrow> (string \<times> string) list \<times> (string \<times> resource_info) list \<Rightarrow> manifest_resource
    \<Rightarrow> (string \<times> string) list \<times> (string \<times> resource_info) list" where
  "map_resource kf st r =
     (let info = dset (mr_id r) \<lparr>ri_type = mr_type r, ri_source_base = mr_source r\<rparr> (snd st)
      in if mr_type r = ''file'' then (dset (mr_source r) (mr_id r) (fst st), info)
         else if mr_type r = ''directory'' \<and> kf_is_dir kf (mr_source r)
         then (foldl (\<lambda>d p. dset p (mr_id r) d) (fst st) (kf_below kf (mr_source r)), info)
         else (fst st, info))"

definition build_source_to_resource_mapping :: "kit_files \<Rightarrow> (string + (pyobj \<times> pyobj) list) option
    \<Rightarrow> manifest_error + (string \<times> string) list \<times> (string \<times> resource_info) list" where
  "build_source_to_resource_mapping kf toml =
     (case load_manifest toml of
        Inl e \<Rightarrow> Inl e
      | Inr None \<Rightarrow> Inr ([], [])
      | Inr (Some m) \<Rightarrow> Inr (foldl (map_resource kf) ([], []) (mf_resources m)))"

end
