(* ===== verification/Toml_Utils.thy ===== *)
theory Toml_Utils
  imports Py_Values Py_Regex
begin

section \<open>TOML helpers (\<open>utils/toml_utils.py\<close>)\<close>

text \<open>
  Merging of configuration dictionaries, configuration embedded in Markdown, and a serializer for
  the values that the program writes. Parsing TOML is the standard library's: \<open>loads\<close> is a
  parameter that returns an error text or a dictionary. Keys of dictionaries are strings.
\<close>

subsection \<open>Merging\<close>

function deep_merge :: "(pyobj \<times> pyobj) list \<Rightarrow> (pyobj \<times> pyobj) list \<Rightarrow> (pyobj \<times> pyobj) list" where
  "deep_merge base [] = base"
| "deep_merge base ((key, val) # override) =
     deep_merge
       (case (map_of base key, val) of
          (Some (PDict b), PDict v) \<Rightarrow> dset key (PDict (deep_merge b v)) base
        | _ \<Rightarrow> dset key val base) override"
  by pat_completeness auto
termination deep_merge
  by (relation "measure (\<lambda>(b, d). dict_size d)") auto

definition TOML_FENCE_RE :: regex where
  "TOML_FENCE_RE = RCat [RLit ''```toml'', RSp, RCls ((=) NL), RGrp ''1'' (RLazy (RCls (\<lambda>_. True))), RLit ''```'']"

definition parse_toml_from_markdown :: "(string \<Rightarrow> string + (pyobj \<times> pyobj) list) \<Rightarrow> string \<Rightarrow> (pyobj \<times> pyobj) list" where
  "parse_toml_from_markdown loads text =
     foldl (\<lambda>merged m. case loads (grp_str m ''1'') of Inl _ \<Rightarrow> merged | Inr data \<Rightarrow> deep_merge merged data) []
       (re_finditer TOML_FENCE_RE text)"

subsection \<open>Writing\<close>

datatype toml_error = UnsupportedType string

definition bare_char :: "char \<Rightarrow> bool" where
  "bare_char c = (is_lower_az c \<or> is_upper_az c \<or> is_digit c \<or> c = CHR ''_'' \<or> c = CHR ''-'')"

definition BARE_KEY_RE :: regex where
  "BARE_KEY_RE = RCat [RPlus (RCls bare_char), REnd]"

definition quote_key :: "string \<Rightarrow> string" where
  "quote_key key = (if re_match BARE_KEY_RE key \<noteq> None then key else [CHR 0x22] @ key @ [CHR 0x22])"

definition join_prefix :: "string list \<Rightarrow> string" where
  "join_prefix parts = join_with ''.'' (map quote_key parts)"

definition escape_str :: "string \<Rightarrow> string" where
  "escape_str s = replace_all [CHR 0x22] [CHR 0x5C, CHR 0x22] (replace_all [CHR 0x5C] [CHR 0x5C, CHR 0x5C] s)"

fun seq_results :: "('e + 'a) list \<Rightarrow> 'e + 'a list" where
  "seq_results [] = Inr []"
| "seq_results (Inl e # xs) = Inl e"
| "seq_results (Inr x # xs) = (case seq_results xs of Inl e \<Rightarrow> Inl e | Inr ys \<Rightarrow> Inr (x # ys))"

function format_value :: "pyobj \<Rightarrow> toml_error + string" where
  "format_value (PBool b) = Inr (if b then ''true'' else ''false'')"
| "format_value (PInt i) = Inr (int_str i)"
| "format_value (PStr s) = Inr ([CHR 0x22] @ escape_str s @ [CHR 0x22])"
| "format_value (PList vs) =
     (case seq_results (map format_value vs) of
        Inl e \<Rightarrow> Inl e
      | Inr items \<Rightarrow> Inr (''['' @ join_with '', '' items @ '']''))"
| "format_value PNone = Inl (UnsupportedType ''NoneType'')"
| "format_value (PDict d) = Inl (UnsupportedType ''dict'')"
| "format_value (POther t s r b) = Inl (UnsupportedType t)"
  by pat_completeness auto
termination format_value
  by (relation "measure size") (auto simp: less_Suc_eq_le intro: size_list_estimation')

definition format_kv :: "string \<Rightarrow> pyobj \<Rightarrow> toml_error + string" where
  "format_kv key v = (case format_value v of Inl e \<Rightarrow> Inl e | Inr s \<Rightarrow> Inr (quote_key key @ '' = '' @ s))"

definition is_dict :: "pyobj \<Rightarrow> bool" where
  "is_dict v = (case v of PDict _ \<Rightarrow> True | _ \<Rightarrow> False)"

definition is_array_of_tables :: "pyobj \<Rightarrow> bool" where
  "is_array_of_tables v = (case v of PList vs \<Rightarrow> vs \<noteq> [] \<and> list_all is_dict vs | _ \<Rightarrow> False)"

text \<open>The key of an item; TOML and JSON dictionaries have string keys only.\<close>

definition key_str :: "pyobj \<Rightarrow> string" where
  "key_str k = (case k of PStr s \<Rightarrow> s | _ \<Rightarrow> py_str k)"

definition scalar_lines :: "(pyobj \<times> pyobj) list \<Rightarrow> toml_error + string list" where
  "scalar_lines data =
     (let items = filter (\<lambda>(k, v). \<not> is_dict v \<and> \<not> is_array_of_tables v) data
      in case seq_results (map (\<lambda>(k, v). format_kv (key_str k) v) items) of
           Inl e \<Rightarrow> Inl e
         | Inr ls \<Rightarrow> Inr (if ls = [] then [] else ls @ [[]]))"

definition concat_results :: "('e + 'a list) list \<Rightarrow> 'e + 'a list" where
  "concat_results xs = map_sum id concat (seq_results xs)"

lemma entry_size: "(k, v) \<in> set d \<Longrightarrow> size v < dict_size d"
  by (induction d) auto

lemma sub_table_size: "(k, PDict d) \<in> set data \<Longrightarrow> dict_size d < dict_size data"
  by (drule entry_size) simp

lemma table_item_size: "(k, PList vs) \<in> set data \<Longrightarrow> c \<in> set (dicts_of vs) \<Longrightarrow> dict_size c < dict_size data"
  by (drule entry_size, drule dicts_of_size) simp

function write_body :: "(pyobj \<times> pyobj) list \<Rightarrow> string list \<Rightarrow> toml_error + string list" where
  "write_body data prefix =
     concat_results
       (scalar_lines data
        # map (\<lambda>(k, v). case v of
            PDict d \<Rightarrow> map_sum id ((#) (''['' @ join_prefix (prefix @ [key_str k]) @ '']'')) (write_body d (prefix @ [key_str k]))
          | _ \<Rightarrow> Inr []) data
        @ map (\<lambda>(k, v). case v of
            PList vs \<Rightarrow>
              if is_array_of_tables v
              then concat_results (map (\<lambda>item. map_sum id ((#) (''[['' @ join_prefix (prefix @ [key_str k]) @ '']]''))
                     (write_body item (prefix @ [key_str k]))) (dicts_of vs))
              else Inr []
          | _ \<Rightarrow> Inr []) data)"
  by pat_completeness auto
termination write_body
  by (relation "measure (\<lambda>(d, p). dict_size d)") (auto intro: sub_table_size table_item_size)

declare write_body.simps [simp del]

text \<open>For evaluation the equation is split, so that it is only used on a known dictionary.\<close>

lemma write_body_code [code]:
  "write_body [] prefix = Inr []"
  "write_body (kv # rest) prefix =
     (let data = kv # rest
      in concat_results
       (scalar_lines data
        # map (\<lambda>(k, v). case v of
            PDict d \<Rightarrow> map_sum id ((#) (''['' @ join_prefix (prefix @ [key_str k]) @ '']'')) (write_body d (prefix @ [key_str k]))
          | _ \<Rightarrow> Inr []) data
        @ map (\<lambda>(k, v). case v of
            PList vs \<Rightarrow>
              if is_array_of_tables v
              then concat_results (map (\<lambda>item. map_sum id ((#) (''[['' @ join_prefix (prefix @ [key_str k]) @ '']]''))
                     (write_body item (prefix @ [key_str k]))) (dicts_of vs))
              else Inr []
          | _ \<Rightarrow> Inr []) data))"
  by (simp_all add: write_body.simps [of "[]"] write_body.simps [of "kv # rest"] scalar_lines_def concat_results_def)

definition header_lines :: "string \<Rightarrow> string list" where
  "header_lines comment = (if comment = [] then [] else map (\<lambda>cl. if cl = [] then ''#'' else ''# '' @ cl) (splitlines comment) @ [[]])"

definition dumps :: "(pyobj \<times> pyobj) list \<Rightarrow> string \<Rightarrow> toml_error + string" where
  "dumps data comment =
     (case write_body data [] of
        Inl e \<Rightarrow> Inl e
      | Inr ls \<Rightarrow>
          Inr (join_with [NL] (rev (dropWhile (\<lambda>l. l = []) (rev (header_lines comment @ ls)))) @ [NL]))"

end
