(* ===== verification/Project_Files.thy ===== *)
theory Project_Files
  imports Toml_Utils
begin

section \<open>Finding the project and its configuration (\<open>utils/files.py\<close>)\<close>

text \<open>
  An absolute, resolved path is the list of its components from the root, so that the parent of a
  path is \<open>butlast\<close>. The file system is a record of parameters: contents of readable files, the
  kinds of files, the entries of a directory, \<open>(p / s).resolve()\<close> for a relative text \<open>s\<close>, and the
  loaders of TOML and JSON. A file that is not UTF-8 counts as one without a text: where the source catches
  \<open>OSError\<close> only (\<open>find_project_root\<close> and \<open>read_cypilot_var\<close>) the model assumes that \<open>AGENTS.md\<close> is UTF-8.
\<close>

type_synonym path = "string list"

record proj_world =
  pw_text :: "path \<Rightarrow> string option"
  pw_is_file :: "path \<Rightarrow> bool"
  pw_is_dir :: "path \<Rightarrow> bool"
  pw_exists :: "path \<Rightarrow> bool"
  pw_iterdir :: "path \<Rightarrow> path list option"
  pw_join :: "path \<Rightarrow> string \<Rightarrow> path"
  pw_loads :: "string \<Rightarrow> string + (pyobj \<times> pyobj) list"
  pw_load :: "path \<Rightarrow> string + pyobj"

definition MARKER_START :: string where
  "MARKER_START = ''<!-- @cpt:root-agents -->''"

subsection \<open>The project root\<close>

definition marks_root :: "proj_world \<Rightarrow> path \<Rightarrow> bool" where
  "marks_root w p =
     (pw_is_file w (p @ [''AGENTS.md'']) \<and> has_sub (take 512 (str_or_empty (pw_text w (p @ [''AGENTS.md''])))) MARKER_START
      \<or> pw_exists w (p @ [''.git'']))"

fun root_go :: "proj_world \<Rightarrow> nat \<Rightarrow> path \<Rightarrow> path option" where
  "root_go w 0 cur = None"
| "root_go w (Suc n) cur =
     (if marks_root w cur then Some cur else if cur = [] then None else root_go w n (butlast cur))"

definition find_project_root :: "proj_world \<Rightarrow> path \<Rightarrow> path option" where
  "find_project_root w start = root_go w 25 start"

subsection \<open>Configuration\<close>

definition cfg_get_str :: "pyobj \<Rightarrow> string list \<Rightarrow> string option" where
  "cfg_get_str cfg keys =
     (case cfg of
        PDict d \<Rightarrow>
          map_option (\<lambda>k. strip (py_str (pget d k)))
            (find (\<lambda>k. case pget d k of PStr s \<Rightarrow> strip s \<noteq> [] | _ \<Rightarrow> False) keys)
      | _ \<Rightarrow> None)"

definition read_cypilot_var :: "proj_world \<Rightarrow> path \<Rightarrow> string option" where
  "read_cypilot_var w root =
     (if \<not> pw_is_file w (root @ [''AGENTS.md'']) then None
      else (case pw_text w (root @ [''AGENTS.md'']) of
              None \<Rightarrow> None
            | Some content \<Rightarrow>
                if \<not> has_sub content MARKER_START then None
                else
                  (let data = parse_toml_from_markdown (pw_loads w) content;
                       v = (if py_truth (pget data ''cypilot_path'') then pget data ''cypilot_path'' else pget data ''cypilot'')
                   in case v of PStr s \<Rightarrow> if strip s \<noteq> [] then Some (strip s) else None | _ \<Rightarrow> None)))"

definition load_project_config :: "proj_world \<Rightarrow> path \<Rightarrow> pyobj option" where
  "load_project_config w root =
     (case read_cypilot_var w root of
        None \<Rightarrow> None
      | Some rel \<Rightarrow>
          (let dir = pw_join w root rel; nested = pw_join w dir ''config/core.toml''; flat = pw_join w dir ''core.toml'';
               core = (if pw_is_file w nested then nested else flat)
           in if \<not> pw_is_file w core then None
              else (case pw_load w core of Inl _ \<Rightarrow> None | Inr d \<Rightarrow> Some d)))"

subsection \<open>The Cypilot directory\<close>

definition SKIP_DIRS :: "string list" where
  "SKIP_DIRS = [''.git'', ''node_modules'', ''venv'', ''__pycache__'', ''.pytest_cache'', ''target'', ''build'', ''dist'',
     ''.idea'', ''.vscode'', ''vendor'', ''coverage'', ''.tox'', ''.mypy_cache'', ''.eggs'']"

definition ADAPTER_MARKERS :: "string list" where
  "ADAPTER_MARKERS = [''# Cypilot Adapter:'', ''.cypilot-adapter'', ''cypilot-adapter'', ''## Cypilot Adapter'',
     ''This is an Cypilot adapter'', ''adapter for'']"

definition has_rules_dir :: "proj_world \<Rightarrow> path \<Rightarrow> bool" where
  "has_rules_dir w p =
     (pw_is_dir w (p @ [''config'', ''rules'']) \<or> pw_is_dir w (p @ [''rules'']) \<or> pw_is_dir w (p @ [''specs'']))"

text \<open>
  With \<open>**Extends**:\<close> and \<open>AGENTS.md\<close> in the text the source returns true whether or not the
  extended path leads to the given core, so that argument has no effect and is left out.
\<close>

definition is_adapter_directory :: "proj_world \<Rightarrow> path \<Rightarrow> bool" where
  "is_adapter_directory w p =
     (pw_exists w (p @ [''AGENTS.md''])
      \<and> (has_rules_dir w p
         \<or> (case pw_text w (p @ [''AGENTS.md'']) of
              None \<Rightarrow> False
            | Some content \<Rightarrow>
                has_sub content ''**Extends**:'' \<and> has_sub content ''AGENTS.md''
                \<or> list_ex (\<lambda>m. has_sub (lower content) (lower m)) ADAPTER_MARKERS
                  \<and> (has_sub (lower content) ''rule'' \<or> has_sub (lower content) ''spec''))))"

fun first_some :: "('a \<Rightarrow> 'b option) \<Rightarrow> 'a list \<Rightarrow> 'b option" where
  "first_some f [] = None"
| "first_some f (x # xs) = (case f x of Some y \<Rightarrow> Some y | None \<Rightarrow> first_some f xs)"

definition searched :: "proj_world \<Rightarrow> path \<Rightarrow> bool" where
  "searched w e = (pw_is_dir w e \<and> last e \<notin> set SKIP_DIRS)"

primrec search_recursive :: "proj_world \<Rightarrow> nat \<Rightarrow> path \<Rightarrow> path option" where
  "search_recursive w 0 = (\<lambda>root. None)"
| "search_recursive w (Suc n) = (\<lambda>root.
     case pw_iterdir w root of
       None \<Rightarrow> None
     | Some entries \<Rightarrow>
         (case find (is_adapter_directory w) (filter (searched w) entries) of
            Some e \<Rightarrow> Some e
          | None \<Rightarrow> first_some (search_recursive w n) (filter (searched w) entries)))"

text \<open>The depth runs from 0 to 5, so six levels are searched.\<close>

definition find_cypilot_directory :: "proj_world \<Rightarrow> path \<Rightarrow> path option" where
  "find_cypilot_directory w start =
     (case find_project_root w start of
        None \<Rightarrow> None
      | Some root \<Rightarrow>
          (case read_cypilot_var w root of
             Some rel \<Rightarrow>
               (let dir = pw_join w root rel
                in if pw_is_dir w dir \<and> pw_is_dir w (dir @ [''config'']) then Some dir else None)
           | None \<Rightarrow> search_recursive w 6 root))"

subsection \<open>The raw registry\<close>

datatype registry_error = RegistryMissing path | RegistryUnreadable path string | RegistryNotDict path | RegistryNoLists path

definition registry_file :: "proj_world \<Rightarrow> path \<Rightarrow> path option" where
  "registry_file w dir =
     (let flat = dir @ [''artifacts.toml'']; nested = dir @ [''config'', ''artifacts.toml'']; legacy = dir @ [''artifacts.json'']
      in if pw_is_file w flat then Some flat
         else if pw_is_file w nested then Some nested
         else if pw_is_file w legacy then Some legacy else None)"

definition load_artifacts_registry :: "proj_world \<Rightarrow> path \<Rightarrow> registry_error + (pyobj \<times> pyobj) list" where
  "load_artifacts_registry w dir =
     (case registry_file w dir of
        None \<Rightarrow> Inl (RegistryMissing (dir @ [''artifacts.toml'']))
      | Some p \<Rightarrow>
          (case pw_load w p of
             Inl e \<Rightarrow> Inl (RegistryUnreadable p e)
           | Inr (PDict cfg) \<Rightarrow>
               (case (pget cfg ''systems'', pget cfg ''artifacts'') of
                  (PList _, _) \<Rightarrow> Inr cfg
                | (_, PList _) \<Rightarrow> Inr cfg
                | _ \<Rightarrow> Inl (RegistryNoLists p))
           | Inr _ \<Rightarrow> Inl (RegistryNotDict p)))"

definition iter_registry_entries :: "(pyobj \<times> pyobj) list \<Rightarrow> (pyobj \<times> pyobj) list list" where
  "iter_registry_entries registry = dicts_of (list_items registry ''artifacts'')"

subsection \<open>The core\<close>

definition core_subpath :: "proj_world \<Rightarrow> path \<Rightarrow> path \<Rightarrow> path" where
  "core_subpath w root parts = (if pw_is_dir w (root @ [''.core'']) then root @ [''.core''] @ parts else root @ parts)"

definition config_subpath :: "path \<Rightarrow> path \<Rightarrow> path" where
  "config_subpath root parts = root @ [''config''] @ parts"

definition is_cypilot_root :: "proj_world \<Rightarrow> path \<Rightarrow> bool" where
  "is_cypilot_root w p =
     (let core = p @ [''.core'']
      in pw_is_dir w core \<and> pw_is_dir w (core @ [''requirements'']) \<and> pw_is_dir w (core @ [''workflows''])
         \<or> pw_exists w (p @ [''AGENTS.md'']) \<and> pw_is_dir w (p @ [''requirements'']) \<and> pw_is_dir w (p @ [''workflows'']))"

definition cypilot_root_from_project_config :: "proj_world \<Rightarrow> path \<Rightarrow> path option" where
  "cypilot_root_from_project_config w cwd =
     (case find_project_root w cwd of
        None \<Rightarrow> None
      | Some root \<Rightarrow>
          (case load_project_config w root of
             Some (PDict cfg) \<Rightarrow>
               (case cfg_get_str (pget cfg ''paths'') [''core''] of
                  None \<Rightarrow> None
                | Some core_rel \<Rightarrow>
                    (let core = pw_join w (pw_join w root (str_or_empty (read_cypilot_var w root))) core_rel
                     in if is_cypilot_root w core then Some core else None))
           | _ \<Rightarrow> None))"

fun core_go :: "proj_world \<Rightarrow> nat \<Rightarrow> path \<Rightarrow> path option" where
  "core_go w 0 cur = None"
| "core_go w (Suc n) cur =
     (if is_cypilot_root w cur then Some cur else if cur = [] then None else core_go w n (butlast cur))"

text \<open>\<open>here\<close> is the path of the module \<open>files.py\<close>.\<close>

definition cypilot_root_from_this_file :: "proj_world \<Rightarrow> path \<Rightarrow> path \<Rightarrow> path" where
  "cypilot_root_from_this_file w cwd here =
     (case cypilot_root_from_project_config w cwd of
        Some p \<Rightarrow> p
      | None \<Rightarrow>
          (case core_go w 10 (take (length here - 4) here) of
             Some p \<Rightarrow> p
           | None \<Rightarrow> take (length here - 7) here))"

datatype text_error = FileNotFound path | NotRegular path | ReadFailed path

definition load_text :: "proj_world \<Rightarrow> path \<Rightarrow> string \<times> text_error option" where
  "load_text w p =
     (if \<not> pw_exists w p then ([], Some (FileNotFound p))
      else if \<not> pw_is_file w p then ([], Some (NotRegular p))
      else (case pw_text w p of None \<Rightarrow> ([], Some (ReadFailed p)) | Some t \<Rightarrow> (t, None)))"

end
