(* ===== verification/Context_Load.thy ===== *)
theory Context_Load
  imports Validate_Run Autodetect Manifest Project_Files
begin

section \<open>Loading the context (\<open>utils/context.py\<close>)\<close>

text \<open>
  \<open>CypilotContext.load\<close> finds the Cypilot directory, loads the registry, loads the constraints of
  every kit, expands the autodetect rules with call-backs into those constraints, and collects
  the system prefixes and the errors. The parameters are the file systems of the components it
  calls: the discovery of the project, the loader of the registry, the resolution of paths, the
  TOML loader on a kit's \<open>constraints.toml\<close> and on \<open>core.toml\<close>, and, for given roots, what
  autodetection and validation see.
\<close>

record load_env =
  le_proj :: proj_world
  le_ld :: "string \<Rightarrow> (string + pyobj) option"
  le_is_dir :: "string \<Rightarrow> bool"
  le_is_file :: "string \<Rightarrow> bool"
  le_resolve :: "string \<Rightarrow> string \<Rightarrow> string"
  le_parent :: "string \<Rightarrow> string"
  le_constraints :: "string \<Rightarrow> (string + (pyobj \<times> pyobj) list) option"
  le_core :: "string \<Rightarrow> (string + (pyobj \<times> pyobj) list) option"
  le_autodetect :: "string \<Rightarrow> string \<Rightarrow> ad_env"
  le_world :: "string \<Rightarrow> world"

definition path_str :: "path \<Rightarrow> string" where
  "path_str p = ''/'' @ join_with ''/'' p"

subsection \<open>Kits\<close>

definition kit_root :: "load_env \<Rightarrow> string \<Rightarrow> string \<Rightarrow> kit \<Rightarrow> string" where
  "kit_root env adapter project k =
     (let p = strip_by (cOne (CHR ''/'')) (strip (k_path k)); r = le_resolve env adapter p
      in if le_is_dir env r then r else le_resolve env project p)"

definition kit_bindings :: "load_env \<Rightarrow> string \<Rightarrow> string \<Rightarrow> (pyobj \<times> string) list" where
  "kit_bindings env adapter kit_id =
     (let cfg = adapter @ ''/config''; dir = (if le_is_dir env cfg then cfg else adapter)
      in resolve_resource_bindings (le_core env dir) kit_id (le_resolve env adapter))"

definition constraints_root :: "load_env \<Rightarrow> (pyobj \<times> string) list \<Rightarrow> string \<Rightarrow> string" where
  "constraints_root env bindings root =
     (case dget bindings (PStr ''constraints'') of
        Some p \<Rightarrow> if le_is_file env p then le_parent env p else root
      | None \<Rightarrow> root)"

definition load_kit_constraints :: "rx \<Rightarrow> load_env \<Rightarrow> (pyobj \<times> string) list \<Rightarrow> string \<Rightarrow> kit_constraints option \<times> string list" where
  "load_kit_constraints rx env bindings root =
     (let croot = constraints_root env bindings root
      in if le_is_dir env croot then load_constraints_toml rx (le_constraints env croot)
         else if le_is_dir env root then load_constraints_toml rx (le_constraints env root)
         else (None, []))"

definition load_kit :: "rx \<Rightarrow> load_env \<Rightarrow> string \<Rightarrow> string \<Rightarrow> (string \<times> loaded_kit) list \<times> ctx_error list
    \<Rightarrow> pyobj \<times> kit \<Rightarrow> (string \<times> loaded_kit) list \<times> ctx_error list" where
  "load_kit rx env adapter project st entry =
     (let (key, k) = entry; kit_id = key_str key; root = kit_root env adapter project k;
          (c, errs) = load_kit_constraints rx env (kit_bindings env adapter kit_id) root
      in if \<not> is_cypilot_format k then st
         else (dset kit_id \<lparr>lk_kit = k, lk_constraints = c\<rparr> (fst st),
               snd st @ (if errs = [] then []
                 else [\<lparr>ce_type = ''constraints'', ce_path = le_resolve env root ''constraints.toml''\<rparr>])))"

definition load_kits :: "rx \<Rightarrow> load_env \<Rightarrow> string \<Rightarrow> string \<Rightarrow> artifacts_meta \<Rightarrow> (string \<times> loaded_kit) list \<times> ctx_error list" where
  "load_kits rx env adapter project m = foldl (load_kit rx env adapter project) ([], []) (am_kits m)"

subsection \<open>Call-backs for autodetection\<close>

definition is_kind_registered :: "(string \<times> loaded_kit) list \<Rightarrow> string \<Rightarrow> string \<Rightarrow> bool" where
  "is_kind_registered kits kit_id kind =
     (case dget kits kit_id of
        None \<Rightarrow> False
      | Some lk \<Rightarrow> (case lk_constraints lk of None \<Rightarrow> False | Some by_kind \<Rightarrow> dhas by_kind kind))"

definition get_id_kind_tokens :: "(string \<times> loaded_kit) list \<Rightarrow> string \<Rightarrow> string list" where
  "get_id_kind_tokens kits kit_id =
     (case dget kits kit_id of
        None \<Rightarrow> []
      | Some lk \<Rightarrow>
          (case lk_constraints lk of
             None \<Rightarrow> []
           | Some by_kind \<Rightarrow>
               remdups (filter (\<lambda>t. t \<noteq> []) (map (\<lambda>ic. strip (ic_kind ic)) (concat (map (\<lambda>(k, kc). kc_defined_id kc) by_kind))))))"

definition get_known_id_kinds :: "(string \<times> loaded_kit) list \<Rightarrow> string list" where
  "get_known_id_kinds kits =
     remdups (concat (map (\<lambda>(k, lk). case lk_constraints lk of
         None \<Rightarrow> []
       | Some by_kind \<Rightarrow>
           map (\<lambda>ic. lower (strip (ic_kind ic)))
             (filter (\<lambda>ic. ic_kind ic \<noteq> []) (concat (map (\<lambda>(k, kc). kc_defined_id kc) by_kind)))) kits))"

subsection \<open>The context\<close>

definition errors_path :: "load_env \<Rightarrow> string \<Rightarrow> string" where
  "errors_path env adapter =
     (let p = adapter @ ''/config/artifacts.toml''
      in if le_is_file env p then le_resolve env adapter ''config/artifacts.toml'' else le_resolve env adapter ''artifacts.toml'')"

definition expand_context :: "load_env \<Rightarrow> string \<Rightarrow> string \<Rightarrow> (string \<times> loaded_kit) list \<Rightarrow> artifacts_meta
    \<Rightarrow> artifacts_meta \<times> ctx_error list" where
  "expand_context env adapter project kits m =
     (let ad = (le_autodetect env adapter project)\<lparr>ae_kind_registered := Some (is_kind_registered kits),
                 ae_kind_tokens := Some (get_id_kind_tokens kits)\<rparr>;
          err = \<lparr>ce_type = ''registry'', ce_path = errors_path env adapter\<rparr>
      in case expand_autodetect ad m of
           None \<Rightarrow> (m, [err])
         | Some (m', errs) \<Rightarrow> (m', map (\<lambda>_. err) errs))"

definition context_at :: "rx \<Rightarrow> load_env \<Rightarrow> string \<Rightarrow> cyp_context option" where
  "context_at rx env adapter =
     (case load_artifacts_meta (le_ld env) adapter of
        Inl _ \<Rightarrow> None
      | Inr m \<Rightarrow>
          (let project = le_resolve env adapter (am_project_root m);
               (kits, kit_errs) = load_kits rx env adapter project m;
               (m', ad_errs) = expand_context env adapter project kits m
           in Some \<lparr>cx_world = le_world env project, cx_meta = m', cx_loaded = kits,
                    cx_systems = get_all_system_prefixes m', cx_errors = kit_errs @ ad_errs\<rparr>))"

definition load_context :: "rx \<Rightarrow> load_env \<Rightarrow> path \<Rightarrow> cyp_context option" where
  "load_context rx env start =
     (case find_cypilot_directory (le_proj env) start of
        None \<Rightarrow> None
      | Some dir \<Rightarrow> context_at rx env (path_str dir))"

text \<open>The context is kept in a global variable and loaded at most once.\<close>

definition ensure_context :: "rx \<Rightarrow> load_env \<Rightarrow> path \<Rightarrow> cyp_context option \<Rightarrow> cyp_context option" where
  "ensure_context rx env start global = (case global of None \<Rightarrow> load_context rx env start | Some _ \<Rightarrow> global)"

end
