(* ===== verification/Autodetect_Facts.thy ===== *)
theory Autodetect_Facts
  imports Autodetect Registry_Facts
begin

section \<open>What autodetection does to the system tree\<close>

text \<open>
  Expansion terminates on every tree, keeps every explicit entry, and adds only entries that the
  ignore rules let through, at paths that no other entry of the same system has. The relation
  \<open>grows\<close> says this of a node and its expansion. The recursive call is an interface: a locale
  states what a step of the expansion relies on, the steps are proved once inside it, and it is
  interpreted on the expansion itself for every amount of fuel.
\<close>

subsection \<open>Bounds\<close>

lemma fold_max_le: "fold max xs b \<le> (k::nat) \<longleftrightarrow> b \<le> k \<and> (\<forall>x \<in> set xs. x \<le> k)"
  by (induction xs arbitrary: b) auto

lemma rules_height_le: "rules_height rs \<le> k \<longleftrightarrow> (\<forall>r \<in> set rs. rule_height r \<le> k)"
  by (simp add: rules_height_def fold_max_le)

lemma rule_height_children: "rule_height r = Suc (rules_height (ad_children r))"
  by (cases r) (simp add: rules_height_def)

lemma node_depth_le:
  "node_depth n \<le> Suc d \<longleftrightarrow> rules_height (sn_autodetect n) \<le> d \<and> (\<forall>c \<in> set (sn_children n). node_depth c \<le> d)"
  by (cases n) (simp add: fold_max_le)

lemma with_children_sel [simp]:
  "sn_children (with_children n cs) = cs" "sn_slug (with_children n cs) = sn_slug n"
  "sn_autodetect (with_children n cs) = sn_autodetect n"
  by (simp_all add: with_children_def)

lemma node_depth_slug [simp]: "node_depth (with_slug n s) = node_depth n"
  by (cases n) (simp add: with_slug_def)

lemma node_depth_pos: "0 < node_depth n"
  by (cases n) simp

definition need :: "system_node \<Rightarrow> inherited \<Rightarrow> nat" where
  "need n inh = max (node_depth n) (Suc (rules_height (map fst inh)))"

lemma need_Suc: obtains d where "need n inh = Suc d"
  using node_depth_pos [of n] by (cases "need n inh") (auto simp: need_def)

subsection \<open>Growth\<close>

definition fresh :: "string list \<Rightarrow> string list \<Rightarrow> bool" where
  "fresh old new \<longleftrightarrow> distinct (map normalize_path new) \<and> normalize_path ` set old \<inter> normalize_path ` set new = {}"

lemma fresh_Nil [simp]: "fresh old []"
  by (simp add: fresh_def)

lemma fresh_append: "fresh old new \<Longrightarrow> fresh (old @ new) rest \<Longrightarrow> fresh old (new @ rest)"
  by (auto simp: fresh_def)

definition empty_node :: "system_node \<Rightarrow> bool" where
  "empty_node n \<longleftrightarrow> sn_artifacts n = [] \<and> sn_codebase n = [] \<and> sn_children n = [] \<and> sn_autodetect n = []"

inductive grows :: "ad_env \<Rightarrow> system_node \<Rightarrow> system_node \<Rightarrow> bool" for env where
  grows_node: "fresh (map a_path arts) (map a_path das) \<Longrightarrow> list_all (\<lambda>a. rel_visible env (a_path a)) das
    \<Longrightarrow> fresh (map cb_path cbs) (map cb_path dcs) \<Longrightarrow> list_all (\<lambda>c. rel_visible env (cb_path c)) dcs
    \<Longrightarrow> list_all empty_node new \<Longrightarrow> list_all2 (grows env) (cs @ new) cs'
    \<Longrightarrow> grows env (SystemNode nm sl kt arts cbs cs rules) (SystemNode nm sl' kt (arts @ das) (cbs @ dcs) cs' rules)"

inductive_cases growsE: "grows env (SystemNode nm sl kt arts cbs cs rules) n'"

lemma grows_refl: "grows env n n"
proof (induction n)
  case (SystemNode nm sl kt arts cbs cs rules)
  have "list_all2 (grows env) (cs @ []) cs" using SystemNode by (simp add: list_all2_same)
  then show ?case using grows_node [of arts "[]" env cbs "[]" "[]" cs cs nm sl kt rules sl] by simp
qed

lemma grows_trans: "grows env n1 n2 \<Longrightarrow> grows env n2 n3 \<Longrightarrow> grows env n1 n3"
proof (induction arbitrary: n3 rule: grows.induct)
  case (grows_node arts das cbs dcs new cs cs' nm sl kt rules sl')
  from grows_node.prems obtain das2 dcs2 new2 cs2 sl2 where
    n3: "n3 = SystemNode nm sl2 kt ((arts @ das) @ das2) ((cbs @ dcs) @ dcs2) cs2 rules" and
    a2: "fresh (map a_path (arts @ das)) (map a_path das2)" "list_all (\<lambda>a. rel_visible env (a_path a)) das2" and
    c2: "fresh (map cb_path (cbs @ dcs)) (map cb_path dcs2)" "list_all (\<lambda>c. rel_visible env (cb_path c)) dcs2" and
    k2: "list_all empty_node new2" "list_all2 (grows env) (cs' @ new2) cs2"
    by (elim growsE) auto
  obtain x y where xy: "cs2 = x @ y" "list_all2 (grows env) cs' x" "list_all2 (grows env) new2 y"
    using k2(2) by (auto simp: list_all2_append1)
  have "list_all2 (grows env) (cs @ new) x"
    using grows_node.IH xy(2)
    by (auto simp: list_all2_conv_all_nth)
  with xy have "list_all2 (grows env) (cs @ (new @ new2)) cs2"
    using list_all2_appendI by force
  then have "grows env (SystemNode nm sl kt arts cbs cs rules)
      (SystemNode nm sl2 kt (arts @ (das @ das2)) (cbs @ (dcs @ dcs2)) cs2 rules)"
    using grows_node.hyps a2 c2 k2(1)
    by (intro grows.grows_node [where new = "new @ new2"]) (auto intro!: fresh_append)
  then show ?case unfolding n3 by simp
qed

lemma grows_keeps: "grows env n n' \<Longrightarrow> sn_name n' = sn_name n \<and> sn_kit n' = sn_kit n \<and> sn_autodetect n' = sn_autodetect n"
  by (induction rule: grows.induct) simp

lemma grows_children:
  assumes "list_all empty_node new" and "list_all2 (grows env) (sn_children n @ new) cs'"
  shows "grows env n (with_children n cs')"
  using assms grows_node [of "sn_artifacts n" "[]" env "sn_codebase n" "[]" new "sn_children n" cs' "sn_name n" "sn_slug n" "sn_kit n"
    "sn_autodetect n" "sn_slug n"]
  by (simp add: with_children_def)

lemma grows_update:
  assumes "i < length (sn_children n)" and "grows env (sn_children n ! i) c"
  shows "grows env n (with_children n ((sn_children n)[i := c]))"
  using assms by (intro grows_children [of "[]"])
    (auto simp: list_all2_conv_all_nth nth_list_update grows_refl)

lemma grows_slug: "grows env n (with_slug n s)"
  using grows_node [of "sn_artifacts n" "[]" env "sn_codebase n" "[]" "[]" "sn_children n" "sn_children n" "sn_name n" "sn_slug n" "sn_kit n"
    "sn_autodetect n" s]
  by (simp add: with_slug_def list_all2_same grows_refl)

subsection \<open>Merging found entries\<close>

lemma map_of_by_path: "map_of (by_path f xs) p \<noteq> None \<longleftrightarrow> p \<in> normalize_path ` f ` set xs"
proof -
  have "map_of (foldl (\<lambda>d x. dset (normalize_path (f x)) x d) d xs) p \<noteq> None
      \<longleftrightarrow> map_of d p \<noteq> None \<or> p \<in> normalize_path ` f ` set xs" for d
    by (induction xs arbitrary: d) auto
  then show ?thesis by (simp add: by_path_def)
qed

definition lists_paths :: "(string \<times> 'a) list \<Rightarrow> ('a \<Rightarrow> string) \<Rightarrow> 'a list \<Rightarrow> bool" where
  "lists_paths ex f xs \<longleftrightarrow> (\<forall>p. map_of ex p \<noteq> None \<longleftrightarrow> p \<in> normalize_path ` f ` set xs)"

lemma lists_paths_None:
  assumes "lists_paths ex f xs" and "map_of ex p = None"
  shows "p \<notin> normalize_path ` set (map f xs)"
  using assms(1) [unfolded lists_paths_def, rule_format, of p] assms(2) by simp

lemma lists_paths_add: "lists_paths ex f xs \<Longrightarrow> lists_paths (dset (normalize_path (f x)) x ex) f (xs @ [x])"
  by (auto simp: lists_paths_def)

lemma fresh_Cons:
  "fresh (old @ [x]) new \<Longrightarrow> normalize_path x \<notin> normalize_path ` set old \<Longrightarrow> fresh old (x # new)"
  by (auto simp: fresh_def)

lemma merge_artifacts_fresh:
  assumes "merge_artifacts ex arts das = (arts', errs)" and "lists_paths ex a_path arts"
  shows "\<exists>new. arts' = arts @ new \<and> fresh (map a_path arts) (map a_path new) \<and> set new \<subseteq> set das"
  using assms
proof (induction ex arts das arbitrary: arts' errs rule: merge_artifacts.induct)
  case (1 ex arts)
  then show ?case by (intro exI [of _ "[]"]) simp
next
  case (2 ex arts da das)
  show ?case
  proof (cases "map_of ex (normalize_path (a_path da))")
    case None
    then have n: "normalize_path (a_path da) \<notin> normalize_path ` set (map a_path arts)"
      using lists_paths_None [OF 2(4)] by simp
    from None 2(3) have m: "merge_artifacts (dset (normalize_path (a_path da)) da ex) (arts @ [da]) das = (arts', errs)" by simp
    from 2(1) [OF None m lists_paths_add [OF 2(4)]] obtain new where new: "arts' = arts @ [da] @ new"
      "fresh (map a_path arts @ [a_path da]) (map a_path new)" "set new \<subseteq> set das" by auto
    then show ?thesis using fresh_Cons [OF new(2) n] by (intro exI [of _ "da # new"]) auto
  next
    case (Some a)
    with 2(3) obtain errs' where "merge_artifacts ex arts das = (arts', errs')" by (auto split: prod.splits)
    from 2(2) [OF Some this 2(4)] show ?thesis by auto
  qed
qed

lemma merge_codebase_fresh:
  assumes "lists_paths ex cb_path cbs"
  shows "\<exists>new. merge_codebase ex cbs dcs = cbs @ new \<and> fresh (map cb_path cbs) (map cb_path new) \<and> set new \<subseteq> set dcs"
  using assms
proof (induction ex cbs dcs rule: merge_codebase.induct)
  case (1 ex cbs)
  then show ?case by simp
next
  case (2 ex cbs dc dcs)
  show ?case
  proof (cases "map_of ex (normalize_path (cb_path dc))")
    case None
    then have n: "normalize_path (cb_path dc) \<notin> normalize_path ` set (map cb_path cbs)"
      using lists_paths_None [OF 2(3)] by simp
    from 2(1) [OF None lists_paths_add [OF 2(3)]] obtain new where
      new: "merge_codebase (dset (normalize_path (cb_path dc)) dc ex) (cbs @ [dc]) dcs = cbs @ [dc] @ new"
      "fresh (map cb_path cbs @ [cb_path dc]) (map cb_path new)" "set new \<subseteq> set dcs" by auto
    then show ?thesis using None fresh_Cons [OF new(2) n] by (intro exI [of _ "dc # new"]) auto
  next
    case (Some a)
    from 2(2) [OF Some 2(3)] show ?thesis using Some by auto
  qed
qed

lemma visible_files_rel: "h \<in> set (visible_files env hits) \<Longrightarrow> \<exists>rel. ae_rel env h = Some rel \<and> rel_visible env rel"
  by (auto simp: visible_files_def split: option.splits)

lemma rule_artifacts_visible:
  assumes "a \<in> set (fst (rule_artifacts env rule kit system root entry))"
  shows "rel_visible env (a_path a)"
proof -
  from assms obtain h ap kind where h: "h \<in> set (glob_files env root (ap_pattern ap))"
    "a \<in> set (fst (hit_artifact env rule kind ap h))"
    by (auto simp: rule_artifacts_def Let_def split: prod.splits if_splits)
  with visible_files_rel [of h env] show ?thesis
    by (auto simp: glob_files_def hit_artifact_def split: if_splits option.splits)
qed

lemma apply_rule_visible:
  "a \<in> set (ap_arts (apply_rule env node rule root ov)) \<Longrightarrow> rel_visible env (a_path a)"
  "c \<in> set (ap_code (apply_rule env node rule root ov)) \<Longrightarrow> rel_visible env (cb_path c)"
  by (auto simp: apply_rule_def Let_def rule_codebase_def dest: rule_artifacts_visible split: option.splits if_splits)

lemma add_found_grows:
  assumes "add_found node (apply_rule env n rule root ov) = (node', errs)"
  shows "grows env node node' \<and> sn_slug node' = sn_slug node \<and> sn_children node' = sn_children node
    \<and> node_depth node' = node_depth node"
proof -
  let ?ap = "apply_rule env n rule root ov"
  obtain arts where m: "merge_artifacts (by_path a_path (sn_artifacts node)) (sn_artifacts node) (ap_arts ?ap) = (arts, errs)"
    and n': "node' = with_entries node arts (merge_codebase (by_path cb_path (sn_codebase node)) (sn_codebase node) (ap_code ?ap))"
    using assms by (auto simp: add_found_def Let_def split: prod.splits)
  have l: "lists_paths (by_path f xs) f xs" for f :: "'a \<Rightarrow> string" and xs
    by (simp add: lists_paths_def map_of_by_path del: not_None_eq)
  from merge_artifacts_fresh [OF m l] obtain das where a: "arts = sn_artifacts node @ das"
    "fresh (map a_path (sn_artifacts node)) (map a_path das)" "set das \<subseteq> set (ap_arts ?ap)" by auto
  obtain dcs where c: "merge_codebase (by_path cb_path (sn_codebase node)) (sn_codebase node) (ap_code ?ap) = sn_codebase node @ dcs"
    "fresh (map cb_path (sn_codebase node)) (map cb_path dcs)" "set dcs \<subseteq> set (ap_code ?ap)"
    using merge_codebase_fresh [of "by_path cb_path (sn_codebase node)" "sn_codebase node" "ap_code ?ap"] l by auto
  have v: "list_all (\<lambda>a. rel_visible env (a_path a)) das" "list_all (\<lambda>c. rel_visible env (cb_path c)) dcs"
    using a(3) c(3) apply_rule_visible by (auto simp: list_all_iff)
  have "grows env (SystemNode (sn_name node) (sn_slug node) (sn_kit node) (sn_artifacts node) (sn_codebase node)
      (sn_children node) (sn_autodetect node)) node'"
    unfolding n' with_entries_def a(1) c(1)
    by (rule grows_node [OF a(2) v(1) c(2) v(2), of "[]"]) (simp_all add: list_all2_same grows_refl)
  then show ?thesis by (cases node) (simp add: n' with_entries_def)
qed

subsection \<open>Discovered systems\<close>

definition new_children :: "system_node list \<Rightarrow> system_node list \<times> (nat \<times> string) list \<Rightarrow> bool" where
  "new_children cs st \<longleftrightarrow> (\<exists>new. fst st = cs @ new \<and> list_all empty_node new) \<and> (\<forall>(i, r) \<in> set (snd st). i < length (fst st))"

lemma discover_hit_new: "new_children cs st \<Longrightarrow> new_children cs (discover_hit env kit st h)"
  by (cases st)
    (force simp: discover_hit_def get_or_create_child_system_def new_children_def empty_node_def Let_def
      split: option.splits if_splits prod.splits)

lemma discover_new: "new_children (sn_children parent) (discover_child_system_roots env parent rule root)"
proof -
  have "new_children cs st \<Longrightarrow> new_children cs (foldl (discover_hit env kit) st hs)" for cs st kit hs
    by (induction hs arbitrary: st) (simp_all add: discover_hit_new)
  moreover have "new_children cs (cs, [])" for cs by (simp add: new_children_def)
  ultimately show ?thesis by (simp add: discover_child_system_roots_def Let_def)
qed

lemma empty_node_depth: "empty_node n \<Longrightarrow> node_depth n = 1"
  by (cases n) (simp add: empty_node_def rules_height_def)

subsection \<open>Folds that may fail\<close>

lemma fold_opt_total:
  assumes "I s" and "\<And>s x. x \<in> set xs \<Longrightarrow> I s \<Longrightarrow> \<exists>s'. f s x = Some s' \<and> I s'"
  shows "\<exists>s'. fold_opt f s xs = Some s' \<and> I s'"
  using assms
proof (induction xs arbitrary: s)
  case (Cons x xs)
  then obtain s' where "f s x = Some s'" "I s'" by (metis list.set_intros(1))
  with Cons show ?case by (simp add: Cons.IH)
qed simp

subsection \<open>The contract of the recursive call\<close>

definition expands_to :: "ad_env \<Rightarrow> nat \<Rightarrow> system_node \<Rightarrow> system_node \<Rightarrow> bool" where
  "expands_to env d n n' \<longleftrightarrow> grows env n n' \<and> sn_slug n' = sn_slug n \<and> node_depth n' \<le> d"

text \<open>
  With enough fuel for a node and the rules it inherits, the call returns a node that has grown
  and whose depth stays within the bound.
\<close>

locale expander_ok =
  fixes env :: ad_env and rec :: expander and k :: nat
  assumes rec_ok: "need n inh \<le> k \<Longrightarrow> \<exists>n' errs. rec anc n inh = Some (n', errs) \<and> expands_to env (need n inh) n n'"
begin

lemma rec_child:
  assumes "node_depth c \<le> d" and "Suc (rules_height (map fst inh)) \<le> d" and "d \<le> k"
  obtains c' errs where "rec anc c inh = Some (c', errs)" "grows env c c'" "sn_slug c' = sn_slug c" "node_depth c' \<le> d"
proof -
  from assms have n: "need c inh \<le> d" by (simp add: need_def)
  with assms(3) obtain c' errs where "rec anc c inh = Some (c', errs)" "expands_to env (need c inh) c c'"
    using rec_ok [of c inh anc] by auto
  with n show ?thesis by (intro that [of c' errs]) (auto simp: expands_to_def)
qed

lemma replace_child:
  assumes "i < length (sn_children n)" and "grows env (sn_children n ! i) c" and "node_depth c \<le> d"
    and "expands_to env (Suc d) n0 n"
  shows "expands_to env (Suc d) n0 (with_children n ((sn_children n)[i := c]))"
proof -
  have "grows env n0 (with_children n ((sn_children n)[i := c]))"
    using grows_trans [OF _ grows_update [OF assms(1,2)]] assms(4) by (auto simp: expands_to_def)
  moreover have "\<forall>x \<in> set ((sn_children n)[i := c]). node_depth x \<le> d"
    using assms(3,4) set_update_subset_insert [of "sn_children n" i c] by (auto simp: expands_to_def node_depth_le)
  ultimately show ?thesis using assms(4)
    by (auto simp: expands_to_def node_depth_le)
qed

lemma prepare_child_grows:
  assumes "prepare_child env anc rule node (apply_rule env child rule root ov) child = (child', errs)"
  shows "grows env child child' \<and> node_depth child' = node_depth child"
proof -
  obtain c e where c: "add_found child (apply_rule env child rule root ov) = (c, e)" by fastforce
  from assms obtain s where "child' = with_slug c s"
    by (auto simp: prepare_child_def c Let_def split: prod.splits)
  with add_found_grows [OF c] show ?thesis by (auto intro: grows_trans grows_slug)
qed

lemma expand_child_ok:
  assumes "expands_to env (Suc d) n0 (es_node st)" and "fst found < length (sn_children (es_node st))"
    and "rule_height rule \<le> d" and "d \<le> k"
  shows "\<exists>st'. expand_child env rec anc rule root st found = Some st' \<and> expands_to env (Suc d) n0 (es_node st')
    \<and> length (sn_children (es_node st')) = length (sn_children (es_node st)) \<and> es_next st' = es_next st"
proof -
  let ?child = "sn_children (es_node st) ! fst found"
  let ?ap = "apply_rule env ?child rule root (Some (snd found))"
  obtain child' errs where p: "prepare_child env anc rule (es_node st) ?ap ?child = (child', errs)" by fastforce
  note g = prepare_child_grows [OF p]
  have "node_depth ?child \<le> d" using assms(1,2) by (simp add: expands_to_def node_depth_le)
  then have c: "node_depth child' \<le> d" using g by simp
  have "Suc (rules_height (map fst (map (\<lambda>cr. (cr, ap_root ?ap)) (ap_rules ?ap)))) \<le> d"
    using assms(3) by (simp add: apply_rule_def Let_def rule_height_children comp_def)
  from rec_child [OF c this assms(4)] obtain c'' errs' where r:
    "rec (sn_slug (es_node st) # anc) child' (map (\<lambda>cr. (cr, ap_root ?ap)) (ap_rules ?ap)) = Some (c'', errs')"
    "grows env child' c''" "node_depth c'' \<le> d" by metis
  have "grows env ?child c''" using g r(2) grows_trans by blast
  from replace_child [OF assms(2) this r(3) assms(1)] show ?thesis
    by (simp add: expand_child_def Let_def p r(1))
qed

definition rules_inv :: "nat \<Rightarrow> system_node \<Rightarrow> exp_st \<Rightarrow> bool" where
  "rules_inv d n0 st \<longleftrightarrow> expands_to env (Suc d) n0 (es_node st) \<and> rules_height (map fst (es_next st)) \<le> d - 1"

lemma discovery_ok:
  assumes "rules_inv d n0 st" and "rule_height rule \<le> d" and "d \<le> k"
    and "discover_child_system_roots env (es_node st) rule root = (children, found)"
  shows "\<exists>st'. fold_opt (expand_child env rec anc rule root) (st\<lparr>es_node := with_children (es_node st) children\<rparr>) found = Some st'
    \<and> rules_inv d n0 st'"
proof -
  let ?n = "es_node st" and ?m = "with_children (es_node st) children"
  obtain new where c: "children = sn_children ?n @ new" "list_all empty_node new" "\<forall>(i, r) \<in> set found. i < length children"
    using discover_new [of ?n env rule root] assms(4) by (auto simp: new_children_def)
  have "grows env ?n ?m" using c(1,2) by (intro grows_children [of new]) (auto simp: list_all2_same grows_refl)
  moreover have "node_depth ?m \<le> Suc d"
    using assms(1,2) c(1,2) by (auto simp: rules_inv_def expands_to_def node_depth_le list_all_iff
        empty_node_depth rule_height_children)
  ultimately have e: "expands_to env (Suc d) n0 ?m"
    using assms(1) grows_trans by (auto simp: rules_inv_def expands_to_def)
  let ?I = "\<lambda>s :: exp_st. expands_to env (Suc d) n0 (es_node s) \<and> length (sn_children (es_node s)) = length children \<and> es_next s = es_next st"
  have "\<exists>st'. fold_opt (expand_child env rec anc rule root) (st\<lparr>es_node := ?m\<rparr>) found = Some st' \<and> ?I st'"
  proof (rule fold_opt_total)
    show "?I (st\<lparr>es_node := ?m\<rparr>)" using e by simp
    fix s :: exp_st and x
    assume "x \<in> set found" "?I s"
    then show "\<exists>s'. expand_child env rec anc rule root s x = Some s' \<and> ?I s'"
      using expand_child_ok [of d n0 s x rule anc root] c(3) assms(2,3) by (cases x) auto
  qed
  then show ?thesis using assms(1) by (auto simp: rules_inv_def)
qed

lemma rule_step_ok:
  assumes "rules_inv d n0 st" and "rule_height rule \<le> d" and "d \<le> k"
  shows "\<exists>st'. rule_step env rec anc st (rule, root) = Some st' \<and> rules_inv d n0 st'"
proof (cases "is_discovery rule")
  case True
  obtain children found where d: "discover_child_system_roots env (es_node st) rule root = (children, found)" by fastforce
  from discovery_ok [OF assms d, of anc] show ?thesis by (simp add: rule_step_def Let_def True d)
next
  case False
  let ?ap = "apply_rule env (es_node st) rule root None"
  obtain n' errs where n': "add_found (es_node st) ?ap = (n', errs)" by fastforce
  note g = add_found_grows [OF n']
  have "expands_to env (Suc d) n0 n'" using g assms(1) grows_trans by (auto simp: rules_inv_def expands_to_def)
  moreover have "rules_height (ap_rules ?ap) \<le> d - 1"
    using assms(2) by (simp add: apply_rule_def Let_def rule_height_children)
  then have "rules_height (map fst (es_next st @ map (\<lambda>cr. (cr, ap_root ?ap)) (ap_rules ?ap))) \<le> d - 1"
    using assms(1) by (auto simp: rules_inv_def rules_height_le)
  ultimately show ?thesis by (simp add: rule_step_def Let_def False n' rules_inv_def)
qed

lemma child_step_ok:
  assumes "expands_to env (Suc d) n0 (fst st)" and "i < length (sn_children (fst st))"
    and "rules_height (map fst inh) \<le> d - 1" and "d \<le> k"
  shows "\<exists>st'. child_step rec anc inh processed st i = Some st' \<and> expands_to env (Suc d) n0 (fst st')
    \<and> length (sn_children (fst st')) = length (sn_children (fst st))"
proof -
  let ?c = "sn_children (fst st) ! i"
  have c: "node_depth ?c \<le> d" using assms(1,2) by (simp add: expands_to_def node_depth_le)
  then have "Suc (rules_height (map fst inh)) \<le> d" using assms(3) node_depth_pos [of ?c] by simp
  from rec_child [OF c this assms(4)] obtain c' errs where r: "rec (sn_slug (fst st) # anc) ?c inh = Some (c', errs)"
    "grows env ?c c'" "node_depth c' \<le> d" by metis
  from replace_child [OF assms(2) r(2,3) assms(1)] show ?thesis
    using assms(1) r(1) by (auto simp: child_step_def Let_def split: prod.splits)
qed

text \<open>Expanding a node with this call for its children meets the contract with one more unit of fuel.\<close>

lemma body_ok:
  assumes "need node inh \<le> Suc k"
  shows "\<exists>n' errs. (case fold_opt (rule_step env rec anc) \<lparr>es_node = node, es_errors = [], es_next = [], es_processed = []\<rparr>
             (effective_rules env node inh) of
           None \<Rightarrow> None
         | Some st \<Rightarrow> fold_opt (child_step rec anc (es_next st) (es_processed st)) (es_node st, es_errors st)
             [0..<length (sn_children (es_node st))]) = Some (n', errs)
       \<and> expands_to env (need node inh) node n'"
proof -
  obtain d where d: "need node inh = Suc d" by (rule need_Suc)
  with assms have dk: "d \<le> k" by simp
  from d have nd: "node_depth node \<le> Suc d" and ih: "rules_height (map fst inh) \<le> d" by (auto simp: need_def)
  have r: "rule_height (fst x) \<le> d" if "x \<in> set (effective_rules env node inh)" for x
    using that nd ih by (auto simp: effective_rules_def node_depth_le rules_height_le)
  have i: "rules_inv d node \<lparr>es_node = node, es_errors = [], es_next = [], es_processed = []\<rparr>"
    using nd by (simp add: rules_inv_def expands_to_def grows_refl rules_height_def)
  have "\<exists>st. fold_opt (rule_step env rec anc) \<lparr>es_node = node, es_errors = [], es_next = [], es_processed = []\<rparr>
      (effective_rules env node inh) = Some st \<and> rules_inv d node st"
    using r rule_step_ok [OF _ _ dk] by (intro fold_opt_total i) (metis prod.collapse)
  then obtain st where st: "fold_opt (rule_step env rec anc) \<lparr>es_node = node, es_errors = [], es_next = [], es_processed = []\<rparr>
      (effective_rules env node inh) = Some st" "rules_inv d node st" by auto
  let ?L = "length (sn_children (es_node st))"
  let ?I = "\<lambda>s :: system_node \<times> autodetect_error list. expands_to env (Suc d) node (fst s) \<and> length (sn_children (fst s)) = ?L"
  have "\<exists>s'. fold_opt (child_step rec anc (es_next st) (es_processed st)) (es_node st, es_errors st) [0..<?L] = Some s' \<and> ?I s'"
  proof (rule fold_opt_total)
    show "?I (es_node st, es_errors st)" using st(2) by (simp add: rules_inv_def)
    fix s :: "system_node \<times> autodetect_error list" and x
    assume "x \<in> set [0..<?L]" "?I s"
    then show "\<exists>s'. child_step rec anc (es_next st) (es_processed st) s x = Some s' \<and> ?I s'"
      using child_step_ok [of d node s x "es_next st" anc "es_processed st"] st(2) dk by (auto simp: rules_inv_def)
  qed
  then show ?thesis using st(1) d by auto
qed

end

lemma expander_expand_node: "expander_ok env (expand_node env n) n"
proof (induction n)
  case 0
  show ?case by standard (simp add: need_def)
next
  case (Suc n)
  then show ?case unfolding expander_ok_def [of env "expand_node env (Suc n)"]
    using expander_ok.body_ok by simp
qed

interpretation en: expander_ok env "expand_node env n" n for env n
  by (rule expander_expand_node)

subsection \<open>The whole registry\<close>

lemma expand_systems_ok:
  assumes "\<forall>n \<in> set ns. node_depth n \<le> fuel" and "0 < fuel"
  shows "\<exists>ns' errs'. fold_opt (expand_system env fuel) (done, errs) ns = Some (done @ ns', errs') \<and> list_all2 (grows env) ns ns'"
  using assms(1)
proof (induction ns arbitrary: "done" errs)
  case (Cons n ns)
  then have "need n [] \<le> fuel" using assms(2) by (simp add: need_def rules_height_def)
  from en.rec_ok [OF this] obtain n' e where n': "expand_node env fuel [] n [] = Some (n', e)" "grows env n n'"
    unfolding expands_to_def by blast
  from Cons.IH [of "done @ [n']" "errs @ e"] Cons.prems obtain ns' errs' where
    "fold_opt (expand_system env fuel) (done @ [n'], errs @ e) ns = Some ((done @ [n']) @ ns', errs')" "list_all2 (grows env) ns ns'"
    by auto
  moreover have "expand_system env fuel (done, errs) n = Some (done @ [n'], errs @ e)"
    by (simp add: expand_system_def n'(1))
  ultimately show ?case using n'(2) by (intro exI [of _ "n' # ns'"]) simp
qed simp

text \<open>C5. Expansion of autodetect rules ends on every system tree, however rules nest and whatever
  directories they discover, and leaves a registry in which every system has grown: its name,
  kit and rules are kept, its explicit artifacts and codebase entries come first and unchanged,
  every added entry is at a path inside the project that is not ignored and that no earlier
  entry of the system has, and new subsystems hold only such entries. The index is that of the
  new tree.\<close>

theorem expand_autodetect_total:
  "\<exists>m' errs. expand_autodetect env m = Some (m', errs)
     \<and> list_all2 (grows (env\<lparr>ae_patterns := am_patterns m, ae_root := am_project_root m\<rparr>)) (am_systems m) (am_systems m')
     \<and> m' = m\<lparr>am_systems := am_systems m', am_index := build_indices (am_patterns m) (am_systems m')\<rparr>"
proof -
  let ?env = "env\<lparr>ae_patterns := am_patterns m, ae_root := am_project_root m\<rparr>" and ?f = "expand_fuel (am_systems m)"
  have "0 < ?f \<and> (\<forall>n \<in> set (am_systems m). node_depth n \<le> ?f)"
    using fold_max_le [of "map node_depth (am_systems m)" 1 ?f] by (auto simp: expand_fuel_def)
  then obtain ns errs where "fold_opt (expand_system ?env ?f) ([], []) (am_systems m) = Some (ns, errs)"
    "list_all2 (grows ?env) (am_systems m) ns"
    using expand_systems_ok [of "am_systems m" ?f ?env "[]" "[]"] by auto
  then show ?thesis by (simp add: expand_autodetect_def Let_def rebuild_indices_def)
qed

subsection \<open>The slug of a discovered system\<close>

lemma scan_kinds_inv:
  assumes "scan_kinds r matched first ks = (matched', first')"
    and "\<And>f. first = Some f \<Longrightarrow> \<exists>k \<in> set matched. find_sub r (''-'' @ k @ ''-'') = Some f" and "set matched \<subseteq> T"
    and "set ks \<subseteq> T"
  shows "set matched' \<subseteq> T \<and> (\<forall>f. first' = Some f \<longrightarrow> (\<exists>k \<in> set matched'. find_sub r (''-'' @ k @ ''-'') = Some f))"
  using assms
proof (induction r matched first ks arbitrary: matched' first' rule: scan_kinds.induct)
  case (2 r matched first kind kinds)
  show ?case
  proof (cases "find_sub r (''-'' @ kind @ ''-'')")
    case None
    with 2(3-6) show ?thesis using 2(1) [OF None, of matched' first'] by auto
  next
    case (Some idx)
    let ?first = "case first of None \<Rightarrow> Some idx | Some f \<Rightarrow> if idx < f then Some idx else first"
    have m: "set (sadd kind matched) = insert kind (set matched)" by (auto simp: sadd_def)
    have "\<exists>k \<in> set (sadd kind matched). find_sub r (''-'' @ k @ ''-'') = Some f" if "?first = Some f" for f
      using that Some 2(4) unfolding m by (auto split: option.splits if_splits)
    with 2(2) [OF Some, of matched' first'] 2(3,5,6) Some m show ?thesis by simp
  qed
qed auto

lemma candidates_sound:
  assumes "extract_system_slug_candidates i p ts = [s]"
  shows "s \<noteq> [] \<and> (\<exists>k \<in> set ts. startswith i (''cpt-'' @ (if p = [] then s else p @ ''-'' @ s) @ ''-'' @ k @ ''-''))"
proof -
  let ?rest = "if p \<noteq> [] then drop (length (p @ ''-'')) (drop 4 i) else drop 4 i"
  from assms have c: "startswith i ''cpt-''" "p \<noteq> [] \<Longrightarrow> startswith (drop 4 i) (p @ ''-'')"
    by (auto simp: extract_system_slug_candidates_def Let_def split: if_splits)
  obtain matched first where sk: "scan_kinds ?rest [] None ts = (matched, first)" by fastforce
  with assms c obtain k f where k: "matched = [k]" "first = Some f" "f \<noteq> 0" "s = take f ?rest"
    by (auto simp: extract_system_slug_candidates_def Let_def split: if_splits list.splits option.splits)
  from scan_kinds_inv [OF sk, of "set ts"] k(1,2) have kt: "k \<in> set ts" "find_sub ?rest (''-'' @ k @ ''-'') = Some f" by auto
  from find_sub_Some [OF kt(2)] obtain t where t: "drop f ?rest = ''-'' @ k @ ''-'' @ t" "f \<le> length ?rest"
    by (auto simp: startswith_iff)
  have "?rest = take f ?rest @ drop f ?rest" by (rule append_take_drop_id [symmetric])
  then have r: "?rest = s @ ''-'' @ k @ ''-'' @ t" unfolding k(4) [symmetric] t(1) .
  obtain x where x: "i = ''cpt-'' @ x" using c(1) unfolding startswith_iff by blast
  have "i = ''cpt-'' @ (if p = [] then [] else p @ ''-'') @ ?rest"
  proof (cases "p = []")
    case False
    then obtain y where "x = (p @ ''-'') @ y" using c(2) unfolding startswith_iff x by auto
    then show ?thesis using False by (simp add: x)
  qed (simp add: x)
  moreover have "s \<noteq> []" using k(3,4) t by (cases "?rest = []") auto
  ultimately show ?thesis using kt(1) r by (auto simp: startswith_iff)
qed

lemma candidates_single:
  assumes "candidates ids p ts = [s]"
  shows "\<exists>i \<in> set ids. extract_system_slug_candidates i p ts = [s]"
    and "\<And>i. i \<in> set ids \<Longrightarrow> set (extract_system_slug_candidates i p ts) \<subseteq> {s}"
proof -
  have e: "set (candidates ids p ts) = (\<Union>i \<in> set ids. set (extract_system_slug_candidates i p ts))"
    by (simp add: candidates_def)
  with assms have u: "(\<Union>i \<in> set ids. set (extract_system_slug_candidates i p ts)) = {s}" by simp
  then show "\<And>i. i \<in> set ids \<Longrightarrow> set (extract_system_slug_candidates i p ts) \<subseteq> {s}" by auto
  from u obtain i where i: "i \<in> set ids" "s \<in> set (extract_system_slug_candidates i p ts)" by blast
  have "length (extract_system_slug_candidates i p ts) \<le> 1"
    by (auto simp: extract_system_slug_candidates_def Let_def split: prod.splits list.splits option.splits)
  with i(2) have "extract_system_slug_candidates i p ts = [s]"
    by (cases "extract_system_slug_candidates i p ts") auto
  with i(1) show "\<exists>i \<in> set ids. extract_system_slug_candidates i p ts = [s]" by blast
qed

lemma join_nonempty: "[] \<notin> set xs \<Longrightarrow> join_with ''-'' xs = [] \<longleftrightarrow> xs = []"
  by (cases xs rule: remdups_adj.cases) auto

lemma slugs_prefix_Cons:
  "s \<noteq> [] \<Longrightarrow> slugs_prefix (s # anc) = (if slugs_prefix anc = [] then s else slugs_prefix anc @ ''-'' @ s)"
proof -
  have "join_with ''-'' (rev (filter (\<lambda>s. s \<noteq> []) anc)) = [] \<longleftrightarrow> filter (\<lambda>s. s \<noteq> []) anc = []"
    by (simp add: join_nonempty)
  then show "s \<noteq> [] \<Longrightarrow> ?thesis" by (simp add: slugs_prefix_def join_with_snoc del: join_with.simps)
qed

lemma prefix_of_slugs: "get_hierarchy_prefix ch = slugs_prefix (map sn_slug ch)"
  by (simp add: get_hierarchy_prefix_def slugs_prefix_def)

text \<open>When the slug of a discovered system is changed without an error, the new slug is the one its
  definitions use: some defined ID starts with \<open>cpt-\<close>, the prefix that the system now has, and a
  kind of the kit, and no defined ID that starts with the parent's prefix names another slug.\<close>

theorem detected_slug:
  assumes "detect_slug env kit (slugs_prefix anc) child = (s, [])" and "s \<noteq> sn_slug child" and "ae_kind_tokens env = Some f"
  shows "(\<exists>i k. i \<in> set (node_def_ids env child) \<and> k \<in> set (f kit)
           \<and> startswith i (''cpt-'' @ slugs_prefix (s # anc) @ ''-'' @ k @ ''-''))
    \<and> list_all (\<lambda>i. set (extract_system_slug_candidates i (slugs_prefix anc) (f kit)) \<subseteq> {s}) (node_def_ids env child)"
proof -
  let ?ids = "node_def_ids env child" and ?p = "slugs_prefix anc"
  have "candidates ?ids ?p (f kit) = [s]"
    using assms by (auto simp: detect_slug_def Let_def split: if_splits list.splits)
  note c = candidates_single [OF this]
  from c(1) obtain i where i: "i \<in> set ?ids" "extract_system_slug_candidates i ?p (f kit) = [s]" by auto
  note e = candidates_sound [OF i(2)]
  then have "\<exists>k \<in> set (f kit). startswith i (''cpt-'' @ slugs_prefix (s # anc) @ ''-'' @ k @ ''-'')"
    using slugs_prefix_Cons [of s anc] by (auto split: if_splits)
  with i(1) c(2) show ?thesis by (auto simp: list_all_iff)
qed

theorem detected_slug_witness:
  "detect_slug \<lparr>ae_fs = (\<lambda>_. Some ''- [x] **ID**: `cpt-s-flow-a`''), ae_adapter = (\<lambda>p. p), ae_project = (\<lambda>p. p),
       ae_real = (\<lambda>p. p), ae_rel = Some, ae_rel_to = (\<lambda>_. Some), ae_glob = (\<lambda>_ _. []), ae_glob_dirs = (\<lambda>_. []),
       ae_is_file = (\<lambda>_. True), ae_is_dir = (\<lambda>_. False), ae_kind_registered = None,
       ae_kind_tokens = Some (\<lambda>_. [''flow'']), ae_patterns = [], ae_root = ''.''\<rparr> ''k'' (slugs_prefix [])
     (SystemNode ''Dir'' ''dir'' ''k'' [\<lparr>a_path = ''a.md'', a_kind = ''PRD'', a_traceability = ''FULL'', a_name = None\<rparr>] [] [] [])
     = (''s'', [])
   \<and> startswith ''cpt-s-flow-a'' (''cpt-'' @ slugs_prefix [''s''] @ ''-'' @ ''flow'' @ ''-'')"
proof -
  let ?env = "\<lparr>ae_fs = (\<lambda>_. Some ''- [x] **ID**: `cpt-s-flow-a`''), ae_adapter = (\<lambda>p. p), ae_project = (\<lambda>p. p),
       ae_real = (\<lambda>p. p), ae_rel = Some, ae_rel_to = (\<lambda>_. Some), ae_glob = (\<lambda>_ _. []), ae_glob_dirs = (\<lambda>_. []),
       ae_is_file = (\<lambda>_. True), ae_is_dir = (\<lambda>_. False), ae_kind_registered = None,
       ae_kind_tokens = Some (\<lambda>_. [''flow'']), ae_patterns = [], ae_root = ''.''\<rparr>"
  let ?child = "SystemNode ''Dir'' ''dir'' ''k'' [\<lparr>a_path = ''a.md'', a_kind = ''PRD'', a_traceability = ''FULL'', a_name = None\<rparr>] [] [] []"
  have d: "detect_slug ?env ''k'' (slugs_prefix []) ?child = (''s'', [])" by code_simp
  have i: "node_def_ids ?env ?child = [''cpt-s-flow-a'']" by code_simp
  have "''s'' \<noteq> sn_slug ?child" "ae_kind_tokens ?env = Some (\<lambda>_. [''flow''])" by simp_all
  from detected_slug [OF d this] show ?thesis unfolding i using d by simp
qed

end
