(* ===== verification/Context_Facts.thy ===== *)
theory Context_Facts
  imports Context_Load Autodetect_Facts
begin

section \<open>Errors of loading are never swallowed\<close>

text \<open>
  A run of the validator on a loaded context can pass only if loading was clean: the constraints
  of every kit parsed, autodetection reported nothing, and the systems known to the checks are
  those of the expanded registry.
\<close>

lemma load_kit_fst: "snd (foldl (load_kit rx env adapter project) st ks) = [] \<longleftrightarrow>
    snd st = [] \<and> list_all (\<lambda>(key, k). if is_cypilot_format k
      then snd (load_kit_constraints rx env (kit_bindings env adapter (key_str key)) (kit_root env adapter project k)) = []
      else True) ks"
proof (induction ks arbitrary: st)
  case (Cons e ks)
  obtain key k where e: "e = (key, k)" by fastforce
  show ?case
    by (simp add: Cons e) (auto simp: load_kit_def Let_def split: prod.splits)
qed simp

lemma expand_context_clean:
  assumes "expand_context env adapter project kits m = (m', [])"
  shows "expand_autodetect ((le_autodetect env adapter project)\<lparr>ae_kind_registered := Some (is_kind_registered kits),
      ae_kind_tokens := Some (get_id_kind_tokens kits)\<rparr>) m = Some (m', [])"
  using assms by (auto simp: expand_context_def Let_def split: option.splits)

lemma exit_0_no_ctx_errors:
  assumes "o_exit (cmd_validate rx (Some cx) load_ctx kits_check args) = 0" and "v_artifact args = None"
  shows "cx_errors cx = []"
proof -
  have "o_exit (validate_selected rx cx args (select_all cx)) = 0"
    using assms by (auto simp: cmd_validate_def error_outcome_def Let_def split: option.splits prod.splits if_splits)
  then show ?thesis by (auto simp: validate_selected_def Let_def split: if_splits)
qed

text \<open>C2. A full run that passes on a loaded context means that loading was clean: the Cypilot directory
  was found and its registry loaded, the constraints of every kit in Cypilot format parsed
  without a message, autodetection ended without an error in the registry that was validated,
  and the systems used by the checks are exactly the prefixes of that registry.\<close>

theorem passing_run_loads_clean:
  assumes "load_context rx env start = Some cx" and "v_artifact args = None"
    and "o_exit (cmd_validate rx (Some cx) load_ctx kits_check args) = 0"
  shows "\<exists>dir m. find_cypilot_directory (le_proj env) start = Some dir
    \<and> load_artifacts_meta (le_ld env) (path_str dir) = Inr m
    \<and> list_all (\<lambda>(key, k). if is_cypilot_format k
        then snd (load_kit_constraints rx env (kit_bindings env (path_str dir) (key_str key))
               (kit_root env (path_str dir) (le_resolve env (path_str dir) (am_project_root m)) k)) = []
        else True) (am_kits m)
    \<and> expand_autodetect ((le_autodetect env (path_str dir) (le_resolve env (path_str dir) (am_project_root m)))
        \<lparr>ae_kind_registered := Some (is_kind_registered (cx_loaded cx)), ae_kind_tokens := Some (get_id_kind_tokens (cx_loaded cx))\<rparr>) m
      = Some (cx_meta cx, [])
    \<and> cx_systems cx = get_all_system_prefixes (cx_meta cx)"
proof -
  from assms(1) obtain dir where dir: "find_cypilot_directory (le_proj env) start = Some dir" "context_at rx env (path_str dir) = Some cx"
    by (auto simp: load_context_def split: option.splits)
  let ?a = "path_str dir"
  from dir(2) obtain m where m: "load_artifacts_meta (le_ld env) ?a = Inr m" by (auto simp: context_at_def split: sum.splits)
  let ?p = "le_resolve env ?a (am_project_root m)"
  obtain kits ke where k: "load_kits rx env ?a ?p m = (kits, ke)" by fastforce
  obtain m' ae where x: "expand_context env ?a ?p kits m = (m', ae)" by fastforce
  from dir(2) have cx: "cx_meta cx = m'" "cx_loaded cx = kits" "cx_systems cx = get_all_system_prefixes m'" "cx_errors cx = ke @ ae"
    by (auto simp: context_at_def m k x Let_def)
  from exit_0_no_ctx_errors [OF assms(3,2)] cx(4) have e: "ke = []" "ae = []" by simp_all
  from k e(1) load_kit_fst [of rx env ?a ?p "([], [])" "am_kits m"]
  have "list_all (\<lambda>(key, k). if is_cypilot_format k
        then snd (load_kit_constraints rx env (kit_bindings env ?a (key_str key)) (kit_root env ?a ?p k)) = [] else True) (am_kits m)"
    by (simp add: load_kits_def)
  with dir(1) m expand_context_clean [OF x [unfolded e(2)]] cx show ?thesis by blast
qed

definition clean_env :: load_env where
  "clean_env =
     \<lparr>le_proj = \<lparr>pw_text = (\<lambda>_. Some ''**Extends**: `AGENTS.md`''), pw_is_file = (\<lambda>_. False), pw_is_dir = (\<lambda>_. True),
        pw_exists = (\<lambda>p. p = [''w'', ''.git''] \<or> p = [''w'', ''docs'', ''AGENTS.md'']),
        pw_iterdir = (\<lambda>p. if p = [''w''] then Some [[''w'', ''docs'']] else None),
        pw_join = (\<lambda>p s. p @ [s]), pw_loads = (\<lambda>_. Inr []), pw_load = (\<lambda>_. Inr (PDict []))\<rparr>,
      le_ld = (\<lambda>p. if p = ''/w/docs/artifacts.toml''
        then Some (Inr (PDict [(PStr ''kits'', PDict [(PStr ''k'', PDict [(PStr ''format'', PStr ''Cypilot''), (PStr ''path'', PStr ''kits/k'')])]),
          (PStr ''systems'', PList [PDict [(PStr ''name'', PStr ''Shop''), (PStr ''kit'', PStr ''k'')]])])) else None),
      le_is_dir = (\<lambda>_. True), le_is_file = (\<lambda>_. False), le_resolve = (\<lambda>a p. a @ ''/'' @ p), le_parent = (\<lambda>p. p),
      le_constraints = (\<lambda>_. None), le_core = (\<lambda>_. None),
      le_autodetect = (\<lambda>_ _. \<lparr>ae_fs = (\<lambda>_. None), ae_adapter = (\<lambda>p. p), ae_project = (\<lambda>p. p),
        ae_real = (\<lambda>p. p), ae_rel = Some, ae_rel_to = (\<lambda>_. Some), ae_glob = (\<lambda>_ _. []), ae_glob_dirs = (\<lambda>_. []),
        ae_is_file = (\<lambda>_. True), ae_is_dir = (\<lambda>_. False), ae_kind_registered = None, ae_kind_tokens = None,
        ae_patterns = [], ae_root = []\<rparr>),
      le_world = (\<lambda>_. \<lparr>w_fs = (\<lambda>_. None), w_exists = (\<lambda>_. False), w_is_file = (\<lambda>_. False), w_resolve = (\<lambda>p. p),
        w_rglob = (\<lambda>_ _. []), w_rel = Some\<rparr>)\<rparr>"

theorem passing_run_loads_clean_witness:
  "\<exists>cx. load_context (\<lambda>_. Inl []) clean_env [''w''] = Some cx \<and> cx_systems cx = [''shop'']
     \<and> cx_systems cx = get_all_system_prefixes (cx_meta cx)"
proof -
  let ?args = "\<lparr>v_artifact = None, v_skip_code = False\<rparr>"
  have "case load_context (\<lambda>_. Inl []) clean_env [''w''] of
      None \<Rightarrow> False
    | Some cx \<Rightarrow> cx_systems cx = [''shop''] \<and> o_exit (cmd_validate (\<lambda>_. Inl []) (Some cx) (\<lambda>_. None) (\<lambda>_. Some (0, ''PASS'')) ?args) = 0"
    by code_simp
  then obtain cx where cx: "load_context (\<lambda>_. Inl []) clean_env [''w''] = Some cx" "cx_systems cx = [''shop'']"
    "o_exit (cmd_validate (\<lambda>_. Inl []) (Some cx) (\<lambda>_. None) (\<lambda>_. Some (0, ''PASS'')) ?args) = 0"
    by (auto split: option.splits)
  have "v_artifact ?args = None" by simp
  from passing_run_loads_clean [OF cx(1) this cx(3)] cx(1,2) show ?thesis by blast
qed

end
