(* ===== verification/Manifest_Facts.thy ===== *)
theory Manifest_Facts
  imports Manifest
begin

section \<open>What an accepted manifest has\<close>

text \<open>
  A manifest that loads is well formed, and one that passes the check against the kit has unique
  resources, existing sources of the declared type and targets inside the installation root.
\<close>

lemma when_bad_Nil [simp]: "when_bad b e = [] \<longleftrightarrow> \<not> b"
  by (simp add: when_bad_def)

subsection \<open>Loading\<close>

lemma id_char_no_space: "id_char c \<Longrightarrow> \<not> py_space c"
  by (auto simp: id_char_def is_lower_az_def is_digit_def py_space_def Let_def)

lemma strip_id: "valid_id s \<Longrightarrow> strip s = s"
  by (intro strip_by_id) (auto simp: valid_id_def list_all_iff dest: id_char_no_space split: list.splits)

definition resource_wf :: "manifest_resource \<Rightarrow> bool" where
  "resource_wf r \<longleftrightarrow> valid_id (mr_id r) \<and> mr_source r \<noteq> [] \<and> mr_default_path r \<noteq> []
     \<and> (mr_type r = ''file'' \<or> mr_type r = ''directory'')"

lemma is_textE: "is_text v \<Longrightarrow> (\<And>s. v = PStr s \<Longrightarrow> strip s \<noteq> [] \<Longrightarrow> P) \<Longrightarrow> P"
  by (cases v) (simp_all add: is_text_def)

lemma resource_wf_of:
  assumes "resource_errors idx (PDict r) = []"
  shows "resource_wf (resource_of r)"
proof -
  from assms have e: "id_errors_of idx (pget r ''id'') = []" "is_text (pget r ''source'')" "is_text (pget r ''default_path'')"
    "valid_type (pget r ''type'')"
    by (simp_all add: resource_errors_def)
  from e(1) obtain i where i: "pget r ''id'' = PStr i" "valid_id i"
    by (auto simp: id_errors_of_def elim: is_textE split: if_splits)
  from e(4) have t: "pget r ''type'' = PStr ''file'' \<or> pget r ''type'' = PStr ''directory''"
    by (auto simp: valid_type_def split: pyobj.splits)
  have "strip ''file'' = ''file''" "strip ''directory'' = ''directory''" by code_simp+
  then show ?thesis
    using e(2,3) i t by (auto simp: resource_wf_def resource_of_def py_str_def strip_id elim!: is_textE)
qed

lemma resources_errors_wf:
  "resources_errors idx rs = [] \<Longrightarrow> list_all resource_wf (map resource_of (dicts_of rs)) \<and> length (dicts_of rs) = length rs"
proof (induction idx rs rule: resources_errors.induct)
  case (2 idx r rs)
  then have r: "resource_errors idx r = []" by simp
  then obtain d where "r = PDict d" by (cases r) (simp_all add: resource_errors_def)
  with 2 r show ?case using resource_wf_of [of idx d] by simp
qed simp

text \<open>A manifest that loads is well formed: it has a version and an installation root, at least one
  resource, and every resource has an identifier of lower-case letters, digits and underscores
  that starts with a letter, a source, a target, and one of the two types.\<close>

theorem load_manifest_wf:
  assumes "load_manifest toml = Inr (Some m)"
  shows "mf_version m \<noteq> [] \<and> mf_root m \<noteq> [] \<and> mf_resources m \<noteq> []
    \<and> list_all (\<lambda>r. valid_id (mr_id r) \<and> mr_source r \<noteq> [] \<and> mr_default_path r \<noteq> []
        \<and> (mr_type r = ''file'' \<or> mr_type r = ''directory'')) (mf_resources m)"
proof -
  from assms obtain data where t: "toml = Some (Inr data)" "validate_against_schema data = []"
    by (auto simp: load_manifest_def Let_def split: option.splits sum.splits if_splits)
  from t(2) obtain d where d: "pget data ''manifest'' = PDict d"
    by (cases "pget data ''manifest''") (simp_all add: validate_against_schema_def)
  with t(2) have v: "is_text (pget d ''version'')" "pget d ''root'' = PNone \<or> is_text (pget d ''root'')"
    by (auto simp: validate_against_schema_def)
  from t(2) d obtain r rs where l: "pget data ''resources'' = PList (r # rs)" "resources_errors 0 (r # rs) = []"
    by (auto simp: validate_against_schema_def split: pyobj.splits list.splits)
  note w = resources_errors_wf [OF l(2)]
  have "strip (py_str (pget_or d ''root'' (PStr ''{cypilot_path}/config/kits/{slug}''))) \<noteq> []"
  proof (cases "map_of d (PStr ''root'')")
    case None
    then show ?thesis by (simp add: pget_or_def) code_simp
  next
    case (Some x)
    have "strip (py_str PNone) \<noteq> []" by code_simp
    with Some v(2) show ?thesis by (auto simp: pget_or_def pget_def py_str_def elim!: is_textE)
  qed
  moreover have "strip (py_str (pget d ''version'')) \<noteq> []" using v(1) by (auto simp: py_str_def elim!: is_textE)
  moreover have "dicts_of (r # rs) \<noteq> []" using w by (metis length_greater_0_conv list.distinct(1))
  ultimately show ?thesis
    using assms t w by (auto simp: load_manifest_def Let_def dict_items_def list_items_def d l(1) list_all_iff resource_wf_def)
qed

definition sample_manifest :: "(pyobj \<times> pyobj) list" where
  "sample_manifest =
     [(PStr ''manifest'', PDict [(PStr ''version'', PStr ''1.0'')]),
      (PStr ''resources'', PList [PDict [(PStr ''id'', PStr ''adr_template''), (PStr ''source'', PStr ''a/t.md''),
         (PStr ''default_path'', PStr ''a/t.md''), (PStr ''type'', PStr ''file'')]])]"

theorem load_manifest_wf_witness:
  "\<exists>m. load_manifest (Some (Inr sample_manifest)) = Inr (Some m) \<and> mf_resources m \<noteq> []
     \<and> list_all (\<lambda>r. valid_id (mr_id r)) (mf_resources m)"
proof -
  have "validate_against_schema sample_manifest = []" by code_simp
  then obtain m where m: "load_manifest (Some (Inr sample_manifest)) = Inr (Some m)"
    by (simp add: load_manifest_def Let_def)
  from load_manifest_wf [OF m] show ?thesis using m by (auto simp: list_all_iff)
qed

subsection \<open>The check against the kit\<close>

lemma duplicate_ids_Nil_iff:
  "duplicate_ids seen idx rs = [] \<longleftrightarrow> distinct (map mr_id rs) \<and> list_all (\<lambda>r. map_of seen (mr_id r) = None) rs"
  by (induction seen idx rs rule: duplicate_ids.induct) (auto simp: list_all_iff image_iff split: option.splits)

text \<open>
  A target is inside the root when, walking its components from the root, the walk never leaves
  it: the depth stays a natural number.
\<close>

fun walk :: "nat \<Rightarrow> string list \<Rightarrow> nat option" where
  "walk d [] = Some d"
| "walk d (c # cs) = (if c = ''..'' then (if d = 0 then None else walk (d - 1) cs) else walk (Suc d) cs)"

lemma walk_inside: "''..'' \<notin> set cs \<Longrightarrow> walk d cs = Some (d + length cs)"
  by (induction cs arbitrary: d) auto

text \<open>A manifest passes the check against the kit exactly when its identifiers are distinct, every
  source exists and is a file or a directory as declared, and every target is relative, without
  a component \<open>..\<close>; such a target never leaves the installation root.\<close>

theorem validate_manifest_ok:
  "(validate_manifest kf m = []) =
     (distinct (map mr_id (mf_resources m))
      \<and> list_all (\<lambda>r. kf_exists kf (mr_source r)
          \<and> (if mr_type r = ''file'' then kf_is_file kf (mr_source r)
             else if mr_type r = ''directory'' then kf_is_dir kf (mr_source r) else True)) (mf_resources m)
      \<and> list_all (\<lambda>r. \<not> startswith (mr_default_path r) ''/'' \<and> \<not> startswith (mr_default_path r) [CHR 0x5C]
          \<and> ''..'' \<notin> set (path_parts (mr_default_path r))
          \<and> walk 0 (path_parts (mr_default_path r)) = Some (length (path_parts (mr_default_path r)))) (mf_resources m))"
proof -
  have "concat (map (source_errors kf) rs) = [] \<longleftrightarrow> list_all (\<lambda>r. kf_exists kf (mr_source r)
          \<and> (if mr_type r = ''file'' then kf_is_file kf (mr_source r)
             else if mr_type r = ''directory'' then kf_is_dir kf (mr_source r) else True)) rs" for rs
    by (induction rs) (auto simp: source_errors_def)
  moreover have "concat (map default_path_errors rs) = [] \<longleftrightarrow> list_all (\<lambda>r. \<not> startswith (mr_default_path r) ''/''
          \<and> \<not> startswith (mr_default_path r) [CHR 0x5C] \<and> ''..'' \<notin> set (path_parts (mr_default_path r))
          \<and> walk 0 (path_parts (mr_default_path r)) = Some (length (path_parts (mr_default_path r)))) rs" for rs
    by (induction rs) (auto simp: default_path_errors_def Let_def walk_inside)
  ultimately show ?thesis by (simp add: validate_manifest_def duplicate_ids_Nil_iff list_all_iff)
qed

subsection \<open>The mapping of files to resources\<close>

definition covers :: "kit_files \<Rightarrow> manifest_resource \<Rightarrow> string \<Rightarrow> bool" where
  "covers kf r p = (if mr_type r = ''file'' then p = mr_source r
     else mr_type r = ''directory'' \<and> kf_is_dir kf (mr_source r) \<and> p \<in> set (kf_below kf (mr_source r)))"

lemma map_of_fill: "map_of (foldl (\<lambda>d p. dset p v d) d ps) p = (if p \<in> set ps then Some v else map_of d p)"
  by (induction ps arbitrary: d) auto

lemma map_resource_fst:
  "map_of (fst (map_resource kf st r)) p = (if covers kf r p then Some (mr_id r) else map_of (fst st) p)"
  by (simp add: map_resource_def Let_def covers_def map_of_fill)

lemma find_append: "find P (xs @ ys) = (case find P xs of None \<Rightarrow> find P ys | Some x \<Rightarrow> Some x)"
  by (induction xs) auto

text \<open>A file is mapped to the last resource that covers it, and to none if there is no such resource.\<close>

lemma mapping_last:
  assumes "load_manifest toml = Inr (Some m)" and "build_source_to_resource_mapping kf toml = Inr (src, info)"
  shows "map_of src p = map_option mr_id (find (\<lambda>r. covers kf r p) (rev (mf_resources m)))"
proof -
  have "map_of (fst (foldl (map_resource kf) st rs)) p =
      (case find (\<lambda>r. covers kf r p) (rev rs) of None \<Rightarrow> map_of (fst st) p | Some r \<Rightarrow> Some (mr_id r))" for st rs
  proof (induction rs arbitrary: st)
    case (Cons r rs)
    then show ?case by (auto simp: map_resource_fst find_append split: option.splits)
  qed simp
  from this [of "([], [])" "mf_resources m"] show ?thesis
    using assms by (auto simp: build_source_to_resource_mapping_def split: option.splits)
qed

end
