(* ===== verification/Toml_Facts.thy ===== *)
theory Toml_Facts
  imports Toml_Utils
begin

section \<open>What merging and writing configuration guarantee\<close>

text \<open>
  Merging is described key by key; the serializer fails exactly on values without a TOML form,
  and a string it writes is read back as the same string.
\<close>

subsection \<open>Merging\<close>

definition merged_value :: "pyobj option \<Rightarrow> pyobj \<Rightarrow> pyobj" where
  "merged_value old v = (case (old, v) of (Some (PDict b), PDict o') \<Rightarrow> PDict (deep_merge b o') | _ \<Rightarrow> v)"

lemma deep_merge_step:
  "deep_merge base ((key, val) # override) = deep_merge (dset key (merged_value (map_of base key) val) base) override"
  by (auto simp: merged_value_def split: option.splits pyobj.splits)

lemma deep_merge_other: "k \<notin> fst ` set override \<Longrightarrow> map_of (deep_merge base override) k = map_of base k"
proof (induction override arbitrary: base)
  case (Cons kv override)
  then show ?case by (cases kv) (simp add: deep_merge_step del: deep_merge.simps(2))
qed simp

text \<open>Merging one configuration into another, key by key: a key of the new one gets its value, except
  that two dictionaries are merged in turn, and every other key keeps the old value.\<close>

theorem deep_merge_get:
  assumes "distinct (map fst override)"
  shows "map_of (deep_merge base override) k =
    (case map_of override k of
       None \<Rightarrow> map_of base k
     | Some v \<Rightarrow> (case (map_of base k, v) of
                   (Some (PDict b), PDict o') \<Rightarrow> Some (PDict (deep_merge b o'))
                 | _ \<Rightarrow> Some v))"
proof -
  have "map_of (deep_merge base override) k =
      (case map_of override k of None \<Rightarrow> map_of base k | Some v \<Rightarrow> Some (merged_value (map_of base k) v))"
    using assms
  proof (induction override arbitrary: base)
    case (Cons kv override)
    obtain key val where kv: "kv = (key, val)" by fastforce
    from Cons.prems have key: "key \<notin> fst ` set override" "distinct (map fst override)" by (simp_all add: kv)
    show ?case
    proof (cases "k = key")
      case True
      then show ?thesis using key(1) by (simp add: kv deep_merge_step deep_merge_other del: deep_merge.simps(2))
    next
      case False
      then show ?thesis
        using Cons.IH [OF key(2), of "dset key (merged_value (map_of base key) val) base"]
        by (simp add: kv deep_merge_step del: deep_merge.simps(2) split: option.splits)
    qed
  qed simp
  then show ?thesis by (simp add: merged_value_def split: option.splits pyobj.splits)
qed

theorem deep_merge_get_witness:
  "map_of (deep_merge [(PStr ''a'', PDict [(PStr ''x'', PInt 1)])] [(PStr ''a'', PDict [(PStr ''y'', PInt 2)]), (PStr ''b'', PInt 3)])
     (PStr ''a'') = Some (PDict [(PStr ''x'', PInt 1), (PStr ''y'', PInt 2)])"
proof -
  have d: "distinct (map fst [(PStr ''a'', PDict [(PStr ''y'', PInt 2)]), (PStr ''b'', PInt 3)])" by simp
  have "deep_merge [(PStr ''x'', PInt 1)] [(PStr ''y'', PInt 2)] = [(PStr ''x'', PInt 1), (PStr ''y'', PInt 2)]" by code_simp
  then show ?thesis using deep_merge_get [OF d, of "[(PStr ''a'', PDict [(PStr ''x'', PInt 1)])]" "PStr ''a''"] by simp
qed

subsection \<open>Values that can be written\<close>

fun plain :: "pyobj \<Rightarrow> bool" where
  "plain (PBool b) = True"
| "plain (PInt i) = True"
| "plain (PStr s) = True"
| "plain (PList vs) = list_all plain vs"
| "plain _ = False"

lemma seq_results_Inr: "(\<exists>ys. seq_results xs = Inr ys) \<longleftrightarrow> list_all (\<lambda>x. \<exists>y. x = Inr y) xs"
  by (induction xs rule: seq_results.induct) (auto split: sum.splits)

lemma concat_results_Inr: "(\<exists>ys. concat_results xs = Inr ys) \<longleftrightarrow> list_all (\<lambda>x. \<exists>y. x = Inr y) xs"
proof -
  have "(\<exists>ys. concat_results xs = Inr ys) \<longleftrightarrow> (\<exists>ys. seq_results xs = Inr ys)"
    by (cases "seq_results xs") (simp_all add: concat_results_def)
  then show ?thesis by (simp add: seq_results_Inr)
qed

lemma map_sum_Inr: "(\<exists>y. map_sum id f x = Inr y) \<longleftrightarrow> (\<exists>y. x = Inr y)"
  by (cases x) simp_all

lemma format_value_Inr: "(\<exists>s. format_value v = Inr s) \<longleftrightarrow> plain v"
proof (induction v rule: format_value.induct)
  case (4 vs)
  have "(\<exists>s. format_value (PList vs) = Inr s) \<longleftrightarrow> (\<exists>ys. seq_results (map format_value vs) = Inr ys)"
    by (simp split: sum.splits)
  also have "\<dots> \<longleftrightarrow> list_all plain vs" using 4 by (auto simp: seq_results_Inr list_all_iff)
  finally show ?case by simp
qed simp_all

lemma scalar_lines_Inr:
  "(\<exists>ls. scalar_lines data = Inr ls) \<longleftrightarrow> list_all (\<lambda>(k, v). is_dict v \<or> is_array_of_tables v \<or> plain v) data"
proof -
  have kv: "(\<exists>s. format_kv k v = Inr s) \<longleftrightarrow> plain v" for k v
    unfolding format_value_Inr [symmetric] by (simp add: format_kv_def split: sum.splits)
  have "(\<exists>ls. scalar_lines data = Inr ls) \<longleftrightarrow> (\<exists>ys. seq_results (map (\<lambda>(k, v). format_kv (key_str k) v)
      (filter (\<lambda>(k, v). \<not> is_dict v \<and> \<not> is_array_of_tables v) data)) = Inr ys)"
    by (simp add: scalar_lines_def Let_def split: sum.splits)
  also have "\<dots> \<longleftrightarrow> list_all (\<lambda>(k, v). is_dict v \<or> is_array_of_tables v \<or> plain v) data"
    unfolding seq_results_Inr using kv by (fastforce simp: list_all_iff)
  finally show ?thesis .
qed

function writable :: "(pyobj \<times> pyobj) list \<Rightarrow> bool" where
  "writable data = list_all (\<lambda>(k, v).
     case v of
       PDict d \<Rightarrow> writable d
     | PList vs \<Rightarrow> if is_array_of_tables v then list_all writable (dicts_of vs) else plain v
     | _ \<Rightarrow> plain v) data"
  by pat_completeness auto
termination writable
  by (relation "measure dict_size") (auto intro: sub_table_size table_item_size)

declare writable.simps [simp del]

lemma list_all_conj3:
  "list_all P xs \<and> list_all Q (map f xs) \<and> list_all Q (map g xs) \<longleftrightarrow> list_all (\<lambda>x. P x \<and> Q (f x) \<and> Q (g x)) xs"
  by (induction xs) auto

lemma write_body_Inr: "(\<exists>ls. write_body data prefix = Inr ls) \<longleftrightarrow> writable data"
proof (induction data prefix rule: write_body.induct)
  case (1 data prefix)
  let ?tab = "\<lambda>(k, v). case v of
            PDict d \<Rightarrow> map_sum id ((#) (''['' @ join_prefix (prefix @ [key_str k]) @ '']'')) (write_body d (prefix @ [key_str k]))
          | _ \<Rightarrow> Inr []"
  let ?arr = "\<lambda>(k, v). case v of
            PList vs \<Rightarrow>
              if is_array_of_tables v
              then concat_results (map (\<lambda>item. map_sum id ((#) (''[['' @ join_prefix (prefix @ [key_str k]) @ '']]''))
                     (write_body item (prefix @ [key_str k]))) (dicts_of vs))
              else Inr []
          | _ \<Rightarrow> Inr []"
  have "(\<exists>ls. write_body data prefix = Inr ls) \<longleftrightarrow> list_all (\<lambda>(k, v). is_dict v \<or> is_array_of_tables v \<or> plain v) data
      \<and> list_all (\<lambda>x. \<exists>y. x = Inr y) (map ?tab data) \<and> list_all (\<lambda>x. \<exists>y. x = Inr y) (map ?arr data)"
    by (subst write_body.simps, subst concat_results_Inr) (simp add: scalar_lines_Inr)
  also have "\<dots> \<longleftrightarrow> list_all (\<lambda>(k, v). case v of PDict d \<Rightarrow> writable d
     | PList vs \<Rightarrow> if is_array_of_tables v then list_all writable (dicts_of vs) else plain v | _ \<Rightarrow> plain v) data"
  proof -
    have e: "((case z of (k, v) \<Rightarrow> is_dict v \<or> is_array_of_tables v \<or> plain v) \<and> (\<exists>y. ?tab z = Inr y) \<and> (\<exists>y. ?arr z = Inr y))
      = (case z of (k, v) \<Rightarrow> case v of PDict d \<Rightarrow> writable d
         | PList vs \<Rightarrow> if is_array_of_tables v then list_all writable (dicts_of vs) else plain v | _ \<Rightarrow> plain v)"
      if z: "z \<in> set data" for z
    proof -
      obtain k v where kv: "z = (k, v)" by fastforce
      with z have m: "(k, v) \<in> set data" by simp
      show ?thesis
      proof (cases v)
        case (PDict d)
        then show ?thesis using 1(1) [OF m refl PDict]
          by (simp add: kv map_sum_Inr is_dict_def is_array_of_tables_def)
      next
        case (PList vs)
        then show ?thesis using 1(2) [OF m refl PList]
          by (auto simp: kv concat_results_Inr map_sum_Inr list_all_iff is_dict_def)
      qed (simp_all add: kv is_dict_def is_array_of_tables_def)
    qed
    show ?thesis unfolding list_all_conj3 by (rule list.pred_cong [OF refl]) (rule e)
  qed
  finally show ?case by (subst writable.simps)
qed

text \<open>A configuration can be written exactly when it consists of dictionaries, lists of dictionaries,
  booleans, integers, strings and lists of these; otherwise the serializer raises an error.\<close>

theorem dumps_defined: "(case dumps data comment of Inl e \<Rightarrow> False | Inr s \<Rightarrow> True) = writable data"
  unfolding write_body_Inr [of data "[]", symmetric] by (simp add: dumps_def split: sum.splits)

subsection \<open>Strings\<close>

text \<open>Reading a basic string up to its closing quote, with the two escapes that the writer uses.\<close>

fun read_basic :: "string \<Rightarrow> (string \<times> string) option" where
  "read_basic [] = None"
| "read_basic (c # s) =
     (if c = CHR 0x22 then Some ([], s)
      else if c = CHR 0x5C
      then (case s of
              [] \<Rightarrow> None
            | d # t \<Rightarrow> if d = CHR 0x22 \<or> d = CHR 0x5C then map_option (apfst ((#) d)) (read_basic t) else None)
      else map_option (apfst ((#) c)) (read_basic s))"

lemma replace_char: "replace_all [c] new s = concat (map (\<lambda>x. if x = c then new else [x]) s)"
  by (induction s) simp_all

lemma escape_str_map: "escape_str s = concat (map (\<lambda>c. if c = CHR 0x22 \<or> c = CHR 0x5C then [CHR 0x5C, c] else [c]) s)"
  by (induction s) (simp_all add: escape_str_def replace_char)

text \<open>Round trip of strings: a string value is written as a quoted text from which the same string is
  read back, with nothing left over.\<close>

theorem format_string_roundtrip:
  "\<exists>t. format_value (PStr s) = Inr (CHR 0x22 # t) \<and> read_basic t = Some (s, [])"
proof -
  have "read_basic (escape_str s @ [CHR 0x22]) = Some (s, [])"
    by (induction s) (simp_all add: escape_str_map)
  then show ?thesis by simp
qed

end
