(* ===== verification/Project_Facts.thy ===== *)
theory Project_Facts
  imports Project_Files
begin

section \<open>What the search for a project finds\<close>

text \<open>
  The project root is the nearest marked ancestor within the limit; a Cypilot directory that is
  found by searching is a proper one, not too deep and not inside a skipped directory.
\<close>

subsection \<open>The project root\<close>

definition ancestor :: "path \<Rightarrow> nat \<Rightarrow> path" where
  "ancestor p k = take (length p - k) p"

lemma ancestor_Suc: "ancestor p (Suc k) = ancestor (butlast p) k"
  by (simp add: ancestor_def take_butlast butlast_conv_take min_def)

lemma root_go_find: "root_go w n cur = find (marks_root w) (map (ancestor cur) [0..<min n (Suc (length cur))])"
proof (induction w n cur rule: root_go.induct)
  case (2 w n cur)
  have a0: "ancestor cur 0 = cur" by (simp add: ancestor_def)
  have "min (Suc n) (Suc (length cur)) = Suc (min n (length cur))" by simp
  then have l: "map (ancestor cur) [0..<min (Suc n) (Suc (length cur))]
      = cur # map (ancestor (butlast cur)) [0..<min n (length cur)]"
    by (simp only: upt_conv_Cons [OF zero_less_Suc] map_Suc_upt [symmetric] list.map map_map comp_def ancestor_Suc a0)
  show ?case
  proof (cases "marks_root w cur \<or> cur = []")
    case True
    then show ?thesis unfolding l by auto
  next
    case False
    then have "Suc (length (butlast cur)) = length cur" by (cases cur) simp_all
    with 2 False show ?thesis unfolding l by simp
  qed
qed simp

text \<open>The project root is the first marked directory on the way up from the start, the start
  included, among at most 25 directories; without one there is none.\<close>

theorem find_project_root_nearest:
  "find_project_root w start = find (marks_root w) (map (ancestor start) [0..<min 25 (Suc (length start))])"
  by (simp only: find_project_root_def root_go_find)

subsection \<open>The search below the root\<close>

lemma first_some_SomeE: "first_some f xs = Some y \<Longrightarrow> \<exists>x \<in> set xs. f x = Some y"
  by (induction xs) (auto split: option.splits)

lemma find_SomeD: "find P xs = Some x \<Longrightarrow> x \<in> set xs \<and> P x"
  by (induction xs) (auto split: if_splits)

text \<open>C40. Where entries of a directory are its children, a directory that the search returns is a Cypilot
  directory at most as many levels below the root as the search has, and none of the directories
  on the way to it is skipped.\<close>

theorem search_recursive_bounded:
  assumes "\<And>p es e. pw_iterdir w p = Some es \<Longrightarrow> e \<in> set es \<Longrightarrow> \<exists>c. e = p @ [c]"
    and "search_recursive w n root = Some d"
  shows "is_adapter_directory w d \<and> (\<exists>cs. d = root @ cs \<and> cs \<noteq> [] \<and> length cs \<le> n \<and> set cs \<inter> set SKIP_DIRS = {})"
  using assms(2)
proof (induction n arbitrary: root)
  case (Suc n)
  from Suc.prems obtain es where es: "pw_iterdir w root = Some es" by (auto split: option.splits)
  have child: "\<exists>c. e = root @ [c] \<and> c \<notin> set SKIP_DIRS" if "e \<in> set (filter (searched w) es)" for e
    using assms(1) [OF es, of e] that by (auto simp: searched_def)
  consider "find (is_adapter_directory w) (filter (searched w) es) = Some d"
    | "first_some (search_recursive w n) (filter (searched w) es) = Some d"
    using Suc.prems es by (auto split: option.splits)
  then show ?case
  proof cases
    case 1
    from find_SomeD [OF this] obtain c where "d = root @ [c]" "c \<notin> set SKIP_DIRS" "is_adapter_directory w d"
      using child by blast
    then show ?thesis by auto
  next
    case 2
    from first_some_SomeE [OF this] obtain e where e: "e \<in> set (filter (searched w) es)" "search_recursive w n e = Some d" by blast
    from child [OF e(1)] obtain c where c: "e = root @ [c]" "c \<notin> set SKIP_DIRS" by blast
    from Suc.IH [OF e(2)] obtain cs where "is_adapter_directory w d" "d = e @ cs" "length cs \<le> n" "set cs \<inter> set SKIP_DIRS = {}"
      by auto
    with c show ?thesis by (intro conjI exI [of _ "c # cs"]) auto
  qed
qed simp

definition tiny_world :: proj_world where
  "tiny_world = \<lparr>pw_text = (\<lambda>p. if p = [''w'', ''docs'', ''AGENTS.md''] then Some ''**Extends**: `../AGENTS.md`'' else None),
     pw_is_file = (\<lambda>p. last p = ''AGENTS.md''), pw_is_dir = (\<lambda>p. p = [''w''] \<or> p = [''w'', ''docs'']),
     pw_exists = (\<lambda>p. p = [''w'', ''docs'', ''AGENTS.md'']),
     pw_iterdir = (\<lambda>p. if p = [''w''] then Some [[''w'', ''docs'']] else if p = [''w'', ''docs''] then Some [[''w'', ''docs'', ''AGENTS.md'']] else None),
     pw_join = (\<lambda>p s. p @ [s]), pw_loads = (\<lambda>_. Inr []), pw_load = (\<lambda>_. Inr (PDict []))\<rparr>"

theorem search_recursive_bounded_witness:
  "search_recursive tiny_world 6 [''w''] = Some [''w'', ''docs''] \<and> is_adapter_directory tiny_world [''w'', ''docs'']"
proof -
  have c: "\<exists>c. e = p @ [c]" if "pw_iterdir tiny_world p = Some es" "e \<in> set es" for p es e
    using that by (auto simp: tiny_world_def split: if_splits)
  have s: "search_recursive tiny_world 6 [''w''] = Some [''w'', ''docs'']" by code_simp
  have "is_adapter_directory tiny_world [''w'', ''docs''] \<and> (\<exists>cs. [''w'', ''docs''] = [''w''] @ cs \<and> cs \<noteq> [] \<and> length cs \<le> 6
      \<and> set cs \<inter> set SKIP_DIRS = {})"
    by (rule search_recursive_bounded [OF _ s]) (rule c)
  with s show ?thesis by blast
qed

text \<open>The two loaders of the registry read different files when both layouts are present.\<close>

lemma registry_file_flat_first:
  "pw_is_file w (dir @ [''artifacts.toml'']) \<Longrightarrow> registry_file w dir = Some (dir @ [''artifacts.toml''])"
  by (simp add: registry_file_def Let_def)

end
