(* ===== verification/Py_Difflib.thy ===== *)
theory Py_Difflib
  imports Py_Prelude
begin

section \<open>\<open>difflib.SequenceMatcher\<close> and \<open>splitlines(keepends=True)\<close>\<close>

text \<open>
  The kit updater merges two versions of a file with the opcodes of Python's
  \<open>difflib.SequenceMatcher(None, a, b, autojunk=False)\<close>: the longest matching block, of these
  the one that starts earliest in \<open>a\<close> and then earliest in \<open>b\<close>, then the same on both sides of
  it, adjacent blocks joined, and the gaps between the blocks read as replacements, deletions
  and insertions. \<open>get_opcodes_tile\<close> is what the updater relies on: the opcodes cover both
  sequences from end to end, and the equal regions are equal.
\<close>

subsection \<open>Matching blocks\<close>

type_synonym block = "nat \<times> nat \<times> nat"

fun match_len :: "'a list \<Rightarrow> 'a list \<Rightarrow> nat" where
  "match_len (x # xs) (y # ys) = (if x = y then Suc (match_len xs ys) else 0)"
| "match_len _ _ = 0"

definition longer :: "'a list \<Rightarrow> 'a list \<Rightarrow> nat \<Rightarrow> nat \<Rightarrow> block \<Rightarrow> nat \<times> nat \<Rightarrow> block" where
  "longer a b ahi bhi best p =
     (let k = match_len (slice (fst p) ahi a) (slice (snd p) bhi b)
      in if snd (snd best) < k then (fst p, snd p, k) else best)"

definition find_longest_match :: "'a list \<Rightarrow> 'a list \<Rightarrow> nat \<Rightarrow> nat \<Rightarrow> nat \<Rightarrow> nat \<Rightarrow> block" where
  "find_longest_match a b alo ahi blo bhi =
     foldl (longer a b ahi bhi) (alo, blo, 0)
       (concat (map (\<lambda>i. map (\<lambda>j. (i, j)) [blo..<bhi]) [alo..<ahi]))"

text \<open>What a block of equal elements is, and that the search returns one inside its bounds.\<close>

definition block_in :: "'a list \<Rightarrow> 'a list \<Rightarrow> nat \<Rightarrow> nat \<Rightarrow> nat \<Rightarrow> nat \<Rightarrow> block \<Rightarrow> bool" where
  "block_in a b alo ahi blo bhi m =
     (case m of (i, j, k) \<Rightarrow>
        alo \<le> i \<and> blo \<le> j \<and> i + k \<le> ahi \<and> j + k \<le> bhi \<and> slice i (i + k) a = slice j (j + k) b)"

lemma match_len_le: "match_len xs ys \<le> length xs" "match_len xs ys \<le> length ys"
  by (induction xs ys rule: match_len.induct) auto

lemma match_len_take: "take (match_len xs ys) xs = take (match_len xs ys) ys"
  by (induction xs ys rule: match_len.induct) auto

lemma slice_take: "k \<le> h - i \<Longrightarrow> take k (slice i h xs) = slice i (i + k) xs"
  by (cases "h < i") (auto simp: slice_def take_drop min_def add.commute)

lemma longer_block:
  assumes "block_in a b alo ahi blo bhi best" and "alo \<le> fst p" "fst p < ahi" "blo \<le> snd p" "snd p < bhi"
  shows "block_in a b alo ahi blo bhi (longer a b ahi bhi best p)"
proof -
  let ?x = "slice (fst p) ahi a" and ?y = "slice (snd p) bhi b"
  let ?k = "match_len ?x ?y"
  have k: "?k \<le> ahi - fst p" "?k \<le> bhi - snd p"
    using match_len_le [of ?x ?y] by (simp_all add: length_slice)
  then have "slice (fst p) (fst p + ?k) a = slice (snd p) (snd p + ?k) b"
    using match_len_take [of ?x ?y] by (simp add: slice_take)
  with k assms show ?thesis by (auto simp: longer_def Let_def block_in_def)
qed

lemma find_longest_match_block:
  assumes "alo \<le> ahi" "blo \<le> bhi"
  shows "block_in a b alo ahi blo bhi (find_longest_match a b alo ahi blo bhi)"
proof -
  let ?ps = "concat (map (\<lambda>i. map (\<lambda>j. (i, j)) [blo..<bhi]) [alo..<ahi])"
  have "block_in a b alo ahi blo bhi (foldl (longer a b ahi bhi) best ps)"
    if "set ps \<subseteq> set ?ps" "block_in a b alo ahi blo bhi best" for ps best
    using that
  proof (induction ps arbitrary: best)
    case (Cons p ps)
    have "block_in a b alo ahi blo bhi (longer a b ahi bhi best p)"
      using Cons.prems by (intro longer_block) auto
    moreover have "set ps \<subseteq> set ?ps" using Cons.prems(1) by (meson set_subset_Cons subset_trans)
    ultimately show ?case by (simp only: foldl_Cons Cons.IH)
  qed simp
  moreover have "block_in a b alo ahi blo bhi (alo, blo, 0)"
    using assms by (simp add: block_in_def slice_def)
  ultimately show ?thesis unfolding find_longest_match_def by blast
qed

lemma find_longest_match_bounds:
  assumes "(i, j, k) = find_longest_match a b alo ahi blo bhi" "\<not> ahi < alo" "\<not> bhi < blo"
  shows "alo \<le> i \<and> i + k \<le> ahi \<and> blo \<le> j \<and> j + k \<le> bhi"
  using find_longest_match_block [of alo ahi blo bhi a b] assms by (simp add: block_in_def split: prod.splits)

text \<open>The blocks in increasing order, as the queue and the sort of \<open>get_matching_blocks\<close> give them.\<close>

function match_blocks :: "'a list \<Rightarrow> 'a list \<Rightarrow> nat \<Rightarrow> nat \<Rightarrow> nat \<Rightarrow> nat \<Rightarrow> block list" where
  "match_blocks a b alo ahi blo bhi =
     (if ahi < alo \<or> bhi < blo then []
      else (case find_longest_match a b alo ahi blo bhi of
              (i, j, k) \<Rightarrow>
                if k = 0 then []
                else (if alo < i \<and> blo < j then match_blocks a b alo i blo j else [])
                     @ (i, j, k)
                     # (if i + k < ahi \<and> j + k < bhi then match_blocks a b (i + k) ahi (j + k) bhi else [])))"
  by pat_completeness auto

termination
  by (relation "measure (\<lambda>(a, b, alo, ahi, blo, bhi). ahi - alo)")
    (auto dest!: find_longest_match_bounds)

declare match_blocks.simps [simp del]

fun join_blocks :: "block \<Rightarrow> block list \<Rightarrow> block list" where
  "join_blocks (i1, j1, k1) [] = (if k1 \<noteq> 0 then [(i1, j1, k1)] else [])"
| "join_blocks (i1, j1, k1) ((i2, j2, k2) # bs) =
     (if i1 + k1 = i2 \<and> j1 + k1 = j2 then join_blocks (i1, j1, k1 + k2) bs
      else (if k1 \<noteq> 0 then [(i1, j1, k1)] else []) @ join_blocks (i2, j2, k2) bs)"

definition get_matching_blocks :: "'a list \<Rightarrow> 'a list \<Rightarrow> block list" where
  "get_matching_blocks a b =
     join_blocks (0, 0, 0) (match_blocks a b 0 (length a) 0 (length b)) @ [(length a, length b, 0)]"

subsection \<open>Opcodes\<close>

datatype op_tag = OpEqual | OpReplace | OpDelete | OpInsert

type_synonym opcode = "op_tag \<times> nat \<times> nat \<times> nat \<times> nat"

fun opcodes_go :: "nat \<Rightarrow> nat \<Rightarrow> block list \<Rightarrow> opcode list" where
  "opcodes_go i j [] = []"
| "opcodes_go i j ((ai, bj, sz) # bs) =
     (if i < ai \<and> j < bj then [(OpReplace, i, ai, j, bj)]
      else if i < ai then [(OpDelete, i, ai, j, bj)]
      else if j < bj then [(OpInsert, i, ai, j, bj)] else [])
     @ (if sz \<noteq> 0 then [(OpEqual, ai, ai + sz, bj, bj + sz)] else [])
     @ opcodes_go (ai + sz) (bj + sz) bs"

definition get_opcodes :: "'a list \<Rightarrow> 'a list \<Rightarrow> opcode list" where
  "get_opcodes a b = opcodes_go 0 0 (get_matching_blocks a b)"

subsection \<open>The opcodes cover both sequences\<close>

fun blocks_from :: "'a list \<Rightarrow> 'a list \<Rightarrow> nat \<Rightarrow> nat \<Rightarrow> nat \<Rightarrow> nat \<Rightarrow> block list \<Rightarrow> bool" where
  "blocks_from a b alo ahi blo bhi [] = (alo \<le> ahi \<and> blo \<le> bhi)"
| "blocks_from a b alo ahi blo bhi ((i, j, k) # bs) =
     (block_in a b alo ahi blo bhi (i, j, k) \<and> blocks_from a b (i + k) ahi (j + k) bhi bs)"

lemma blocks_from_append:
  assumes "blocks_from a b alo m blo n bs" and "blocks_from a b m ahi n bhi cs" and "m \<le> ahi" "n \<le> bhi"
  shows "blocks_from a b alo ahi blo bhi (bs @ cs)"
  using assms
proof (induction bs arbitrary: alo blo)
  case Nil
  then show ?case
  proof (cases cs)
    case (Cons c cs')
    then show ?thesis using Nil by (cases c) (auto simp: block_in_def)
  qed simp
next
  case (Cons c bs)
  then show ?case by (cases c) (auto simp: block_in_def)
qed

lemma match_blocks_from:
  "alo \<le> ahi \<Longrightarrow> blo \<le> bhi \<Longrightarrow> blocks_from a b alo ahi blo bhi (match_blocks a b alo ahi blo bhi)"
proof (induction a b alo ahi blo bhi rule: match_blocks.induct)
  case (1 a b alo ahi blo bhi)
  obtain i j k where m: "find_longest_match a b alo ahi blo bhi = (i, j, k)"
    by (cases "find_longest_match a b alo ahi blo bhi")
  have blk: "block_in a b alo ahi blo bhi (i, j, k)"
    using find_longest_match_block [OF "1.prems"] m by metis
  then have le: "alo \<le> i" "blo \<le> j" "i + k \<le> ahi" "j + k \<le> bhi" by (auto simp: block_in_def)
  show ?case
  proof (cases "k = 0")
    case True
    with 1 m show ?thesis by (subst match_blocks.simps) simp
  next
    case False
    let ?l = "if alo < i \<and> blo < j then match_blocks a b alo i blo j else []"
    let ?r = "if i + k < ahi \<and> j + k < bhi then match_blocks a b (i + k) ahi (j + k) bhi else []"
    have l: "blocks_from a b alo i blo j ?l" using 1 m False le by simp
    have r: "blocks_from a b (i + k) ahi (j + k) bhi ?r" using 1 m False le by simp
    then have "blocks_from a b i ahi j bhi ((i, j, k) # ?r)" using blk by (auto simp: block_in_def)
    with l have "blocks_from a b alo ahi blo bhi (?l @ (i, j, k) # ?r)"
      using le by (intro blocks_from_append [where m = i and n = j]) auto
    with False m "1.prems" show ?thesis by (subst match_blocks.simps) simp
  qed
qed

lemma slice_split: "i \<le> m \<Longrightarrow> m \<le> h \<Longrightarrow> slice i h xs = slice i m xs @ slice m h xs"
proof -
  assume a: "i \<le> m" "m \<le> h"
  have "slice i h xs = take (m - i) (slice i h xs) @ drop (m - i) (slice i h xs)" by simp
  moreover have "take (m - i) (slice i h xs) = slice i m xs" using a by (simp add: slice_take)
  moreover have "drop (m - i) (slice i h xs) = slice m h xs" using a by (simp add: slice_def)
  ultimately show ?thesis by simp
qed

lemma join_blocks_from:
  assumes "block_in a b alo ahi blo bhi (i, j, k)" "blocks_from a b (i + k) ahi (j + k) bhi bs"
  shows "blocks_from a b alo ahi blo bhi (join_blocks (i, j, k) bs)"
  using assms
proof (induction bs arbitrary: i j k alo blo)
  case Nil
  then show ?case by (auto simp: block_in_def)
next
  case (Cons c bs)
  obtain i2 j2 k2 where c: "c = (i2, j2, k2)" by (cases c)
  have b2: "block_in a b (i + k) ahi (j + k) bhi (i2, j2, k2)"
    and rest: "blocks_from a b (i2 + k2) ahi (j2 + k2) bhi bs"
    using Cons.prems c by auto
  show ?case
  proof (cases "i + k = i2 \<and> j + k = j2")
    case True
    then have "block_in a b alo ahi blo bhi (i, j, k + k2)"
      using Cons.prems(1) b2 slice_split [of i "i + k" "i + (k + k2)" a] slice_split [of j "j + k" "j + (k + k2)" b]
      by (auto simp: block_in_def add.assoc)
    moreover have "blocks_from a b (i + (k + k2)) ahi (j + (k + k2)) bhi bs"
      using rest True by (metis add.assoc)
    ultimately have "blocks_from a b alo ahi blo bhi (join_blocks (i, j, k + k2) bs)"
      by (rule Cons.IH)
    with True show ?thesis by (simp add: c)
  next
    case False
    have "blocks_from a b (i + k) ahi (j + k) bhi (join_blocks (i2, j2, k2) bs)"
      by (rule Cons.IH [OF b2 rest])
    moreover have "blocks_from a b alo ahi blo bhi (join_blocks (i2, j2, k2) bs)" if "k = 0"
      using Cons.IH [OF _ rest, of alo blo] b2 Cons.prems(1) that by (auto simp: block_in_def)
    ultimately show ?thesis using False Cons.prems(1) by (auto simp: c)
  qed
qed

lemma get_matching_blocks_from:
  "blocks_from a b 0 (length a) 0 (length b) (get_matching_blocks a b)"
proof -
  have "blocks_from a b 0 (length a) 0 (length b)
      (join_blocks (0, 0, 0) (match_blocks a b 0 (length a) 0 (length b)))"
    by (rule join_blocks_from) (simp_all add: block_in_def slice_def match_blocks_from)
  then show ?thesis unfolding get_matching_blocks_def
    by (rule blocks_from_append) (simp_all add: block_in_def slice_def)
qed

text \<open>A run of opcodes from \<open>(i, j)\<close> to \<open>(m, n)\<close>, without a gap on either side.\<close>

fun tiles :: "'a list \<Rightarrow> 'a list \<Rightarrow> nat \<Rightarrow> nat \<Rightarrow> opcode list \<Rightarrow> bool" where
  "tiles a b i j [] = (i = length a \<and> j = length b)"
| "tiles a b i j ((tag, i1, i2, j1, j2) # ops) =
     (i1 = i \<and> j1 = j \<and> i \<le> i2 \<and> j \<le> j2 \<and> i2 \<le> length a \<and> j2 \<le> length b
      \<and> (case tag of
           OpEqual \<Rightarrow> i < i2 \<and> slice i1 i2 a = slice j1 j2 b
         | OpReplace \<Rightarrow> i < i2 \<and> j < j2
         | OpDelete \<Rightarrow> i < i2 \<and> j = j2
         | OpInsert \<Rightarrow> i = i2 \<and> j < j2)
      \<and> tiles a b i2 j2 ops)"

lemma opcodes_go_tile:
  assumes "blocks_from a b i (length a) j (length b) (bs @ [(length a, length b, 0)])"
  shows "tiles a b i j (opcodes_go i j (bs @ [(length a, length b, 0)]))"
  using assms
proof (induction bs arbitrary: i j)
  case Nil
  then show ?case by (auto simp: block_in_def)
next
  case (Cons c bs)
  obtain ai bj k where c: "c = (ai, bj, k)" by (cases c)
  have blk: "block_in a b i (length a) j (length b) (ai, bj, k)" using Cons.prems c by simp
  have rest: "tiles a b (ai + k) (bj + k) (opcodes_go (ai + k) (bj + k) (bs @ [(length a, length b, 0)]))"
    using Cons.IH Cons.prems c by simp
  then have "tiles a b ai bj ((if k \<noteq> 0 then [(OpEqual, ai, ai + k, bj, bj + k)] else [])
      @ opcodes_go (ai + k) (bj + k) (bs @ [(length a, length b, 0)]))"
    using blk by (auto simp: block_in_def)
  with blk show ?case by (auto simp: c block_in_def)
qed

theorem get_opcodes_tile: "tiles a b 0 0 (get_opcodes a b)"
  using opcodes_go_tile [of a b 0 0] get_matching_blocks_from [of a b]
  by (simp add: get_opcodes_def get_matching_blocks_def)

lemma get_opcodes_same: "a \<noteq> b \<Longrightarrow> \<exists>op \<in> set (get_opcodes a b). fst op \<noteq> OpEqual"
proof (rule ccontr)
  assume ne: "a \<noteq> b" and "\<not> (\<exists>op \<in> set (get_opcodes a b). fst op \<noteq> OpEqual)"
  then have all: "\<forall>op \<in> set (get_opcodes a b). fst op = OpEqual" by blast
  have "slice i (length a) a = slice j (length b) b"
    if "tiles a b i j ops" "\<forall>op \<in> set ops. fst op = OpEqual" for i j ops
    using that
  proof (induction ops arbitrary: i j)
    case (Cons op ops)
    obtain tag i1 i2 j1 j2 where op: "op = (tag, i1, i2, j1, j2)" by (cases op)
    have "slice i2 (length a) a = slice j2 (length b) b" using Cons op by auto
    then show ?case using Cons.prems op slice_split [of i i2 "length a" a] slice_split [of j j2 "length b" b]
      by auto
  qed (simp add: slice_def)
  from this [OF get_opcodes_tile all] ne show False by (simp add: slice_def)
qed

lemma match_len_refl: "match_len xs xs = length xs"
  by (induction xs) auto

lemma longer_full: "snd (snd best) = ahi \<Longrightarrow> longer a b ahi bhi best p = best"
  using match_len_le(1) [of "slice (fst p) ahi a" "slice (snd p) bhi b"]
  by (auto simp: longer_def Let_def length_slice)

lemma find_longest_match_refl:
  assumes "a \<noteq> []"
  shows "find_longest_match a a 0 (length a) 0 (length a) = (0, 0, length a)"
proof -
  let ?n = "length a"
  have stay: "foldl (longer a a ?n ?n) best ps = best" if "snd (snd best) = ?n" for ps best
    using that by (induction ps) (simp_all add: longer_full)
  have cons: "[0..<?n] = 0 # [1..<?n]" using assms by (simp add: upt_conv_Cons)
  have first: "longer a a ?n ?n (0, 0, 0) (0, 0) = (0, 0, ?n)"
    using assms by (simp add: longer_def slice_def match_len_refl)
  show ?thesis by (simp add: find_longest_match_def cons first stay del: upt_Suc)
qed

lemma get_opcodes_refl: "get_opcodes a a = (if a = [] then [] else [(OpEqual, 0, length a, 0, length a)])"
proof (cases "a = []")
  case True
  then show ?thesis
    by (simp add: get_opcodes_def get_matching_blocks_def match_blocks.simps find_longest_match_def)
next
  case False
  then show ?thesis
    by (simp add: get_opcodes_def get_matching_blocks_def match_blocks.simps [of a a] find_longest_match_refl)
qed

subsection \<open>Lines with their ends\<close>

fun lines_keep_acc :: "string \<Rightarrow> string \<Rightarrow> string list" where
  "lines_keep_acc acc [] = (if acc = [] then [] else [rev acc])"
| "lines_keep_acc acc (c # d # s) =
     (if c = CR \<and> d = NL then rev (d # c # acc) # lines_keep_acc [] s
      else if line_break c then rev (c # acc) # lines_keep_acc [] (d # s)
      else lines_keep_acc (c # acc) (d # s))"
| "lines_keep_acc acc [c] = [rev (c # acc)]"

definition splitlines_keep :: "string \<Rightarrow> string list" where
  "splitlines_keep s = lines_keep_acc [] s"

lemma concat_lines_keep_acc: "concat (lines_keep_acc acc s) = rev acc @ s"
  by (induction acc s rule: lines_keep_acc.induct) auto

lemma concat_splitlines_keep [simp]: "concat (splitlines_keep s) = s"
  by (simp add: splitlines_keep_def concat_lines_keep_acc)

text \<open>A line that is ended by a line feed, with or without a carriage return before it.\<close>

definition ended :: "string \<Rightarrow> bool" where
  "ended l =
     (case rev l of
        c # w \<Rightarrow> c = NL \<and> list_all (\<lambda>c. \<not> line_break c) (case w of d # v \<Rightarrow> if d = CR then v else w | [] \<Rightarrow> [])
      | [] \<Rightarrow> False)"

lemma ended_iff:
  "ended l \<longleftrightarrow> (\<exists>w. list_all (\<lambda>c. \<not> line_break c) w \<and> (l = w @ [NL] \<or> l = w @ [CR, NL]))"
proof
  assume e: "ended l"
  then obtain w where l: "l = rev w @ [NL]"
    by (auto simp: ended_def split: list.splits)
  with e show "\<exists>w. list_all (\<lambda>c. \<not> line_break c) w \<and> (l = w @ [NL] \<or> l = w @ [CR, NL])"
    by (cases w) (auto simp: ended_def split: if_splits intro: exI [of _ "rev w"] exI [of _ "rev (tl w)"])
next
  assume "\<exists>w. list_all (\<lambda>c. \<not> line_break c) w \<and> (l = w @ [NL] \<or> l = w @ [CR, NL])"
  then show "ended l" by (auto simp: ended_def list_all_iff split: list.splits)
qed

lemma line_break_NL [simp]: "line_break NL" and line_break_CR [simp]: "line_break CR"
  by (simp_all add: line_break_def)

lemma lines_keep_acc_word:
  "list_all (\<lambda>c. \<not> line_break c) w \<Longrightarrow> t \<noteq> [] \<Longrightarrow> lines_keep_acc acc (w @ t) = lines_keep_acc (rev w @ acc) t"
proof (induction w arbitrary: acc)
  case (Cons c w)
  obtain d s where "w @ t = d # s" using Cons.prems(2) by (cases "w @ t") auto
  moreover have "c \<noteq> CR" using Cons.prems(1) by auto
  ultimately show ?case using Cons by auto
qed simp

lemma lines_keep_acc_NL: "lines_keep_acc acc (NL # s) = (rev acc @ [NL]) # lines_keep_acc [] s"
  by (cases s) auto

lemma lines_keep_acc_CRNL: "lines_keep_acc acc (CR # NL # s) = (rev acc @ [CR, NL]) # lines_keep_acc [] s"
  by simp

lemma splitlines_keep_ended: "ended l \<Longrightarrow> splitlines_keep (l @ s) = l # splitlines_keep s"
  unfolding splitlines_keep_def ended_iff
  by (auto simp: lines_keep_acc_word lines_keep_acc_NL lines_keep_acc_CRNL)

lemma splitlines_keep_concat:
  "list_all ended ls \<Longrightarrow> splitlines_keep (concat ls) = ls"
proof (induction ls)
  case Nil
  then show ?case by (simp add: splitlines_keep_def)
next
  case (Cons l ls)
  then show ?case by (simp add: splitlines_keep_ended)
qed

end
