(* ===== verification/Kit_Update.thy ===== *)
theory Kit_Update
  imports Toc Manifest Project_Files Py_Difflib
begin

section \<open>Updating an installed kit (\<open>utils/diff_engine.py\<close>)\<close>

text \<open>
  The updater compares the files of a kit with the user's installed copy, asks what to do with
  each difference and applies the answers. The model has the disk as explicit state: the files by
  their path with their contents, and the directories. A file's bytes are either the UTF-8
  encoding of a text or not a text at all, the only distinction the code makes. The person at
  the terminal is a list of input lines, whose end is an end of file, and an editor, a function
  of the number of the session and the text it is opened on, that gives the file it leaves behind
  or fails. What is written to the terminal is not modelled. Reading a file that exists succeeds;
  writing fails when the target is a directory or lies below a file.
\<close>

subsection \<open>The disk\<close>

datatype content = Text string | Binary string

record disk =
  dk_files :: "(path \<times> content) list"
  dk_dirs :: "path list"

datatype disk_error = TargetIsDirectory path | ParentIsFile path | NotDirectory path | AlreadyExists path | NoSuchFile path

definition is_file :: "disk \<Rightarrow> path \<Rightarrow> bool" where
  "is_file dk p = dhas (dk_files dk) p"

definition is_dir :: "disk \<Rightarrow> path \<Rightarrow> bool" where
  "is_dir dk p = (p \<in> set (dk_dirs dk))"

definition strictly_below :: "path \<Rightarrow> path \<Rightarrow> bool" where
  "strictly_below d p = (length d < length p \<and> take (length d) p = d)"

text \<open>The files that \<open>d.rglob("*")\<close> yields.\<close>

definition rglob :: "disk \<Rightarrow> path \<Rightarrow> (path \<times> content) list" where
  "rglob dk d = filter (\<lambda>f. strictly_below d (fst f)) (dk_files dk)"

definition parents :: "path \<Rightarrow> path list" where
  "parents p = map (\<lambda>n. take n p) [0..<length p]"

text \<open>\<open>dest.parent.mkdir(parents=True, exist_ok=True)\<close> followed by \<open>dest.write_bytes(data)\<close>.\<close>

definition put_file :: "disk \<Rightarrow> path \<Rightarrow> content \<Rightarrow> disk_error + disk" where
  "put_file dk dest data =
     (if list_ex (is_file dk) (parents dest) then Inl (ParentIsFile dest)
      else if is_dir dk dest then Inl (TargetIsDirectory dest)
      else Inr (dk\<lparr>dk_files := dset dest data (dk_files dk), dk_dirs := foldr sadd (parents dest) (dk_dirs dk)\<rparr>))"

definition unlink_file :: "disk \<Rightarrow> path \<Rightarrow> disk" where
  "unlink_file dk dest = dk\<lparr>dk_files := dpop dest (dk_files dk)\<rparr>"

text \<open>\<open>str(p.relative_to(d))\<close> and \<open>d / s\<close> for a relative \<open>s\<close>; the order of \<open>Path\<close> objects.\<close>

definition rel_str :: "path \<Rightarrow> path \<Rightarrow> string" where
  "rel_str d p = join_with ''/'' (drop (length d) p)"

definition join_path :: "path \<Rightarrow> string \<Rightarrow> path" where
  "join_path d s = d @ path_parts s"

fun path_less :: "path \<Rightarrow> path \<Rightarrow> bool" where
  "path_less _ [] = False"
| "path_less [] (_ # _) = True"
| "path_less (a # p) (b # q) = (str_less a b \<or> a = b \<and> path_less p q)"

subsection \<open>Answers at the terminal\<close>

record console =
  co_inputs :: "string list"
  co_session :: nat

type_synonym editor = "nat \<Rightarrow> string \<Rightarrow> string option"

text \<open>\<open>input()\<close>, with \<open>None\<close> for \<open>EOFError\<close>.\<close>

definition read_line :: "console \<Rightarrow> string option \<times> console" where
  "read_line con =
     (case co_inputs con of [] \<Rightarrow> (None, con) | l # ls \<Rightarrow> (Some l, con\<lparr>co_inputs := ls\<rparr>))"

subsection \<open>Conflict markers\<close>

definition CONFLICT_MARKER_OURS :: string where
  "CONFLICT_MARKER_OURS = ''<<<<<<< installed (yours)''"

definition CONFLICT_MARKER_SEP :: string where
  "CONFLICT_MARKER_SEP = ''=======''"

definition CONFLICT_MARKER_THEIRS :: string where
  "CONFLICT_MARKER_THEIRS = ''>>>>>>> upstream (source)''"

definition marker_line :: "string \<Rightarrow> bool" where
  "marker_line line =
     (startswith line ''<<<<<<<'' \<or> startswith line ''======='' \<or> startswith line ''>>>>>>>'')"

definition has_conflict_markers :: "string \<Rightarrow> bool" where
  "has_conflict_markers text = list_ex marker_line (splitlines text)"

fun conflict_part :: "string list \<Rightarrow> string list \<Rightarrow> opcode \<Rightarrow> string list" where
  "conflict_part old new (OpEqual, i1, i2, j1, j2) = slice i1 i2 old"
| "conflict_part old new (OpReplace, i1, i2, j1, j2) =
     [CONFLICT_MARKER_OURS @ [NL]] @ slice i1 i2 old @ [CONFLICT_MARKER_SEP @ [NL]]
     @ slice j1 j2 new @ [CONFLICT_MARKER_THEIRS @ [NL]]"
| "conflict_part old new (OpDelete, i1, i2, j1, j2) =
     [CONFLICT_MARKER_OURS @ [NL]] @ slice i1 i2 old
     @ [CONFLICT_MARKER_SEP @ [NL], CONFLICT_MARKER_THEIRS @ [NL]]"
| "conflict_part old new (OpInsert, i1, i2, j1, j2) =
     [CONFLICT_MARKER_OURS @ [NL], CONFLICT_MARKER_SEP @ [NL]] @ slice j1 j2 new
     @ [CONFLICT_MARKER_THEIRS @ [NL]]"

definition build_conflict_content :: "string \<Rightarrow> string \<Rightarrow> string" where
  "build_conflict_content old_text new_text =
     (let old_lines = splitlines_keep old_text; new_lines = splitlines_keep new_text
      in concat (concat (map (conflict_part old_lines new_lines) (get_opcodes old_lines new_lines))))"

datatype resolution = Retry | TakeUpstream | KeepYours

definition unresolved_answer :: "string option \<Rightarrow> resolution" where
  "unresolved_answer line =
     (case line of
        None \<Rightarrow> KeepYours
      | Some l \<Rightarrow> (let r = lower (strip l)
                   in if r = ''r'' then Retry else if r = ''a'' then TakeUpstream else KeepYours))"

text \<open>Reading a file in text mode: \<open>\r\n\<close> and \<open>\r\<close> become \<open>\n\<close>.\<close>

fun universal_newlines :: "string \<Rightarrow> string" where
  "universal_newlines (c # d # s) =
     (if c = CR \<and> d = NL then NL # universal_newlines s
      else (if c = CR then NL else c) # universal_newlines (d # s))"
| "universal_newlines [c] = [if c = CR then NL else c]"
| "universal_newlines [] = []"

text \<open>
  The \<open>while True\<close> loop: every further round consumes an input line, so the list of lines
  bounds it. The result is the resolved content, the next session and the lines left.
\<close>

fun editor_loop :: "editor \<Rightarrow> content \<Rightarrow> nat \<Rightarrow> string list \<Rightarrow> string \<Rightarrow> content option \<times> nat \<times> string list" where
  "editor_loop ed new_content n inputs text =
     (case ed n text of
        None \<Rightarrow> (None, Suc n, inputs)
      | Some raw \<Rightarrow>
          (let edited = universal_newlines raw
           in if strip edited = [] then (None, Suc n, inputs)
              else if \<not> has_conflict_markers edited then (Some (Text edited), Suc n, inputs)
              else (case inputs of
                      [] \<Rightarrow> (None, Suc n, [])
                    | l # ls \<Rightarrow>
                        (case unresolved_answer (Some l) of
                           Retry \<Rightarrow> editor_loop ed new_content (Suc n) ls edited
                         | TakeUpstream \<Rightarrow> (Some new_content, Suc n, ls)
                         | KeepYours \<Rightarrow> (None, Suc n, ls)))))"

declare editor_loop.simps [simp del]

definition open_editor_for_file :: "editor \<Rightarrow> content \<Rightarrow> content \<Rightarrow> console \<Rightarrow> content option \<times> console" where
  "open_editor_for_file ed old_content new_content con =
     (case (old_content, new_content) of
        (Text old_text, Text new_text) \<Rightarrow>
          (case editor_loop ed new_content (co_session con) (co_inputs con)
                  (build_conflict_content old_text new_text) of
             (res, n, ls) \<Rightarrow> (res, \<lparr>co_inputs = ls, co_session = n\<rparr>))
      | _ \<Rightarrow> (None, con))"

subsection \<open>The files of a kit\<close>

definition KIT_EXCLUDE_FILES :: "string list" where
  "KIT_EXCLUDE_FILES = [''conf.toml'', ''blueprint_hashes.toml'']"

definition KIT_EXCLUDE_DIRS :: "string list" where
  "KIT_EXCLUDE_DIRS = [''blueprints'', ''__pycache__'', ''.prev'']"

definition names_of :: "string list option \<Rightarrow> string list" where
  "names_of xs = (case xs of None \<Rightarrow> [] | Some ys \<Rightarrow> ys)"

definition kit_file_kept :: "string list option \<Rightarrow> string list option \<Rightarrow> string list \<Rightarrow> bool" where
  "kit_file_kept content_dirs content_files parts =
     (if content_dirs \<noteq> None \<or> content_files \<noteq> None
      then (1 < length parts \<and> hd parts \<noteq> [] \<and> hd parts \<in> set (names_of content_dirs))
           \<or> (length parts = 1 \<and> last parts \<in> set (names_of content_files))
      else last parts \<notin> set KIT_EXCLUDE_FILES \<and> \<not> list_ex (\<lambda>part. part \<in> set KIT_EXCLUDE_DIRS) parts)"

definition enumerate_kit_files :: "string list option \<Rightarrow> string list option \<Rightarrow> disk \<Rightarrow> path \<Rightarrow> (string \<times> content) list" where
  "enumerate_kit_files content_dirs content_files dk dir_path =
     (if \<not> is_dir dk dir_path then []
      else foldl (\<lambda>files f.
                    if kit_file_kept content_dirs content_files (drop (length dir_path) (fst f))
                    then dset (rel_str dir_path (fst f)) (snd f) files else files)
             [] (sorted_by (\<lambda>f g. path_less (fst f) (fst g)) (rglob dk dir_path)))"

record diff_report =
  dr_added :: "string list"
  dr_removed :: "string list"
  dr_modified :: "string list"
  dr_unchanged :: "string list"

definition has_changes :: "diff_report \<Rightarrow> bool" where
  "has_changes r = (dr_added r \<noteq> [] \<or> dr_removed r \<noteq> [] \<or> dr_modified r \<noteq> [])"

definition classify_step :: "(string \<times> content) list \<Rightarrow> (string \<times> content) list \<Rightarrow> diff_report \<Rightarrow> string \<Rightarrow> diff_report" where
  "classify_step source_files user_files report p =
     (case (dget source_files p, dget user_files p) of
        (Some s, None) \<Rightarrow> report\<lparr>dr_added := dr_added report @ [p]\<rparr>
      | (None, _) \<Rightarrow> report\<lparr>dr_removed := dr_removed report @ [p]\<rparr>
      | (Some s, Some u) \<Rightarrow>
          if s = u then report\<lparr>dr_unchanged := dr_unchanged report @ [p]\<rparr>
          else report\<lparr>dr_modified := dr_modified report @ [p]\<rparr>)"

definition classify_kit_files :: "(string \<times> content) list \<Rightarrow> (string \<times> content) list \<Rightarrow> diff_report" where
  "classify_kit_files source_files user_files =
     foldl (classify_step source_files user_files)
       \<lparr>dr_added = [], dr_removed = [], dr_modified = [], dr_unchanged = []\<rparr>
       (sorted_strs (remdups (map fst source_files @ map fst user_files)))"

subsection \<open>The prompt for a file\<close>

record review =
  rv_accept_all :: bool
  rv_decline_all :: bool

datatype decision = Accept | Decline | Modify

definition answer_file :: "review \<Rightarrow> string \<Rightarrow> decision \<times> review" where
  "answer_file rv response =
     (if response = ''a'' then (Accept, rv)
      else if response = ''d'' then (Decline, rv)
      else if response = ''A'' then (Accept, rv\<lparr>rv_accept_all := True\<rparr>)
      else if response = ''D'' then (Decline, rv\<lparr>rv_decline_all := True\<rparr>)
      else if response = ''m'' then (Modify, rv)
      else (Decline, rv))"

definition prompt_kit_file :: "review \<Rightarrow> console \<Rightarrow> decision \<times> review \<times> console" where
  "prompt_kit_file rv con =
     (if rv_accept_all rv then (Accept, rv, con)
      else if rv_decline_all rv then (Decline, rv, con)
      else (case read_line con of
              (None, con') \<Rightarrow> (Decline, rv, con')
            | (Some l, con') \<Rightarrow> (case answer_file rv (strip l) of (d, rv') \<Rightarrow> (d, rv', con'))))"

subsection \<open>Tables of contents\<close>

datatype toc_format = NoToc | MarkerToc | HeadingToc

fun find_line :: "(string \<Rightarrow> bool) \<Rightarrow> nat \<Rightarrow> string list \<Rightarrow> nat option" where
  "find_line p i [] = None"
| "find_line p i (l # ls) = (if p l then Some i else find_line p (Suc i) ls)"

definition cut_lines :: "string list \<Rightarrow> nat \<Rightarrow> nat \<Rightarrow> string" where
  "cut_lines lines s e = join_with [NL] (take (back_blank lines s) lines @ drop (skip_blank lines e) lines)"

definition strip_toc_for_diff :: "content \<Rightarrow> content \<times> toc_format" where
  "strip_toc_for_diff content =
     (case content of
        Binary b \<Rightarrow> (content, NoToc)
      | Text text \<Rightarrow>
          (let lines = split_on NL text
           in case find_markers None 0 lines of
                Some (s, e) \<Rightarrow> (Text (cut_lines lines s (Suc e)), MarkerToc)
              | None \<Rightarrow>
                  (case find_line (\<lambda>l. re_match TOC_SECTION_RE l \<noteq> None) 0 lines of
                     Some i \<Rightarrow>
                       (let e = (case find_line (\<lambda>l. re_match ANY_HEADING_RE l \<noteq> None \<or> is_separator l)
                                        (Suc i) (drop (Suc i) lines) of
                                   None \<Rightarrow> length lines | Some j \<Rightarrow> j)
                        in (Text (cut_lines lines i e), HeadingToc))
                   | None \<Rightarrow> (content, NoToc))))"

definition prompt_toc_regen :: "console \<Rightarrow> bool \<times> console" where
  "prompt_toc_regen con =
     (case read_line con of
        (None, con') \<Rightarrow> (False, con')
      | (Some l, con') \<Rightarrow> (lower (strip l) = ''y'' \<or> lower (strip l) = ''yes'', con'))"

definition prompt_toc_error_continue :: "console \<Rightarrow> bool \<times> console" where
  "prompt_toc_error_continue con =
     (case read_line con of
        (None, con') \<Rightarrow> (False, con')
      | (Some l, con') \<Rightarrow> (lower (strip l) \<noteq> ''s'', con'))"

text \<open>\<open>None\<close> is the exception of a content that does not decode.\<close>

definition regenerate_toc :: "content \<Rightarrow> toc_format \<Rightarrow> content option" where
  "regenerate_toc content fmt =
     (case content of
        Binary b \<Rightarrow> None
      | Text text \<Rightarrow>
          Some (Text (if fmt = MarkerToc then insert_toc_markers 3 2 text else insert_toc_heading 3 3 True text)))"

subsection \<open>Where the files go\<close>

text \<open>The resource arguments of the update: bindings, source file to resource, resource types.\<close>

record resources =
  rs_bindings :: "(string \<times> path) list"
  rs_source_to_id :: "(string \<times> string) list"
  rs_info :: "(string \<times> resource_info) list"

definition last_part :: "string \<Rightarrow> string" where
  "last_part s = last (split_on (CHR ''/'') s)"

definition directory_target :: "string \<Rightarrow> path \<Rightarrow> string \<Rightarrow> path" where
  "directory_target source_base binding src_rel_path =
     (if startswith src_rel_path (source_base @ ''/'')
      then join_path binding (drop (length source_base + 1) src_rel_path)
      else if \<not> startswith source_base ''/''
              \<and> take (length (path_parts source_base)) (path_parts src_rel_path) = path_parts source_base
      then binding @ drop (length (path_parts source_base)) (path_parts src_rel_path)
      else join_path binding (last_part src_rel_path))"

definition target_of :: "disk \<Rightarrow> resources \<Rightarrow> path \<Rightarrow> string \<Rightarrow> path" where
  "target_of dk rs user_dir src_rel_path =
     (if rs_bindings rs \<noteq> [] \<and> rs_source_to_id rs \<noteq> [] \<and> rs_info rs \<noteq> []
      then (case dget (rs_source_to_id rs) src_rel_path of
              None \<Rightarrow> join_path user_dir src_rel_path
            | Some res_id \<Rightarrow>
                (case dget (rs_bindings rs) res_id of
                   None \<Rightarrow> join_path user_dir src_rel_path
                 | Some binding \<Rightarrow>
                     if res_id = [] then join_path user_dir src_rel_path
                     else (case dget (rs_info rs) res_id of
                             Some info \<Rightarrow>
                               if ri_type info = ''directory''
                               then directory_target (ri_source_base info) binding src_rel_path
                               else if is_dir dk binding then join_path binding (last_part src_rel_path) else binding
                           | None \<Rightarrow>
                               if is_dir dk binding then join_path binding (last_part src_rel_path) else binding)))
      else join_path user_dir src_rel_path)"

definition build_target_mapping :: "disk \<Rightarrow> resources \<Rightarrow> path \<Rightarrow> (string \<times> content) list \<Rightarrow> (string \<times> path) list" where
  "build_target_mapping dk rs user_dir source_files =
     map (\<lambda>f. (fst f, target_of dk rs user_dir (fst f))) source_files"

text \<open>The installed files and the target mapping, as the three loops extend them together.\<close>

type_synonym installed = "(string \<times> content) list \<times> (string \<times> path) list"

definition read_targets :: "disk \<Rightarrow> (string \<times> path) list \<Rightarrow> installed" where
  "read_targets dk targets =
     (foldl (\<lambda>files t. case dget (dk_files dk) (snd t) of None \<Rightarrow> files | Some c \<Rightarrow> dset (fst t) c files) [] targets,
      targets)"

definition add_bound_file :: "installed \<Rightarrow> string \<Rightarrow> path \<times> content \<Rightarrow> installed" where
  "add_bound_file st rel f =
     (if dhas (fst st) rel then st else (dset rel (snd f) (fst st), dset rel (fst f) (snd st)))"

definition read_binding :: "disk \<Rightarrow> resources \<Rightarrow> installed \<Rightarrow> string \<times> path \<Rightarrow> installed" where
  "read_binding dk rs st b =
     (case dget (rs_info rs) (fst b) of
        None \<Rightarrow> st
      | Some info \<Rightarrow>
          if ri_type info = ''directory'' \<and> is_dir dk (snd b)
          then foldl (\<lambda>st' f. add_bound_file st' (ri_source_base info @ ''/'' @ rel_str (snd b) (fst f)) f)
                 st (rglob dk (snd b))
          else if ri_type info = ''file'' \<and> is_dir dk (snd b)
          then (let fpath = join_path (snd b) (last_part (ri_source_base info))
                in case dget (dk_files dk) fpath of
                     None \<Rightarrow> st
                   | Some c \<Rightarrow> add_bound_file st (ri_source_base info) (fpath, c))
          else st)"

definition add_user_file :: "path \<Rightarrow> installed \<Rightarrow> string \<times> content \<Rightarrow> installed" where
  "add_user_file user_dir st f =
     (if dhas (fst st) (fst f) then st
      else (dset (fst f) (snd f) (fst st),
            if dhas (snd st) (fst f) then snd st else dset (fst f) (join_path user_dir (fst f)) (snd st)))"

definition read_installed :: "string list option \<Rightarrow> string list option \<Rightarrow> disk \<Rightarrow> resources \<Rightarrow> path
    \<Rightarrow> (string \<times> content) list \<Rightarrow> installed" where
  "read_installed content_dirs content_files dk rs user_dir source_files =
     (let st = read_targets dk (build_target_mapping dk rs user_dir source_files);
          st = (if rs_bindings rs \<noteq> [] \<and> rs_info rs \<noteq> [] then foldl (read_binding dk rs) st (rs_bindings rs) else st)
      in foldl (add_user_file user_dir) st (enumerate_kit_files content_dirs content_files dk user_dir))"

subsection \<open>Both sides without their tables of contents\<close>

definition strip_files :: "(string \<times> content) list \<Rightarrow> (string \<times> content) list" where
  "strip_files files = map (\<lambda>f. (fst f, fst (strip_toc_for_diff (snd f)))) files"

definition add_format :: "(string \<times> toc_format) list \<Rightarrow> string \<times> content \<Rightarrow> (string \<times> toc_format) list" where
  "add_format fmts f =
     (let fmt = snd (strip_toc_for_diff (snd f))
      in if fmt \<noteq> NoToc \<and> \<not> dhas fmts (fst f) then dset (fst f) fmt fmts else fmts)"

definition toc_formats :: "(string \<times> content) list \<Rightarrow> (string \<times> content) list \<Rightarrow> (string \<times> toc_format) list" where
  "toc_formats source_files user_files = foldl add_format (foldl add_format [] source_files) user_files"

subsection \<open>Applying the changes\<close>

datatype change = Added | Removed | Changed

fun change_name :: "change \<Rightarrow> string" where
  "change_name Added = ''added''"
| "change_name Removed = ''removed''"
| "change_name Changed = ''modified''"

datatype action = Accepted | Declined | Edited

record update_opts =
  uo_interactive :: bool
  uo_auto_approve :: bool
  uo_force :: bool
  uo_dry_run :: bool

text \<open>What the loop reads of both sides and never changes.\<close>

record update_plan =
  up_source :: "(string \<times> content) list"
  up_user :: "(string \<times> content) list"
  up_targets :: "(string \<times> path) list"
  up_user_dir :: path

record update_state =
  us_disk :: disk
  us_console :: console
  us_review :: review
  us_entries :: "(change \<times> string \<times> action) list"

datatype flow = Continue | Stop | Crash disk_error

definition file_or_empty :: "(string \<times> content) list \<Rightarrow> string \<Rightarrow> content" where
  "file_or_empty files p = (case dget files p of None \<Rightarrow> Text [] | Some c \<Rightarrow> c)"

definition decide :: "editor \<Rightarrow> update_opts \<Rightarrow> content \<Rightarrow> content \<Rightarrow> review \<Rightarrow> console
    \<Rightarrow> action \<times> content \<times> review \<times> console" where
  "decide ed opts old_content new_content rv con =
     (if uo_force opts \<or> uo_auto_approve opts then (Accepted, new_content, rv, con)
      else if \<not> uo_interactive opts then (Declined, new_content, rv, con)
      else (case prompt_kit_file rv con of
              (Accept, rv', con') \<Rightarrow> (Accepted, new_content, rv', con')
            | (Decline, rv', con') \<Rightarrow> (Declined, new_content, rv', con')
            | (Modify, rv', con') \<Rightarrow>
                (case open_editor_for_file ed old_content new_content con' of
                   (Some edited, con'') \<Rightarrow> (Edited, edited, rv', con'')
                 | (None, con'') \<Rightarrow> (Declined, new_content, rv', con''))))"

definition dest_of :: "update_plan \<Rightarrow> string \<Rightarrow> path" where
  "dest_of plan rel_path =
     (case dget (up_targets plan) rel_path of None \<Rightarrow> join_path (up_user_dir plan) rel_path | Some p \<Rightarrow> p)"

text \<open>
  The disk after an answer. An added or modified file is written with the source's bytes when it
  was accepted, with the edited text when it was edited; a removed file is only unlinked when it
  was accepted.
\<close>

definition apply_change :: "update_opts \<Rightarrow> change \<Rightarrow> action \<Rightarrow> path \<Rightarrow> content \<Rightarrow> content \<Rightarrow> disk \<Rightarrow> disk_error + disk" where
  "apply_change opts ch act dest raw_new new_content dk =
     (if uo_dry_run opts then Inr dk
      else (case ch of
              Removed \<Rightarrow> Inr (if act = Accepted \<and> is_file dk dest then unlink_file dk dest else dk)
            | _ \<Rightarrow> (case act of
                      Accepted \<Rightarrow> put_file dk dest raw_new
                    | Edited \<Rightarrow> put_file dk dest new_content
                    | Declined \<Rightarrow> Inr dk)))"

definition wrote_edited :: "update_opts \<Rightarrow> change \<Rightarrow> action \<Rightarrow> bool" where
  "wrote_edited opts ch act = (ch \<noteq> Removed \<and> act = Edited \<and> \<not> uo_dry_run opts)"

text \<open>
  The table of contents of an edited file that was just written. When it cannot be regenerated
  the installed content goes back, and the user may stop the update.
\<close>

definition regen_step :: "update_opts \<Rightarrow> (string \<times> content) list \<Rightarrow> string \<Rightarrow> toc_format \<Rightarrow> path \<Rightarrow> content
    \<Rightarrow> disk \<Rightarrow> console \<Rightarrow> disk \<times> console \<times> flow" where
  "regen_step opts user_files rel_path fmt dest written dk con =
     (let (yes, con') =
            (if uo_auto_approve opts \<or> uo_force opts then (True, con)
             else if uo_interactive opts then prompt_toc_regen con else (False, con));
          write = (\<lambda>c. dk\<lparr>dk_files := dset dest c (dk_files dk)\<rparr>)
      in if \<not> yes then (dk, con', Continue)
         else (case regenerate_toc written fmt of
                 Some c \<Rightarrow> (write c, con', Continue)
               | None \<Rightarrow>
                   (let dk' = write (case dget user_files rel_path of None \<Rightarrow> written | Some c \<Rightarrow> c)
                    in if uo_interactive opts
                       then (case prompt_toc_error_continue con' of
                               (go, con'') \<Rightarrow> (dk', con'', if go then Continue else Stop))
                       else (dk', con', Continue))))"

definition update_step :: "editor \<Rightarrow> update_opts \<Rightarrow> update_plan \<Rightarrow> string \<times> change \<Rightarrow> update_state
    \<Rightarrow> update_state \<times> flow" where
  "update_step ed opts plan pc st =
     (let (rel_path, ch) = pc;
          old_content = file_or_empty (strip_files (up_user plan)) rel_path;
          raw_new = file_or_empty (up_source plan) rel_path;
          fmt = (case dget (toc_formats (up_source plan) (up_user plan)) rel_path of None \<Rightarrow> NoToc | Some f \<Rightarrow> f);
          (act, new_content, rv, con) =
            decide ed opts old_content (file_or_empty (strip_files (up_source plan)) rel_path)
              (us_review st) (us_console st);
          dest = dest_of plan rel_path
      in case apply_change opts ch act dest raw_new new_content (us_disk st) of
           Inl e \<Rightarrow> (st\<lparr>us_review := rv, us_console := con\<rparr>, Crash e)
         | Inr dk \<Rightarrow>
             (let entries = us_entries st @ [(ch, rel_path, act)]
              in if wrote_edited opts ch act \<and> fmt \<noteq> NoToc
                 then (case regen_step opts (up_user plan) rel_path fmt dest new_content dk con of
                         (dk', con', fl) \<Rightarrow>
                           (\<lparr>us_disk = dk', us_console = con', us_review = rv, us_entries = entries\<rparr>, fl))
                 else (\<lparr>us_disk = dk, us_console = con, us_review = rv, us_entries = entries\<rparr>, Continue)))"

fun update_loop :: "editor \<Rightarrow> update_opts \<Rightarrow> update_plan \<Rightarrow> (string \<times> change) list \<Rightarrow> update_state
    \<Rightarrow> update_state \<times> flow" where
  "update_loop ed opts plan [] st = (st, Continue)"
| "update_loop ed opts plan (pc # pcs) st =
     (case update_step ed opts plan pc st of
        (st', Continue) \<Rightarrow> update_loop ed opts plan pcs st'
      | (st', fl) \<Rightarrow> (st', fl))"

subsection \<open>The update\<close>

datatype update_status = Current | Updated

record update_result =
  ur_status :: update_status
  ur_added :: "(string \<times> action) list"
  ur_removed :: "(string \<times> action) list"
  ur_modified :: "(string \<times> action) list"
  ur_accepted :: "string list"
  ur_declined :: "string list"
  ur_unchanged :: nat

definition entries_of :: "change \<Rightarrow> (change \<times> string \<times> action) list \<Rightarrow> (string \<times> action) list" where
  "entries_of ch es = map snd (filter (\<lambda>e. fst e = ch) es)"

definition change_less :: "string \<times> change \<Rightarrow> string \<times> change \<Rightarrow> bool" where
  "change_less x y =
     (str_less (fst x) (fst y) \<or> fst x = fst y \<and> str_less (change_name (snd x)) (change_name (snd y)))"

definition changed_files :: "diff_report \<Rightarrow> (string \<times> change) list" where
  "changed_files r =
     sorted_by change_less
       (map (\<lambda>p. (p, Added)) (dr_added r) @ map (\<lambda>p. (p, Removed)) (dr_removed r)
        @ map (\<lambda>p. (p, Changed)) (dr_modified r))"

definition update_result_of :: "diff_report \<Rightarrow> (change \<times> string \<times> action) list \<Rightarrow> update_result" where
  "update_result_of report es =
     (let all_entries = entries_of Added es @ entries_of Removed es @ entries_of Changed es
      in \<lparr>ur_status = Updated,
          ur_added = entries_of Added es,
          ur_removed = entries_of Removed es,
          ur_modified = entries_of Changed es,
          ur_accepted = map fst (filter (\<lambda>e. snd e = Accepted \<or> snd e = Edited) all_entries),
          ur_declined = map fst (filter (\<lambda>e. snd e = Declined) all_entries),
          ur_unchanged = length (dr_unchanged report)\<rparr>)"

record update_args =
  ua_source_dir :: path
  ua_user_dir :: path
  ua_content_dirs :: "string list option"
  ua_content_files :: "string list option"
  ua_resources :: resources

definition update_plan_of :: "update_args \<Rightarrow> disk \<Rightarrow> update_plan" where
  "update_plan_of ua dk =
     (let source_files = enumerate_kit_files (ua_content_dirs ua) (ua_content_files ua) dk (ua_source_dir ua);
          (user_files, targets) =
            read_installed (ua_content_dirs ua) (ua_content_files ua) dk (ua_resources ua) (ua_user_dir ua) source_files
      in \<lparr>up_source = source_files, up_user = user_files, up_targets = targets, up_user_dir = ua_user_dir ua\<rparr>)"

text \<open>The result, or the error that ends the run, with the disk and the terminal it leaves.\<close>

definition file_level_kit_update :: "editor \<Rightarrow> update_opts \<Rightarrow> update_args \<Rightarrow> disk \<Rightarrow> console
    \<Rightarrow> (disk_error + update_result) \<times> disk \<times> console" where
  "file_level_kit_update ed opts ua dk con =
     (let plan = update_plan_of ua dk;
          report = classify_kit_files (up_source plan) (up_user plan)
      in if \<not> has_changes report
         then (Inr \<lparr>ur_status = Current, ur_added = [], ur_removed = [], ur_modified = [], ur_accepted = [],
                    ur_declined = [], ur_unchanged = length (dr_unchanged report)\<rparr>, dk, con)
         else (case update_loop ed opts plan (changed_files report)
                      \<lparr>us_disk = dk, us_console = con, us_review = \<lparr>rv_accept_all = False, rv_decline_all = False\<rparr>,
                       us_entries = []\<rparr> of
                 (st, Crash e) \<Rightarrow> (Inl e, us_disk st, us_console st)
               | (st, _) \<Rightarrow> (Inr (update_result_of report (us_entries st)), us_disk st, us_console st)))"

end
