(* ===== verification/Disk_Ops.thy ===== *)
theory Disk_Ops
  imports Kit_Update
begin

section \<open>Operations on the disk that may fail\<close>

text \<open>
  The commands that install and migrate kits work on whole trees with \<open>shutil\<close> and \<open>pathlib\<close>. An
  operation is a function of the world (the disk and the terminal) to a result or an exception, with
  the world it leaves: an exception keeps what was done before it. There are no symbolic links,
  so \<open>resolve()\<close> only removes the dots of a path; every existing file can be read and every
  existing directory written.
\<close>

record world =
  wo_disk :: disk
  wo_console :: console

text \<open>
  The exceptions: \<open>OSError\<close>, \<open>UnicodeDecodeError\<close>, those of a manifest and of \<open>core.toml\<close>,
  \<open>JSONDecodeError\<close>, \<open>TypeError\<close>, \<open>AttributeError\<close> and \<open>RuntimeError\<close>; their messages are left out.
\<close>

datatype kit_exc =
    DiskFailure disk_error
  | Undecodable path
  | ManifestFailure manifest_error
  | BadCoreToml
  | JsonFailure
  | TypeFailure
  | AttributeFailure
  | RuntimeFailure

type_synonym 'a act = "world \<Rightarrow> (kit_exc + 'a) \<times> world"

definition return_act :: "'a \<Rightarrow> 'a act" where
  "return_act x w = (Inr x, w)"

definition fail_act :: "kit_exc \<Rightarrow> 'a act" where
  "fail_act e w = (Inl e, w)"

definition and_then :: "'a act \<Rightarrow> ('a \<Rightarrow> 'b act) \<Rightarrow> 'b act" where
  "and_then m f w = (case m w of (Inl e, w') \<Rightarrow> (Inl e, w') | (Inr x, w') \<Rightarrow> f x w')"

definition look :: "(disk \<Rightarrow> 'a) \<Rightarrow> 'a act" where
  "look f w = (Inr (f (wo_disk w)), w)"

text \<open>\<open>try: m except Exception as exc: h(exc)\<close>\<close>

definition try_act :: "'a act \<Rightarrow> (kit_exc \<Rightarrow> 'a act) \<Rightarrow> 'a act" where
  "try_act m h w = (case m w of (Inl e, w') \<Rightarrow> h e w' | r \<Rightarrow> r)"

text \<open>A loop over a list that threads a value and stops at the first exception.\<close>

primrec for_each :: "('a \<Rightarrow> 'b \<Rightarrow> 'b act) \<Rightarrow> 'a list \<Rightarrow> 'b \<Rightarrow> 'b act" where
  "for_each body [] acc = return_act acc"
| "for_each body (x # xs) acc = and_then (body x acc) (for_each body xs)"

definition disk_op :: "(disk \<Rightarrow> disk_error + disk) \<Rightarrow> unit act" where
  "disk_op f w =
     (case f (wo_disk w) of Inl e \<Rightarrow> (Inl (DiskFailure e), w) | Inr dk \<Rightarrow> (Inr (), w\<lparr>wo_disk := dk\<rparr>))"

definition when_act :: "bool \<Rightarrow> unit act \<Rightarrow> unit act" where
  "when_act b m = (if b then m else return_act ())"

subsection \<open>Paths\<close>

definition exists_on :: "disk \<Rightarrow> path \<Rightarrow> bool" where
  "exists_on dk p = (is_file dk p \<or> is_dir dk p)"

fun norm_go :: "path \<Rightarrow> path \<Rightarrow> path" where
  "norm_go acc [] = rev acc"
| "norm_go acc (p # ps) = (if p = ''..'' then norm_go (tl acc) ps else norm_go (p # acc) ps)"

text \<open>\<open>(base / s).resolve()\<close>, and \<open>os.path.relpath(p, start)\<close>.\<close>

definition resolve_under :: "path \<Rightarrow> string \<Rightarrow> path" where
  "resolve_under base s = norm_go [] (if startswith s ''/'' then path_parts s else base @ path_parts s)"

fun common_prefix :: "'a list \<Rightarrow> 'a list \<Rightarrow> nat" where
  "common_prefix (x # xs) (y # ys) = (if x = y then Suc (common_prefix xs ys) else 0)"
| "common_prefix _ _ = 0"

definition relpath :: "path \<Rightarrow> path \<Rightarrow> string" where
  "relpath p start =
     (let i = common_prefix start p; rel = replicate (length start - i) ''..'' @ drop i p
      in if rel = [] then ''.'' else join_with ''/'' rel)"

text \<open>\<open>Path.suffix\<close> and \<open>Path.stem\<close> of a file name: the last dot, unless it is the first or the last character.\<close>

definition last_dot :: "string \<Rightarrow> nat option" where
  "last_dot name =
     (let tail = length (takeWhile (\<lambda>c. c \<noteq> CHR ''.'') (rev name))
      in if CHR ''.'' \<in> set name \<and> 0 < tail \<and> tail + 1 < length name then Some (length name - tail - 1) else None)"

definition suffix_of :: "string \<Rightarrow> string" where
  "suffix_of name = (case last_dot name of None \<Rightarrow> [] | Some i \<Rightarrow> drop i name)"

definition stem_of :: "string \<Rightarrow> string" where
  "stem_of name = (case last_dot name of None \<Rightarrow> name | Some i \<Rightarrow> take i name)"

subsection \<open>Trees\<close>

definition dir_files :: "disk \<Rightarrow> path \<Rightarrow> path list" where
  "dir_files dk d = filter (\<lambda>p. strictly_below d p \<and> length p = Suc (length d)) (map fst (dk_files dk))"

definition dir_dirs :: "disk \<Rightarrow> path \<Rightarrow> path list" where
  "dir_dirs dk d = filter (\<lambda>p. strictly_below d p \<and> length p = Suc (length d)) (remdups (dk_dirs dk))"

text \<open>\<open>sorted(d.iterdir())\<close>\<close>

definition sorted_children :: "disk \<Rightarrow> path \<Rightarrow> path list" where
  "sorted_children dk d = sorted_by path_less (dir_files dk d @ dir_dirs dk d)"

definition mkdirs :: "path \<Rightarrow> disk \<Rightarrow> disk_error + disk" where
  "mkdirs p dk =
     (if is_file dk p then Inl (AlreadyExists p)
      else if list_ex (is_file dk) (parents p) then Inl (ParentIsFile p)
      else Inr (dk\<lparr>dk_dirs := foldr sadd (parents p @ [p]) (dk_dirs dk)\<rparr>))"

definition write_at :: "path \<Rightarrow> content \<Rightarrow> disk \<Rightarrow> disk_error + disk" where
  "write_at p c dk =
     (if is_dir dk p then Inl (TargetIsDirectory p)
      else if \<not> is_dir dk (butlast p) then Inl (NoSuchFile p)
      else Inr (dk\<lparr>dk_files := dset p c (dk_files dk)\<rparr>))"

definition rmtree :: "path \<Rightarrow> disk \<Rightarrow> disk_error + disk" where
  "rmtree p dk =
     (if is_file dk p then Inl (NotDirectory p)
      else if \<not> is_dir dk p then Inl (NoSuchFile p)
      else Inr (dk\<lparr>dk_files := filter (\<lambda>f. \<not> strictly_below p (fst f)) (dk_files dk),
                   dk_dirs := filter (\<lambda>d. \<not> strictly_below p d \<and> d \<noteq> p) (dk_dirs dk)\<rparr>))"

definition moved :: "path \<Rightarrow> path \<Rightarrow> path \<Rightarrow> path" where
  "moved src dst p = dst @ drop (length src) p"

definition copytree :: "path \<Rightarrow> path \<Rightarrow> disk \<Rightarrow> disk_error + disk" where
  "copytree src dst dk =
     (if \<not> is_dir dk src then Inl (NoSuchFile src)
      else if exists_on dk dst then Inl (AlreadyExists dst)
      else if list_ex (is_file dk) (parents dst) then Inl (ParentIsFile dst)
      else Inr (dk\<lparr>dk_files := foldl (\<lambda>fs f. dset (moved src dst (fst f)) (snd f) fs) (dk_files dk) (rglob dk src),
                   dk_dirs := foldr sadd (map (moved src dst) (filter (strictly_below src) (dk_dirs dk))
                                          @ parents dst @ [dst]) (dk_dirs dk)\<rparr>))"

text \<open>\<open>shutil.copy2\<close>: into the target when that is a directory.\<close>

definition copy2 :: "path \<Rightarrow> path \<Rightarrow> disk \<Rightarrow> disk_error + disk" where
  "copy2 src dst dk =
     (case dget (dk_files dk) src of
        None \<Rightarrow> Inl (NoSuchFile src)
      | Some c \<Rightarrow> write_at (if is_dir dk dst then dst @ [last src] else dst) c dk)"

text \<open>\<open>if dst.exists(): shutil.rmtree(dst)\<close> followed by \<open>shutil.copytree(src, dst)\<close>.\<close>

definition replace_tree :: "path \<Rightarrow> path \<Rightarrow> unit act" where
  "replace_tree src dst =
     and_then (look (\<lambda>dk. exists_on dk dst)) (\<lambda>ex.
     and_then (when_act ex (disk_op (rmtree dst))) (\<lambda>_.
     disk_op (copytree src dst)))"

text \<open>\<open>p.read_text(encoding="utf-8")\<close> of a file that exists.\<close>

definition read_text :: "path \<Rightarrow> string act" where
  "read_text p w =
     (case dget (dk_files (wo_disk w)) p of
        Some (Text t) \<Rightarrow> (Inr (universal_newlines t), w)
      | Some (Binary b) \<Rightarrow> (Inl (Undecodable p), w)
      | None \<Rightarrow> (Inl (DiskFailure (NoSuchFile p)), w))"

text \<open>\<open>input(...).strip()\<close>, with the empty answer for an end of file.\<close>

definition ask :: "string act" where
  "ask w =
     (case read_line (wo_console w) of
        (None, con) \<Rightarrow> (Inr [], w\<lparr>wo_console := con\<rparr>)
      | (Some l, con) \<Rightarrow> (Inr (strip l), w\<lparr>wo_console := con\<rparr>))"

end
