(* ===== verification/Kit_Manage.thy ===== *)
theory Kit_Manage
  imports Disk_Ops Toml_Utils
begin

section \<open>Installing and updating kits (\<open>commands/kit.py\<close>)\<close>

text \<open>
  The kit commands on the disk: copying a kit's content into \<open>config/kits\<close>, installing by a
  manifest, registering in \<open>core.toml\<close>, moving an installation to the manifest form, the full update
  of a kit and the aggregated files under \<open>.gen\<close>. What the code reads from outside is an
  environment: the TOML parser, whether the terminal is interactive, the working directory, the
  editor, the download from GitHub (a directory on the disk, or an error) and the text of the
  generated README, which has characters outside the model's range.
\<close>

record kit_env =
  ke_loads :: "string \<Rightarrow> string + (pyobj \<times> pyobj) list"
  ke_isatty :: bool
  ke_cwd :: path
  ke_editor :: editor
  ke_download :: "string \<Rightarrow> string \<Rightarrow> string \<Rightarrow> disk \<Rightarrow> (path \<times> string \<times> disk) option"
  ke_gen_readme :: string

subsection \<open>GitHub sources\<close>

text \<open>\<open>s.rsplit(c, 1)\<close> of a text that has the character.\<close>

definition rsplit_once :: "char \<Rightarrow> string \<Rightarrow> string \<times> string" where
  "rsplit_once c s =
     (let tail = rev (takeWhile (\<lambda>x. x \<noteq> c) (rev s)) in (take (length s - length tail - 1) s, tail))"

definition parse_github_source :: "string \<Rightarrow> (string \<times> string \<times> string) option" where
  "parse_github_source source =
     (let (src, version) = (if CHR ''@'' \<in> set source then rsplit_once (CHR ''@'') source else (source, []))
      in case split_on (CHR ''/'') (strip_by (\<lambda>c. c = CHR ''/'') src) of
           [owner, repo] \<Rightarrow> if owner = [] \<or> repo = [] then None else Some (owner, repo, version)
         | _ \<Rightarrow> None)"

definition removeprefix :: "string \<Rightarrow> string \<Rightarrow> string" where
  "removeprefix p s = (if startswith s p then drop (length p) s else s)"

subsection \<open>Reading configuration\<close>

text \<open>\<open>None\<close> without a file; an error for bytes that are not a text and for what the parser rejects.\<close>

definition load_toml :: "kit_env \<Rightarrow> disk \<Rightarrow> path \<Rightarrow> (string + (pyobj \<times> pyobj) list) option" where
  "load_toml env dk p =
     (case dget (dk_files dk) p of
        None \<Rightarrow> None
      | Some (Text t) \<Rightarrow> Some (ke_loads env t)
      | Some (Binary b) \<Rightarrow> Some (Inl ''not a text''))"

definition core_toml :: "path \<Rightarrow> path" where
  "core_toml config_dir = config_dir @ [''core.toml'']"

definition read_kits_from_core_toml :: "kit_env \<Rightarrow> disk \<Rightarrow> path \<Rightarrow> (pyobj \<times> (pyobj \<times> pyobj) list) list" where
  "read_kits_from_core_toml env dk config_dir =
     (case load_toml env dk (core_toml config_dir) of
        Some (Inr data) \<Rightarrow>
          concat (map (\<lambda>(k, v). case v of PDict d \<Rightarrow> [(k, d)] | _ \<Rightarrow> []) (dict_items data ''kits''))
      | _ \<Rightarrow> [])"

definition kit_entry :: "kit_env \<Rightarrow> disk \<Rightarrow> path \<Rightarrow> string \<Rightarrow> (pyobj \<times> pyobj) list" where
  "kit_entry env dk config_dir slug =
     (case dget (read_kits_from_core_toml env dk config_dir) (PStr slug) of None \<Rightarrow> [] | Some d \<Rightarrow> d)"

definition version_field :: "(pyobj \<times> pyobj) list \<Rightarrow> string" where
  "version_field d = (if pget d ''version'' = PNone then [] else py_str (pget d ''version''))"

definition read_kit_version :: "kit_env \<Rightarrow> disk \<Rightarrow> path \<Rightarrow> string" where
  "read_kit_version env dk conf =
     (case load_toml env dk conf of Some (Inr data) \<Rightarrow> version_field data | _ \<Rightarrow> [])"

definition read_kit_slug :: "kit_env \<Rightarrow> disk \<Rightarrow> path \<Rightarrow> string" where
  "read_kit_slug env dk kit_source =
     (case load_toml env dk (kit_source @ [''conf.toml'']) of
        Some (Inr data) \<Rightarrow> (case pget data ''slug'' of PStr s \<Rightarrow> strip s | _ \<Rightarrow> [])
      | _ \<Rightarrow> [])"

definition entry_of :: "(pyobj \<times> pyobj) list \<Rightarrow> string \<Rightarrow> (pyobj \<times> pyobj) list" where
  "entry_of data slug =
     (case pget_or data ''kits'' (PDict []) of
        PDict kits \<Rightarrow> (case pget_or kits slug (PDict []) of PDict e \<Rightarrow> e | _ \<Rightarrow> [])
      | _ \<Rightarrow> [])"

definition read_kit_version_from_core :: "kit_env \<Rightarrow> disk \<Rightarrow> path \<Rightarrow> string \<Rightarrow> string" where
  "read_kit_version_from_core env dk config_dir slug =
     (case load_toml env dk (core_toml config_dir) of
        Some (Inr data) \<Rightarrow> version_field (entry_of data slug)
      | _ \<Rightarrow> [])"

subsection \<open>Registration\<close>

definition pset :: "string \<Rightarrow> pyobj \<Rightarrow> (pyobj \<times> pyobj) list \<Rightarrow> (pyobj \<times> pyobj) list" where
  "pset k v d = dset (PStr k) v d"

definition binding_objs :: "(string \<times> string) list \<Rightarrow> pyobj" where
  "binding_objs bs = PDict (map (\<lambda>(i, p). (PStr i, PDict [(PStr ''path'', PStr p)])) bs)"

definition registered_entry :: "string \<Rightarrow> string \<Rightarrow> string \<Rightarrow> (string \<times> string) list option
    \<Rightarrow> (pyobj \<times> pyobj) list \<Rightarrow> (pyobj \<times> pyobj) list" where
  "registered_entry slug version source resources existing =
     (let e = pset ''format'' (PStr ''Cypilot'') existing;
          e = (if py_truth (pget e ''path'') then e else pset ''path'' (PStr (''config/kits/'' @ slug)) e);
          e = (if source = [] then e else pset ''source'' (PStr source) e);
          e = (if version = [] then e else pset ''version'' (PStr version) e)
      in case resources of None \<Rightarrow> e | Some bs \<Rightarrow> pset ''resources'' (binding_objs bs) e)"

text \<open>The registered data, when \<open>kits\<close> is a table or missing.\<close>

definition registered_data :: "string \<Rightarrow> string \<Rightarrow> string \<Rightarrow> (string \<times> string) list option
    \<Rightarrow> (pyobj \<times> pyobj) list \<Rightarrow> (pyobj \<times> pyobj) list option" where
  "registered_data slug version source resources data =
     (case pget_or data ''kits'' (PDict []) of
        PDict kits \<Rightarrow>
          Some (pset ''kits''
                 (PDict (pset slug (PDict (registered_entry slug version source resources (entry_of data slug))) kits)) data)
      | _ \<Rightarrow> None)"

definition CORE_HEADER :: string where
  "CORE_HEADER = ''Cypilot project configuration''"

definition register_kit_in_core_toml :: "kit_env \<Rightarrow> path \<Rightarrow> string \<Rightarrow> string \<Rightarrow> string
    \<Rightarrow> (string \<times> string) list option \<Rightarrow> unit act" where
  "register_kit_in_core_toml env config_dir slug version source resources =
     and_then (look (\<lambda>dk. load_toml env dk (core_toml config_dir))) (\<lambda>loaded.
       case loaded of
         Some (Inr data) \<Rightarrow>
           (case registered_data slug version source resources data of
              None \<Rightarrow> fail_act BadCoreToml
            | Some data' \<Rightarrow>
                (case dumps data' CORE_HEADER of
                   Inl e \<Rightarrow> return_act ()
                 | Inr t \<Rightarrow> try_act (disk_op (\<lambda>dk. put_file dk (core_toml config_dir) (Text t))) (\<lambda>_. return_act ())))
       | _ \<Rightarrow> return_act ())"

subsection \<open>Copying a kit\<close>

definition KIT_CONTENT_DIRS :: "string list" where
  "KIT_CONTENT_DIRS = [''artifacts'', ''codebase'', ''scripts'', ''workflows'']"

definition KIT_CONTENT_FILES :: "string list" where
  "KIT_CONTENT_FILES = [''constraints.toml'', ''SKILL.md'', ''AGENTS.md'']"

definition copy_content_dir :: "path \<Rightarrow> path \<Rightarrow> string \<Rightarrow> string list \<Rightarrow> string list act" where
  "copy_content_dir src dst d copied =
     and_then (look (\<lambda>dk. is_dir dk (src @ [d]))) (\<lambda>here.
       if here then and_then (replace_tree (src @ [d]) (dst @ [d])) (\<lambda>_. return_act (copied @ [d]))
       else return_act copied)"

definition copy_content_file :: "path \<Rightarrow> path \<Rightarrow> string \<Rightarrow> string list \<Rightarrow> string list act" where
  "copy_content_file src dst f copied =
     and_then (look (\<lambda>dk. is_file dk (src @ [f]))) (\<lambda>here.
       if here then and_then (disk_op (copy2 (src @ [f]) (dst @ [f]))) (\<lambda>_. return_act (copied @ [f]))
       else return_act copied)"

text \<open>The result lists the items that were copied.\<close>

definition copy_kit_content :: "path \<Rightarrow> path \<Rightarrow> string list act" where
  "copy_kit_content kit_source config_kit_dir =
     and_then (disk_op (mkdirs config_kit_dir)) (\<lambda>_.
     and_then (for_each (copy_content_dir kit_source config_kit_dir) KIT_CONTENT_DIRS []) (\<lambda>copied.
     for_each (copy_content_file kit_source config_kit_dir) KIT_CONTENT_FILES copied))"

definition seed_config_file :: "path \<Rightarrow> path \<Rightarrow> string list \<Rightarrow> string list act" where
  "seed_config_file config_dir src seeded =
     and_then (look (\<lambda>dk. exists_on dk (config_dir @ [last src]))) (\<lambda>there.
       if suffix_of (last src) = ''.toml'' \<and> \<not> there
       then and_then (disk_op (copy2 src (config_dir @ [last src]))) (\<lambda>_. return_act (seeded @ [stem_of (last src)]))
       else return_act seeded)"

definition seed_kit_config_files :: "path \<Rightarrow> path \<Rightarrow> string list act" where
  "seed_kit_config_files gen_scripts_dir config_dir =
     and_then (disk_op (mkdirs config_dir)) (\<lambda>_.
     and_then (look (\<lambda>dk. dir_files dk gen_scripts_dir)) (\<lambda>files.
     for_each (seed_config_file config_dir) files []))"

definition seed_if_scripts :: "path \<Rightarrow> path \<Rightarrow> string list act" where
  "seed_if_scripts scripts_dir config_dir =
     and_then (look (\<lambda>dk. is_dir dk scripts_dir)) (\<lambda>here.
       if here then seed_kit_config_files scripts_dir config_dir else return_act [])"

definition skill_nav :: "disk \<Rightarrow> path \<Rightarrow> string \<Rightarrow> string" where
  "skill_nav dk kit_dir slug =
     (if is_file dk (kit_dir @ [''SKILL.md''])
      then ''ALWAYS invoke `{cypilot_path}/config/kits/'' @ slug @ ''/SKILL.md` FIRST'' else [])"

text \<open>The pair of the navigation line and the text of the kit's \<open>AGENTS.md\<close>.\<close>

definition collect_kit_metadata :: "path \<Rightarrow> string \<Rightarrow> (string \<times> string) act" where
  "collect_kit_metadata kit_dir slug =
     and_then (look (\<lambda>dk. (skill_nav dk kit_dir slug, is_file dk (kit_dir @ [''AGENTS.md''])))) (\<lambda>(nav, agents).
       if agents then and_then (read_text (kit_dir @ [''AGENTS.md''])) (\<lambda>t. return_act (nav, t))
       else return_act (nav, []))"

subsection \<open>The aggregated files\<close>

definition read_project_name_from_registry :: "kit_env \<Rightarrow> disk \<Rightarrow> path \<Rightarrow> string option" where
  "read_project_name_from_registry env dk config_dir =
     (case load_toml env dk (config_dir @ [''artifacts.toml'']) of
        Some (Inr data) \<Rightarrow>
          (case list_items data ''systems'' of
             PDict first # _ \<Rightarrow>
               (case pget first ''name'' of PStr s \<Rightarrow> if strip s = [] then None else Some (strip s) | _ \<Rightarrow> None)
           | _ \<Rightarrow> None)
      | _ \<Rightarrow> None)"

definition gen_agents_text :: "string \<Rightarrow> string list \<Rightarrow> string" where
  "gen_agents_text name parts =
     (let base = join_with [NL]
            [''# Cypilot: '' @ name, [], ''## Navigation Rules'', [],
             ''ALWAYS open and follow `{cypilot_path}/config/artifacts.toml` WHEN working with artifacts or codebase'', [],
             ''ALWAYS open and follow `{cypilot_path}/.core/schemas/artifacts.schema.json` WHEN working with artifacts.toml'', [],
             ''ALWAYS open and follow `{cypilot_path}/.core/architecture/specs/artifacts-registry.md` WHEN working with artifacts.toml'', []]
      in if parts = [] then base else rstrip base @ [NL, NL] @ join_with [NL, NL] parts @ [NL])"

definition gen_skill_text :: "string list \<Rightarrow> string" where
  "gen_skill_text navs =
     ''# Cypilot Generated Skills'' @ [NL, NL] @ ''This file routes to per-kit skill instructions.'' @ [NL, NL]
     @ (if join_with [NL, NL] navs = [] then [] else join_with [NL, NL] navs @ [NL])"

definition collect_step :: "path \<Rightarrow> string list \<times> string list \<Rightarrow> (string list \<times> string list) act" where
  "collect_step kit_dir acc =
     and_then (collect_kit_metadata kit_dir (last kit_dir)) (\<lambda>(nav, agents).
       return_act (fst acc @ (if nav = [] then [] else [nav]), snd acc @ (if agents = [] then [] else [agents])))"

definition regenerate_gen_aggregates :: "kit_env \<Rightarrow> path \<Rightarrow> unit act" where
  "regenerate_gen_aggregates env cypilot_dir =
     (let config_dir = cypilot_dir @ [''config'']; gen_dir = cypilot_dir @ [''.gen'']; kits_dir = config_dir @ [''kits'']
      in and_then (disk_op (mkdirs gen_dir)) (\<lambda>_.
         and_then (look (\<lambda>dk. if is_dir dk kits_dir then filter (is_dir dk) (sorted_children dk kits_dir) else [])) (\<lambda>kits.
         and_then (for_each collect_step kits ([], [])) (\<lambda>(navs, agents).
         and_then (look (\<lambda>dk. case read_project_name_from_registry env dk config_dir of None \<Rightarrow> ''Cypilot'' | Some n \<Rightarrow> n)) (\<lambda>name.
         and_then (disk_op (write_at (gen_dir @ [''AGENTS.md'']) (Text (gen_agents_text name agents)))) (\<lambda>_.
         and_then (disk_op (write_at (gen_dir @ [''SKILL.md'']) (Text (gen_skill_text navs)))) (\<lambda>_.
         disk_op (write_at (gen_dir @ [''README.md'']) (Text (ke_gen_readme env))))))))))"

subsection \<open>Installing by a manifest\<close>

definition kit_view :: "disk \<Rightarrow> path \<Rightarrow> kit_files" where
  "kit_view dk dir =
     \<lparr>kf_exists = (\<lambda>s. exists_on dk (join_path dir s)),
      kf_is_file = (\<lambda>s. is_file dk (join_path dir s)),
      kf_is_dir = (\<lambda>s. is_dir dk (join_path dir s)),
      kf_below = (\<lambda>s. map (\<lambda>f. rel_str dir (fst f)) (rglob dk (join_path dir s)))\<rparr>"

definition manifest_of :: "kit_env \<Rightarrow> path \<Rightarrow> manifest option act" where
  "manifest_of env kit_source =
     and_then (look (\<lambda>dk. load_manifest (load_toml env dk (kit_source @ [''manifest.toml''])))) (\<lambda>m.
       case m of Inl e \<Rightarrow> fail_act (ManifestFailure e) | Inr mf \<Rightarrow> return_act mf)"

definition copy_manifest_resource :: "path \<Rightarrow> manifest_resource \<Rightarrow> path \<Rightarrow> unit act" where
  "copy_manifest_resource kit_source res target =
     (let src = join_path kit_source (mr_source res)
      in if mr_type res = ''directory'' then replace_tree src target
         else and_then (disk_op (mkdirs (butlast target))) (\<lambda>_. disk_op (copy2 src target)))"

definition TEMPLATE_EXTENSIONS :: "string list" where
  "TEMPLATE_EXTENSIONS = [''.md'', ''.toml'', ''.txt'', ''.yaml'', ''.yml'']"

definition fill_template :: "(string \<times> string) list \<Rightarrow> string \<Rightarrow> string" where
  "fill_template bindings text = foldl (\<lambda>t (rid, p). replace_all (''{'' @ rid @ ''}'') p t) text bindings"

definition resolve_file :: "(string \<times> string) list \<Rightarrow> path \<times> content \<Rightarrow> path \<times> content" where
  "resolve_file bindings f =
     (case snd f of
        Binary b \<Rightarrow> f
      | Text raw \<Rightarrow>
          (let t = universal_newlines raw; t' = fill_template bindings t
           in if suffix_of (last (fst f)) \<in> set TEMPLATE_EXTENSIONS \<and> t' \<noteq> t then (fst f, Text t') else f))"

definition resolve_template_variables :: "path \<Rightarrow> (string \<times> string) list \<Rightarrow> disk \<Rightarrow> disk" where
  "resolve_template_variables kit_root bindings dk =
     (if bindings = [] then dk
      else dk\<lparr>dk_files := map (\<lambda>f. if strictly_below kit_root (fst f) then resolve_file bindings f else f) (dk_files dk)\<rparr>)"

text \<open>The question for a path, asked only on an interactive terminal and for a modifiable item.\<close>

definition ask_path :: "kit_env \<Rightarrow> bool \<Rightarrow> string act" where
  "ask_path env wanted = (if wanted \<and> ke_isatty env then ask else return_act [])"

record install_info =
  ii_version :: string
  ii_files_copied :: nat
  ii_bindings :: "(string \<times> string) list"
  ii_skill_nav :: string
  ii_agents :: string

datatype install_outcome = SourceNotFound | InvalidManifest "kit_error list" | Installed install_info

definition install_resource :: "kit_env \<Rightarrow> bool \<Rightarrow> path \<Rightarrow> path \<Rightarrow> path \<Rightarrow> manifest_resource
    \<Rightarrow> (string \<times> string) list \<Rightarrow> (string \<times> string) list act" where
  "install_resource env interactive kit_source cypilot_dir kit_root res bindings =
     and_then (ask_path env (interactive \<and> mr_user_modifiable res)) (\<lambda>answer.
       let target = resolve_under kit_root (if answer = [] then mr_default_path res else answer)
       in and_then (copy_manifest_resource kit_source res target) (\<lambda>_.
          return_act (dset (mr_id res) (relpath target cypilot_dir) bindings)))"

definition source_version :: "kit_env \<Rightarrow> path \<Rightarrow> disk \<Rightarrow> string" where
  "source_version env kit_source dk = read_kit_version env dk (kit_source @ [''conf.toml''])"

definition install_kit_with_manifest :: "kit_env \<Rightarrow> path \<Rightarrow> path \<Rightarrow> string \<Rightarrow> string \<Rightarrow> manifest \<Rightarrow> bool \<Rightarrow> string
    \<Rightarrow> install_outcome act" where
  "install_kit_with_manifest env kit_source cypilot_dir slug version mf interactive source =
     and_then (look (\<lambda>dk. validate_manifest (kit_view dk kit_source) mf)) (\<lambda>errs.
       if errs \<noteq> [] then return_act (InvalidManifest errs)
       else
         (let root_rel = replace_all ''{slug}'' slug (replace_all ''{cypilot_path}'' ''.'' (mf_root mf));
              default_root = resolve_under cypilot_dir root_rel
          in and_then (ask_path env (interactive \<and> mf_user_modifiable mf)) (\<lambda>answer.
             let kit_root = (if answer = [] then default_root else resolve_under (ke_cwd env) answer)
             in and_then (disk_op (mkdirs kit_root)) (\<lambda>_.
                and_then (for_each (install_resource env interactive kit_source cypilot_dir kit_root) (mf_resources mf) []) (\<lambda>bindings.
                and_then (disk_op (\<lambda>dk. Inr (resolve_template_variables kit_root bindings dk))) (\<lambda>_.
                and_then (look (\<lambda>dk. if version = [] then source_version env kit_source dk else version)) (\<lambda>ver.
                and_then (seed_if_scripts (kit_root @ [''scripts'']) (cypilot_dir @ [''config''])) (\<lambda>_.
                and_then (register_kit_in_core_toml env (cypilot_dir @ [''config'']) slug ver source (Some bindings)) (\<lambda>_.
                and_then (collect_kit_metadata kit_root slug) (\<lambda>(nav, agents).
                return_act (Installed \<lparr>ii_version = ver, ii_files_copied = length (mf_resources mf),
                  ii_bindings = bindings, ii_skill_nav = nav, ii_agents = agents\<rparr>)))))))))))"

text \<open>\<open>cypilot_dir / "config" / "kits" / slug\<close>, with the dots that the system resolves.\<close>

definition kit_dir_of :: "path \<Rightarrow> string \<Rightarrow> path" where
  "kit_dir_of cypilot_dir slug = resolve_under (cypilot_dir @ [''config'', ''kits'']) slug"

text \<open>The installation of a kit without a manifest.\<close>

definition install_content :: "kit_env \<Rightarrow> path \<Rightarrow> path \<Rightarrow> path \<Rightarrow> string \<Rightarrow> string \<Rightarrow> string \<Rightarrow> install_outcome act" where
  "install_content env kit_source config_dir kit_dir slug version source =
     and_then (copy_kit_content kit_source kit_dir) (\<lambda>copied.
     and_then (look (\<lambda>dk. if version = [] then source_version env kit_source dk else version)) (\<lambda>ver.
     and_then (seed_if_scripts (kit_dir @ [''scripts'']) config_dir) (\<lambda>_.
     and_then (register_kit_in_core_toml env config_dir slug ver source None) (\<lambda>_.
     and_then (collect_kit_metadata kit_dir slug) (\<lambda>(nav, agents).
     return_act (Installed \<lparr>ii_version = ver, ii_files_copied = length copied, ii_bindings = [],
       ii_skill_nav = nav, ii_agents = agents\<rparr>))))))"

definition install_kit :: "kit_env \<Rightarrow> path \<Rightarrow> path \<Rightarrow> string \<Rightarrow> string \<Rightarrow> string \<Rightarrow> bool \<Rightarrow> install_outcome act" where
  "install_kit env kit_source cypilot_dir slug version source interactive =
     and_then (look (\<lambda>dk. is_dir dk kit_source)) (\<lambda>here.
       if \<not> here then return_act SourceNotFound
       else and_then (manifest_of env kit_source) (\<lambda>m.
         case m of
           Some mf \<Rightarrow> install_kit_with_manifest env kit_source cypilot_dir slug version mf interactive source
         | None \<Rightarrow>
             install_content env kit_source (cypilot_dir @ [''config'']) (kit_dir_of cypilot_dir slug) slug version source))"

subsection \<open>From a legacy installation to a manifest\<close>

datatype migrate_outcome = MigrateSkip | MigrateFail "kit_error list" | MigratePass nat nat "(string \<times> string) list"

definition migrate_resource :: "kit_env \<Rightarrow> bool \<Rightarrow> path \<Rightarrow> path \<Rightarrow> path \<Rightarrow> manifest_resource
    \<Rightarrow> nat \<times> nat \<times> (string \<times> string) list \<Rightarrow> (nat \<times> nat \<times> (string \<times> string) list) act" where
  "migrate_resource env interactive kit_source cypilot_dir kit_root res acc =
     (case acc of (migrated, new, bindings) \<Rightarrow>
        let expected = norm_go [] (join_path kit_root (mr_default_path res))
        in and_then (look (\<lambda>dk. exists_on dk expected)) (\<lambda>there.
           if there then return_act (Suc migrated, new, dset (mr_id res) (relpath expected cypilot_dir) bindings)
           else and_then (ask_path env (interactive \<and> mr_user_modifiable res)) (\<lambda>answer.
             let target = (if answer = [] then expected else resolve_under kit_root answer)
             in and_then (copy_manifest_resource kit_source res target) (\<lambda>_.
                return_act (migrated, Suc new, dset (mr_id res) (relpath target cypilot_dir) bindings)))))"

definition migrate_legacy_kit_to_manifest :: "kit_env \<Rightarrow> path \<Rightarrow> path \<Rightarrow> string \<Rightarrow> bool \<Rightarrow> migrate_outcome act" where
  "migrate_legacy_kit_to_manifest env kit_source cypilot_dir slug interactive =
     (let config_dir = cypilot_dir @ [''config'']
      in and_then (manifest_of env kit_source) (\<lambda>m.
         case m of
           None \<Rightarrow> return_act MigrateSkip
         | Some mf \<Rightarrow>
             and_then (look (\<lambda>dk. validate_manifest (kit_view dk kit_source) mf)) (\<lambda>errs.
             if errs \<noteq> [] then return_act (MigrateFail errs)
             else and_then (look (\<lambda>dk. pget_or (kit_entry env dk config_dir slug) ''path'' (PStr (''config/kits/'' @ slug)))) (\<lambda>rel.
               case rel of
                 PStr s \<Rightarrow>
                   (let kit_root = resolve_under cypilot_dir s
                    in and_then (for_each (migrate_resource env interactive kit_source cypilot_dir kit_root) (mf_resources mf) (0, 0, [])) (\<lambda>(n, k, bindings).
                       and_then (register_kit_in_core_toml env config_dir slug [] [] (Some bindings)) (\<lambda>_.
                       and_then (disk_op (\<lambda>dk. Inr (resolve_template_variables kit_root bindings dk))) (\<lambda>_.
                       return_act (MigratePass n k bindings)))))
               | _ \<Rightarrow> fail_act BadCoreToml))))"

subsection \<open>The update of a kit\<close>

datatype version_status = VDryRun | VCurrent | VCreated | VUpdated | VPartial | VError

record kit_update =
  ku_status :: version_status
  ku_files_written :: nat
  ku_accepted :: "string list"
  ku_rejected :: "string list"
  ku_skill_nav :: string
  ku_agents :: string

record kit_opts =
  ko_dry_run :: bool
  ko_interactive :: bool
  ko_auto_approve :: bool
  ko_force :: bool

definition with_metadata :: "path \<Rightarrow> string \<Rightarrow> kit_update \<Rightarrow> kit_update act" where
  "with_metadata kit_dir slug r =
     and_then (collect_kit_metadata kit_dir slug) (\<lambda>(nav, agents).
       return_act (r\<lparr>ku_skill_nav := nav, ku_agents := agents\<rparr>))"

definition kit_result :: "version_status \<Rightarrow> nat \<Rightarrow> string list \<Rightarrow> string list \<Rightarrow> kit_update" where
  "kit_result s n acc rej =
     \<lparr>ku_status = s, ku_files_written = n, ku_accepted = acc, ku_rejected = rej, ku_skill_nav = [], ku_agents = []\<rparr>"

text \<open>The bindings of the kit in \<open>core.toml\<close>, as absolute paths; a key of a TOML table is a string.\<close>

definition bound_paths :: "kit_env \<Rightarrow> disk \<Rightarrow> path \<Rightarrow> string \<Rightarrow> (string \<times> path) list" where
  "bound_paths env dk cypilot_dir slug =
     map (\<lambda>(k, p). (key_str k, path_parts p))
       (resolve_resource_bindings (load_toml env dk (core_toml (cypilot_dir @ [''config'']))) slug
          (\<lambda>s. join_with ''/'' (resolve_under cypilot_dir s)))"

definition kit_resources :: "kit_env \<Rightarrow> path \<Rightarrow> path \<Rightarrow> string \<Rightarrow> manifest option \<Rightarrow> resources act" where
  "kit_resources env source_dir cypilot_dir slug m =
     (if m = None then return_act \<lparr>rs_bindings = [], rs_source_to_id = [], rs_info = []\<rparr>
      else and_then (look (\<lambda>dk. (build_source_to_resource_mapping (kit_view dk source_dir)
                                    (load_toml env dk (source_dir @ [''manifest.toml''])),
                                  bound_paths env dk cypilot_dir slug))) (\<lambda>(mapping, bound).
        case mapping of
          Inl e \<Rightarrow> fail_act (ManifestFailure e)
        | Inr (ids, info) \<Rightarrow> return_act \<lparr>rs_bindings = bound, rs_source_to_id = ids, rs_info = info\<rparr>))"

definition file_update :: "kit_env \<Rightarrow> kit_opts \<Rightarrow> path \<Rightarrow> path \<Rightarrow> resources \<Rightarrow> update_result act" where
  "file_update env opts source_dir kit_dir rs w =
     (case file_level_kit_update (ke_editor env)
             \<lparr>uo_interactive = ko_interactive opts, uo_auto_approve = ko_auto_approve opts, uo_force = False, uo_dry_run = False\<rparr>
             \<lparr>ua_source_dir = source_dir, ua_user_dir = kit_dir, ua_content_dirs = Some KIT_CONTENT_DIRS,
              ua_content_files = Some KIT_CONTENT_FILES, ua_resources = rs\<rparr>
             (wo_disk w) (wo_console w) of
        (Inl e, dk, con) \<Rightarrow> (Inl (DiskFailure e), \<lparr>wo_disk = dk, wo_console = con\<rparr>)
      | (Inr r, dk, con) \<Rightarrow> (Inr r, \<lparr>wo_disk = dk, wo_console = con\<rparr>))"

definition version_status_of :: "update_result \<Rightarrow> version_status" where
  "version_status_of r =
     (if ur_accepted r \<noteq> [] then VUpdated else if ur_declined r \<noteq> [] then VPartial else VCurrent)"

definition legacy_migration :: "kit_env \<Rightarrow> kit_opts \<Rightarrow> path \<Rightarrow> path \<Rightarrow> string \<Rightarrow> manifest option \<Rightarrow> bool \<Rightarrow> unit act" where
  "legacy_migration env opts source_dir cypilot_dir slug m installed =
     and_then (look (\<lambda>dk. m \<noteq> None \<and> installed
         \<and> \<not> py_truth (pget (kit_entry env dk (cypilot_dir @ [''config'']) slug) ''resources''))) (\<lambda>legacy.
       if legacy
       then and_then (migrate_legacy_kit_to_manifest env source_dir cypilot_dir slug (ko_interactive opts)) (\<lambda>_. return_act ())
       else return_act ())"

definition update_kit :: "kit_env \<Rightarrow> kit_opts \<Rightarrow> string \<Rightarrow> path \<Rightarrow> path \<Rightarrow> string \<Rightarrow> kit_update act" where
  "update_kit env opts slug source_dir cypilot_dir source =
     (let config_dir = cypilot_dir @ [''config'']; kit_dir = kit_dir_of cypilot_dir slug
      in if ko_dry_run opts then return_act (kit_result VDryRun 0 [] [])
         else and_then (look (\<lambda>dk. (source_version env source_dir dk, is_dir dk kit_dir,
                                    read_kit_version_from_core env dk config_dir slug))) (\<lambda>(ver, installed, have).
           if \<not> ko_force opts \<and> ver \<noteq> [] \<and> installed \<and> have \<noteq> [] \<and> have = ver
           then with_metadata kit_dir slug (kit_result VCurrent 0 [] [])
           else and_then (manifest_of env source_dir) (\<lambda>m.
                and_then (legacy_migration env opts source_dir cypilot_dir slug m installed) (\<lambda>_.
                and_then (kit_resources env source_dir cypilot_dir slug m) (\<lambda>rs.
                and_then (look (\<lambda>dk. is_dir dk kit_dir)) (\<lambda>here.
                if \<not> here
                then and_then (copy_kit_content source_dir kit_dir) (\<lambda>copied.
                     and_then (seed_if_scripts (kit_dir @ [''scripts'']) config_dir) (\<lambda>_.
                     and_then (register_kit_in_core_toml env config_dir slug ver [] None) (\<lambda>_.
                     with_metadata kit_dir slug (kit_result VCreated (length copied) [] []))))
                else and_then (file_update env opts source_dir kit_dir rs) (\<lambda>r.
                     and_then (when_act (ver \<noteq> []) (register_kit_in_core_toml env config_dir slug ver source None)) (\<lambda>_.
                     with_metadata kit_dir slug
                       (kit_result (version_status_of r) (length (ur_accepted r)) (ur_accepted r) (ur_declined r))))))))))"

end
