(* ===== verification/Kit_Commands.thy ===== *)
theory Kit_Commands
  imports Kit_Manage
begin

section \<open>The kit commands and the layout migration (\<open>commands/kit.py\<close>)\<close>

text \<open>
  \<open>cpt kit install\<close>, \<open>cpt kit update\<close> and the dispatcher, with their exit codes and reports, and
  the migration of the two old directory layouts. The arguments are what \<open>argparse\<close> makes of
  the command line; its own errors are the exit code 2.
\<close>

subsection \<open>The project\<close>

text \<open>
  The view of the disk that the search for the project root takes; \<open>find_project_root\<close> and
  \<open>read_cypilot_var\<close> do not use \<open>pw_load\<close>.
\<close>

definition disk_view :: "kit_env \<Rightarrow> disk \<Rightarrow> proj_world" where
  "disk_view env dk =
     \<lparr>pw_text = (\<lambda>p. case dget (dk_files dk) p of Some (Text t) \<Rightarrow> Some (universal_newlines t) | _ \<Rightarrow> None),
      pw_is_file = is_file dk, pw_is_dir = is_dir dk, pw_exists = exists_on dk,
      pw_iterdir = (\<lambda>d. if is_dir dk d then Some (dir_files dk d @ dir_dirs dk d) else None),
      pw_join = resolve_under, pw_loads = ke_loads env,
      pw_load = (\<lambda>p. case load_toml env dk p of Some (Inr d) \<Rightarrow> Inr (PDict d) | _ \<Rightarrow> Inl [])\<rparr>"

definition resolve_cypilot_dir :: "kit_env \<Rightarrow> disk \<Rightarrow> path option" where
  "resolve_cypilot_dir env dk =
     (case find_project_root (disk_view env dk) (ke_cwd env) of
        None \<Rightarrow> None
      | Some root \<Rightarrow>
          (case read_cypilot_var (disk_view env dk) root of
             None \<Rightarrow> None
           | Some rel \<Rightarrow> if rel = [] then None else Some (resolve_under root rel)))"

text \<open>\<open>try: m finally: f\<close>, and \<open>shutil.rmtree(p, ignore_errors=True)\<close>.\<close>

definition finally_act :: "'a act \<Rightarrow> unit act \<Rightarrow> 'a act" where
  "finally_act m f w = (case m w of (r, w') \<Rightarrow> (case f w' of (Inl e, w'') \<Rightarrow> (Inl e, w'') | (Inr u, w'') \<Rightarrow> (r, w'')))"

definition rmtree_quiet :: "path \<Rightarrow> unit act" where
  "rmtree_quiet p = try_act (disk_op (rmtree p)) (\<lambda>_. return_act ())"

definition clean_up :: "path option \<Rightarrow> unit act" where
  "clean_up tmp = (case tmp of None \<Rightarrow> return_act () | Some p \<Rightarrow> rmtree_quiet p)"

definition truthy :: "string option \<Rightarrow> bool" where
  "truthy s = (case s of None \<Rightarrow> False | Some t \<Rightarrow> t \<noteq> [])"

subsection \<open>\<open>cpt kit install\<close>\<close>

record install_args =
  ia_source :: "string option"
  ia_path :: "string option"
  ia_force :: bool
  ia_dry_run :: bool

datatype install_report =
    UsageError
  | SourceDirMissing
  | BadGithubSource
  | DownloadFailed
  | NoProject
  | AlreadyInstalled string
  | InstallDryRun string string
  | InstallDone install_outcome

text \<open>The source of the kit: its directory, slug, version, registered source and temporary directory.\<close>

record kit_origin =
  og_dir :: path
  og_slug :: string
  og_version :: string
  og_source :: string
  og_tmp :: "path option"

definition local_origin :: "kit_env \<Rightarrow> string \<Rightarrow> disk \<Rightarrow> kit_origin option" where
  "local_origin env local_path dk =
     (let dir = resolve_under (ke_cwd env) local_path
      in if \<not> is_dir dk dir then None
         else Some \<lparr>og_dir = dir,
                    og_slug = (if read_kit_slug env dk dir = [] then (if dir = [] then [] else last dir) else read_kit_slug env dk dir),
                    og_version = source_version env dir dk, og_source = [], og_tmp = None\<rparr>)"

definition github_origin :: "kit_env \<Rightarrow> string \<times> string \<times> string \<Rightarrow> path \<times> string \<Rightarrow> disk \<Rightarrow> kit_origin" where
  "github_origin env src got dk =
     (case src of (owner, repo, version) \<Rightarrow> case got of (dir, resolved) \<Rightarrow>
        \<lparr>og_dir = dir,
         og_slug = (if read_kit_slug env dk dir = [] then removeprefix ''cyber-pilot-kit-'' repo else read_kit_slug env dk dir),
         og_version = (if is_file dk (dir @ [''conf.toml'']) \<and> resolved = [] then source_version env dir dk else resolved),
         og_source = ''github:'' @ owner @ ''/'' @ repo, og_tmp = Some (butlast dir)\<rparr>)"

definition download :: "kit_env \<Rightarrow> string \<times> string \<times> string \<Rightarrow> (path \<times> string) option act" where
  "download env src w =
     (case src of (owner, repo, version) \<Rightarrow>
        case ke_download env owner repo version (wo_disk w) of
          None \<Rightarrow> (Inr None, w)
        | Some (dir, resolved, dk) \<Rightarrow> (Inr (Some (dir, resolved)), w\<lparr>wo_disk := dk\<rparr>))"

definition install_from :: "kit_env \<Rightarrow> install_args \<Rightarrow> kit_origin \<Rightarrow> (nat \<times> install_report) act" where
  "install_from env args og =
     and_then (look (\<lambda>dk. resolve_cypilot_dir env dk)) (\<lambda>cd.
       case cd of
         None \<Rightarrow> return_act (1, NoProject)
       | Some cypilot_dir \<Rightarrow>
           and_then (look (\<lambda>dk. exists_on dk (kit_dir_of cypilot_dir (og_slug og)))) (\<lambda>there.
           if there \<and> \<not> ia_force args then return_act (2, AlreadyInstalled (og_slug og))
           else if ia_dry_run args then return_act (0, InstallDryRun (og_slug og) (og_version og))
           else and_then (install_kit env (og_dir og) cypilot_dir (og_slug og) (og_version og) (og_source og) True) (\<lambda>r.
                and_then (regenerate_gen_aggregates env cypilot_dir) (\<lambda>_. return_act (0, InstallDone r)))))"

definition cmd_kit_install :: "kit_env \<Rightarrow> install_args \<Rightarrow> (nat \<times> install_report) act" where
  "cmd_kit_install env args =
     (if truthy (ia_source args) = truthy (ia_path args) then return_act (2, UsageError)
      else if truthy (ia_path args)
      then and_then (look (local_origin env (str_or_empty (ia_path args)))) (\<lambda>og.
             case og of None \<Rightarrow> return_act (2, SourceDirMissing) | Some g \<Rightarrow> install_from env args g)
      else (case parse_github_source (str_or_empty (ia_source args)) of
              None \<Rightarrow> return_act (2, BadGithubSource)
            | Some src \<Rightarrow>
                and_then (download env src) (\<lambda>got.
                  case got of
                    None \<Rightarrow> return_act (1, DownloadFailed)
                  | Some g \<Rightarrow>
                      and_then (look (github_origin env src g)) (\<lambda>og.
                      finally_act (install_from env args og) (clean_up (og_tmp og))))))"

subsection \<open>\<open>cpt kit update\<close>\<close>

record update_cmd_args =
  uc_slug :: "string option"
  uc_path :: "string option"
  uc_force :: bool
  uc_dry_run :: bool
  uc_no_interactive :: bool
  uc_yes :: bool

datatype update_report =
    UpdateNoProject
  | UpdateDirMissing
  | NoKitsRegistered
  | UnknownKit string
  | NoValidSources
  | KitsUpdated nat "(string \<times> kit_exc) list" "(string \<times> kit_update) list"

type_synonym update_target = "string \<times> path \<times> string \<times> path option"

definition source_target :: "kit_env \<Rightarrow> pyobj \<times> (pyobj \<times> pyobj) list \<Rightarrow> update_target list \<Rightarrow> update_target list act" where
  "source_target env kd targets =
     (case pget_or (snd kd) ''source'' (PStr []) of
        PStr s \<Rightarrow>
          if \<not> startswith s ''github:'' then return_act targets
          else (case parse_github_source (removeprefix ''github:'' s) of
                  None \<Rightarrow> return_act targets
                | Some src \<Rightarrow>
                    and_then (download env src) (\<lambda>got.
                      case got of
                        None \<Rightarrow> return_act targets
                      | Some (dir, resolved) \<Rightarrow>
                          return_act (targets @ [(key_str (fst kd), dir, s, Some (butlast dir))])))
      | v \<Rightarrow> if py_truth v then fail_act BadCoreToml else return_act targets)"

definition update_one :: "kit_env \<Rightarrow> kit_opts \<Rightarrow> path \<Rightarrow> update_target
    \<Rightarrow> (string \<times> kit_exc) list \<times> (string \<times> kit_update) list
    \<Rightarrow> ((string \<times> kit_exc) list \<times> (string \<times> kit_update) list) act" where
  "update_one env opts cypilot_dir t acc =
     (case t of (slug, dir, source, tmp) \<Rightarrow>
        finally_act
          (try_act
             (and_then (update_kit env opts slug dir cypilot_dir source) (\<lambda>r.
                return_act (fst acc, snd acc @ [(slug, r)])))
             (\<lambda>e. return_act (fst acc @ [(slug, e)], snd acc @ [(slug, kit_result VError 0 [] [])])))
          (clean_up tmp))"

definition counts_as_updated :: "version_status \<Rightarrow> bool" where
  "counts_as_updated s = (s \<noteq> VCurrent \<and> s \<noteq> VDryRun \<and> s \<noteq> VError)"

definition run_updates :: "kit_env \<Rightarrow> update_cmd_args \<Rightarrow> path \<Rightarrow> update_target list \<Rightarrow> (nat \<times> update_report) act" where
  "run_updates env args cypilot_dir targets =
     (let opts = \<lparr>ko_dry_run = uc_dry_run args, ko_interactive = \<not> uc_no_interactive args \<and> ke_isatty env,
                  ko_auto_approve = uc_yes args, ko_force = uc_force args\<rparr>
      in and_then (for_each (update_one env opts cypilot_dir) targets ([], [])) (\<lambda>(errs, results).
         and_then (when_act (\<not> uc_dry_run args) (regenerate_gen_aggregates env cypilot_dir)) (\<lambda>_.
         return_act (0, KitsUpdated (length (filter (\<lambda>r. counts_as_updated (ku_status (snd r))) results)) errs results))))"

definition cmd_kit_update :: "kit_env \<Rightarrow> update_cmd_args \<Rightarrow> (nat \<times> update_report) act" where
  "cmd_kit_update env args =
     and_then (look (\<lambda>dk. resolve_cypilot_dir env dk)) (\<lambda>cd.
       case cd of
         None \<Rightarrow> return_act (1, UpdateNoProject)
       | Some cypilot_dir \<Rightarrow>
           if truthy (uc_path args)
           then and_then (look (local_origin env (str_or_empty (uc_path args)))) (\<lambda>og.
                case og of
                  None \<Rightarrow> return_act (2, UpdateDirMissing)
                | Some g \<Rightarrow>
                    run_updates env args cypilot_dir
                      [(if truthy (uc_slug args) then str_or_empty (uc_slug args) else og_slug g, og_dir g, [], None)])
           else and_then (look (\<lambda>dk. read_kits_from_core_toml env dk (cypilot_dir @ [''config'']))) (\<lambda>kits.
                if kits = [] then return_act (2, NoKitsRegistered)
                else if truthy (uc_slug args) \<and> dget kits (PStr (str_or_empty (uc_slug args))) = None
                then return_act (2, UnknownKit (str_or_empty (uc_slug args)))
                else
                  (let chosen = (if truthy (uc_slug args)
                                 then filter (\<lambda>k. fst k = PStr (str_or_empty (uc_slug args))) kits else kits)
                   in and_then (for_each (source_target env) chosen []) (\<lambda>targets.
                      if targets = [] then return_act (2, NoValidSources)
                      else run_updates env args cypilot_dir targets))))"

subsection \<open>The dispatcher\<close>

datatype kit_subcommand = KitInstall | KitUpdate | KitValidate | KitMigrate

definition kit_subcommand_of :: "string list \<Rightarrow> kit_subcommand option" where
  "kit_subcommand_of argv =
     (case argv of
        [] \<Rightarrow> None
      | c # _ \<Rightarrow>
          if c = ''install'' then Some KitInstall
          else if c = ''update'' then Some KitUpdate
          else if c = ''validate'' then Some KitValidate
          else if c = ''migrate'' then Some KitMigrate else None)"

text \<open>The exit code of \<open>cpt kit\<close>, from the exit codes of the commands it routes to.\<close>

definition cmd_kit :: "(string list \<Rightarrow> nat act) \<Rightarrow> (string list \<Rightarrow> nat act) \<Rightarrow> (string list \<Rightarrow> nat act) \<Rightarrow> string list \<Rightarrow> nat act" where
  "cmd_kit install update validate argv =
     (case kit_subcommand_of argv of
        Some KitInstall \<Rightarrow> install (tl argv)
      | Some KitUpdate \<Rightarrow> update (tl argv)
      | Some KitValidate \<Rightarrow> validate (tl argv)
      | Some KitMigrate \<Rightarrow> return_act 1
      | None \<Rightarrow> return_act 1)"

subsection \<open>Old layouts\<close>

datatype layout_status = WouldMigrate | Migrated | MigrationFailed kit_exc

definition LEGACY_ITEMS :: "string list" where
  "LEGACY_ITEMS = [''blueprints'', ''blueprint_hashes.toml'', ''__pycache__'', ''.prev'']"

text \<open>One entry of \<open>kits/<slug>\<close>: a directory replaces the installed one, a file only fills a gap.\<close>

definition merge_item :: "path \<Rightarrow> path \<Rightarrow> unit \<Rightarrow> unit act" where
  "merge_item config_kit item u =
     (if last item \<in> set LEGACY_ITEMS then return_act ()
      else and_then (look (\<lambda>dk. (is_dir dk item, exists_on dk (config_kit @ [last item])))) (\<lambda>(dir, there).
        if dir then replace_tree item (config_kit @ [last item])
        else when_act (\<not> there) (disk_op (copy2 item (config_kit @ [last item])))))"

definition merge_gen_item :: "path \<Rightarrow> path \<Rightarrow> unit \<Rightarrow> unit act" where
  "merge_gen_item config_kit item u =
     and_then (look (\<lambda>dk. (is_dir dk item, exists_on dk (config_kit @ [last item])))) (\<lambda>(dir, there).
       when_act (\<not> there)
         (disk_op (if dir then copytree item (config_kit @ [last item]) else copy2 item (config_kit @ [last item]))))"

definition layout_rollback :: "path \<Rightarrow> path \<Rightarrow> unit act" where
  "layout_rollback kit_dir kit_backup =
     and_then (look (\<lambda>dk. is_dir dk kit_backup \<and> is_dir dk (kit_backup @ [''user_kit'']))) (\<lambda>have.
       when_act have (replace_tree (kit_backup @ [''user_kit'']) kit_dir))"

definition migrate_kit_dir :: "bool \<Rightarrow> path \<Rightarrow> path \<Rightarrow> (string \<times> layout_status) list \<Rightarrow> (string \<times> layout_status) list act" where
  "migrate_kit_dir dry_run cypilot_dir kit_dir migrated =
     (let slug = last kit_dir; config_kit = cypilot_dir @ [''config'', ''kits'', slug];
          kit_backup = cypilot_dir @ [''.layout_backup'', slug]
      in if dry_run then return_act (dset slug WouldMigrate migrated)
         else try_act
           (and_then (look (\<lambda>dk. exists_on dk kit_backup)) (\<lambda>old.
            and_then (when_act old (disk_op (rmtree kit_backup))) (\<lambda>_.
            and_then (disk_op (mkdirs kit_backup)) (\<lambda>_.
            and_then (disk_op (copytree kit_dir (kit_backup @ [''user_kit'']))) (\<lambda>_.
            and_then (disk_op (mkdirs config_kit)) (\<lambda>_.
            and_then (look (\<lambda>dk. dir_files dk kit_dir @ dir_dirs dk kit_dir)) (\<lambda>items.
            and_then (for_each (merge_item config_kit) items ()) (\<lambda>_.
            return_act (dset slug Migrated migrated)))))))))
           (\<lambda>e. and_then (layout_rollback kit_dir kit_backup) (\<lambda>_. return_act (dset slug (MigrationFailed e) migrated))))"

definition migrate_gen_dir :: "bool \<Rightarrow> path \<Rightarrow> path \<Rightarrow> (string \<times> layout_status) list \<Rightarrow> (string \<times> layout_status) list act" where
  "migrate_gen_dir dry_run cypilot_dir gen_kit migrated =
     (let slug = last gen_kit; config_kit = cypilot_dir @ [''config'', ''kits'', slug];
          keep = (\<lambda>s. if dhas migrated slug then migrated else dset slug s migrated)
      in if dry_run then return_act (keep WouldMigrate)
         else try_act
           (and_then (disk_op (mkdirs config_kit)) (\<lambda>_.
            and_then (look (\<lambda>dk. dir_files dk gen_kit @ dir_dirs dk gen_kit)) (\<lambda>items.
            and_then (for_each (merge_gen_item config_kit) items ()) (\<lambda>_.
            return_act (keep Migrated)))))
           (\<lambda>e. return_act (dset slug (MigrationFailed e) migrated)))"

text \<open>The entries of \<open>core.toml\<close> with their paths moved; \<open>None\<close> for data on which the code raises.\<close>

definition moved_path :: "string \<Rightarrow> string option" where
  "moved_path old =
     (if startswith old ''.gen/kits/'' \<or> startswith old ''kits/''
      then Some (''config/kits/'' @ snd (rsplit_once (CHR ''/'') old)) else None)"

fun moved_entries :: "(pyobj \<times> pyobj) list \<Rightarrow> ((pyobj \<times> pyobj) list \<times> bool) option" where
  "moved_entries [] = Some ([], False)"
| "moved_entries ((k, v) # es) =
     (case moved_entries es of
        None \<Rightarrow> None
      | Some (es', upd) \<Rightarrow>
          (case v of
             PDict d \<Rightarrow>
               (case pget_or d ''path'' (PStr []) of
                  PStr s \<Rightarrow>
                    (case moved_path s of
                       None \<Rightarrow> Some ((k, v) # es', upd)
                     | Some s' \<Rightarrow> Some ((k, PDict (pset ''path'' (PStr s') d)) # es', True))
                | _ \<Rightarrow> None)
           | _ \<Rightarrow> Some ((k, v) # es', upd)))"

definition update_core_paths :: "kit_env \<Rightarrow> path \<Rightarrow> unit act" where
  "update_core_paths env config_dir =
     and_then (look (\<lambda>dk. load_toml env dk (core_toml config_dir))) (\<lambda>loaded.
       case loaded of
         None \<Rightarrow> return_act ()
       | Some (Inl e) \<Rightarrow> fail_act BadCoreToml
       | Some (Inr data) \<Rightarrow>
           (case pget_or data ''kits'' (PDict []) of
              PDict kits \<Rightarrow>
                (case moved_entries kits of
                   None \<Rightarrow> fail_act BadCoreToml
                 | Some (kits', upd) \<Rightarrow>
                     if \<not> upd then return_act ()
                     else (case dumps (pset ''kits'' (PDict kits') data) CORE_HEADER of
                             Inl e \<Rightarrow> fail_act BadCoreToml
                           | Inr t \<Rightarrow> disk_op (\<lambda>dk. put_file dk (core_toml config_dir) (Text t))))
            | _ \<Rightarrow> fail_act BadCoreToml))"

definition rmdir_quiet :: "path \<Rightarrow> disk \<Rightarrow> disk" where
  "rmdir_quiet p dk =
     (if is_dir dk p \<and> dir_files dk p @ dir_dirs dk p = [] then dk\<lparr>dk_dirs := filter (\<lambda>d. d \<noteq> p) (dk_dirs dk)\<rparr> else dk)"

definition drop_backup :: "path \<Rightarrow> string \<times> layout_status \<Rightarrow> unit \<Rightarrow> unit act" where
  "drop_backup backup_dir m u =
     and_then (look (\<lambda>dk. snd m = Migrated \<and> is_dir dk (backup_dir @ [fst m]))) (\<lambda>ok.
       when_act ok (rmtree_quiet (backup_dir @ [fst m])))"

definition clean_backups :: "path \<Rightarrow> (string \<times> layout_status) list \<Rightarrow> unit act" where
  "clean_backups backup_dir migrated =
     and_then (look (\<lambda>dk. is_dir dk backup_dir)) (\<lambda>have.
       when_act have (and_then (for_each (drop_backup backup_dir) migrated ()) (\<lambda>_.
         disk_op (\<lambda>dk. Inr (rmdir_quiet backup_dir dk)))))"

definition has_failures :: "(string \<times> layout_status) list \<Rightarrow> bool" where
  "has_failures migrated = list_ex (\<lambda>m. case snd m of MigrationFailed e \<Rightarrow> True | _ \<Rightarrow> False) migrated"

definition nonempty_dir :: "disk \<Rightarrow> path \<Rightarrow> bool" where
  "nonempty_dir dk d = (is_dir dk d \<and> dir_files dk d @ dir_dirs dk d \<noteq> [])"

definition detect_and_migrate_layout :: "kit_env \<Rightarrow> path \<Rightarrow> bool \<Rightarrow> (string \<times> layout_status) list act" where
  "detect_and_migrate_layout env cypilot_dir dry_run =
     (let gen_kits = cypilot_dir @ [''.gen'', ''kits'']; kits_dir = cypilot_dir @ [''kits''];
          subdirs = (\<lambda>d dk. filter (is_dir dk) (sorted_children dk d))
      in and_then (look (\<lambda>dk. (nonempty_dir dk kits_dir, nonempty_dir dk gen_kits))) (\<lambda>(has_kits, has_gen).
         if \<not> has_kits \<and> \<not> has_gen then return_act []
         else and_then (look (\<lambda>dk. if has_kits then subdirs kits_dir dk else [])) (\<lambda>ks.
              and_then (for_each (migrate_kit_dir dry_run cypilot_dir) ks []) (\<lambda>migrated.
              and_then (look (\<lambda>dk. if has_gen then subdirs gen_kits dk else [])) (\<lambda>gs.
              and_then (for_each (migrate_gen_dir dry_run cypilot_dir) gs migrated) (\<lambda>migrated.
              if dry_run then return_act migrated
              else and_then (update_core_paths env (cypilot_dir @ [''config''])) (\<lambda>_.
                   and_then (look (\<lambda>dk. \<not> has_failures migrated \<and> is_dir dk kits_dir)) (\<lambda>rm_kits.
                   and_then (when_act rm_kits (disk_op (rmtree kits_dir))) (\<lambda>_.
                   and_then (look (\<lambda>dk. is_dir dk gen_kits)) (\<lambda>rm_gen.
                   and_then (when_act rm_gen (rmtree_quiet gen_kits)) (\<lambda>_.
                   and_then (clean_backups (cypilot_dir @ [''.layout_backup'']) migrated) (\<lambda>_.
                   return_act migrated))))))))))))"

end
