(* ===== verification/Kit_Merge_Facts.thy ===== *)
theory Kit_Merge_Facts
  imports Kit_Update
begin

section \<open>Merging a file by hand\<close>

text \<open>
  What the conflict text of \<open>_build_conflict_content\<close> means and what the editor loop can return.
  \<open>resolve_conflicts\<close> is the specification: it reads a text with conflict markers and takes one
  side of every conflict.
\<close>

subsection \<open>Lines and markers\<close>

abbreviation no_break :: "char \<Rightarrow> bool" where
  "no_break c \<equiv> \<not> line_break c"

lemma takeWhile_rev_break:
  assumes "list_all no_break acc"
  shows "line_break e \<Longrightarrow> takeWhile no_break (rev acc @ e # t) = rev acc"
    and "takeWhile no_break (rev acc) = rev acc"
    and "no_break e \<Longrightarrow> takeWhile no_break (rev acc @ [e]) = rev acc @ [e]"
  using assms by (subst takeWhile_append2 | auto simp: list_all_iff takeWhile_eq_all_conv)+

lemma splitlines_acc_keep:
  "list_all no_break acc \<Longrightarrow> splitlines_acc acc s = map (takeWhile no_break) (lines_keep_acc acc s)"
  by (induction acc s rule: lines_keep_acc.induct) (auto simp: takeWhile_rev_break)

lemma splitlines_keep_eq: "splitlines s = map (takeWhile no_break) (splitlines_keep s)"
  by (simp add: splitlines_def splitlines_keep_def splitlines_acc_keep)

lemma startswith_takeWhile:
  "list_all p m \<Longrightarrow> startswith (takeWhile p l) m = startswith l m"
  by (induction l m rule: startswith.induct) auto

lemma marker_line_takeWhile: "marker_line (takeWhile no_break l) = marker_line l"
proof -
  have "list_all no_break ''<<<<<<<''" "list_all no_break ''=======''" "list_all no_break ''>>>>>>>''"
    by (simp_all add: line_break_def)
  then show ?thesis by (simp only: marker_line_def startswith_takeWhile)
qed

lemma has_conflict_markers_keep: "has_conflict_markers text = list_ex marker_line (splitlines_keep text)"
  by (simp add: has_conflict_markers_def splitlines_keep_eq list_ex_iff marker_line_takeWhile)

lemma marker_lines_marked [simp]:
  "marker_line (CONFLICT_MARKER_OURS @ t)" "marker_line (CONFLICT_MARKER_SEP @ t)"
  "marker_line (CONFLICT_MARKER_THEIRS @ t)"
  by (simp_all add: marker_line_def CONFLICT_MARKER_OURS_def CONFLICT_MARKER_SEP_def CONFLICT_MARKER_THEIRS_def)

lemma marker_lines_ended [simp]:
  "ended (CONFLICT_MARKER_OURS @ [NL])" "ended (CONFLICT_MARKER_SEP @ [NL])" "ended (CONFLICT_MARKER_THEIRS @ [NL])"
proof -
  have "list_all no_break CONFLICT_MARKER_OURS" "list_all no_break CONFLICT_MARKER_SEP"
    "list_all no_break CONFLICT_MARKER_THEIRS"
    by (simp_all add: CONFLICT_MARKER_OURS_def CONFLICT_MARKER_SEP_def CONFLICT_MARKER_THEIRS_def line_break_def)
  then show "ended (CONFLICT_MARKER_OURS @ [NL])" "ended (CONFLICT_MARKER_SEP @ [NL])"
    "ended (CONFLICT_MARKER_THEIRS @ [NL])"
    unfolding ended_iff by blast+
qed

subsection \<open>Reading a text with conflict markers\<close>

datatype region = Outside | InOurs | InTheirs

fun resolve_lines :: "bool \<Rightarrow> region \<Rightarrow> string list \<Rightarrow> string list" where
  "resolve_lines ours r [] = []"
| "resolve_lines ours Outside (l # ls) =
     (if l = CONFLICT_MARKER_OURS @ [NL] then resolve_lines ours InOurs ls else l # resolve_lines ours Outside ls)"
| "resolve_lines ours InOurs (l # ls) =
     (if l = CONFLICT_MARKER_SEP @ [NL] then resolve_lines ours InTheirs ls
      else (if ours then [l] else []) @ resolve_lines ours InOurs ls)"
| "resolve_lines ours InTheirs (l # ls) =
     (if l = CONFLICT_MARKER_THEIRS @ [NL] then resolve_lines ours Outside ls
      else (if ours then [] else [l]) @ resolve_lines ours InTheirs ls)"

definition resolve_conflicts :: "bool \<Rightarrow> string \<Rightarrow> string" where
  "resolve_conflicts ours text = concat (resolve_lines ours Outside (splitlines_keep text))"

definition unmarked :: "string list \<Rightarrow> bool" where
  "unmarked ls = list_all (\<lambda>l. \<not> marker_line l) ls"

lemma unmarked_slice: "unmarked ls \<Longrightarrow> unmarked (slice i j ls)"
  by (auto simp: unmarked_def slice_def list_all_iff dest: in_set_takeD in_set_dropD)

lemma resolve_outside: "unmarked ls \<Longrightarrow> resolve_lines b Outside (ls @ r) = ls @ resolve_lines b Outside r"
  by (induction ls) (auto simp: unmarked_def)

lemma resolve_ours:
  "unmarked ls \<Longrightarrow> resolve_lines b InOurs (ls @ (CONFLICT_MARKER_SEP @ [NL]) # r) =
     (if b then ls else []) @ resolve_lines b InTheirs r"
  by (induction ls) (auto simp: unmarked_def)

lemma resolve_theirs:
  "unmarked ls \<Longrightarrow> resolve_lines b InTheirs (ls @ (CONFLICT_MARKER_THEIRS @ [NL]) # r) =
     (if b then [] else ls) @ resolve_lines b Outside r"
  by (induction ls) (auto simp: unmarked_def)

lemmas resolve_simps = resolve_outside resolve_ours resolve_theirs
  resolve_ours [of "[]", simplified unmarked_def, simplified] resolve_theirs [of "[]", simplified unmarked_def, simplified]

lemma slice_same [simp]: "slice i i xs = []"
  by (simp add: slice_def)

text \<open>One opcode contributes its slice of the chosen side.\<close>

lemma resolve_part:
  assumes "unmarked old" "unmarked new"
    and "tiles old new i j ((tag, i, i2, j, j2) # ops)"
  shows "resolve_lines b Outside (conflict_part old new (tag, i, i2, j, j2) @ r) =
    (if b then slice i i2 old else slice j j2 new) @ resolve_lines b Outside r"
  using assms by (cases tag) (auto simp: resolve_simps unmarked_slice)

lemma resolve_opcodes:
  assumes "unmarked old" "unmarked new" "tiles old new i j ops"
  shows "resolve_lines b Outside (concat (map (conflict_part old new) ops)) =
    (if b then drop i old else drop j new)"
  using assms(3)
proof (induction ops arbitrary: i j)
  case (Cons op ops)
  obtain tag i1 i2 j1 j2 where op: "op = (tag, i1, i2, j1, j2)" by (cases op)
  have t: "i1 = i" "j1 = j" "i \<le> i2" "j \<le> j2" "i2 \<le> length old" "j2 \<le> length new" "tiles old new i2 j2 ops"
    using Cons.prems op by auto
  have "resolve_lines b Outside (concat (map (conflict_part old new) (op # ops))) =
      (if b then slice i i2 old else slice j j2 new) @ (if b then drop i2 old else drop j2 new)"
    using resolve_part [OF assms(1,2), of i j tag i2 j2 ops] Cons op t by simp
  also have "\<dots> = (if b then drop i old else drop j new)"
    using slice_split [of i i2 "length old" old] slice_split [of j j2 "length new" new] t
    by (simp add: slice_def)
  finally show ?case .
qed simp

lemma conflict_part_ended:
  "list_all ended old \<Longrightarrow> list_all ended new \<Longrightarrow> list_all ended (conflict_part old new op)"
  by (induction old new op rule: conflict_part.induct)
    (auto simp: list_all_iff slice_def dest: in_set_takeD in_set_dropD)

lemma conflict_part_marked:
  "fst op \<noteq> OpEqual \<Longrightarrow> list_ex marker_line (conflict_part old new op)"
  by (induction old new op rule: conflict_part.induct) auto

definition clean_text :: "string \<Rightarrow> bool" where
  "clean_text text = (list_all ended (splitlines_keep text) \<and> \<not> has_conflict_markers text)"

lemma conflict_lines:
  assumes "clean_text old" "clean_text new"
  shows "splitlines_keep (build_conflict_content old new) =
    concat (map (conflict_part (splitlines_keep old) (splitlines_keep new))
      (get_opcodes (splitlines_keep old) (splitlines_keep new)))"
proof -
  have "list_all ended (concat (map (conflict_part (splitlines_keep old) (splitlines_keep new)) ops))" for ops
    using assms conflict_part_ended by (induction ops) (auto simp: clean_text_def list_all_append)
  then show ?thesis by (simp add: build_conflict_content_def Let_def splitlines_keep_concat)
qed

text \<open>C12. The conflict text of two versions loses neither of them: for versions whose lines end in a
  line feed and that hold no marker line of their own, taking the installed side of every
  conflict gives the installed text back and taking the upstream side gives the upstream text;
  the conflict text has a marker exactly when the two versions differ.
\<close>

theorem conflict_content_roundtrip:
  assumes "clean_text old" "clean_text new"
  shows "resolve_conflicts True (build_conflict_content old new) = old
    \<and> resolve_conflicts False (build_conflict_content old new) = new
    \<and> has_conflict_markers (build_conflict_content old new) = (old \<noteq> new)"
proof -
  let ?o = "splitlines_keep old" and ?n = "splitlines_keep new"
  have um: "unmarked ?o" "unmarked ?n"
    using assms by (simp_all add: clean_text_def has_conflict_markers_keep unmarked_def list_ex_iff list_all_iff)
  note r = resolve_opcodes [OF um get_opcodes_tile]
  have res: "resolve_conflicts True (build_conflict_content old new) = old"
    "resolve_conflicts False (build_conflict_content old new) = new"
    using r [of True] r [of False] by (simp_all add: resolve_conflicts_def conflict_lines [OF assms])
  have "has_conflict_markers (build_conflict_content old new)" if "old \<noteq> new"
  proof -
    have "?o \<noteq> ?n" using that by (metis concat_splitlines_keep)
    then obtain op where "op \<in> set (get_opcodes ?o ?n)" "fst op \<noteq> OpEqual"
      using get_opcodes_same by blast
    then show ?thesis using conflict_part_marked [of op ?o ?n]
      by (auto simp: has_conflict_markers_keep conflict_lines [OF assms] list_ex_iff)
  qed
  moreover have "\<not> has_conflict_markers (build_conflict_content old old)"
    using assms(1)
    by (auto simp: clean_text_def build_conflict_content_def Let_def get_opcodes_refl slice_def
        has_conflict_markers_def splitlines_def)
  ultimately show ?thesis using res by blast
qed

theorem conflict_content_roundtrip_witness:
  "resolve_conflicts True (build_conflict_content [CHR ''a'', NL, CHR ''b'', NL] [CHR ''a'', NL, CHR ''c'', NL]) =
     [CHR ''a'', NL, CHR ''b'', NL]
   \<and> has_conflict_markers (build_conflict_content [CHR ''a'', NL, CHR ''b'', NL] [CHR ''a'', NL, CHR ''c'', NL])"
proof -
  have "clean_text [CHR ''a'', NL, CHR ''b'', NL]" "clean_text [CHR ''a'', NL, CHR ''c'', NL]"
    by code_simp+
  from conflict_content_roundtrip [OF this] show ?thesis by simp
qed

subsection \<open>What the editor loop returns\<close>

definition resolved :: "content \<Rightarrow> bool" where
  "resolved c = (case c of Text t \<Rightarrow> strip t \<noteq> [] \<and> \<not> has_conflict_markers t | Binary b \<Rightarrow> False)"

lemma editor_loop_result:
  "editor_loop ed new n inputs tx = (Some c, m, rest) \<Longrightarrow> c = new \<or> resolved c"
proof (induction ed new n inputs tx arbitrary: c m rest rule: editor_loop.induct)
  case (1 ed new n inputs tx)
  show ?case
    using "1.prems" by (subst (asm) editor_loop.simps)
      (auto simp: Let_def resolved_def split: option.splits if_splits list.splits resolution.splits dest: "1.IH")
qed

lemma editor_loop_progress:
  "editor_loop ed new n inputs tx = (r, m, rest) \<Longrightarrow>
    \<exists>used. inputs = used @ rest \<and> n < m \<and> length used \<le> m - n \<and> m \<le> n + length used + 1"
proof (induction ed new n inputs tx arbitrary: r m rest rule: editor_loop.induct)
  case (1 ed new n inputs tx)
  show ?case
  proof (cases "\<exists>raw l ls. ed n tx = Some raw \<and> strip (universal_newlines raw) \<noteq> []
      \<and> has_conflict_markers (universal_newlines raw) \<and> inputs = l # ls \<and> unresolved_answer (Some l) = Retry")
    case True
    then obtain raw l ls where c: "ed n tx = Some raw" "strip (universal_newlines raw) \<noteq> []"
      "has_conflict_markers (universal_newlines raw)" "inputs = l # ls" "unresolved_answer (Some l) = Retry"
      by blast
    then have "editor_loop ed new (Suc n) ls (universal_newlines raw) = (r, m, rest)"
      using "1.prems" by (subst (asm) editor_loop.simps) (simp add: Let_def)
    from "1.IH" [OF c(1) refl c(2) _ c(4,5) this] c(3) obtain used where
      "ls = used @ rest" "Suc n < m" "length used \<le> m - Suc n" "m \<le> Suc n + length used + 1" by auto
    then show ?thesis using c(4) by (auto intro!: exI [of _ "l # used"])
  next
    case False
    then have "m = Suc n \<and> (rest = inputs \<or> (\<exists>l. inputs = l # rest))"
      using "1.prems" by (subst (asm) editor_loop.simps)
        (auto simp: Let_def split: option.splits if_splits list.splits resolution.splits)
    then show ?thesis by auto
  qed
qed

text \<open>C13. Merging by hand always ends, and gives back nothing unresolved: whatever the editor does, the
  loop opens it at most once more than it reads lines from the terminal, and reads at most one line
  for each time it opens it; and when it returns a content, that is the upstream content, which the
  user asked for, or a text that is not blank and has no conflict marker at the start of a line.
\<close>

theorem open_editor_resolved:
  assumes "open_editor_for_file ed old new con = (r, con')"
  shows "(case r of None \<Rightarrow> True | Some c \<Rightarrow> (c = new \<or> resolved c) \<and> co_session con < co_session con')
    \<and> (\<exists>used. co_inputs con = used @ co_inputs con' \<and> co_session con \<le> co_session con'
        \<and> co_session con' \<le> co_session con + length used + 1 \<and> length used \<le> co_session con' - co_session con)"
proof (cases "\<exists>o' n'. old = Text o' \<and> new = Text n'")
  case True
  then obtain o' n' where "old = Text o'" "new = Text n'" by blast
  then obtain m rest where l: "editor_loop ed new (co_session con) (co_inputs con) (build_conflict_content o' n') = (r, m, rest)"
    and con': "con' = \<lparr>co_inputs = rest, co_session = m\<rparr>"
    using assms by (auto simp: open_editor_for_file_def split: prod.splits)
  obtain used where "co_inputs con = used @ rest" "co_session con < m" "length used \<le> m - co_session con"
      "m \<le> co_session con + length used + 1"
    using editor_loop_progress [OF l] by blast
  moreover have "c = new \<or> resolved c" if "r = Some c" for c using editor_loop_result l that by blast
  ultimately show ?thesis using con' by (cases r) auto
next
  case False
  then have "r = None \<and> con' = con" using assms by (auto simp: open_editor_for_file_def split: content.splits)
  then show ?thesis by simp
qed

theorem open_editor_resolved_witness:
  "resolved (Text ''b'')
   \<and> open_editor_for_file (\<lambda>n t. if n = 0 then Some t else Some ''b'') (Text [CHR ''a'', NL]) (Text [CHR ''c'', NL])
       \<lparr>co_inputs = [''r''], co_session = 0\<rparr> = (Some (Text ''b''), \<lparr>co_inputs = [], co_session = 2\<rparr>)"
proof -
  have e: "open_editor_for_file (\<lambda>n t. if n = 0 then Some t else Some ''b'') (Text [CHR ''a'', NL]) (Text [CHR ''c'', NL])
       \<lparr>co_inputs = [''r''], co_session = 0\<rparr> = (Some (Text ''b''), \<lparr>co_inputs = [], co_session = 2\<rparr>)"
    by code_simp
  from open_editor_resolved [OF e] e show ?thesis by simp
qed

end
