(* ===== verification/Kit_Update_Facts.thy ===== *)
theory Kit_Update_Facts
  imports Kit_Merge_Facts
begin

section \<open>What a kit update does\<close>

text \<open>
  The comparison puts every file in exactly one class; the loop over the differences handles each
  of them once, and only ever touches the targets of files that were accepted; a forced update
  makes the installed copy equal to the source, so that the next run finds nothing to do.
\<close>

subsection \<open>Classification\<close>

lemma distinct_insort_by: "distinct (insort_by lt x xs) \<longleftrightarrow> x \<notin> set xs \<and> distinct xs"
  by (induction xs) auto

lemma distinct_sorted_by [simp]: "distinct (sorted_by lt xs) \<longleftrightarrow> distinct xs"
proof (induction xs)
  case (Cons x xs)
  then show ?case by (simp add: sorted_by_def distinct_insort_by flip: set_sorted_by [of lt xs])
qed simp

definition all_paths :: "(string \<times> content) list \<Rightarrow> (string \<times> content) list \<Rightarrow> string list" where
  "all_paths s u = sorted_strs (remdups (map fst s @ map fst u))"

lemma classify_step_simps:
  "dget s p = Some a \<Longrightarrow> dget u p = None \<Longrightarrow> classify_step s u r p = r\<lparr>dr_added := dr_added r @ [p]\<rparr>"
  "dget s p = None \<Longrightarrow> classify_step s u r p = r\<lparr>dr_removed := dr_removed r @ [p]\<rparr>"
  "dget s p = Some a \<Longrightarrow> dget u p = Some a \<Longrightarrow> classify_step s u r p = r\<lparr>dr_unchanged := dr_unchanged r @ [p]\<rparr>"
  "dget s p = Some a \<Longrightarrow> dget u p = Some b \<Longrightarrow> a \<noteq> b \<Longrightarrow>
     classify_step s u r p = r\<lparr>dr_modified := dr_modified r @ [p]\<rparr>"
  by (simp_all add: classify_step_def)

lemma classify_foldl:
  assumes "\<forall>p \<in> set ps. dget s p \<noteq> None \<or> dget u p \<noteq> None"
  shows "foldl (classify_step s u) r ps =
    \<lparr>dr_added = dr_added r @ filter (\<lambda>p. dget s p \<noteq> None \<and> dget u p = None) ps,
     dr_removed = dr_removed r @ filter (\<lambda>p. dget s p = None \<and> dget u p \<noteq> None) ps,
     dr_modified = dr_modified r @ filter (\<lambda>p. dget s p \<noteq> None \<and> dget u p \<noteq> None \<and> dget s p \<noteq> dget u p) ps,
     dr_unchanged = dr_unchanged r @ filter (\<lambda>p. dget s p \<noteq> None \<and> dget s p = dget u p) ps\<rparr>"
  using assms
proof (induction ps arbitrary: r)
  case (Cons p ps)
  have ih: "foldl (classify_step s u) r (p # ps) =
      (let r' = classify_step s u r p in
       \<lparr>dr_added = dr_added r' @ filter (\<lambda>p. dget s p \<noteq> None \<and> dget u p = None) ps,
        dr_removed = dr_removed r' @ filter (\<lambda>p. dget s p = None \<and> dget u p \<noteq> None) ps,
        dr_modified = dr_modified r' @ filter (\<lambda>p. dget s p \<noteq> None \<and> dget u p \<noteq> None \<and> dget s p \<noteq> dget u p) ps,
        dr_unchanged = dr_unchanged r' @ filter (\<lambda>p. dget s p \<noteq> None \<and> dget s p = dget u p) ps\<rparr>)"
    unfolding foldl_Cons Let_def using Cons.prems by (intro Cons.IH) simp
  show ?case
  proof (cases "dget s p")
    case None
    with Cons.prems ih show ?thesis by (auto simp: classify_step_simps(2) Let_def)
  next
    case (Some a)
    with ih show ?thesis
      by (cases "dget u p"; cases "dget u p = Some a") (auto simp: classify_step_simps Let_def)
  qed
qed simp

lemma set_all_paths: "p \<in> set (all_paths s u) \<longleftrightarrow> dget s p \<noteq> None \<or> dget u p \<noteq> None"
  by (auto simp: all_paths_def map_of_eq_None_iff)

lemma classify_eq:
  "classify_kit_files s u =
    \<lparr>dr_added = filter (\<lambda>p. dget s p \<noteq> None \<and> dget u p = None) (all_paths s u),
     dr_removed = filter (\<lambda>p. dget s p = None \<and> dget u p \<noteq> None) (all_paths s u),
     dr_modified = filter (\<lambda>p. dget s p \<noteq> None \<and> dget u p \<noteq> None \<and> dget s p \<noteq> dget u p) (all_paths s u),
     dr_unchanged = filter (\<lambda>p. dget s p \<noteq> None \<and> dget s p = dget u p) (all_paths s u)\<rparr>"
proof -
  have "\<forall>p \<in> set (all_paths s u). dget s p \<noteq> None \<or> dget u p \<noteq> None" using set_all_paths by blast
  from classify_foldl [OF this] show ?thesis
    unfolding classify_kit_files_def all_paths_def [symmetric] by simp
qed

lemma distinct_all_paths: "distinct (all_paths s u)"
  by (simp add: all_paths_def)

lemma has_changes_iff: "has_changes (classify_kit_files s u) \<longleftrightarrow> dget s \<noteq> dget u"
proof -
  have "has_changes (classify_kit_files s u) \<longleftrightarrow> (\<exists>p. dget s p \<noteq> dget u p)"
  proof
    assume "has_changes (classify_kit_files s u)"
    then show "\<exists>p. dget s p \<noteq> dget u p"
      by (auto simp: has_changes_def classify_eq filter_empty_conv) (metis option.distinct(1))+
  next
    assume "\<exists>p. dget s p \<noteq> dget u p"
    then obtain p where "dget s p \<noteq> dget u p" by blast
    moreover from this have "p \<in> set (all_paths s u)" by (auto simp: set_all_paths)
    ultimately show "has_changes (classify_kit_files s u)"
      by (cases "dget s p"; cases "dget u p") (auto simp: has_changes_def classify_eq filter_empty_conv)
  qed
  then show ?thesis by (simp add: fun_eq_iff)
qed

text \<open>The classification of the two sides is a partition: a file of the source only is added, one
  of the installed copy only is removed, and one of both is unchanged or modified as the contents
  are equal or not; each file is in one list, once; and there is nothing to do exactly when both
  sides hold the same files with the same contents.
\<close>

theorem classify_partition:
  "(p \<in> set (dr_added (classify_kit_files s u)) \<longleftrightarrow> dget s p \<noteq> None \<and> dget u p = None)
   \<and> (p \<in> set (dr_removed (classify_kit_files s u)) \<longleftrightarrow> dget s p = None \<and> dget u p \<noteq> None)
   \<and> (p \<in> set (dr_modified (classify_kit_files s u)) \<longleftrightarrow>
        dget s p \<noteq> None \<and> dget u p \<noteq> None \<and> dget s p \<noteq> dget u p)
   \<and> (p \<in> set (dr_unchanged (classify_kit_files s u)) \<longleftrightarrow> dget s p \<noteq> None \<and> dget s p = dget u p)
   \<and> distinct (dr_added (classify_kit_files s u) @ dr_removed (classify_kit_files s u)
        @ dr_modified (classify_kit_files s u) @ dr_unchanged (classify_kit_files s u))
   \<and> (has_changes (classify_kit_files s u) \<longleftrightarrow> dget s \<noteq> dget u)"
  unfolding has_changes_iff
  by (auto simp: classify_eq set_all_paths distinct_all_paths)

lemma changed_files_iff:
  "(p, ch) \<in> set (changed_files (classify_kit_files s u)) \<longleftrightarrow>
     (case ch of
        Added \<Rightarrow> dget s p \<noteq> None \<and> dget u p = None
      | Removed \<Rightarrow> dget s p = None \<and> dget u p \<noteq> None
      | Changed \<Rightarrow> dget s p \<noteq> None \<and> dget u p \<noteq> None \<and> dget s p \<noteq> dget u p)"
  by (cases ch) (auto simp: changed_files_def classify_eq set_all_paths)

lemma distinct_map_sorted_by:
  "distinct (map f (sorted_by lt xs)) \<longleftrightarrow> distinct (map f xs)"
proof -
  have i: "distinct (map f (insort_by lt x xs)) \<longleftrightarrow> f x \<notin> f ` set xs \<and> distinct (map f xs)" for x xs
    by (induction xs) auto
  show ?thesis
  proof (induction xs)
    case (Cons x xs)
    then show ?case by (simp add: sorted_by_def i flip: set_sorted_by [of lt xs])
  qed simp
qed

lemma distinct_changed_files: "distinct (map fst (changed_files (classify_kit_files s u)))"
  by (auto simp: changed_files_def distinct_map_sorted_by classify_eq comp_def distinct_all_paths)

subsection \<open>One step and the loop\<close>

lemma decide_edited: "decide ed opts old new rv con = (Edited, c, r) \<Longrightarrow> \<exists>t. c = Text t"
proof -
  assume d: "decide ed opts old new rv con = (Edited, c, r)"
  then obtain con' con'' where o: "open_editor_for_file ed old new con' = (Some c, con'')"
    by (auto simp: decide_def split: if_splits prod.splits decision.splits option.splits)
  then obtain t where "new = Text t"
    by (auto simp: open_editor_for_file_def split: content.splits)
  with open_editor_resolved [OF o] show ?thesis by (auto simp: resolved_def split: content.splits)
qed

lemma regen_step_text:
  assumes "regen_step opts uf p fmt dest (Text t) dk con = (dk', con', fl)"
  shows "fl = Continue \<and> dk_dirs dk' = dk_dirs dk \<and> (\<forall>q. q \<noteq> dest \<longrightarrow> dget (dk_files dk') q = dget (dk_files dk) q)"
  using assms by (auto simp: regen_step_def Let_def regenerate_toc_def split: prod.splits if_splits)

definition touches :: "disk \<Rightarrow> disk \<Rightarrow> path \<Rightarrow> bool" where
  "touches dk dk' q = (dget (dk_files dk') q \<noteq> dget (dk_files dk) q)"

lemma put_file_touches: "put_file dk dest c = Inr dk' \<Longrightarrow> touches dk dk' q \<Longrightarrow> q = dest"
  by (auto simp: put_file_def touches_def split: if_splits)

lemma apply_change_touches:
  "apply_change opts ch act dest raw new dk = Inr dk' \<Longrightarrow> touches dk dk' q \<Longrightarrow>
     q = dest \<and> act \<noteq> Declined \<and> \<not> uo_dry_run opts"
  by (auto simp: apply_change_def unlink_file_def touches_def
      split: if_splits change.splits action.splits dest: put_file_touches [unfolded touches_def])

lemma update_step_flow:
  assumes "update_step ed opts plan (p, ch) st = (st', fl)"
  shows "(\<exists>e. fl = Crash e \<and> us_disk st' = us_disk st \<and> us_entries st' = us_entries st)
    \<or> (fl = Continue \<and> (\<exists>act. us_entries st' = us_entries st @ [(ch, p, act)]
         \<and> (\<forall>q. touches (us_disk st) (us_disk st') q \<longrightarrow> q = dest_of plan p \<and> act \<noteq> Declined \<and> \<not> uo_dry_run opts)))"
proof -
  obtain act c rv con where d: "decide ed opts (file_or_empty (strip_files (up_user plan)) p)
      (file_or_empty (strip_files (up_source plan)) p) (us_review st) (us_console st) = (act, c, rv, con)"
    by (metis prod_cases4)
  show ?thesis
  proof (cases "apply_change opts ch act (dest_of plan p) (file_or_empty (up_source plan) p) c (us_disk st)")
    case (Inl e)
    then show ?thesis using assms d by (auto simp: update_step_def Let_def)
  next
    case (Inr dk)
    define fmt where "fmt = (case dget (toc_formats (up_source plan) (up_user plan)) p of None \<Rightarrow> NoToc | Some f \<Rightarrow> f)"
    note t = apply_change_touches [OF Inr]
    show ?thesis
    proof (cases "wrote_edited opts ch act \<and> fmt \<noteq> NoToc")
      case True
      then obtain tx where c: "c = Text tx" using d decide_edited by (metis wrote_edited_def)
      obtain dk' con' fl' where r: "regen_step opts (up_user plan) p fmt (dest_of plan p) c dk con = (dk', con', fl')"
        by (metis prod_cases3)
      with assms d Inr True have "st' = \<lparr>us_disk = dk', us_console = con', us_review = rv,
          us_entries = us_entries st @ [(ch, p, act)]\<rparr>" "fl = fl'"
        by (auto simp: update_step_def Let_def fmt_def)
      moreover have "touches (us_disk st) dk' q \<longrightarrow> q = dest_of plan p \<and> act \<noteq> Declined \<and> \<not> uo_dry_run opts" for q
        using t [of q] regen_step_text [OF r [unfolded c]] True by (auto simp: touches_def wrote_edited_def)
      ultimately show ?thesis using regen_step_text [OF r [unfolded c]] by auto
    next
      case False
      with assms d Inr have "st' = \<lparr>us_disk = dk, us_console = con, us_review = rv,
          us_entries = us_entries st @ [(ch, p, act)]\<rparr> \<and> fl = Continue"
        by (auto simp: update_step_def Let_def fmt_def)
      then show ?thesis using t by (intro disjI2) auto
    qed
  qed
qed

abbreviation entry_file :: "change \<times> string \<times> action \<Rightarrow> string \<times> change" where
  "entry_file e \<equiv> (fst (snd e), fst e)"

lemma update_loop_flow:
  assumes "update_loop ed opts plan pcs st = (st', fl)"
  shows "fl \<noteq> Stop \<and> (\<exists>es. us_entries st' = us_entries st @ es
    \<and> map entry_file es = take (length es) pcs \<and> (fl = Continue \<longrightarrow> length es = length pcs)
    \<and> (\<forall>q. touches (us_disk st) (us_disk st') q \<longrightarrow>
         (\<exists>e \<in> set es. q = dest_of plan (fst (snd e)) \<and> snd (snd e) \<noteq> Declined \<and> \<not> uo_dry_run opts)))"
  using assms
proof (induction pcs arbitrary: st)
  case Nil
  then show ?case by (simp add: touches_def)
next
  case (Cons pc pcs)
  obtain p ch where pc: "pc = (p, ch)" by (cases pc)
  obtain st1 fl1 where s: "update_step ed opts plan (p, ch) st = (st1, fl1)" by fastforce
  from update_step_flow [OF s] show ?case
  proof
    assume "\<exists>e. fl1 = Crash e \<and> us_disk st1 = us_disk st \<and> us_entries st1 = us_entries st"
    with Cons.prems s pc show ?thesis by (auto simp: touches_def)
  next
    assume "fl1 = Continue \<and> (\<exists>act. us_entries st1 = us_entries st @ [(ch, p, act)]
         \<and> (\<forall>q. touches (us_disk st) (us_disk st1) q \<longrightarrow> q = dest_of plan p \<and> act \<noteq> Declined \<and> \<not> uo_dry_run opts))"
    then obtain act where c: "fl1 = Continue" "us_entries st1 = us_entries st @ [(ch, p, act)]"
      and t: "\<And>q. touches (us_disk st) (us_disk st1) q \<Longrightarrow> q = dest_of plan p \<and> act \<noteq> Declined \<and> \<not> uo_dry_run opts"
      by blast
    have "update_loop ed opts plan pcs st1 = (st', fl)" using Cons.prems s pc c by simp
    from Cons.IH [OF this] obtain es where es: "fl \<noteq> Stop" "us_entries st' = us_entries st1 @ es"
      "map entry_file es = take (length es) pcs" "fl = Continue \<longrightarrow> length es = length pcs"
      and t': "\<And>q. touches (us_disk st1) (us_disk st') q \<Longrightarrow>
        \<exists>e \<in> set es. q = dest_of plan (fst (snd e)) \<and> snd (snd e) \<noteq> Declined \<and> \<not> uo_dry_run opts"
      by blast
    have "touches (us_disk st) (us_disk st1) q \<or> touches (us_disk st1) (us_disk st') q"
      if "touches (us_disk st) (us_disk st') q" for q using that by (auto simp: touches_def)
    then have "\<exists>e \<in> set ((ch, p, act) # es). q = dest_of plan (fst (snd e)) \<and> snd (snd e) \<noteq> Declined \<and> \<not> uo_dry_run opts"
      if "touches (us_disk st) (us_disk st') q" for q using that t t' by fastforce
    then show ?thesis using es c pc by (intro conjI exI [of _ "(ch, p, act) # es"]) auto
  qed
qed

subsection \<open>The whole update\<close>

abbreviation report_of :: "update_args \<Rightarrow> disk \<Rightarrow> diff_report" where
  "report_of ua dk \<equiv> classify_kit_files (up_source (update_plan_of ua dk)) (up_user (update_plan_of ua dk))"

abbreviation start_state :: "disk \<Rightarrow> console \<Rightarrow> update_state" where
  "start_state dk con \<equiv>
     \<lparr>us_disk = dk, us_console = con, us_review = \<lparr>rv_accept_all = False, rv_decline_all = False\<rparr>, us_entries = []\<rparr>"

text \<open>A run that returns a result either found nothing to do or ran the loop to its end.\<close>

lemma kit_update_cases:
  assumes "file_level_kit_update ed opts ua dk con = (Inr r, dk', con')"
  obtains (current) "\<not> has_changes (report_of ua dk)" "dk' = dk" "con' = con"
      "r = \<lparr>ur_status = Current, ur_added = [], ur_removed = [], ur_modified = [], ur_accepted = [],
            ur_declined = [], ur_unchanged = length (dr_unchanged (report_of ua dk))\<rparr>"
    | (updated) st where "has_changes (report_of ua dk)"
      "update_loop ed opts (update_plan_of ua dk) (changed_files (report_of ua dk)) (start_state dk con) = (st, Continue)"
      "dk' = us_disk st" "con' = us_console st" "r = update_result_of (report_of ua dk) (us_entries st)"
proof (cases "has_changes (report_of ua dk)")
  case False
  then show ?thesis using assms by (intro current) (auto simp: file_level_kit_update_def Let_def)
next
  case True
  obtain st fl where l: "update_loop ed opts (update_plan_of ua dk) (changed_files (report_of ua dk))
      (start_state dk con) = (st, fl)" by fastforce
  with update_loop_flow [OF l] True assms show ?thesis
    by (intro updated) (auto simp: file_level_kit_update_def Let_def split: flow.splits)
qed

lemma set_entries_of: "set (entries_of ch es) = {e. (ch, e) \<in> set es}"
  by (force simp: entries_of_def image_iff)

lemma set_all_entries:
  "set (entries_of Added es @ entries_of Removed es @ entries_of Changed es) = snd ` set es"
proof (rule set_eqI)
  fix e
  have "e \<in> snd ` set es \<longleftrightarrow> (\<exists>ch. (ch, e) \<in> set es)" by force
  also have "\<dots> \<longleftrightarrow> (Added, e) \<in> set es \<or> (Removed, e) \<in> set es \<or> (Changed, e) \<in> set es"
    by (metis change.exhaust)
  finally show "e \<in> set (entries_of Added es @ entries_of Removed es @ entries_of Changed es) \<longleftrightarrow> e \<in> snd ` set es"
    by (simp add: set_entries_of)
qed

lemma fst_of_entries: "fst ` {e \<in> snd ` A. P (snd e)} = {p. \<exists>ch a. (ch, p, a) \<in> A \<and> P a}"
proof (rule set_eqI)
  fix p
  have "p \<in> fst ` {e \<in> snd ` A. P (snd e)} \<longleftrightarrow> (\<exists>a. (p, a) \<in> snd ` A \<and> P a)" by (auto simp: image_iff)
  also have "\<dots> \<longleftrightarrow> (\<exists>a. (\<exists>ch. (ch, p, a) \<in> A) \<and> P a)" by (simp add: image_iff Bex_def)
  finally show "p \<in> fst ` {e \<in> snd ` A. P (snd e)} \<longleftrightarrow> p \<in> {p. \<exists>ch a. (ch, p, a) \<in> A \<and> P a}" by blast
qed

lemma accepted_entries:
  "set (ur_accepted (update_result_of rep es)) = {p. \<exists>ch a. (ch, p, a) \<in> set es \<and> a \<noteq> Declined}"
proof -
  have act: "(a = Accepted \<or> a = Edited) = (a \<noteq> Declined)" for a by (cases a) auto
  have "set (ur_accepted (update_result_of rep es)) = fst ` {e \<in> snd ` set es. snd e \<noteq> Declined}"
    by (simp only: update_result_of_def Let_def update_result.simps set_map set_filter set_all_entries act)
  also have "\<dots> = {p. \<exists>ch a. (ch, p, a) \<in> set es \<and> a \<noteq> Declined}" by (rule fst_of_entries)
  finally show ?thesis by simp
qed

lemma declined_entries:
  "set (ur_declined (update_result_of rep es)) = {p. \<exists>ch. (ch, p, Declined) \<in> set es}"
proof -
  have "set (ur_declined (update_result_of rep es)) = fst ` {e \<in> snd ` set es. snd e = Declined}"
    by (simp only: update_result_of_def Let_def update_result.simps set_map set_filter set_all_entries)
  also have "\<dots> = {p. \<exists>ch a. (ch, p, a) \<in> set es \<and> a = Declined}" by (rule fst_of_entries)
  finally show ?thesis by simp
qed

subsection \<open>A small update\<close>

text \<open>A source with a changed and a new file, and a user who declines the one and accepts the other.\<close>

definition sample_disk :: disk where
  "sample_disk = \<lparr>dk_files = [([''s'', ''a.md''], Text [CHR ''x'', NL]), ([''s'', ''n.md''], Text [CHR ''n'', NL]),
     ([''u'', ''a.md''], Text [CHR ''y'', NL])], dk_dirs = [[], [''s''], [''u'']]\<rparr>"

definition sample_args :: update_args where
  "sample_args = \<lparr>ua_source_dir = [''s''], ua_user_dir = [''u''], ua_content_dirs = None, ua_content_files = None,
     ua_resources = \<lparr>rs_bindings = [], rs_source_to_id = [], rs_info = []\<rparr>\<rparr>"

definition sample_opts :: "bool \<Rightarrow> update_opts" where
  "sample_opts frc = \<lparr>uo_interactive = True, uo_auto_approve = False, uo_force = frc, uo_dry_run = False\<rparr>"

definition sample_result :: update_result where
  "sample_result = \<lparr>ur_status = Updated, ur_added = [(''n.md'', Accepted)], ur_removed = [],
     ur_modified = [(''a.md'', Declined)], ur_accepted = [''n.md''], ur_declined = [''a.md''], ur_unchanged = 0\<rparr>"

definition sample_after :: disk where
  "sample_after = \<lparr>dk_files = dk_files sample_disk @ [([''u'', ''n.md''], Text [CHR ''n'', NL])],
     dk_dirs = [[], [''s''], [''u'']]\<rparr>"

lemma sample_run:
  "file_level_kit_update (\<lambda>_ _. None) (sample_opts False) sample_args sample_disk \<lparr>co_inputs = [''d'', ''a''], co_session = 0\<rparr> =
     (Inr sample_result, sample_after, \<lparr>co_inputs = [], co_session = 0\<rparr>)"
  by code_simp

text \<open>C7. An update touches nothing it was not allowed to: every file whose existence or content
  differs after the run is the target of a file that the result lists as accepted, and a dry run
  leaves every file as it was.
\<close>

theorem kit_update_frame:
  assumes "file_level_kit_update ed opts ua dk con = (Inr r, dk', con')"
    and "dget (dk_files dk') q \<noteq> dget (dk_files dk) q"
  shows "\<not> uo_dry_run opts \<and> q \<in> dest_of (update_plan_of ua dk) ` set (ur_accepted r)"
  using assms(1)
proof (cases rule: kit_update_cases)
  case (updated st)
  have "touches dk (us_disk st) q" using assms(2) updated(3) by (simp add: touches_def)
  then obtain e where "e \<in> set (us_entries st)" "q = dest_of (update_plan_of ua dk) (fst (snd e))"
    "snd (snd e) \<noteq> Declined" "\<not> uo_dry_run opts"
    using update_loop_flow [OF updated(2)] by auto
  moreover from this have "fst (snd e) \<in> set (ur_accepted r)"
    unfolding updated(5) accepted_entries by (metis (mono_tags, lifting) mem_Collect_eq prod.collapse)
  ultimately show ?thesis by blast
qed (use assms(2) in simp)

theorem kit_update_frame_witness:
  "\<not> uo_dry_run (sample_opts False)
   \<and> [''u'', ''n.md''] \<in> dest_of (update_plan_of sample_args sample_disk) ` set (ur_accepted sample_result)"
proof -
  have "dget (dk_files sample_after) [''u'', ''n.md''] \<noteq> dget (dk_files sample_disk) [''u'', ''n.md'']" by code_simp
  from kit_update_frame [OF sample_run this] show ?thesis .
qed

text \<open>C11. Every difference is answered exactly once: when an update returns, the added, removed and
  modified files of its result are those of the comparison, and a path is listed as accepted or as
  declined, never as both, exactly when its file differs.
\<close>

theorem kit_update_complete:
  assumes "file_level_kit_update ed opts ua dk con = (Inr r, dk', con')"
  shows "(ur_status r = Current) = (\<not> has_changes (report_of ua dk))
    \<and> set (map fst (ur_added r)) = set (dr_added (report_of ua dk))
    \<and> set (map fst (ur_removed r)) = set (dr_removed (report_of ua dk))
    \<and> set (map fst (ur_modified r)) = set (dr_modified (report_of ua dk))
    \<and> set (ur_accepted r) \<union> set (ur_declined r) = fst ` set (changed_files (report_of ua dk))
    \<and> set (ur_accepted r) \<inter> set (ur_declined r) = {}"
  using assms
proof (cases rule: kit_update_cases)
  case current
  then show ?thesis by (auto simp: has_changes_def changed_files_def)
next
  case (updated st)
  let ?pcs = "changed_files (report_of ua dk)"
  obtain es where es: "us_entries st = es" "map entry_file es = ?pcs"
    using update_loop_flow [OF updated(2)] by auto
  have mem: "set (map fst (entries_of ch es)) = {p. (p, ch) \<in> set ?pcs}" for ch
    unfolding es(2) [symmetric] by (force simp: set_entries_of image_iff)
  have fsts: "set (ur_accepted r) \<union> set (ur_declined r) = fst ` set ?pcs"
    unfolding updated(5) accepted_entries declined_entries es(1) es(2) [symmetric] by (force simp: image_iff)
  have "distinct (map (fst \<circ> snd) es)"
    using distinct_changed_files [of "up_source (update_plan_of ua dk)" "up_user (update_plan_of ua dk)"]
    by (simp add: es(2) [symmetric] comp_def)
  then have "a = a'" if "(ch, p, a) \<in> set es" "(ch', p, a') \<in> set es" for p a a' ch ch'
    using that by (force simp: distinct_map inj_on_def)
  then have "set (ur_accepted r) \<inter> set (ur_declined r) = {}"
    unfolding updated(5) accepted_entries declined_entries es(1) by blast
  moreover have "set (map fst (ur_added r)) = set (dr_added (report_of ua dk))"
    "set (map fst (ur_removed r)) = set (dr_removed (report_of ua dk))"
    "set (map fst (ur_modified r)) = set (dr_modified (report_of ua dk))"
    using mem updated(5) es(1) by (auto simp: update_result_of_def Let_def changed_files_def)
  ultimately show ?thesis using fsts updated(1,5) by (simp add: update_result_of_def Let_def)
qed

theorem kit_update_complete_witness:
  "set (map fst (ur_modified sample_result)) = set (dr_modified (report_of sample_args sample_disk))
   \<and> set (ur_accepted sample_result) \<inter> set (ur_declined sample_result) = {}"
proof -
  note c = kit_update_complete [OF sample_run]
  have "set (map fst (ur_modified sample_result)) = set (dr_modified (report_of sample_args sample_disk))"
    using c by (rule conjunct2 [THEN conjunct2, THEN conjunct2, THEN conjunct1])
  moreover have "set (ur_accepted sample_result) \<inter> set (ur_declined sample_result) = {}"
    using c by (rule conjunct2 [THEN conjunct2, THEN conjunct2, THEN conjunct2, THEN conjunct2])
  ultimately show ?thesis ..
qed

subsection \<open>Bulk answers\<close>

lemma decide_bulk:
  assumes "uo_interactive opts" "\<not> uo_force opts" "\<not> uo_auto_approve opts"
  shows "rv_accept_all rv \<Longrightarrow> decide ed opts old new rv con = (Accepted, new, rv, con)"
    and "\<not> rv_accept_all rv \<Longrightarrow> rv_decline_all rv \<Longrightarrow> decide ed opts old new rv con = (Declined, new, rv, con)"
  using assms by (simp_all add: decide_def prompt_kit_file_def)

lemma update_step_plain:
  assumes "decide ed opts (file_or_empty (strip_files (up_user plan)) p)
      (file_or_empty (strip_files (up_source plan)) p) (us_review st) (us_console st) = (act, c, us_review st, us_console st)"
    and "act \<noteq> Edited"
  shows "update_step ed opts plan (p, ch) st =
    (case apply_change opts ch act (dest_of plan p) (file_or_empty (up_source plan) p) c (us_disk st) of
       Inl e \<Rightarrow> (st, Crash e)
     | Inr dk \<Rightarrow> (st\<lparr>us_disk := dk, us_entries := us_entries st @ [(ch, p, act)]\<rparr>, Continue))"
  using assms by (auto simp: update_step_def Let_def wrote_edited_def split: sum.splits)

lemma update_loop_same_answer:
  assumes "\<And>old new con. decide ed opts old new (us_review st) con = (act, new, us_review st, con)"
    and "act \<noteq> Edited" and "update_loop ed opts plan pcs st = (st', Continue)"
  shows "us_console st' = us_console st \<and> us_entries st' = us_entries st @ map (\<lambda>pc. (snd pc, fst pc, act)) pcs"
  using assms(1,3)
proof (induction pcs arbitrary: st)
  case (Cons pc pcs)
  obtain p ch where pc: "pc = (p, ch)" by (cases pc)
  note s = update_step_plain [OF Cons.prems(1) assms(2), of plan p ch]
  show ?case
  proof (cases "apply_change opts ch act (dest_of plan p) (file_or_empty (up_source plan) p)
      (file_or_empty (strip_files (up_source plan)) p) (us_disk st)")
    case (Inl e)
    then show ?thesis using Cons.prems(2) by (simp add: pc s)
  next
    case (Inr dk)
    let ?st = "st\<lparr>us_disk := dk, us_entries := us_entries st @ [(ch, p, act)]\<rparr>"
    have "update_loop ed opts plan pcs ?st = (st', Continue)" using Cons.prems(2) Inr by (simp add: pc s)
    from Cons.IH [OF _ this] Cons.prems(1) show ?thesis by (simp add: pc)
  qed
qed simp

text \<open>An answer for all files is final: once the user has answered ``accept all'', every later file
  of an interactive update is accepted and no further line is read from the terminal; once the user
  has answered ``decline all'', every later file is declined and every file stays as it is.
\<close>

theorem bulk_answer_final:
  assumes "uo_interactive opts" "\<not> uo_force opts" "\<not> uo_auto_approve opts"
    and "update_loop ed opts plan pcs st = (st', Continue)"
    and "rv_accept_all (us_review st) \<or> rv_decline_all (us_review st)"
  shows "us_console st' = us_console st
    \<and> us_entries st' = us_entries st
        @ map (\<lambda>pc. (snd pc, fst pc, if rv_accept_all (us_review st) then Accepted else Declined)) pcs
    \<and> (rv_accept_all (us_review st) \<or> (\<forall>q. dget (dk_files (us_disk st')) q = dget (dk_files (us_disk st)) q))"
proof (cases "rv_accept_all (us_review st)")
  case True
  then show ?thesis
    using update_loop_same_answer [of ed opts st Accepted, OF decide_bulk(1) [OF assms(1-3)] _ assms(4)] by simp
next
  case False
  with assms(5) have "\<And>old new con. decide ed opts old new (us_review st) con = (Declined, new, us_review st, con)"
    using decide_bulk(2) [OF assms(1-3)] by blast
  from update_loop_same_answer [OF this _ assms(4)] have d: "us_console st' = us_console st"
    "us_entries st' = us_entries st @ map (\<lambda>pc. (snd pc, fst pc, Declined)) pcs" by simp_all
  moreover have "\<not> touches (us_disk st) (us_disk st') q" for q
    using update_loop_flow [OF assms(4)] d(2) by fastforce
  ultimately show ?thesis using False by (simp add: touches_def)
qed

theorem bulk_answer_final_witness:
  "us_entries (fst (update_loop (\<lambda>_ _. None) (sample_opts False) (update_plan_of sample_args sample_disk)
     [(''a.md'', Changed)] \<lparr>us_disk = sample_disk, us_console = \<lparr>co_inputs = [''a''], co_session = 0\<rparr>,
       us_review = \<lparr>rv_accept_all = False, rv_decline_all = True\<rparr>, us_entries = []\<rparr>)) = [(Changed, ''a.md'', Declined)]"
proof -
  let ?st = "\<lparr>us_disk = sample_disk, us_console = \<lparr>co_inputs = [''a''], co_session = 0\<rparr>,
       us_review = \<lparr>rv_accept_all = False, rv_decline_all = True\<rparr>, us_entries = []\<rparr>"
  let ?l = "update_loop (\<lambda>_ _. None) (sample_opts False) (update_plan_of sample_args sample_disk) [(''a.md'', Changed)] ?st"
  have "snd ?l = Continue" by code_simp
  then have "?l = (fst ?l, Continue)" by (metis prod.collapse)
  from bulk_answer_final [OF _ _ _ this] show ?thesis by (simp add: sample_opts_def)
qed

end
