(* ===== verification/Kit_Converge.thy ===== *)
theory Kit_Converge
  imports Kit_Update_Facts
begin

section \<open>A forced update makes the installed copy equal to the source\<close>

text \<open>
  For a well-formed disk (each path once, file names without slashes, every directory above a file
  exists) and a kit without resource bindings: the listings of both sides are functions of the
  paths below them, every target is the user's directory joined with the relative path, and
  after a forced update both listings agree.
\<close>

subsection \<open>Well-formed disks\<close>

definition good_name :: "string \<Rightarrow> bool" where
  "good_name c = (c \<noteq> [] \<and> c \<noteq> ''.'' \<and> CHR ''/'' \<notin> set c)"

definition wf_disk :: "disk \<Rightarrow> bool" where
  "wf_disk dk =
     (distinct (map fst (dk_files dk))
      \<and> list_all (\<lambda>f. list_all good_name (fst f) \<and> list_all (is_dir dk) (parents (fst f))) (dk_files dk))"

definition ok_rel :: "string \<Rightarrow> bool" where
  "ok_rel s = (path_parts s \<noteq> [] \<and> join_with ''/'' (path_parts s) = s)"

lemma path_parts_join:
  assumes "list_all good_name ps" "ps \<noteq> []"
  shows "path_parts (join_with ''/'' ps) = ps"
proof -
  have "split_on (CHR ''/'') (join_with ''/'' ps) = ps"
    using assms by (intro split_join) (auto simp: good_name_def list_all_iff)
  then show ?thesis using assms(1) by (auto simp: path_parts_def good_name_def list_all_iff filter_id_conv)
qed

lemma path_parts_good: "list_all good_name (path_parts s)"
  using split_on_no_sep_mem [of _ "CHR ''/''" s] by (auto simp: path_parts_def good_name_def list_all_iff)

lemma set_parents: "d \<in> set (parents p) \<longleftrightarrow> strictly_below d p"
  by (auto simp: parents_def strictly_below_def image_iff min_def intro: bexI [of _ "length d"])

lemma below_append [simp]: "strictly_below d (d @ ps) \<longleftrightarrow> ps \<noteq> []"
  by (auto simp: strictly_below_def)

lemma below_decomp: "strictly_below d p \<Longrightarrow> p = d @ drop (length d) p \<and> drop (length d) p \<noteq> []"
  by (auto simp: strictly_below_def) (metis append_take_drop_id)

subsection \<open>Listings\<close>

lemma foldl_dset_filter:
  assumes "distinct (map k (filter P fs))" "\<forall>f \<in> set (filter P fs). k f \<notin> fst ` set m"
  shows "foldl (\<lambda>m f. if P f then dset (k f) (v f) m else m) m fs = m @ map (\<lambda>f. (k f, v f)) (filter P fs)"
  using assms
proof (induction fs arbitrary: m)
  case (Cons f fs)
  show ?case
  proof (cases "P f")
    case True
    then have "k f \<notin> fst ` set m" using Cons.prems(2) by simp
    then have "dset (k f) (v f) m = m @ [(k f, v f)]" by (rule dset_new)
    moreover have "\<forall>g \<in> set (filter P fs). k g \<notin> fst ` set (m @ [(k f, v f)])"
      using Cons.prems True by (auto simp: image_iff)
    ultimately show ?thesis using True Cons.IH [of "m @ [(k f, v f)]"] Cons.prems(1) by simp
  next
    case False
    with Cons show ?thesis by auto
  qed
qed simp

lemma wf_file:
  assumes "wf_disk dk" "(p, c) \<in> set (dk_files dk)"
  shows "dget (dk_files dk) p = Some c" "list_all good_name p" "strictly_below d p \<Longrightarrow> is_dir dk d"
  using assms by (auto simp: wf_disk_def list_all_iff set_parents)

lemma rel_parts:
  assumes "wf_disk dk" "(p, c) \<in> set (dk_files dk)" "strictly_below d p"
  shows "path_parts (rel_str d p) = drop (length d) p" "ok_rel (rel_str d p)" "p = d @ path_parts (rel_str d p)"
proof -
  have "list_all good_name (drop (length d) p)"
    using wf_file(2) [OF assms(1,2)] by (auto simp: list_all_iff dest: in_set_dropD)
  then show eq: "path_parts (rel_str d p) = drop (length d) p"
    using below_decomp [OF assms(3)] by (simp add: rel_str_def path_parts_join)
  show "ok_rel (rel_str d p)" "p = d @ path_parts (rel_str d p)"
    using below_decomp [OF assms(3)] by (auto simp: ok_rel_def eq) (simp add: rel_str_def)
qed

lemma enumerate_mem:
  assumes "wf_disk dk" "is_dir dk d"
  shows "dget (enumerate_kit_files cds cfs dk d) s = Some c \<longleftrightarrow>
    ok_rel s \<and> kit_file_kept cds cfs (path_parts s) \<and> dget (dk_files dk) (d @ path_parts s) = Some c"
proof -
  let ?fs = "sorted_by (\<lambda>f g. path_less (fst f) (fst g)) (rglob dk d)"
  let ?P = "\<lambda>f :: path \<times> content. kit_file_kept cds cfs (drop (length d) (fst f))"
  let ?k = "\<lambda>f :: path \<times> content. rel_str d (fst f)"
  have fs: "f \<in> set ?fs \<longleftrightarrow> f \<in> set (dk_files dk) \<and> strictly_below d (fst f)" for f
    by (auto simp: rglob_def)
  have "distinct (dk_files dk)" using assms(1) by (simp add: wf_disk_def distinct_map)
  moreover have "inj_on ?k (set ?fs)"
  proof (rule inj_onI)
    fix f g assume fg: "f \<in> set ?fs" "g \<in> set ?fs" "?k f = ?k g"
    then have "fst f = fst g" using rel_parts(3) [OF assms(1)] fs by (metis prod.collapse)
    with fg(1,2) fs wf_file(1) [OF assms(1)] show "f = g" by (metis option.inject prod.collapse)
  qed
  ultimately have "distinct (map ?k ?fs)" by (simp add: distinct_map rglob_def)
  then have dist: "distinct (map ?k (filter ?P ?fs))" by (simp add: distinct_map_filter)
  then have "enumerate_kit_files cds cfs dk d = map (\<lambda>f. (?k f, snd f)) (filter ?P ?fs)"
    using assms(2) foldl_dset_filter [of ?k ?P ?fs "[]" snd] by (simp add: enumerate_kit_files_def)
  moreover have "distinct (map fst (map (\<lambda>f. (?k f, snd f)) (filter ?P ?fs)))" using dist by (simp add: comp_def)
  ultimately have "dget (enumerate_kit_files cds cfs dk d) s = Some c \<longleftrightarrow>
      (s, c) \<in> (\<lambda>f. (?k f, snd f)) ` {f \<in> set ?fs. ?P f}"
    by (simp only: map_of_eq_Some_iff set_map set_filter)
  also have "\<dots> \<longleftrightarrow> (\<exists>p. (p, c) \<in> set (dk_files dk) \<and> strictly_below d p
      \<and> kit_file_kept cds cfs (drop (length d) p) \<and> rel_str d p = s)"
    unfolding image_iff Bex_def mem_Collect_eq fs by auto
  also have "\<dots> \<longleftrightarrow> ok_rel s \<and> kit_file_kept cds cfs (path_parts s) \<and> dget (dk_files dk) (d @ path_parts s) = Some c"
  proof
    assume "\<exists>p. (p, c) \<in> set (dk_files dk) \<and> strictly_below d p
      \<and> kit_file_kept cds cfs (drop (length d) p) \<and> rel_str d p = s"
    then obtain p where p: "(p, c) \<in> set (dk_files dk)" "strictly_below d p"
      "kit_file_kept cds cfs (drop (length d) p)" "rel_str d p = s" by blast
    then show "ok_rel s \<and> kit_file_kept cds cfs (path_parts s) \<and> dget (dk_files dk) (d @ path_parts s) = Some c"
      using rel_parts [OF assms(1) p(1,2)] wf_file(1) [OF assms(1) p(1)] by metis
  next
    assume a: "ok_rel s \<and> kit_file_kept cds cfs (path_parts s) \<and> dget (dk_files dk) (d @ path_parts s) = Some c"
    then have "(d @ path_parts s, c) \<in> set (dk_files dk)" by (simp add: map_of_SomeD)
    with a show "\<exists>p. (p, c) \<in> set (dk_files dk) \<and> strictly_below d p
      \<and> kit_file_kept cds cfs (drop (length d) p) \<and> rel_str d p = s"
      by (intro exI [of _ "d @ path_parts s"]) (auto simp: ok_rel_def rel_str_def)
  qed
  finally show ?thesis .
qed

definition listed :: "string list option \<Rightarrow> string list option \<Rightarrow> string \<Rightarrow> bool" where
  "listed cds cfs s = (ok_rel s \<and> kit_file_kept cds cfs (path_parts s))"

lemma enumerate_dget:
  assumes "wf_disk dk"
  shows "dget (enumerate_kit_files cds cfs dk d) s =
    (if listed cds cfs s then dget (dk_files dk) (d @ path_parts s) else None)"
proof (cases "is_dir dk d")
  case True
  have eq: "x = y" if "\<And>c. x = Some c \<longleftrightarrow> y = Some c" for x y :: "content option"
    using that by (metis option.exhaust)
  show ?thesis by (rule eq) (auto simp: enumerate_mem [OF assms True] listed_def)
next
  case False
  have "dget (dk_files dk) (d @ path_parts s) = None" if "ok_rel s"
  proof (rule ccontr)
    assume "dget (dk_files dk) (d @ path_parts s) \<noteq> None"
    then obtain c where "(d @ path_parts s, c) \<in> set (dk_files dk)" by (auto dest: map_of_SomeD)
    with wf_file(3) [OF assms, of "d @ path_parts s"] that False show False by (auto simp: ok_rel_def)
  qed
  with False show ?thesis by (simp add: enumerate_kit_files_def listed_def)
qed

subsection \<open>The plan without resource bindings\<close>

lemma read_targets_dget:
  "dget (foldl (\<lambda>files t. case dget dkf (snd t) of None \<Rightarrow> files | Some c \<Rightarrow> dset (fst t) c files) m
     (map (\<lambda>f. (fst f, g (fst f))) src)) s =
   (if s \<in> fst ` set src \<and> dget dkf (g s) \<noteq> None then dget dkf (g s) else dget m s)"
proof (induction src arbitrary: m)
  case (Cons f src)
  show ?case by (cases "dget dkf (g (fst f))") (auto simp: Cons.IH)
qed simp

lemma add_user_file_dget:
  "dget (fst (add_user_file ud st f)) s =
     (case dget (fst st) s of None \<Rightarrow> if s = fst f then Some (snd f) else None | Some c \<Rightarrow> Some c)"
  by (auto simp: add_user_file_def dhas_def split: option.splits)

lemma add_user_files_dget:
  "dget (fst (foldl (add_user_file ud) st fs)) s = (case dget (fst st) s of None \<Rightarrow> dget fs s | Some c \<Rightarrow> Some c)"
proof (induction fs arbitrary: st)
  case (Cons f fs)
  obtain k v where "f = (k, v)" by (cases f)
  then show ?case by (simp add: Cons.IH add_user_file_dget split: option.splits)
qed (simp split: option.splits)

lemma add_user_files_targets:
  "\<forall>t \<in> set (snd st). snd t = join_path ud (fst t) \<Longrightarrow>
   \<forall>t \<in> set (snd (foldl (add_user_file ud) st fs)). snd t = join_path ud (fst t)"
proof (induction fs arbitrary: st)
  case (Cons f fs)
  have "\<forall>t \<in> set (snd (add_user_file ud st f)). snd t = join_path ud (fst t)"
    using Cons.prems by (auto simp: add_user_file_def dest: set_dset_cases)
  from Cons.IH [OF this] show ?case by simp
qed simp

definition unbound :: "update_args \<Rightarrow> bool" where
  "unbound ua = (rs_bindings (ua_resources ua) = [])"

abbreviation source_files :: "update_args \<Rightarrow> disk \<Rightarrow> (string \<times> content) list" where
  "source_files ua dk \<equiv> enumerate_kit_files (ua_content_dirs ua) (ua_content_files ua) dk (ua_source_dir ua)"

abbreviation user_files :: "update_args \<Rightarrow> disk \<Rightarrow> (string \<times> content) list" where
  "user_files ua dk \<equiv> enumerate_kit_files (ua_content_dirs ua) (ua_content_files ua) dk (ua_user_dir ua)"

lemma plan_unbound:
  assumes "wf_disk dk" "unbound ua"
  shows "up_source (update_plan_of ua dk) = source_files ua dk"
    and "dget (up_user (update_plan_of ua dk)) = dget (user_files ua dk)"
    and "dest_of (update_plan_of ua dk) p = ua_user_dir ua @ path_parts p"
proof -
  let ?u = "ua_user_dir ua"
  let ?src = "source_files ua dk"
  let ?st = "read_targets dk (map (\<lambda>f. (fst f, join_path ?u (fst f))) ?src)"
  have "build_target_mapping dk (ua_resources ua) ?u ?src = map (\<lambda>f. (fst f, join_path ?u (fst f))) ?src"
    using assms(2) by (simp add: build_target_mapping_def target_of_def unbound_def)
  then have inst: "read_installed (ua_content_dirs ua) (ua_content_files ua) dk (ua_resources ua) ?u ?src =
      foldl (add_user_file ?u) ?st (user_files ua dk)"
    using assms(2) by (simp add: read_installed_def unbound_def)
  show "up_source (update_plan_of ua dk) = ?src"
    by (simp add: update_plan_of_def Let_def split: prod.splits)
  have user: "up_user (update_plan_of ua dk) = fst (foldl (add_user_file ?u) ?st (user_files ua dk))"
    and targets: "up_targets (update_plan_of ua dk) = snd (foldl (add_user_file ?u) ?st (user_files ua dk))"
    and ud: "up_user_dir (update_plan_of ua dk) = ?u"
    by (simp_all add: update_plan_of_def Let_def inst split: prod.splits)
  have "dget (up_user (update_plan_of ua dk)) s = dget (user_files ua dk) s" for s
  proof -
    have "dget (fst ?st) s =
        (if s \<in> fst ` set ?src \<and> dget (dk_files dk) (join_path ?u s) \<noteq> None then dget (dk_files dk) (join_path ?u s) else None)"
      by (simp add: read_targets_def read_targets_dget)
    moreover have "listed (ua_content_dirs ua) (ua_content_files ua) s" if "s \<in> fst ` set ?src"
    proof -
      from that have "dget ?src s \<noteq> None" by (simp add: map_of_eq_None_iff)
      then show ?thesis using enumerate_dget [OF assms(1)] by (metis (mono_tags))
    qed
    ultimately show ?thesis
      by (simp add: user add_user_files_dget enumerate_dget [OF assms(1)] join_path_def split: option.splits)
  qed
  then show "dget (up_user (update_plan_of ua dk)) = dget (user_files ua dk)" by blast
  have "\<forall>t \<in> set (snd ?st). snd t = join_path ?u (fst t)" by (auto simp: read_targets_def)
  then have "\<forall>t \<in> set (up_targets (update_plan_of ua dk)). snd t = join_path ?u (fst t)"
    unfolding targets by (rule add_user_files_targets)
  then show "dest_of (update_plan_of ua dk) p = ?u @ path_parts p"
    by (auto simp: dest_of_def ud join_path_def split: option.splits dest!: map_of_SomeD)
qed

subsection \<open>The forced loop\<close>

definition forced :: "update_opts \<Rightarrow> bool" where
  "forced opts = ((uo_force opts \<or> uo_auto_approve opts) \<and> \<not> uo_dry_run opts)"

lemma forced_step:
  assumes "forced opts" "update_step ed opts plan (p, ch) st = (st', Continue)"
  shows "(case ch of
      Removed \<Rightarrow> us_disk st' = (if is_file (us_disk st) (dest_of plan p) then unlink_file (us_disk st) (dest_of plan p) else us_disk st)
    | _ \<Rightarrow> put_file (us_disk st) (dest_of plan p) (file_or_empty (up_source plan) p) = Inr (us_disk st'))"
proof -
  have d: "decide ed opts old new rv con = (Accepted, new, rv, con)" for old new rv con
    using assms(1) by (auto simp: decide_def forced_def)
  show ?thesis
    using assms update_step_plain [OF d, of plan p ch]
    by (cases ch) (auto simp: apply_change_def forced_def split: sum.splits)
qed

definition good_target :: "path \<Rightarrow> bool" where
  "good_target p = list_all good_name p"

lemma wf_put_file:
  assumes "wf_disk dk" "good_target dest" "put_file dk dest c = Inr dk'"
  shows "wf_disk dk'" "dget (dk_files dk') = (dget (dk_files dk))(dest \<mapsto> c)"
    "is_dir dk' d \<longleftrightarrow> is_dir dk d \<or> strictly_below d dest"
proof -
  have "set (foldr sadd ps ds) = set ps \<union> set ds" for ps ds :: "path list" by (induction ps) auto
  then have dirs: "set (dk_dirs dk') = set (parents dest) \<union> set (dk_dirs dk)"
    and files: "dk_files dk' = dset dest c (dk_files dk)"
    using assms(3) by (auto simp: put_file_def split: if_splits)
  show dir: "is_dir dk' d \<longleftrightarrow> is_dir dk d \<or> strictly_below d dest" for d
    using dirs by (auto simp: is_dir_def set_parents)
  show "dget (dk_files dk') = (dget (dk_files dk))(dest \<mapsto> c)" by (simp add: files)
  have "list_all good_name (fst f) \<and> list_all (is_dir dk') (parents (fst f))" if "f \<in> set (dk_files dk')" for f
  proof (cases "f \<in> set (dk_files dk)")
    case True
    then show ?thesis using assms(1) dir by (auto simp: wf_disk_def list_all_iff)
  next
    case False
    then have "f = (dest, c)" using that set_dset_cases files by metis
    then show ?thesis using assms(2) dir by (auto simp: good_target_def list_all_iff set_parents)
  qed
  then show "wf_disk dk'" using assms(1) files by (simp add: wf_disk_def list_all_iff)
qed

lemma wf_unlink: "wf_disk dk \<Longrightarrow> wf_disk (unlink_file dk p)"
  by (auto simp: wf_disk_def unlink_file_def list_all_iff set_dpop is_dir_def)

text \<open>The disk after a forced loop over targets that are all different.\<close>

lemma forced_loop:
  assumes "forced opts" "update_loop ed opts plan pcs st = (st', Continue)"
    and "wf_disk (us_disk st)" "distinct (map (dest_of plan \<circ> fst) pcs)" "\<forall>pc \<in> set pcs. good_target (dest_of plan (fst pc))"
  shows "wf_disk (us_disk st')
    \<and> (\<forall>(p, ch) \<in> set pcs. dget (dk_files (us_disk st')) (dest_of plan p) =
          (if ch = Removed then None else Some (file_or_empty (up_source plan) p)))
    \<and> (\<forall>q. q \<notin> (dest_of plan \<circ> fst) ` set pcs \<longrightarrow> dget (dk_files (us_disk st')) q = dget (dk_files (us_disk st)) q)"
  using assms(2-5)
proof (induction pcs arbitrary: st)
  case (Cons pc pcs)
  obtain p ch where pc: "pc = (p, ch)" by (cases pc)
  obtain st1 fl where s: "update_step ed opts plan (p, ch) st = (st1, fl)" by fastforce
  with Cons.prems(1) pc have fl: "fl = Continue" and loop: "update_loop ed opts plan pcs st1 = (st', Continue)"
    by (auto split: flow.splits)
  let ?d = "dest_of plan p"
  have step: "wf_disk (us_disk st1) \<and> dget (dk_files (us_disk st1)) =
      (dget (dk_files (us_disk st)))(?d := (if ch = Removed then None else Some (file_or_empty (up_source plan) p)))"
  proof (cases "ch = Removed")
    case True
    then have "us_disk st1 = (if is_file (us_disk st) ?d then unlink_file (us_disk st) ?d else us_disk st)"
      using forced_step [OF assms(1) s [unfolded fl]] by simp
    then show ?thesis using True Cons.prems(2) wf_unlink
      by (auto simp: unlink_file_def is_file_def dhas_def fun_eq_iff)
  next
    case False
    then have "put_file (us_disk st) ?d (file_or_empty (up_source plan) p) = Inr (us_disk st1)"
      using forced_step [OF assms(1) s [unfolded fl]] by (cases ch) auto
    from wf_put_file(1,2) [OF Cons.prems(2) _ this] Cons.prems(4) pc False show ?thesis by simp
  qed
  from Cons.IH [OF loop conjunct1 [OF step]] Cons.prems(3,4) pc
  have ih: "wf_disk (us_disk st')"
    "\<forall>(p, ch) \<in> set pcs. dget (dk_files (us_disk st')) (dest_of plan p) =
       (if ch = Removed then None else Some (file_or_empty (up_source plan) p))"
    "\<And>q. q \<notin> (dest_of plan \<circ> fst) ` set pcs \<Longrightarrow> dget (dk_files (us_disk st')) q = dget (dk_files (us_disk st1)) q"
    by auto
  have "?d \<notin> (dest_of plan \<circ> fst) ` set pcs" using Cons.prems(3) pc by auto
  from ih(3) [OF this] ih step show ?case by (auto simp: pc)
qed simp

subsection \<open>Convergence\<close>

definition apart :: "path \<Rightarrow> path \<Rightarrow> bool" where
  "apart p q = (take (length p) q \<noteq> p \<and> take (length q) p \<noteq> q)"

lemma apart_below: "apart s u \<Longrightarrow> s @ ps \<noteq> u @ qs"
  by (auto simp: apart_def append_eq_append_conv2)

lemma changed_targets:
  assumes "wf_disk dk" "unbound ua"
  shows "distinct (map (dest_of (update_plan_of ua dk) \<circ> fst) (changed_files (report_of ua dk)))"
    and "pc \<in> set (changed_files (report_of ua dk)) \<Longrightarrow> listed (ua_content_dirs ua) (ua_content_files ua) (fst pc)"
proof -
  let ?plan = "update_plan_of ua dk"
  let ?pcs = "changed_files (report_of ua dk)"
  note plan = plan_unbound [OF assms]
  show listed: "listed (ua_content_dirs ua) (ua_content_files ua) (fst pc)" if "pc \<in> set ?pcs" for pc
  proof -
    obtain p ch where pc: "pc = (p, ch)" by (cases pc)
    with that have "dget (up_source ?plan) p \<noteq> None \<or> dget (up_user ?plan) p \<noteq> None"
      by (cases ch) (auto simp: changed_files_iff)
    then show ?thesis unfolding plan(1,2) pc
      using enumerate_dget [OF assms(1)] by (metis (mono_tags) fst_conv)
  qed
  have "x = y" if "x \<in> fst ` set ?pcs" "y \<in> fst ` set ?pcs" "dest_of ?plan x = dest_of ?plan y" for x y
  proof -
    have "path_parts x = path_parts y" using that(3) by (simp add: plan(3))
    moreover have "listed (ua_content_dirs ua) (ua_content_files ua) x" "listed (ua_content_dirs ua) (ua_content_files ua) y"
      using listed that(1,2) by blast+
    ultimately show ?thesis by (metis listed_def ok_rel_def)
  qed
  then have "inj_on (dest_of ?plan) (fst ` set ?pcs)" by (auto simp: inj_on_def)
  with distinct_changed_files [of "up_source ?plan" "up_user ?plan"]
  show "distinct (map (dest_of ?plan \<circ> fst) ?pcs)" by (auto simp: distinct_map intro: comp_inj_on)
qed

lemma unchanged_same:
  assumes "s \<notin> fst ` set (changed_files (classify_kit_files src usr))"
  shows "dget src s = dget usr s"
proof -
  have "(s, ch) \<notin> set (changed_files (classify_kit_files src usr))" for ch using assms by force
  from this [of Added] this [of Removed] this [of Changed] show ?thesis
    unfolding changed_files_iff by (cases "dget src s"; cases "dget usr s") auto
qed

lemma forced_update_equal:
  assumes "wf_disk dk" "unbound ua" "apart (ua_source_dir ua) (ua_user_dir ua)" "list_all good_name (ua_user_dir ua)"
    and "forced opts" "file_level_kit_update ed opts ua dk con = (Inr r, dk', con')"
  shows "wf_disk dk' \<and> dget (source_files ua dk') = dget (source_files ua dk)
    \<and> dget (user_files ua dk') = dget (source_files ua dk)"
  using assms(6)
proof (cases rule: kit_update_cases)
  case current
  then show ?thesis using plan_unbound [OF assms(1,2)] assms(1) by (simp add: has_changes_iff)
next
  case (updated st)
  let ?plan = "update_plan_of ua dk"
  let ?pcs = "changed_files (report_of ua dk)"
  let ?l = "listed (ua_content_dirs ua) (ua_content_files ua)"
  note plan = plan_unbound [OF assms(1,2)]
  have good: "\<forall>pc \<in> set ?pcs. good_target (dest_of ?plan (fst pc))"
    using assms(4) path_parts_good by (auto simp: plan(3) good_target_def)
  from forced_loop [OF assms(5) updated(2) _ changed_targets(1) [OF assms(1,2)] good] assms(1) updated(3)
  have wf: "wf_disk dk'"
    and new: "\<And>p ch. (p, ch) \<in> set ?pcs \<Longrightarrow> dget (dk_files dk') (dest_of ?plan p) =
        (if ch = Removed then None else Some (file_or_empty (up_source ?plan) p))"
    and old: "\<And>q. q \<notin> (dest_of ?plan \<circ> fst) ` set ?pcs \<Longrightarrow> dget (dk_files dk') q = dget (dk_files dk) q"
    by auto
  have "dget (dk_files dk') (ua_source_dir ua @ path_parts s) = dget (dk_files dk) (ua_source_dir ua @ path_parts s)" for s
    using apart_below [OF assms(3)] by (intro old) (auto simp: plan(3))
  then have src: "dget (source_files ua dk') = dget (source_files ua dk)"
    by (auto simp: fun_eq_iff enumerate_dget [OF wf] enumerate_dget [OF assms(1)])
  have "dget (user_files ua dk') s = dget (source_files ua dk) s" for s
  proof (cases "s \<in> fst ` set ?pcs")
    case True
    then obtain ch where c: "(s, ch) \<in> set ?pcs" by auto
    then have "?l s" using changed_targets(2) [OF assms(1,2)] by fastforce
    then have "dget (user_files ua dk') s = (if ch = Removed then None else Some (file_or_empty (source_files ua dk) s))"
      using new [OF c] by (simp add: enumerate_dget [OF wf] plan)
    with c [unfolded changed_files_iff plan(1,2)] show ?thesis
      by (cases ch) (auto simp: file_or_empty_def)
  next
    case False
    then have same: "dget (source_files ua dk) s = dget (user_files ua dk) s"
      using unchanged_same [of s "up_source ?plan" "up_user ?plan"] unfolding plan(1,2) by blast
    have "dget (dk_files dk') (ua_user_dir ua @ path_parts s) = dget (dk_files dk) (ua_user_dir ua @ path_parts s)" if "?l s"
    proof (rule old, rule notI)
      assume "ua_user_dir ua @ path_parts s \<in> (dest_of ?plan \<circ> fst) ` set ?pcs"
      then obtain pc where pc: "pc \<in> set ?pcs" "path_parts (fst pc) = path_parts s" by (auto simp: plan(3))
      have "?l (fst pc)" by (rule changed_targets(2) [OF assms(1,2) pc(1)])
      with pc(2) that have "fst pc = s" by (metis listed_def ok_rel_def)
      with pc(1) False show False by blast
    qed
    then show ?thesis unfolding same by (simp add: enumerate_dget [OF wf] enumerate_dget [OF assms(1)])
  qed
  then show ?thesis using wf src by (simp add: fun_eq_iff)
qed

text \<open>C8. A forced update converges in one run: when it returns on a well-formed disk, for a kit
  without resource bindings whose directory and the user's directory do not contain each other,
  the installed files are exactly those of the source with the same contents, the source is as it
  was, and every later run of any kind answers ``current'' and changes nothing.
\<close>

theorem forced_update_converges:
  assumes "wf_disk dk" "unbound ua" "apart (ua_source_dir ua) (ua_user_dir ua)" "list_all good_name (ua_user_dir ua)"
    and "forced opts" "file_level_kit_update ed opts ua dk con = (Inr r, dk', con')"
  shows "dget (user_files ua dk') = dget (source_files ua dk)
    \<and> dget (source_files ua dk') = dget (source_files ua dk)
    \<and> (\<exists>r2. file_level_kit_update ed2 opts2 ua dk' con2 = (Inr r2, dk', con2) \<and> ur_status r2 = Current)"
proof -
  note eq = forced_update_equal [OF assms]
  then have "\<not> has_changes (report_of ua dk')"
    using plan_unbound [of dk' ua] assms(2) by (simp add: has_changes_iff)
  with eq show ?thesis by (simp add: file_level_kit_update_def Let_def)
qed

theorem forced_update_converges_witness:
  "\<exists>r2. file_level_kit_update (\<lambda>_ _. None) (sample_opts False) sample_args
      (fst (snd (file_level_kit_update (\<lambda>_ _. None) (sample_opts True) sample_args sample_disk \<lparr>co_inputs = [], co_session = 0\<rparr>)))
      \<lparr>co_inputs = [], co_session = 0\<rparr> =
    (Inr r2, fst (snd (file_level_kit_update (\<lambda>_ _. None) (sample_opts True) sample_args sample_disk
      \<lparr>co_inputs = [], co_session = 0\<rparr>)), \<lparr>co_inputs = [], co_session = 0\<rparr>) \<and> ur_status r2 = Current"
proof -
  let ?run = "file_level_kit_update (\<lambda>_ _. None) (sample_opts True) sample_args sample_disk \<lparr>co_inputs = [], co_session = 0\<rparr>"
  have h: "wf_disk sample_disk" "unbound sample_args" "apart (ua_source_dir sample_args) (ua_user_dir sample_args)"
    "list_all good_name (ua_user_dir sample_args)" "forced (sample_opts True)"
    by code_simp+
  have "isl (fst ?run) = False" by code_simp
  then obtain r where "?run = (Inr r, fst (snd ?run), snd (snd ?run))"
    by (cases "fst ?run") (auto simp: prod_eq_iff)
  from forced_update_converges [OF h this] show ?thesis by blast
qed

end
