(* ===== verification/Act_Frames.thy ===== *)
theory Act_Frames
  imports Disk_Ops
begin

section \<open>Relations that operations on the disk respect\<close>

text \<open>
  Most guarantees about the kit commands are of one kind: whatever an operation does and however
  it ends, the world after it is related to the world before it. The locale states the contract of
  such a relation, reflexive and transitive, and proves once that sequencing, loops, handlers and
  clean-up respect it when their parts do. It is interpreted for equality (nothing happens), for
  ``no existing file changes'' and for ``no file outside a set of paths changes''.
\<close>

definition honours :: "(world \<Rightarrow> world \<Rightarrow> bool) \<Rightarrow> 'a act \<Rightarrow> bool" where
  "honours R m = (\<forall>w. R w (snd (m w)))"

locale world_rel =
  fixes R :: "world \<Rightarrow> world \<Rightarrow> bool"
  assumes refl: "R w w"
    and trans: "R a b \<Longrightarrow> R b c \<Longrightarrow> R a c"
begin

lemma return_act: "honours R (return_act x)"
  by (simp add: honours_def return_act_def refl)

lemma fail_act: "honours R (fail_act e)"
  by (simp add: honours_def fail_act_def refl)

lemma look: "honours R (look f)"
  by (simp add: honours_def look_def refl)

lemma read_text: "honours R (read_text p)"
  by (auto simp: honours_def read_text_def refl split: option.splits content.splits)

lemma and_then:
  assumes "honours R m" "\<And>x. honours R (f x)"
  shows "honours R (and_then m f)"
  unfolding honours_def
proof
  fix w
  obtain r w1 where m: "m w = (r, w1)" by (cases "m w")
  then have "R w w1" using assms(1) by (metis honours_def snd_conv)
  moreover have "R w1 (snd (f x w1))" for x using assms(2) by (simp add: honours_def)
  ultimately show "R w (snd (and_then m f w))"
    by (cases r) (auto simp: and_then_def m intro: trans)
qed

text \<open>The value of a look at the disk can be assumed to come from the world that is passed on.\<close>

lemma look_then:
  assumes "\<And>w. R w (snd (f (g (wo_disk w)) w))"
  shows "honours R (and_then (look g) f)"
  using assms by (simp add: honours_def and_then_def look_def)

lemma try_act:
  assumes "honours R m" "\<And>e. honours R (h e)"
  shows "honours R (try_act m h)"
  unfolding honours_def
proof
  fix w
  obtain r w1 where m: "m w = (r, w1)" by (cases "m w")
  then have "R w w1" using assms(1) by (metis honours_def snd_conv)
  moreover have "R w1 (snd (h e w1))" for e using assms(2) by (simp add: honours_def)
  ultimately show "R w (snd (try_act m h w))"
    by (cases r) (auto simp: try_act_def m intro: trans)
qed

lemma when_act: "(b \<Longrightarrow> honours R m) \<Longrightarrow> honours R (when_act b m)"
  by (simp add: when_act_def return_act)

lemma for_each:
  assumes "\<And>x acc. x \<in> set xs \<Longrightarrow> honours R (body x acc)"
  shows "honours R (for_each body xs acc)"
  using assms
proof (induction xs arbitrary: acc)
  case Nil
  then show ?case by (simp add: return_act)
next
  case (Cons x xs)
  then show ?case by (auto intro: and_then)
qed

lemma disk_op:
  assumes "\<And>w dk. f (wo_disk w) = Inr dk \<Longrightarrow> R w (w\<lparr>wo_disk := dk\<rparr>)"
  shows "honours R (disk_op f)"
  using assms by (auto simp: honours_def disk_op_def refl split: sum.splits)

lemma if_act: "(b \<Longrightarrow> honours R m) \<Longrightarrow> (\<not> b \<Longrightarrow> honours R n) \<Longrightarrow> honours R (if b then m else n)"
  by simp

lemmas intros = return_act fail_act look read_text and_then try_act when_act for_each if_act

end

subsection \<open>The three relations\<close>

definition keeps_files :: "world \<Rightarrow> world \<Rightarrow> bool" where
  "keeps_files w w' =
     (\<forall>q c. dget (dk_files (wo_disk w)) q = Some c \<longrightarrow> dget (dk_files (wo_disk w')) q = Some c)"

definition same_outside :: "(path \<Rightarrow> bool) \<Rightarrow> world \<Rightarrow> world \<Rightarrow> bool" where
  "same_outside S w w' = (\<forall>q. S q \<or> dget (dk_files (wo_disk w')) q = dget (dk_files (wo_disk w)) q)"

interpretation pure: world_rel "(=)"
  by unfold_locales auto

interpretation keeping: world_rel keeps_files
  by unfold_locales (auto simp: keeps_files_def)

interpretation outside: world_rel "same_outside S" for S
  by unfold_locales (simp_all add: same_outside_def, metis)

subsection \<open>Which paths the operations touch\<close>

lemma dget_filter_fst: "P q \<Longrightarrow> dget (filter (\<lambda>f. P (fst f)) d) q = dget d q"
  by (induction d) auto

lemma foldl_dset_other:
  "\<forall>f \<in> set fs. g f \<noteq> q \<Longrightarrow> dget (foldl (\<lambda>m f. dset (g f) (v f) m) m fs) q = dget m q"
  by (induction fs arbitrary: m) auto

definition at_or_below :: "path \<Rightarrow> path \<Rightarrow> bool" where
  "at_or_below d q = (q = d \<or> strictly_below d q)"

lemma at_or_below_refl [simp]: "at_or_below d d"
  by (simp add: at_or_below_def)

lemma at_or_below_iff: "at_or_below d q \<longleftrightarrow> (\<exists>ps. q = d @ ps)"
proof
  assume "at_or_below d q"
  then have "take (length d) q = d" by (auto simp: at_or_below_def strictly_below_def)
  then show "\<exists>ps. q = d @ ps" by (metis append_take_drop_id)
next
  assume "\<exists>ps. q = d @ ps"
  then obtain ps where "q = d @ ps" by blast
  then show "at_or_below d q" by (cases ps) (auto simp: at_or_below_def strictly_below_def)
qed

lemma at_or_below_trans: "at_or_below a b \<Longrightarrow> at_or_below b c \<Longrightarrow> at_or_below a c"
  by (auto simp: at_or_below_iff)

lemma at_or_below_append [simp]: "at_or_below d (d @ ps)"
  by (auto simp: at_or_below_iff)

text \<open>Each operation changes files only at or below its target.\<close>

lemma mkdirs_outside: "honours (same_outside S) (disk_op (mkdirs p))"
  by (rule outside.disk_op) (auto simp: mkdirs_def same_outside_def split: if_splits)

lemma write_at_outside: "S p \<Longrightarrow> honours (same_outside S) (disk_op (write_at p c))"
  by (rule outside.disk_op) (auto simp: write_at_def same_outside_def split: if_splits)

lemma put_file_outside: "S p \<Longrightarrow> honours (same_outside S) (disk_op (\<lambda>dk. put_file dk p c))"
  by (rule outside.disk_op) (auto simp: put_file_def same_outside_def split: if_splits)

lemma copy2_outside: "\<forall>q. at_or_below dst q \<longrightarrow> S q \<Longrightarrow> honours (same_outside S) (disk_op (copy2 src dst))"
  by (rule outside.disk_op)
    (auto simp: copy2_def write_at_def same_outside_def split: option.splits if_splits)

lemma rmtree_outside: "\<forall>q. at_or_below p q \<longrightarrow> S q \<Longrightarrow> honours (same_outside S) (disk_op (rmtree p))"
proof (rule outside.disk_op)
  fix w :: world and dk assume S: "\<forall>q. at_or_below p q \<longrightarrow> S q" and r: "rmtree p (wo_disk w) = Inr dk"
  have "dget (dk_files dk) q = dget (dk_files (wo_disk w)) q" if "\<not> S q" for q
  proof -
    have "\<not> strictly_below p q" using S that by (auto simp: at_or_below_def)
    then show ?thesis using r dget_filter_fst [of "\<lambda>q. \<not> strictly_below p q" q] by (auto simp: rmtree_def split: if_splits)
  qed
  then show "same_outside S w (w\<lparr>wo_disk := dk\<rparr>)" by (auto simp: same_outside_def)
qed

lemma copytree_outside: "\<forall>q. at_or_below dst q \<longrightarrow> S q \<Longrightarrow> honours (same_outside S) (disk_op (copytree src dst))"
proof (rule outside.disk_op)
  fix w :: world and dk assume S: "\<forall>q. at_or_below dst q \<longrightarrow> S q" and c: "copytree src dst (wo_disk w) = Inr dk"
  have "dget (dk_files dk) q = dget (dk_files (wo_disk w)) q" if "\<not> S q" for q
  proof -
    have "\<forall>f \<in> set (rglob (wo_disk w) src). moved src dst (fst f) \<noteq> q" using S that by (auto simp: moved_def)
    then show ?thesis using c by (auto simp: copytree_def foldl_dset_other split: if_splits)
  qed
  then show "same_outside S w (w\<lparr>wo_disk := dk\<rparr>)" by (auto simp: same_outside_def)
qed

lemma replace_tree_outside: "\<forall>q. at_or_below dst q \<longrightarrow> S q \<Longrightarrow> honours (same_outside S) (replace_tree src dst)"
  unfolding replace_tree_def by (intro outside.intros rmtree_outside copytree_outside)

lemmas outside_ops = mkdirs_outside write_at_outside put_file_outside copy2_outside rmtree_outside copytree_outside replace_tree_outside

end
