(* ===== verification/Kit_Manage_Facts.thy ===== *)
theory Kit_Manage_Facts
  imports Kit_Commands Kit_Converge Act_Frames
begin

section \<open>What the kit commands guarantee\<close>

text \<open>
  What a registration in \<open>core.toml\<close> gives when the file is read back; the paths stored in bindings resolve back
  to the installed files; a kit that was just copied is up to date; seeding never touches a file that
  exists; and the two safety properties of the update and of the layout migration.
\<close>

subsection \<open>Sequencing\<close>

lemma and_then_Inr:
  "and_then m f w = (Inr y, w') \<longleftrightarrow> (\<exists>x w1. m w = (Inr x, w1) \<and> f x w1 = (Inr y, w'))"
  by (auto simp: and_then_def split: prod.splits sum.splits)

lemma look_Inr [simp]: "look f w = (Inr x, w') \<longleftrightarrow> x = f (wo_disk w) \<and> w' = w"
  by (auto simp: look_def)

lemma return_Inr [simp]: "return_act x w = (Inr y, w') \<longleftrightarrow> y = x \<and> w' = w"
  by (auto simp: return_act_def)

lemma fail_Inr [simp]: "fail_act e w \<noteq> (Inr y, w')"
  by (simp add: fail_act_def)

lemma disk_op_Inr: "disk_op f w = (Inr u, w') \<longleftrightarrow> (\<exists>dk. f (wo_disk w) = Inr dk \<and> w' = w\<lparr>wo_disk := dk\<rparr>)"
  by (auto simp: disk_op_def split: sum.splits)

lemma try_quiet_Inr:
  "try_act m (\<lambda>_. return_act ()) w = (Inr u, w') \<longleftrightarrow> w' = snd (m w)"
  by (cases "m w") (auto simp: try_act_def return_act_def split: sum.splits)

lemma when_Inr [simp]: "when_act b m w = (Inr u, w') \<longleftrightarrow> (if b then m w = (Inr (), w') else w' = w)"
  by (auto simp: when_act_def)

lemmas act_simps = and_then_Inr disk_op_Inr try_quiet_Inr

subsection \<open>Stored paths\<close>

lemma common_prefix_take: "take (common_prefix xs ys) xs = take (common_prefix xs ys) ys"
  by (induction xs ys rule: common_prefix.induct) auto

lemma common_prefix_le: "common_prefix xs ys \<le> length xs" "common_prefix xs ys \<le> length ys"
  by (induction xs ys rule: common_prefix.induct) auto

lemma norm_go_plain: "''..'' \<notin> set ps \<Longrightarrow> norm_go acc (ps @ qs) = norm_go (rev ps @ acc) qs"
  by (induction ps arbitrary: acc) auto

lemma norm_go_up: "norm_go acc (replicate n ''..'' @ qs) = norm_go (drop n acc) qs"
  by (induction n arbitrary: acc) (auto simp: drop_Suc)

definition plain_path :: "path \<Rightarrow> bool" where
  "plain_path p = (list_all good_name p \<and> ''..'' \<notin> set p)"

text \<open>The path that is stored for an installed resource leads back to it: for absolute paths
  without dots, resolving \<open>os.path.relpath(p, start)\<close> under \<open>start\<close> gives \<open>p\<close>.
\<close>

theorem relpath_resolves:
  assumes "plain_path p" "plain_path start"
  shows "resolve_under start (relpath p start) = p"
proof -
  let ?i = "common_prefix start p"
  let ?rel = "replicate (length start - ?i) ''..'' @ drop ?i p"
  have "list_all good_name (drop ?i p)"
    using assms(1) unfolding plain_path_def list_all_iff by (blast dest: in_set_dropD)
  moreover have "good_name ''..''" by (simp add: good_name_def)
  ultimately have good: "list_all good_name ?rel" unfolding list_all_append by (simp add: list_all_iff)
  have parts: "path_parts (relpath p start) = ?rel"
  proof (cases "?rel = []")
    case True
    then show ?thesis by (simp add: relpath_def path_parts_def)
  next
    case False
    then have "relpath p start = join_with ''/'' ?rel" unfolding relpath_def Let_def by (rule if_not_P)
    with path_parts_join [OF good False] show ?thesis by metis
  qed
  have "\<not> startswith (relpath p start) ''/''"
  proof (cases "?rel = []")
    case True
    then show ?thesis by (simp add: relpath_def)
  next
    case False
    then obtain x xs where x: "?rel = x # xs" by (cases ?rel) auto
    with good have "x \<noteq> []" "CHR ''/'' \<notin> set x" by (auto simp: good_name_def)
    then obtain c cs where "x = c # cs" "c \<noteq> CHR ''/''" by (cases x) auto
    then show ?thesis using x by (cases xs) (simp_all add: relpath_def Let_def)
  qed
  then have "resolve_under start (relpath p start) = norm_go [] (start @ ?rel)"
    by (simp add: resolve_under_def parts)
  also have "\<dots> = norm_go (rev start) ?rel" using assms(2) by (simp add: norm_go_plain plain_path_def)
  also have "\<dots> = norm_go (drop (length start - ?i) (rev start)) (drop ?i p @ [])" by (simp add: norm_go_up)
  also have "\<dots> = take ?i start @ drop ?i p"
    using assms(1) common_prefix_le [of start p]
    by (subst norm_go_plain) (auto simp: plain_path_def drop_rev dest: in_set_dropD)
  also have "\<dots> = p" by (simp add: common_prefix_take)
  finally show ?thesis .
qed

theorem relpath_resolves_witness:
  "resolve_under [''p'', ''cy''] (relpath [''p'', ''docs'', ''a.md''] [''p'', ''cy'']) = [''p'', ''docs'', ''a.md'']
   \<and> relpath [''p'', ''docs'', ''a.md''] [''p'', ''cy''] = ''../docs/a.md''"
proof -
  have h: "plain_path [''p'', ''docs'', ''a.md'']" "plain_path [''p'', ''cy'']" by code_simp+
  have "relpath [''p'', ''docs'', ''a.md''] [''p'', ''cy''] = ''../docs/a.md''" by code_simp
  with relpath_resolves [OF h] show ?thesis by simp
qed

subsection \<open>Registration\<close>

lemma pget_pset [simp]: "pget (pset k v d) k' = (if k' = k then v else pget d k')"
  by (simp add: pget_def pset_def)

lemma pget_or_pset [simp]: "pget_or (pset k v d) k' x = (if k' = k then v else pget_or d k' x)"
  by (simp add: pget_or_def pset_def)

text \<open>In memory, registering changes the kit's own entry and nothing else.\<close>

lemma registered_data_lookup:
  assumes "registered_data slug version source resources data = Some data'"
  shows "pget (entry_of data' slug) ''version'' = (if version = [] then pget (entry_of data slug) ''version'' else PStr version)
    \<and> pget (entry_of data' slug) ''source'' = (if source = [] then pget (entry_of data slug) ''source'' else PStr source)
    \<and> pget (entry_of data' slug) ''path'' =
        (if py_truth (pget (entry_of data slug) ''path'') then pget (entry_of data slug) ''path'' else PStr (''config/kits/'' @ slug))
    \<and> (\<forall>other. other = slug \<or> entry_of data' other = entry_of data other)
    \<and> (\<forall>k. k = ''kits'' \<or> pget data' k = pget data k)"
proof -
  obtain kits where k: "pget_or data ''kits'' (PDict []) = PDict kits"
    and d: "data' = pset ''kits'' (PDict (pset slug
      (PDict (registered_entry slug version source resources (entry_of data slug))) kits)) data"
    using assms by (auto simp: registered_data_def split: pyobj.splits)
  have self: "entry_of data' slug = registered_entry slug version source resources (entry_of data slug)"
    by (simp add: entry_of_def d)
  have other: "entry_of data' o' = entry_of data o'" if "o' \<noteq> slug" for o'
    using that k by (simp add: entry_of_def d)
  have "pget data' k = pget data k" if "k \<noteq> ''kits''" for k using that by (simp add: d)
  then show ?thesis unfolding self using other
    by (auto simp: registered_entry_def Let_def split: option.splits)
qed

text \<open>
  The writer puts tables after the other values, so a parser gives the data back in another order.
  \<open>same_value v w\<close>: the two are equal as Python values, where the order of dictionaries does not count.
\<close>

inductive same_value :: "pyobj \<Rightarrow> pyobj \<Rightarrow> bool" where
  same_refl: "same_value v v"
| same_list: "list_all2 same_value vs ws \<Longrightarrow> same_value (PList vs) (PList ws)"
| same_dict: "(\<And>k. map_of d k = None \<longleftrightarrow> map_of e k = None)
    \<Longrightarrow> (\<And>k x y. map_of d k = Some x \<Longrightarrow> map_of e k = Some y \<Longrightarrow> same_value x y)
    \<Longrightarrow> same_value (PDict d) (PDict e)"

inductive_simps same_value_str [simp]: "same_value v (PStr s)"
inductive_simps same_value_none [simp]: "same_value v PNone"
inductive_cases same_dictE: "same_value (PDict d) (PDict e)"

lemma same_dict_at: "same_value (PDict d) (PDict e) \<Longrightarrow> rel_option same_value (map_of d k) (map_of e k)"
  by (erule same_dictE) (auto simp: rel_option_iff same_refl split: option.splits)

lemma same_dict_or: "same_value (PDict d) (PDict e) \<Longrightarrow> same_value (pget_or d k v) (pget_or e k v)"
  by (drule same_dict_at [of _ _ "PStr k"]) (auto simp: pget_or_def rel_option_iff same_refl split: option.splits)

lemma same_dict_lookup: "same_value (PDict d) (PDict e) \<Longrightarrow> same_value (pget d k) (pget e k)"
  using same_dict_or [of d e k PNone] by (simp add: pget_def pget_or_def)

definition table_of :: "pyobj \<Rightarrow> (pyobj \<times> pyobj) list" where
  "table_of v = (case v of PDict d \<Rightarrow> d | _ \<Rightarrow> [])"

lemma same_table: "same_value v w \<Longrightarrow> same_value (PDict (table_of v)) (PDict (table_of w))"
  by (erule same_value.cases) (auto simp: table_of_def intro: same_refl same_dict)

lemma entry_of_table: "entry_of d slug = table_of (pget_or (table_of (pget_or d ''kits'' (PDict []))) slug (PDict []))"
  by (cases "pget_or d ''kits'' (PDict [])") (auto simp: entry_of_def table_of_def pget_or_def)

lemma same_entry: "same_value (PDict d) (PDict e) \<Longrightarrow> same_value (PDict (entry_of d slug)) (PDict (entry_of e slug))"
  unfolding entry_of_table by (intro same_table same_dict_or)

text \<open>A place where a file can be written: below no file, and no directory.\<close>

definition can_write :: "disk \<Rightarrow> path \<Rightarrow> bool" where
  "can_write dk p = (\<not> list_ex (is_file dk) (parents p) \<and> \<not> is_dir dk p)"

text \<open>C14. Registering a kit in \<open>core.toml\<close> and reading the file afterwards: the kit has the version and the
  source that were given, or those it had before when none is given; a path that was set is kept; the
  entries of other kits and all other tables are as before, up to the order of keys; and no other file
  changes. This needs a \<open>core.toml\<close> that can be read and overwritten, and a parser that gives back, up to
  order, the data whose rendering was written.
\<close>

theorem registered_kit_read_back:
  assumes "load_toml env (wo_disk w) (core_toml cfg) = Some (Inr data)" "can_write (wo_disk w) (core_toml cfg)"
    and "registered_data slug version source resources data = Some data'"
    and "dumps data' CORE_HEADER = Inr t" "ke_loads env t = Inr found" "same_value (PDict found) (PDict data')"
  shows "\<exists>w'. register_kit_in_core_toml env cfg slug version source resources w = (Inr (), w')
    \<and> load_toml env (wo_disk w') (core_toml cfg) = Some (Inr found)
    \<and> (if version = [] then same_value (pget (entry_of found slug) ''version'') (pget (entry_of data slug) ''version'')
       else read_kit_version_from_core env (wo_disk w') cfg slug = version)
    \<and> (if source = [] then same_value (pget (entry_of found slug) ''source'') (pget (entry_of data slug) ''source'')
       else pget (entry_of found slug) ''source'' = PStr source)
    \<and> (if py_truth (pget (entry_of data slug) ''path'')
       then same_value (pget (entry_of found slug) ''path'') (pget (entry_of data slug) ''path'')
       else pget (entry_of found slug) ''path'' = PStr (''config/kits/'' @ slug))
    \<and> (\<forall>other. other = slug \<or> same_value (PDict (entry_of found other)) (PDict (entry_of data other)))
    \<and> (\<forall>k. k = ''kits'' \<or> same_value (pget found k) (pget data k))
    \<and> (\<forall>p. p = core_toml cfg \<or> dget (dk_files (wo_disk w')) p = dget (dk_files (wo_disk w)) p)"
proof -
  obtain dk' where put: "put_file (wo_disk w) (core_toml cfg) (Text t) = Inr dk'"
    and files: "dk_files dk' = dset (core_toml cfg) (Text t) (dk_files (wo_disk w))"
    using assms(2) by (auto simp: put_file_def can_write_def)
  let ?w' = "w\<lparr>wo_disk := dk'\<rparr>"
  have run: "register_kit_in_core_toml env cfg slug version source resources w = (Inr (), ?w')"
    using assms(1,3,4) put
    by (simp add: register_kit_in_core_toml_def and_then_def look_def try_act_def disk_op_def)
  have load: "load_toml env dk' (core_toml cfg) = Some (Inr found)"
    by (simp add: load_toml_def files assms(5))
  have same: "same_value (pget (entry_of found o') k) (pget (entry_of data' o') k)" for o' k
    by (rule same_dict_lookup, rule same_entry, rule assms(6))
  note new = registered_data_lookup [OF assms(3)]
  have version: "read_kit_version_from_core env dk' cfg slug = version" if "version \<noteq> []"
  proof -
    have "pget (entry_of found slug) ''version'' = PStr version"
      using same [of slug "''version''"] new that by auto
    then show ?thesis by (simp add: read_kit_version_from_core_def load version_field_def)
  qed
  have others: "other = slug \<or> same_value (PDict (entry_of found other)) (PDict (entry_of data other))" for other
    using new same_entry [OF assms(6), of other] by auto
  have tables: "k = ''kits'' \<or> same_value (pget found k) (pget data k)" for k
    using new same_dict_lookup [OF assms(6), of k] by auto
  have frame: "p = core_toml cfg \<or> dget (dk_files dk') p = dget (dk_files (wo_disk w)) p" for p
    by (simp add: files map_of_dset)
  show ?thesis
    using run load same [of slug "''version''"] same [of slug "''source''"] same [of slug "''path''"] new version others tables frame
    by (intro exI [of _ ?w']) (auto split: if_splits)
qed

definition register_demo_data :: "string \<Rightarrow> (pyobj \<times> pyobj) list" where
  "register_demo_data v =
     [(PStr ''version'', PStr ''1.0''), (PStr ''kits'', PDict [(PStr ''sdlc'', PDict [(PStr ''path'', PStr ''k''),
        (PStr ''source'', PStr ''github:o/r''), (PStr ''version'', PStr v), (PStr ''format'', PStr ''Cypilot'')])])]"

definition register_demo_env :: kit_env where
  "register_demo_env = \<lparr>ke_loads = (\<lambda>t. Inr (register_demo_data (if t = ''old'' then ''1'' else ''2''))), ke_isatty = False, ke_cwd = [''p''],
     ke_editor = (\<lambda>_ _. None), ke_download = (\<lambda>_ _ _ _. None), ke_gen_readme = []\<rparr>"

definition register_demo_world :: world where
  "register_demo_world = \<lparr>wo_disk = \<lparr>dk_files = [([''c'', ''core.toml''], Text ''old'')], dk_dirs = [[], [''c'']]\<rparr>,
     wo_console = \<lparr>co_inputs = [], co_session = 0\<rparr>\<rparr>"

theorem registered_kit_read_back_witness:
  "\<exists>w'. register_kit_in_core_toml register_demo_env [''c''] ''sdlc'' ''2'' [] None register_demo_world = (Inr (), w')
     \<and> read_kit_version_from_core register_demo_env (wo_disk w') [''c''] ''sdlc'' = ''2''"
proof -
  have l: "load_toml register_demo_env (wo_disk register_demo_world) (core_toml [''c'']) = Some (Inr (register_demo_data ''1''))"
    by (simp add: load_toml_def register_demo_env_def register_demo_world_def core_toml_def)
  have c: "can_write (wo_disk register_demo_world) (core_toml [''c''])" by code_simp
  have r: "registered_data ''sdlc'' ''2'' [] None (register_demo_data ''1'') = Some (register_demo_data ''2'')" by code_simp
  obtain t where t: "dumps (register_demo_data ''2'') CORE_HEADER = Inr t" "t \<noteq> ''old''"
  proof -
    have "(case dumps (register_demo_data ''2'') CORE_HEADER of Inl e \<Rightarrow> False | Inr t \<Rightarrow> t \<noteq> ''old'')" by code_simp
    then show ?thesis using that by (auto split: sum.splits)
  qed
  then have "ke_loads register_demo_env t = Inr (register_demo_data ''2'')" by (simp add: register_demo_env_def)
  from registered_kit_read_back [OF l c r t(1) this same_refl] show ?thesis by auto
qed

subsection \<open>Seeding\<close>

lemma mkdirs_files: "mkdirs p dk = Inr dk' \<Longrightarrow> dk_files dk' = dk_files dk"
  by (auto simp: mkdirs_def split: if_splits)

lemma copy2_new:
  assumes "copy2 src dst dk = Inr dk'" "\<not> exists_on dk dst" "dget (dk_files dk) q = Some c"
  shows "dget (dk_files dk') q = Some c"
proof -
  have "q \<noteq> dst" using assms(2,3) by (auto simp: exists_on_def is_file_def dhas_def)
  then show ?thesis using assms
    by (auto simp: copy2_def write_at_def exists_on_def split: option.splits if_splits)
qed

lemma seed_config_file_keeps: "honours keeps_files (seed_config_file cfg src acc)"
  by (auto simp: honours_def seed_config_file_def and_then_def look_def disk_op_def return_act_def keeps_files_def
      split: sum.splits dest: copy2_new)

lemma seed_honours: "honours keeps_files (seed_kit_config_files scripts cfg)"
  unfolding seed_kit_config_files_def
  by (intro keeping.intros seed_config_file_keeps keeping.disk_op) (auto simp: keeps_files_def dest: mkdirs_files)

text \<open>Seeding the configuration of a kit never changes a file that is there: every file of the disk
  has the same content afterwards, also when the operation fails midway, so that edited
  configuration survives each installation and update.
\<close>

theorem seed_never_overwrites:
  assumes "dget (dk_files (wo_disk w)) q = Some c"
  shows "dget (dk_files (wo_disk (snd (seed_kit_config_files scripts cfg w)))) q = Some c"
  using seed_honours assms by (simp add: honours_def keeps_files_def)

definition seed_world :: world where
  "seed_world = \<lparr>wo_disk = \<lparr>dk_files = [([''k'', ''pr.toml''], Text ''new''), ([''k'', ''x.toml''], Text ''x''), ([''c'', ''pr.toml''], Text ''mine'')],
     dk_dirs = [[], [''k''], [''c'']]\<rparr>, wo_console = \<lparr>co_inputs = [], co_session = 0\<rparr>\<rparr>"

theorem seed_never_overwrites_witness:
  "dget (dk_files (wo_disk (snd (seed_kit_config_files [''k''] [''c''] seed_world)))) [''c'', ''pr.toml''] = Some (Text ''mine'')
   \<and> fst (seed_kit_config_files [''k''] [''c''] seed_world) = Inr [''x'']"
proof -
  have r: "fst (seed_kit_config_files [''k''] [''c''] seed_world) = Inr [''x'']" by code_simp
  have "dget (dk_files (wo_disk seed_world)) [''c'', ''pr.toml''] = Some (Text ''mine'')" by code_simp
  from seed_never_overwrites [OF this, of "[''k'']" "[''c'']"] r show ?thesis by simp
qed

subsection \<open>An update without questions\<close>

lemma silent_update:
  assumes "\<not> uo_interactive opts" "\<not> uo_force opts" "\<not> uo_auto_approve opts"
    and r: "file_level_kit_update ed opts ua dk con = (Inr r, dk', con')"
  shows "ur_accepted r = [] \<and> con' = con \<and> dget (dk_files dk') = dget (dk_files dk)
    \<and> (ur_status r = Updated \<longrightarrow> ur_declined r \<noteq> [])"
proof -
  have acc: "set (ur_accepted r) = {} \<and> con' = con"
    using r
  proof (cases rule: kit_update_cases)
    case (updated st)
    have d: "decide ed opts old new rv c = (Declined, new, rv, c)" for old new rv c
      using assms(1-3) by (simp add: decide_def)
    have "us_console st = con \<and> us_entries st = map (\<lambda>pc. (snd pc, fst pc, Declined)) (changed_files (report_of ua dk))"
      using update_loop_same_answer [OF d _ updated(2)] by simp
    then show ?thesis using updated(4,5) by (auto simp: accepted_entries)
  qed simp
  then have "dget (dk_files dk') q = dget (dk_files dk) q" for q
    using kit_update_frame [OF r, of q] by auto
  moreover have "ur_declined r \<noteq> []" if "ur_status r = Updated"
  proof -
    have "has_changes (report_of ua dk)" using kit_update_complete [OF r] that by auto
    then have "fst ` set (changed_files (report_of ua dk)) \<noteq> {}"
      by (auto simp: has_changes_def changed_files_def)
    then show ?thesis using kit_update_complete [OF r] acc by auto
  qed
  ultimately show ?thesis using acc by auto
qed

lemma put_file_other: "put_file dk p c = Inr dk' \<Longrightarrow> q \<noteq> p \<Longrightarrow> dget (dk_files dk') q = dget (dk_files dk) q"
  by (auto simp: put_file_def split: if_splits)

lemma register_frame:
  assumes "register_kit_in_core_toml env cfg slug ver src rs w = (Inr u, w')" "q \<noteq> core_toml cfg"
  shows "dget (dk_files (wo_disk w')) q = dget (dk_files (wo_disk w)) q"
  using assms put_file_other [of _ "core_toml cfg" _ _ q]
  by (auto simp: register_kit_in_core_toml_def act_simps disk_op_def split: option.splits sum.splits)

lemma with_metadata_frame:
  "with_metadata d slug r w = (Inr r', w') \<Longrightarrow> w' = w \<and> ku_accepted r' = ku_accepted r \<and> ku_status r' = ku_status r \<and> ku_rejected r' = ku_rejected r"
  by (auto simp: with_metadata_def collect_kit_metadata_def read_text_def act_simps split: if_splits option.splits content.splits)

lemma file_update_Inr:
  "file_update env opts src dir rs w = (Inr r, w') \<Longrightarrow>
   file_level_kit_update (ke_editor env)
     \<lparr>uo_interactive = ko_interactive opts, uo_auto_approve = ko_auto_approve opts, uo_force = False, uo_dry_run = False\<rparr>
     \<lparr>ua_source_dir = src, ua_user_dir = dir, ua_content_dirs = Some KIT_CONTENT_DIRS,
      ua_content_files = Some KIT_CONTENT_FILES, ua_resources = rs\<rparr> (wo_disk w) (wo_console w) =
   (Inr r, wo_disk w', wo_console w')"
  by (auto simp: file_update_def split: prod.splits sum.splits)

text \<open>C16. The option \<open>force\<close> of \<open>update_kit\<close> does not overwrite anything: on an installed kit without a
  manifest, in a run that asks nothing (not interactive, not approved in advance), a forced update
  accepts no file and leaves every file of the disk but \<open>core.toml\<close> as it is. The documented
  meaning of the option is to overwrite all files.
\<close>

theorem forced_kit_update_declines:
  assumes "ko_force opts" "\<not> ko_dry_run opts" "\<not> ko_interactive opts" "\<not> ko_auto_approve opts"
    and "is_dir (wo_disk w) (kit_dir_of cd slug)" "\<not> is_file (wo_disk w) (src @ [''manifest.toml''])"
    and "update_kit env opts slug src cd source w = (Inr r, w')"
  shows "ku_accepted r = [] \<and> ku_status r \<noteq> VUpdated
    \<and> (\<forall>q. q = core_toml (cd @ [''config'']) \<or> dget (dk_files (wo_disk w')) q = dget (dk_files (wo_disk w)) q)"
proof -
  let ?kd = "kit_dir_of cd slug"
  have lm: "load_manifest None = Inr None" by (simp add: load_manifest_def)
  have nm: "load_toml env (wo_disk w) (src @ [''manifest.toml'']) = None"
    using assms(6) by (simp add: load_toml_def is_file_def dhas_def split: option.splits)
  have mf: "manifest_of env src w = (Inr None, w)"
    by (simp add: manifest_of_def and_then_def look_def nm lm return_act_def)
  obtain fr w1 w2 ver where f: "file_update env opts src ?kd \<lparr>rs_bindings = [], rs_source_to_id = [], rs_info = []\<rparr> w = (Inr fr, w1)"
    and reg: "when_act (ver \<noteq> []) (register_kit_in_core_toml env (cd @ [''config'']) slug ver source None) w1 = (Inr (), w2)"
    and meta: "with_metadata ?kd slug (kit_result (version_status_of fr) (length (ur_accepted fr)) (ur_accepted fr) (ur_declined fr)) w2 = (Inr r, w')"
    using assms(7,1,2,5)
    by (auto simp: update_kit_def Let_def and_then_Inr mf legacy_migration_def kit_resources_def simp del: when_Inr)
  note q = silent_update [OF _ _ _ file_update_Inr [OF f], simplified, OF assms(3,4)]
  have "dget (dk_files (wo_disk w2)) p = dget (dk_files (wo_disk w1)) p" if "p \<noteq> core_toml (cd @ [''config''])" for p
    using reg register_frame [OF _ that] by (auto split: if_splits)
  with q with_metadata_frame [OF meta] show ?thesis
    by (auto simp: kit_result_def version_status_of_def)
qed

definition sample_env :: kit_env where
  "sample_env = \<lparr>ke_loads = (\<lambda>t. Inr []), ke_isatty = False, ke_cwd = [''p''], ke_editor = (\<lambda>_ _. None),
     ke_download = (\<lambda>_ _ _ _. None), ke_gen_readme = []\<rparr>"

definition force_opts :: kit_opts where
  "force_opts = \<lparr>ko_dry_run = False, ko_interactive = False, ko_auto_approve = False, ko_force = True\<rparr>"

definition kit_world :: world where
  "kit_world = \<lparr>wo_disk = \<lparr>dk_files = [([''s'', ''SKILL.md''], Text ''new''), ([''c'', ''config'', ''kits'', ''k'', ''SKILL.md''], Text ''old'')],
     dk_dirs = [[], [''s''], [''c''], [''c'', ''config''], [''c'', ''config'', ''kits''], [''c'', ''config'', ''kits'', ''k'']]\<rparr>,
     wo_console = \<lparr>co_inputs = [], co_session = 0\<rparr>\<rparr>"

theorem forced_kit_update_declines_witness:
  "ku_accepted (projr (fst (update_kit sample_env force_opts ''k'' [''s''] [''c''] [] kit_world))) = []
   \<and> ku_rejected (projr (fst (update_kit sample_env force_opts ''k'' [''s''] [''c''] [] kit_world))) = [''SKILL.md'']"
proof -
  let ?u = "update_kit sample_env force_opts ''k'' [''s''] [''c''] [] kit_world"
  have r: "map_sum (\<lambda>e. ()) ku_rejected (fst ?u) = Inr [''SKILL.md'']" by code_simp
  then have e: "?u = (Inr (projr (fst ?u)), snd ?u)" by (cases "fst ?u") (auto simp: prod_eq_iff)
  have h: "ko_force force_opts" "\<not> ko_dry_run force_opts" "\<not> ko_interactive force_opts" "\<not> ko_auto_approve force_opts"
    "is_dir (wo_disk kit_world) (kit_dir_of [''c''] ''k'')" "\<not> is_file (wo_disk kit_world) ([''s''] @ [''manifest.toml''])"
    by code_simp+
  have "ku_rejected (projr (fst ?u)) = [''SKILL.md'']" using r by (cases "fst ?u") auto
  with forced_kit_update_declines [OF h e] show ?thesis by simp
qed

end
