(* ===== verification/Kit_Install_Facts.thy ===== *)
theory Kit_Install_Facts
  imports Kit_Manage_Facts
begin

section \<open>A freshly copied kit is up to date\<close>

text \<open>
  Copying a kit into a place where there was nothing, and comparing it with its source afterwards,
  are two components that must agree on what a kit's content is: after \<open>_copy_kit_content\<close> the
  comparison of \<open>file_level_kit_update\<close> finds no difference.
\<close>

definition fresh :: "disk \<Rightarrow> path \<Rightarrow> bool" where
  "fresh dk d =
     (list_all (\<lambda>f. \<not> strictly_below d (fst f) \<and> fst f \<noteq> d) (dk_files dk)
      \<and> list_all (\<lambda>p. \<not> strictly_below d p \<and> p \<noteq> d) (dk_dirs dk))"

lemma fresh_dget: "fresh dk d \<Longrightarrow> strictly_below d q \<or> q = d \<Longrightarrow> dget (dk_files dk) q = None"
  unfolding fresh_def list_all_iff map_of_eq_None_iff by (metis imageE)

lemma below_trans: "strictly_below d e \<Longrightarrow> strictly_below e q \<Longrightarrow> strictly_below d q"
  by (auto simp: strictly_below_def min_def) (metis nat_less_le take_take min.absorb2 min.commute)

lemma fresh_below: "fresh dk d \<Longrightarrow> strictly_below d e \<Longrightarrow> fresh dk e"
  unfolding fresh_def list_all_iff by (metis below_trans)

subsection \<open>Copying a tree\<close>

lemma option_eqI: "(\<And>c. x = Some c \<longleftrightarrow> y = Some c) \<Longrightarrow> x = y"
  by (cases x; cases y) auto

lemma foldl_dset_map_of:
  "dget (foldl (\<lambda>fs f. dset (g (fst f)) (snd f) fs) m fs) q =
    (case dget (map (\<lambda>f. (g (fst f), snd f)) (rev fs)) q of None \<Rightarrow> dget m q | Some c \<Rightarrow> Some c)"
  by (induction fs arbitrary: m) (auto simp: map_of_append map_add_def split: option.splits)

lemma moved_files_dget:
  assumes "wf_disk dk"
  shows "dget (map (\<lambda>f. (moved src dst (fst f), snd f)) (rev (rglob dk src))) q =
    (if strictly_below dst q then dget (dk_files dk) (src @ drop (length dst) q) else None)" (is "?l = ?r")
proof -
  have inj: "fst f = fst g" if "f \<in> set (rglob dk src)" "g \<in> set (rglob dk src)" "moved src dst (fst f) = moved src dst (fst g)" for f g
  proof -
    have "fst f = src @ drop (length src) (fst f)" "fst g = src @ drop (length src) (fst g)"
      using that(1,2) below_decomp by (auto simp: rglob_def)
    with that(3) show ?thesis by (metis moved_def same_append_eq)
  qed
  have mem: "(q, c) \<in> set (map (\<lambda>f. (moved src dst (fst f), snd f)) (rev (rglob dk src))) \<longleftrightarrow>
      strictly_below dst q \<and> dget (dk_files dk) (src @ drop (length dst) q) = Some c" for c
  proof
    assume "(q, c) \<in> set (map (\<lambda>f. (moved src dst (fst f), snd f)) (rev (rglob dk src)))"
    then obtain p where p: "(p, c) \<in> set (dk_files dk)" "strictly_below src p" "q = moved src dst p"
      by (auto simp: rglob_def)
    then show "strictly_below dst q \<and> dget (dk_files dk) (src @ drop (length dst) q) = Some c"
      using below_decomp [OF p(2)] wf_file(1) [OF assms p(1)] by (auto simp: moved_def)
  next
    assume a: "strictly_below dst q \<and> dget (dk_files dk) (src @ drop (length dst) q) = Some c"
    then have "(src @ drop (length dst) q, c) \<in> set (rglob dk src)"
      using below_decomp [of dst q] by (auto simp: rglob_def map_of_SomeD)
    moreover have "q = moved src dst (src @ drop (length dst) q)" using below_decomp [of dst q] a by (simp add: moved_def)
    ultimately show "(q, c) \<in> set (map (\<lambda>f. (moved src dst (fst f), snd f)) (rev (rglob dk src)))" by force
  qed
  have "distinct (rglob dk src)" using assms by (simp add: wf_disk_def rglob_def distinct_map)
  moreover have "inj_on (moved src dst \<circ> fst) (set (rglob dk src))"
  proof (rule inj_onI)
    fix f g assume fg: "f \<in> set (rglob dk src)" "g \<in> set (rglob dk src)" "(moved src dst \<circ> fst) f = (moved src dst \<circ> fst) g"
    then have "fst f = fst g" using inj by simp
    moreover have "f \<in> set (dk_files dk)" "g \<in> set (dk_files dk)" using fg by (auto simp: rglob_def)
    ultimately show "f = g" using wf_file(1) [OF assms] by (metis option.inject prod.collapse)
  qed
  ultimately have "distinct (map fst (map (\<lambda>f. (moved src dst (fst f), snd f)) (rev (rglob dk src))))"
    by (simp add: distinct_map comp_def)
  then have "?l = Some c \<longleftrightarrow> ?r = Some c" for c by (simp only: map_of_eq_Some_iff mem) simp
  then show ?thesis by (rule option_eqI)
qed

lemma copytree_dget:
  assumes "wf_disk dk" "copytree src dst dk = Inr dk'" "fresh dk dst"
  shows "dget (dk_files dk') q = (if strictly_below dst q then dget (dk_files dk) (src @ drop (length dst) q) else dget (dk_files dk) q)"
proof -
  have "dk_files dk' = foldl (\<lambda>fs f. dset (moved src dst (fst f)) (snd f) fs) (dk_files dk) (rglob dk src)"
    using assms(2) by (auto simp: copytree_def split: if_splits)
  then show ?thesis using fresh_dget [OF assms(3)]
    by (simp add: foldl_dset_map_of moved_files_dget [OF assms(1)] split: option.splits)
qed

lemma foldl_dset_keys:
  "set (foldl (\<lambda>fs f. dset (g (fst f)) (snd f) fs) m fs) \<subseteq> set m \<union> (\<lambda>f. (g (fst f), snd f)) ` set fs"
  by (induction fs arbitrary: m) (auto dest!: set_dset_cases subsetD)

lemma foldl_dset_distinct:
  "distinct (map fst m) \<Longrightarrow> distinct (map fst (foldl (\<lambda>fs f. dset (g (fst f)) (snd f) fs) m fs))"
  by (induction fs arbitrary: m) auto

lemma set_foldr_sadd [simp]: "set (foldr sadd ps ds) = set ps \<union> set ds"
  by (induction ps) auto

lemma copytree_dirs:
  assumes "copytree src dst dk = Inr dk'"
  shows "is_dir dk' p \<longleftrightarrow> is_dir dk p \<or> strictly_below p dst \<or> p = dst \<or> (\<exists>d. is_dir dk d \<and> strictly_below src d \<and> p = moved src dst d)"
  using assms by (auto simp: copytree_def is_dir_def set_parents split: if_splits)

lemma moved_parent:
  assumes "strictly_below src p" "strictly_below a (moved src dst p)"
  shows "strictly_below a dst \<or> a = dst \<or> (\<exists>d. strictly_below src d \<and> strictly_below d p \<and> a = moved src dst d)"
proof -
  obtain ps where p: "p = src @ ps" "ps \<noteq> []" using below_decomp [OF assms(1)] by metis
  then have a: "strictly_below a (dst @ ps)" using assms(2) by (simp add: moved_def)
  show ?thesis
  proof (cases "length a \<le> length dst")
    case True
    then have t: "take (length a) dst = a" using a by (simp add: strictly_below_def)
    show ?thesis
    proof (cases "length a = length dst")
      case True
      with t show ?thesis by simp
    next
      case False
      with True t have "strictly_below a dst" unfolding strictly_below_def by linarith
      then show ?thesis ..
    qed
  next
    case False
    let ?n = "length a - length dst"
    have len: "?n < length ps" using a False unfolding strictly_below_def length_append by linarith
    have "take (length a) (dst @ ps) = a" using a by (simp add: strictly_below_def)
    then have eq: "a = dst @ take ?n ps" using False by simp
    have "strictly_below src (src @ take ?n ps)" using False p(2) by simp
    moreover have "strictly_below (src @ take ?n ps) p" using len by (simp add: strictly_below_def p(1))
    moreover have "a = moved src dst (src @ take ?n ps)" using eq by (simp add: moved_def)
    ultimately show ?thesis by blast
  qed
qed

lemma copytree_wf:
  assumes "wf_disk dk" "copytree src dst dk = Inr dk'" "list_all good_name dst"
  shows "wf_disk dk'"
proof -
  have fs: "dk_files dk' = foldl (\<lambda>fs f. dset (moved src dst (fst f)) (snd f) fs) (dk_files dk) (rglob dk src)"
    using assms(2) by (auto simp: copytree_def split: if_splits)
  have "list_all good_name (fst f) \<and> list_all (is_dir dk') (parents (fst f))" if f: "f \<in> set (dk_files dk')" for f
  proof -
    consider "f \<in> set (dk_files dk)" | p c where "(p, c) \<in> set (rglob dk src)" "f = (moved src dst p, c)"
      using f foldl_dset_keys [of "moved src dst" "dk_files dk" "rglob dk src"] unfolding fs by fastforce
    then show ?thesis
    proof cases
      case 1
      then show ?thesis using assms(1) by (auto simp: wf_disk_def list_all_iff copytree_dirs [OF assms(2)])
    next
      case 2
      then have pc: "(p, c) \<in> set (dk_files dk)" "strictly_below src p" by (auto simp: rglob_def)
      have "list_all good_name (moved src dst p)"
        using wf_file(2) [OF assms(1) pc(1)] assms(3) by (auto simp: moved_def list_all_iff dest: in_set_dropD)
      moreover have "is_dir dk' a" if "strictly_below a (moved src dst p)" for a
        using moved_parent [OF pc(2) that] wf_file(3) [OF assms(1) pc(1)]
        unfolding copytree_dirs [OF assms(2)] by blast
      ultimately show ?thesis using 2 by (simp add: list_all_iff set_parents)
    qed
  qed
  moreover have "distinct (map fst (dk_files dk'))"
    unfolding fs using assms(1) by (simp add: foldl_dset_distinct wf_disk_def)
  ultimately show ?thesis by (simp add: wf_disk_def list_all_iff)
qed

subsection \<open>Copying the content of a kit\<close>

lemma copy_content_dir_dget:
  assumes "copy_content_dir src dst d acc w = (Inr r, w')" "wf_disk (wo_disk w)" "fresh (wo_disk w) (dst @ [d])"
    and "list_all good_name (dst @ [d])"
  shows "wf_disk (wo_disk w')
    \<and> (\<forall>q. dget (dk_files (wo_disk w')) q =
          (if strictly_below (dst @ [d]) q then dget (dk_files (wo_disk w)) (src @ drop (length dst) q)
           else dget (dk_files (wo_disk w)) q))
    \<and> (\<forall>p. is_dir (wo_disk w') p \<longrightarrow> is_dir (wo_disk w) p \<or> strictly_below p (dst @ [d]) \<or> p = dst @ [d] \<or> strictly_below (dst @ [d]) p)
    \<and> (\<forall>p. is_dir (wo_disk w) p \<longrightarrow> is_dir (wo_disk w') p)"
proof (cases "is_dir (wo_disk w) (src @ [d])")
  case True
  have "\<not> exists_on (wo_disk w) (dst @ [d])"
    using assms(3) fresh_dget [OF assms(3)] by (auto simp: exists_on_def is_file_def dhas_def is_dir_def fresh_def list_all_iff)
  then obtain dk where c: "copytree (src @ [d]) (dst @ [d]) (wo_disk w) = Inr dk" and w': "w' = w\<lparr>wo_disk := dk\<rparr>"
    using assms(1) True by (auto simp: copy_content_dir_def replace_tree_def act_simps)
  have "drop (length dst) q = d # drop (length (dst @ [d])) q" if b: "strictly_below (dst @ [d]) q" for q
  proof -
    obtain ps where "q = (dst @ [d]) @ ps" using below_decomp [OF b] by metis
    then show ?thesis by simp
  qed
  then have "dget (dk_files dk) q = (if strictly_below (dst @ [d]) q then dget (dk_files (wo_disk w)) (src @ drop (length dst) q)
           else dget (dk_files (wo_disk w)) q)" for q
    using copytree_dget [OF assms(2) c assms(3), of q] by simp
  moreover have "is_dir (wo_disk w) p \<or> strictly_below p (dst @ [d]) \<or> p = dst @ [d] \<or> strictly_below (dst @ [d]) p"
    if p: "is_dir dk p" for p
  proof -
    have "strictly_below (dst @ [d]) (moved (src @ [d]) (dst @ [d]) e)" if "strictly_below (src @ [d]) e" for e
      using below_decomp [OF that] unfolding moved_def by (simp only: below_append) simp
    then show ?thesis using p copytree_dirs [OF c, of p] by blast
  qed
  moreover have "is_dir dk p" if "is_dir (wo_disk w) p" for p using that copytree_dirs [OF c] by blast
  ultimately show ?thesis using copytree_wf [OF assms(2) c assms(4)] w' by simp
next
  case False
  then have w': "w' = w" using assms(1) by (auto simp: copy_content_dir_def act_simps)
  have "dget (dk_files (wo_disk w)) (src @ drop (length dst) q) = dget (dk_files (wo_disk w)) q"
    if b: "strictly_below (dst @ [d]) q" for q
  proof -
    obtain ps where ps: "q = (dst @ [d]) @ ps" "ps \<noteq> []" using below_decomp [OF b] by metis
    have "strictly_below (src @ [d]) (src @ d # ps)" using ps(2) by (metis append.assoc append_Cons append_Nil below_append)
    then have "dget (dk_files (wo_disk w)) (src @ d # ps) = None"
      using False wf_file(3) [OF assms(2)] by (metis map_of_SomeD option.exhaust)
    then show ?thesis using fresh_dget [OF assms(3)] b ps by simp
  qed
  then show ?thesis using assms(2) w' by simp
qed

lemma below_name: "strictly_below (dst @ [d]) q \<or> q = dst @ [d] \<Longrightarrow> \<exists>ps. q = dst @ d # ps"
  using below_decomp [of "dst @ [d]" q] by (metis append.assoc append_Cons append_Nil)

lemma names_apart:
  assumes "e \<noteq> d" "strictly_below (dst @ [e]) p \<or> p = dst @ [e]"
  shows "\<not> (strictly_below p (dst @ [d]) \<or> p = dst @ [d] \<or> strictly_below (dst @ [d]) p)"
proof -
  obtain ps where p: "p = dst @ e # ps" using below_name [OF assms(2)] by blast
  have "\<not> strictly_below p (dst @ [d])" by (auto simp: p strictly_below_def)
  moreover have "\<not> (p = dst @ [d] \<or> strictly_below (dst @ [d]) p)"
    using below_name [of dst d p] assms(1) p by auto
  ultimately show ?thesis by blast
qed

lemma fresh_iff: "fresh dk d \<longleftrightarrow> (\<forall>q. strictly_below d q \<or> q = d \<longrightarrow> dget (dk_files dk) q = None \<and> \<not> is_dir dk q)"
proof
  assume f: "fresh dk d"
  then show "\<forall>q. strictly_below d q \<or> q = d \<longrightarrow> dget (dk_files dk) q = None \<and> \<not> is_dir dk q"
    using fresh_dget [OF f] by (auto simp: fresh_def list_all_iff is_dir_def)
next
  assume "\<forall>q. strictly_below d q \<or> q = d \<longrightarrow> dget (dk_files dk) q = None \<and> \<not> is_dir dk q"
  then show "fresh dk d"
    unfolding fresh_def list_all_iff is_dir_def map_of_eq_None_iff by (metis imageI)
qed

lemma apart_not_below:
  assumes "apart src dst"
  shows "\<not> strictly_below (dst @ ps) (src @ qs)"
  using apart_below [OF assms] below_decomp [of "dst @ ps" "src @ qs"] by (metis append.assoc)

lemma copy_dirs:
  assumes "for_each (copy_content_dir src dst) ds acc w = (Inr r, w')" "apart src dst" "distinct ds"
    and "wf_disk (wo_disk w)" "\<forall>d \<in> set ds. fresh (wo_disk w) (dst @ [d]) \<and> good_name d" "list_all good_name dst"
  shows "wf_disk (wo_disk w')
    \<and> (\<forall>q. dget (dk_files (wo_disk w')) q =
          (if \<exists>d \<in> set ds. strictly_below (dst @ [d]) q then dget (dk_files (wo_disk w)) (src @ drop (length dst) q)
           else dget (dk_files (wo_disk w)) q))
    \<and> (\<forall>n. n \<notin> set ds \<longrightarrow> is_dir (wo_disk w') (dst @ [n]) \<longrightarrow> is_dir (wo_disk w) (dst @ [n]))
    \<and> (\<forall>p. is_dir (wo_disk w) p \<longrightarrow> is_dir (wo_disk w') p)"
  using assms(1,3,4,5)
proof (induction ds arbitrary: acc w)
  case (Cons d ds)
  obtain r1 w1 where s: "copy_content_dir src dst d acc w = (Inr r1, w1)"
    and l: "for_each (copy_content_dir src dst) ds r1 w1 = (Inr r, w')"
    using Cons.prems(1) by (auto simp: and_then_Inr)
  have g: "list_all good_name (dst @ [d])" using assms(6) Cons.prems(4) by simp
  note c = copy_content_dir_dget [OF s Cons.prems(3) _ g]
  then have wf: "wf_disk (wo_disk w1)"
    and q1: "\<And>q. dget (dk_files (wo_disk w1)) q =
          (if strictly_below (dst @ [d]) q then dget (dk_files (wo_disk w)) (src @ drop (length dst) q)
           else dget (dk_files (wo_disk w)) q)"
    and d1: "\<And>p. is_dir (wo_disk w1) p \<Longrightarrow> is_dir (wo_disk w) p \<or> strictly_below p (dst @ [d]) \<or> p = dst @ [d] \<or> strictly_below (dst @ [d]) p"
    and m1: "\<And>p. is_dir (wo_disk w) p \<Longrightarrow> is_dir (wo_disk w1) p"
    using Cons.prems(4) by auto
  have "fresh (wo_disk w1) (dst @ [e])" if e: "e \<in> set ds" for e
  proof -
    have "e \<noteq> d" using Cons.prems(2) e by auto
    note other = names_apart [OF this, of dst]
    have f: "fresh (wo_disk w) (dst @ [e])" using Cons.prems(4) e by simp
    show ?thesis unfolding fresh_iff
    proof (intro allI impI)
      fix q assume q: "strictly_below (dst @ [e]) q \<or> q = dst @ [e]"
      from q f have "dget (dk_files (wo_disk w)) q = None" "\<not> is_dir (wo_disk w) q" by (auto simp: fresh_iff)
      with other [OF q] q1 d1 show "dget (dk_files (wo_disk w1)) q = None \<and> \<not> is_dir (wo_disk w1) q" by auto
    qed
  qed
  then have ih: "wf_disk (wo_disk w')" "\<And>q. dget (dk_files (wo_disk w')) q =
          (if \<exists>d \<in> set ds. strictly_below (dst @ [d]) q then dget (dk_files (wo_disk w1)) (src @ drop (length dst) q)
           else dget (dk_files (wo_disk w1)) q)"
    "\<And>n. n \<notin> set ds \<Longrightarrow> is_dir (wo_disk w') (dst @ [n]) \<Longrightarrow> is_dir (wo_disk w1) (dst @ [n])"
    "\<And>p. is_dir (wo_disk w1) p \<Longrightarrow> is_dir (wo_disk w') p"
    using Cons.IH [OF l _ wf] Cons.prems(2,4) by auto
  have "dget (dk_files (wo_disk w1)) (src @ drop (length dst) q) = dget (dk_files (wo_disk w)) (src @ drop (length dst) q)" for q
    using q1 apart_not_below [OF assms(2)] by simp
  moreover have "is_dir (wo_disk w) (dst @ [n])" if "n \<notin> set (d # ds)" "is_dir (wo_disk w') (dst @ [n])" for n
    using ih(3) [of n] d1 [of "dst @ [n]"] names_apart [of n d dst "dst @ [n]"] that by auto
  moreover have "is_dir (wo_disk w') p" if "is_dir (wo_disk w) p" for p using that m1 ih(4) by blast
  ultimately show ?case using ih(1,2) q1 by auto
qed simp

definition dirs_to :: "disk \<Rightarrow> path \<Rightarrow> bool" where
  "dirs_to dk d = (is_dir dk d \<and> list_all (is_dir dk) (parents d))"

lemma write_at_wf:
  assumes "wf_disk dk" "write_at (d @ [f]) c dk = Inr dk'" "dirs_to dk d" "list_all good_name (d @ [f])"
  shows "wf_disk dk' \<and> dk_dirs dk' = dk_dirs dk \<and> dget (dk_files dk') = (dget (dk_files dk))(d @ [f] \<mapsto> c)"
proof -
  have dk': "dk' = dk\<lparr>dk_files := dset (d @ [f]) c (dk_files dk)\<rparr>"
    using assms(2) by (auto simp: write_at_def split: if_splits)
  have "list_all (is_dir dk) (parents (d @ [f]))" using assms(3) by (simp add: dirs_to_def parents_def list_all_iff)
  then have "list_all good_name (fst g) \<and> list_all (is_dir dk) (parents (fst g))" if "g \<in> set (dk_files dk')" for g
    using that assms(1,4) by (auto simp: dk' wf_disk_def list_all_iff dest!: set_dset_cases)
  moreover have "is_dir dk' = is_dir dk" by (simp add: dk' is_dir_def fun_eq_iff)
  ultimately show ?thesis using assms(1) by (simp add: wf_disk_def list_all_iff dk')
qed

lemma copy_files:
  assumes "for_each (copy_content_file src dst) fs acc w = (Inr r, w')" "apart src dst" "distinct fs"
    and "wf_disk (wo_disk w)" "dirs_to (wo_disk w) dst" "list_all good_name dst"
    and "\<forall>f \<in> set fs. dget (dk_files (wo_disk w)) (dst @ [f]) = None \<and> \<not> is_dir (wo_disk w) (dst @ [f]) \<and> good_name f"
  shows "wf_disk (wo_disk w')
    \<and> (\<forall>q. dget (dk_files (wo_disk w')) q =
          (if \<exists>f \<in> set fs. q = dst @ [f] then dget (dk_files (wo_disk w)) (src @ drop (length dst) q)
           else dget (dk_files (wo_disk w)) q))"
  using assms(1,3,4,5,7)
proof (induction fs arbitrary: acc w)
  case (Cons f fs)
  obtain r1 w1 where s: "copy_content_file src dst f acc w = (Inr r1, w1)"
    and l: "for_each (copy_content_file src dst) fs r1 w1 = (Inr r, w')"
    using Cons.prems(1) by (auto simp: and_then_Inr)
  have step: "wf_disk (wo_disk w1) \<and> dk_dirs (wo_disk w1) = dk_dirs (wo_disk w)
    \<and> dget (dk_files (wo_disk w1)) = (dget (dk_files (wo_disk w)))(dst @ [f] := dget (dk_files (wo_disk w)) (src @ [f]))"
  proof (cases "dget (dk_files (wo_disk w)) (src @ [f])")
    case None
    then show ?thesis using s Cons.prems
      by (auto simp: copy_content_file_def act_simps is_file_def dhas_def fun_eq_iff)
  next
    case (Some c)
    then obtain dk where c: "write_at (dst @ [f]) c (wo_disk w) = Inr dk" and w1: "w1 = w\<lparr>wo_disk := dk\<rparr>"
      using s Cons.prems(5) by (auto simp: copy_content_file_def act_simps is_file_def dhas_def copy2_def)
    have "list_all good_name (dst @ [f])" using assms(6) Cons.prems(5) by simp
    from write_at_wf [OF Cons.prems(3) c Cons.prems(4) this] show ?thesis using w1 Some by simp
  qed
  have "is_dir (wo_disk w1) = is_dir (wo_disk w)" using step by (simp add: is_dir_def fun_eq_iff)
  then have ih: "wf_disk (wo_disk w')" "\<And>q. dget (dk_files (wo_disk w')) q =
          (if \<exists>f \<in> set fs. q = dst @ [f] then dget (dk_files (wo_disk w1)) (src @ drop (length dst) q)
           else dget (dk_files (wo_disk w1)) q)"
    using Cons.IH [OF l] step Cons.prems(2,4,5) by (auto simp: dirs_to_def)
  have "src @ ps \<noteq> dst @ [f]" for ps using apart_below [OF assms(2)] by blast
  then show ?case using ih step by auto
qed simp

lemma mkdirs_fresh:
  assumes "mkdirs d dk = Inr dk'" "wf_disk dk" "fresh dk d"
  shows "wf_disk dk'" "dirs_to dk' d" "fresh dk' (d @ [x])" "dk_files dk' = dk_files dk"
proof -
  show files: "dk_files dk' = dk_files dk" by (rule mkdirs_files [OF assms(1)])
  have dirs: "is_dir dk' p \<longleftrightarrow> is_dir dk p \<or> strictly_below p d \<or> p = d" for p
    using assms(1) by (auto simp: mkdirs_def is_dir_def set_parents split: if_splits)
  show "wf_disk dk'" using assms(2) by (auto simp: wf_disk_def files dirs list_all_iff)
  show "dirs_to dk' d" by (simp add: dirs_to_def dirs list_all_iff set_parents)
  show "fresh dk' (d @ [x])"
    unfolding fresh_iff
  proof (intro allI impI)
    fix q assume "strictly_below (d @ [x]) q \<or> q = d @ [x]"
    from below_name [OF this] obtain ps where q: "q = d @ x # ps" by blast
    then have "\<not> strictly_below q d" "q \<noteq> d" "strictly_below d q" by (auto simp: strictly_below_def)
    then show "dget (dk_files dk') q = None \<and> \<not> is_dir dk' q" using assms(3) by (simp add: fresh_iff files dirs)
  qed
qed

lemma kept_content:
  assumes "listed (Some KIT_CONTENT_DIRS) (Some KIT_CONTENT_FILES) s"
  shows "(\<exists>d \<in> set KIT_CONTENT_DIRS. strictly_below (dst @ [d]) (dst @ path_parts s))
    \<or> (\<exists>f \<in> set KIT_CONTENT_FILES. path_parts s = [f])"
proof -
  obtain p ps where pp: "path_parts s = p # ps" using assms by (cases "path_parts s") (auto simp: listed_def ok_rel_def)
  show ?thesis
  proof (cases ps)
    case Nil
    then show ?thesis using assms pp by (simp add: listed_def kit_file_kept_def names_of_def)
  next
    case (Cons x xs)
    then have "p \<in> set KIT_CONTENT_DIRS" using assms pp by (simp add: listed_def kit_file_kept_def names_of_def)
    moreover have "strictly_below (dst @ [p]) (dst @ path_parts s)" using pp Cons by (simp add: strictly_below_def)
    ultimately show ?thesis by blast
  qed
qed

lemma copied_content:
  assumes "copy_kit_content src dst w = (Inr copied, w')" "wf_disk (wo_disk w)" "apart src dst"
    and "fresh (wo_disk w) dst" "list_all good_name dst"
    and "listed (Some KIT_CONTENT_DIRS) (Some KIT_CONTENT_FILES) s"
  shows "wf_disk (wo_disk w')
    \<and> dget (dk_files (wo_disk w')) (src @ path_parts s) = dget (dk_files (wo_disk w)) (src @ path_parts s)
    \<and> dget (dk_files (wo_disk w')) (dst @ path_parts s) = dget (dk_files (wo_disk w)) (src @ path_parts s)"
proof -
  obtain dk r w2 where m: "mkdirs dst (wo_disk w) = Inr dk"
    and d: "for_each (copy_content_dir src dst) KIT_CONTENT_DIRS [] (w\<lparr>wo_disk := dk\<rparr>) = (Inr r, w2)"
    and f: "for_each (copy_content_file src dst) KIT_CONTENT_FILES r w2 = (Inr copied, w')"
    using assms(1) by (auto simp: copy_kit_content_def act_simps)
  note mk = mkdirs_fresh [OF m assms(2,4)]
  have names: "distinct KIT_CONTENT_DIRS" "\<forall>d \<in> set KIT_CONTENT_DIRS. good_name d"
    "distinct KIT_CONTENT_FILES" "\<forall>f \<in> set KIT_CONTENT_FILES. good_name f \<and> f \<notin> set KIT_CONTENT_DIRS"
    by (simp_all add: KIT_CONTENT_DIRS_def KIT_CONTENT_FILES_def good_name_def)
  note ds = copy_dirs [OF d assms(3) names(1) _ _ assms(5), simplified, OF mk(1)]
  have fr: "\<forall>d \<in> set KIT_CONTENT_DIRS. fresh dk (dst @ [d]) \<and> good_name d" using mk(3) names(2) by simp
  have wf2: "wf_disk (wo_disk w2)"
    and q2: "\<And>q. dget (dk_files (wo_disk w2)) q =
        (if \<exists>d \<in> set KIT_CONTENT_DIRS. strictly_below (dst @ [d]) q then dget (dk_files dk) (src @ drop (length dst) q) else dget (dk_files dk) q)"
    and n2: "\<And>n. n \<notin> set KIT_CONTENT_DIRS \<Longrightarrow> is_dir (wo_disk w2) (dst @ [n]) \<Longrightarrow> is_dir dk (dst @ [n])"
    and mono: "\<And>p. is_dir dk p \<Longrightarrow> is_dir (wo_disk w2) p"
    using ds fr by auto
  have "dirs_to (wo_disk w2) dst" using mk(2) mono by (auto simp: dirs_to_def list_all_iff)
  moreover have "dget (dk_files (wo_disk w2)) (dst @ [g]) = None \<and> \<not> is_dir (wo_disk w2) (dst @ [g]) \<and> good_name g"
    if g: "g \<in> set KIT_CONTENT_FILES" for g
  proof -
    have "\<not> strictly_below (dst @ [e]) (dst @ [g])" for e by (simp add: strictly_below_def)
    then show ?thesis using q2 n2 [of g] names(4) g mk(3) [of g] by (auto simp: fresh_iff)
  qed
  ultimately have w': "wf_disk (wo_disk w')" "\<And>q. dget (dk_files (wo_disk w')) q =
        (if \<exists>f \<in> set KIT_CONTENT_FILES. q = dst @ [f] then dget (dk_files (wo_disk w2)) (src @ drop (length dst) q)
         else dget (dk_files (wo_disk w2)) q)"
    using copy_files [OF f assms(3) names(3) wf2 _ assms(5)] by auto
  have src: "dget (dk_files (wo_disk w2)) (src @ ps) = dget (dk_files (wo_disk w)) (src @ ps)" for ps
    using q2 [of "src @ ps"] apart_not_below [OF assms(3)] mk(4) by simp
  have "dget (dk_files (wo_disk w')) (src @ path_parts s) = dget (dk_files (wo_disk w)) (src @ path_parts s)"
    using w'(2) [of "src @ path_parts s"] apart_below [OF assms(3)] src by simp
  moreover have "dget (dk_files (wo_disk w')) (dst @ path_parts s) = dget (dk_files (wo_disk w)) (src @ path_parts s)"
    using kept_content [OF assms(6), of dst] w'(2) [of "dst @ path_parts s"] q2 [of "dst @ path_parts s"] src mk(4)
    by (auto split: if_splits)
  ultimately show ?thesis using w'(1) by blast
qed

text \<open>C9. Installing and comparing agree: after the content of a kit has been copied to a place that held
  nothing, in a project that does not lie inside the kit, the comparison of the installed copy with
  its source finds it current, whatever the options, and changes nothing.
\<close>

theorem fresh_copy_current:
  assumes "copy_kit_content src dst w = (Inr copied, w')" "wf_disk (wo_disk w)" "apart src dst"
    and "fresh (wo_disk w) dst" "list_all good_name dst"
  shows "\<exists>r. file_level_kit_update ed opts
      \<lparr>ua_source_dir = src, ua_user_dir = dst, ua_content_dirs = Some KIT_CONTENT_DIRS, ua_content_files = Some KIT_CONTENT_FILES,
       ua_resources = \<lparr>rs_bindings = [], rs_source_to_id = [], rs_info = []\<rparr>\<rparr> (wo_disk w') con =
    (Inr r, wo_disk w', con) \<and> ur_status r = Current"
proof -
  let ?ua = "\<lparr>ua_source_dir = src, ua_user_dir = dst, ua_content_dirs = Some KIT_CONTENT_DIRS, ua_content_files = Some KIT_CONTENT_FILES,
       ua_resources = \<lparr>rs_bindings = [], rs_source_to_id = [], rs_info = []\<rparr>\<rparr>"
  have "listed (Some KIT_CONTENT_DIRS) (Some KIT_CONTENT_FILES) ''AGENTS.md''" by code_simp
  then have wf: "wf_disk (wo_disk w')" using copied_content [OF assms] by blast
  have "dget (source_files ?ua (wo_disk w')) s = dget (user_files ?ua (wo_disk w')) s" for s
    using copied_content [OF assms, of s] by (simp add: enumerate_dget [OF wf])
  then have "dget (source_files ?ua (wo_disk w')) = dget (user_files ?ua (wo_disk w'))" by blast
  then have "\<not> has_changes (report_of ?ua (wo_disk w'))"
    using plan_unbound [OF wf, of ?ua] by (simp add: has_changes_iff unbound_def)
  then show ?thesis by (simp add: file_level_kit_update_def Let_def)
qed

definition copy_world :: world where
  "copy_world = \<lparr>wo_disk = \<lparr>dk_files = [([''s'', ''SKILL.md''], Text ''skill''), ([''s'', ''artifacts'', ''t.md''], Text ''t''), ([''s'', ''other.md''], Text ''o'')],
     dk_dirs = [[], [''s''], [''s'', ''artifacts'']]\<rparr>, wo_console = \<lparr>co_inputs = [], co_session = 0\<rparr>\<rparr>"

theorem fresh_copy_current_witness:
  "\<exists>r. file_level_kit_update (\<lambda>_ _. None) (sample_opts False)
      \<lparr>ua_source_dir = [''s''], ua_user_dir = [''u''], ua_content_dirs = Some KIT_CONTENT_DIRS, ua_content_files = Some KIT_CONTENT_FILES,
       ua_resources = \<lparr>rs_bindings = [], rs_source_to_id = [], rs_info = []\<rparr>\<rparr>
      (wo_disk (snd (copy_kit_content [''s''] [''u''] copy_world))) \<lparr>co_inputs = [], co_session = 0\<rparr> =
    (Inr r, wo_disk (snd (copy_kit_content [''s''] [''u''] copy_world)), \<lparr>co_inputs = [], co_session = 0\<rparr>) \<and> ur_status r = Current"
proof -
  let ?c = "copy_kit_content [''s''] [''u''] copy_world"
  have "map_sum (\<lambda>e. ()) id (fst ?c) = Inr [''artifacts'', ''SKILL.md'']" by code_simp
  then have e: "?c = (Inr [''artifacts'', ''SKILL.md''], snd ?c)" by (cases "fst ?c") (auto simp: prod_eq_iff)
  have h: "wf_disk (wo_disk copy_world)" "apart [''s''] [''u'']" "fresh (wo_disk copy_world) [''u'']" "list_all good_name [''u'']"
    by code_simp+
  show ?thesis by (rule fresh_copy_current [OF e h])
qed

end
