(* ===== verification/Kit_Command_Facts.thy ===== *)
theory Kit_Command_Facts
  imports Kit_Install_Facts
begin

section \<open>Dry runs and the layout migration\<close>

text \<open>
  A dry run of the kit commands or of the layout migration leaves disk and terminal as they were. An
  example shows what the migration does with generated files it could not move.
\<close>

lemma honours_eq: "honours (=) m \<longleftrightarrow> (\<forall>w. snd (m w) = w)"
  by (auto simp: honours_def)

lemma layout_dry_run: "honours (=) (detect_and_migrate_layout env cd True)"
proof -
  have "honours (=) (migrate_kit_dir True cd d acc)" "honours (=) (migrate_gen_dir True cd d acc)" for d acc
    by (simp_all add: migrate_kit_dir_def migrate_gen_dir_def Let_def pure.return_act)
  then show ?thesis unfolding detect_and_migrate_layout_def Let_def
    by (intro pure.intros | simp split: prod.splits add: pure.intros)+
qed

lemma update_kit_dry_run: "ko_dry_run opts \<Longrightarrow> honours (=) (update_kit env opts slug src cd source)"
  by (simp add: update_kit_def Let_def pure.return_act)

lemma finally_pure: "honours (=) m \<Longrightarrow> honours (=) f \<Longrightarrow> honours (=) (finally_act m f)"
  by (auto simp: honours_eq finally_act_def split: prod.splits sum.splits) (metis snd_conv)+

lemma update_one_dry_run:
  "ko_dry_run opts \<Longrightarrow> honours (=) (update_one env opts cd (slug, dir, src, None) acc)"
  unfolding update_one_def clean_up_def option.case prod.case
  by (intro finally_pure pure.intros update_kit_dry_run)

lemma run_updates_dry_run:
  assumes "uc_dry_run args"
  shows "honours (=) (run_updates env args cd [(slug, dir, src, None)])"
  unfolding run_updates_def Let_def using assms
  by (intro pure.and_then pure.for_each) (auto intro!: update_one_dry_run pure.intros split: prod.splits)

text \<open>C15. A dry run writes nothing: the layout migration, and \<open>cpt kit install\<close> and \<open>cpt kit update\<close> from
  a local directory, leave the disk and the terminal exactly as they were, however they end.
\<close>

theorem dry_runs_pure:
  assumes "ia_dry_run iargs" "truthy (ia_path iargs)" "uc_dry_run uargs" "truthy (uc_path uargs)"
  shows "snd (detect_and_migrate_layout env cd True w) = w
    \<and> snd (cmd_kit_install env iargs w) = w \<and> snd (cmd_kit_update env uargs w) = w"
proof -
  have i: "honours (=) (install_from env iargs og)" for og
    unfolding install_from_def using assms(1)
    by (intro pure.and_then pure.look) (auto split: option.splits intro!: pure.intros)
  have "honours (=) (cmd_kit_install env iargs)"
    unfolding cmd_kit_install_def using assms(2) by (auto split: option.splits intro!: pure.intros i)
  moreover have "honours (=) (cmd_kit_update env uargs)"
    unfolding cmd_kit_update_def using assms(3,4)
    by (intro pure.and_then pure.look) (auto split: option.splits intro!: pure.intros run_updates_dry_run)
  ultimately show ?thesis using layout_dry_run by (simp add: honours_eq)
qed

definition install_dry :: install_args where
  "install_dry = \<lparr>ia_source = None, ia_path = Some ''../s'', ia_force = False, ia_dry_run = True\<rparr>"

definition update_dry :: update_cmd_args where
  "update_dry = \<lparr>uc_slug = None, uc_path = Some ''../s'', uc_force = True, uc_dry_run = True, uc_no_interactive = False, uc_yes = True\<rparr>"

theorem dry_runs_pure_witness:
  "snd (cmd_kit_install sample_env install_dry kit_world) = kit_world \<and> snd (cmd_kit_update sample_env update_dry kit_world) = kit_world"
proof -
  have "ia_dry_run install_dry" "truthy (ia_path install_dry)" "uc_dry_run update_dry" "truthy (uc_path update_dry)"
    by (simp_all add: install_dry_def update_dry_def truthy_def)
  from dry_runs_pure [OF this, of sample_env "[''c'']" kit_world] show ?thesis by simp
qed

subsection \<open>Generated files that could not be moved\<close>

definition stuck_world :: world where
  "stuck_world = \<lparr>wo_disk = \<lparr>dk_files = [([''.gen'', ''kits'', ''k'', ''a.md''], Text ''a''), ([''config'', ''kits'', ''k''], Text [])],
     dk_dirs = [[], [''.gen''], [''.gen'', ''kits''], [''.gen'', ''kits'', ''k''], [''config''], [''config'', ''kits'']]\<rparr>,
     wo_console = \<lparr>co_inputs = [], co_session = 0\<rparr>\<rparr>"

lemma failed_migration_loses_generated:
  "detect_and_migrate_layout sample_env [] False stuck_world =
    (Inr [(''k'', MigrationFailed (DiskFailure (AlreadyExists [''config'', ''kits'', ''k''])))],
     stuck_world\<lparr>wo_disk := \<lparr>dk_files = [([''config'', ''kits'', ''k''], Text [])],
       dk_dirs = [[], [''.gen''], [''config''], [''config'', ''kits'']]\<rparr>\<rparr>)"
  by code_simp

text \<open>A slug is not checked to be a plain name: with dots in it the kit's directory is elsewhere.\<close>

lemma slug_escapes: "kit_dir_of [''p'', ''c''] ''../../../src'' = [''p'', ''src'']"
  by code_simp

subsection \<open>What an installation can touch\<close>

definition kit_area :: "path \<Rightarrow> string \<Rightarrow> path \<Rightarrow> bool" where
  "kit_area cypilot_dir slug q =
     (at_or_below (cypilot_dir @ [''config'', ''kits'', slug]) q \<or> at_or_below (cypilot_dir @ [''.gen'']) q
      \<or> (\<exists>n. suffix_of n = ''.toml'' \<and> at_or_below (cypilot_dir @ [''config'', n]) q))"

definition safe_slug :: "string \<Rightarrow> bool" where
  "safe_slug slug = (good_name slug \<and> slug \<noteq> ''..'')"

lemma kit_dir_of_safe:
  assumes "plain_path cd" "safe_slug slug"
  shows "kit_dir_of cd slug = cd @ [''config'', ''kits'', slug]"
proof -
  have parts: "path_parts slug = [slug]"
    using assms(2) split_on_no_sep [of "CHR ''/''" slug] by (simp add: path_parts_def safe_slug_def good_name_def)
  have "\<not> startswith slug ''/''" using assms(2) by (cases slug) (auto simp: safe_slug_def good_name_def)
  moreover have "''..'' \<notin> set (cd @ [''config'', ''kits'', slug])"
    using assms by (auto simp: plain_path_def safe_slug_def)
  from norm_go_plain [OF this, of "[]" "[]"] have "norm_go [] (cd @ [''config'', ''kits'', slug]) = cd @ [''config'', ''kits'', slug]"
    by simp
  ultimately show ?thesis by (simp add: kit_dir_of_def resolve_under_def parts)
qed

lemma copy_kit_content_outside:
  assumes "\<forall>q. at_or_below dst q \<longrightarrow> S q"
  shows "honours (same_outside S) (copy_kit_content src dst)"
proof -
  have sub: "\<forall>q. at_or_below (dst @ [n]) q \<longrightarrow> S q" for n
    using assms at_or_below_trans [of dst "dst @ [n]"] by simp
  show ?thesis
    unfolding copy_kit_content_def copy_content_dir_def copy_content_file_def
    by (intro outside.intros outside_ops sub)
qed

lemma seed_outside:
  assumes "\<And>n q. suffix_of n = ''.toml'' \<Longrightarrow> at_or_below (cfg @ [n]) q \<Longrightarrow> S q"
  shows "honours (same_outside S) (seed_if_scripts scripts cfg)"
proof -
  have "honours (same_outside S) (seed_config_file cfg p acc)" for p acc
    unfolding seed_config_file_def using assms
    by (intro outside.intros copy2_outside) auto
  then show ?thesis unfolding seed_if_scripts_def seed_kit_config_files_def
    by (intro outside.intros outside_ops)
qed

lemma register_outside: "S (core_toml cfg) \<Longrightarrow> honours (same_outside S) (register_kit_in_core_toml env cfg slug ver src rs)"
  unfolding register_kit_in_core_toml_def
  by (rule outside.and_then [OF outside.look])
    (auto split: option.splits sum.splits intro!: outside.intros outside_ops)

lemma collect_outside: "honours (same_outside S) (collect_kit_metadata d slug)"
  unfolding collect_kit_metadata_def
  by (rule outside.and_then [OF outside.look]) (auto split: prod.splits intro!: outside.intros)

lemma regenerate_outside:
  assumes "\<And>q. at_or_below (cd @ [''.gen'']) q \<Longrightarrow> S q"
  shows "honours (same_outside S) (regenerate_gen_aggregates env cd)"
proof -
  have g: "S ((cd @ [''.gen'']) @ [n])" for n by (rule assms, rule at_or_below_append)
  have "honours (same_outside S) (collect_step d acc)" for d acc
    unfolding collect_step_def by (rule outside.and_then [OF collect_outside]) (auto split: prod.splits intro!: outside.intros)
  then show ?thesis unfolding regenerate_gen_aggregates_def Let_def using g
    by (intro outside.and_then outside.look mkdirs_outside outside.for_each | clarsimp split: prod.splits intro!: outside.intros outside_ops)+
qed

lemma install_outside:
  assumes "plain_path cd" "safe_slug slug" "\<not> is_file (wo_disk w) (src @ [''manifest.toml''])"
  shows "same_outside (kit_area cd slug) w (snd (install_kit env src cd slug ver source asking w))"
proof -
  have "load_toml env (wo_disk w) (src @ [''manifest.toml'']) = None"
    using assms(3) by (simp add: load_toml_def is_file_def dhas_def split: option.splits)
  then have mf: "manifest_of env src w = (Inr None, w)"
    by (simp add: manifest_of_def and_then_def look_def load_manifest_def return_act_def)
  let ?c = "install_content env src (cd @ [''config'']) (cd @ [''config'', ''kits'', slug]) slug ver source"
  have core: "kit_area cd slug (core_toml (cd @ [''config'']))"
  proof -
    have "suffix_of ''core.toml'' = ''.toml''" by code_simp
    then show ?thesis unfolding kit_area_def core_toml_def by (metis append.assoc append_Cons append_Nil at_or_below_refl)
  qed
  have "honours (same_outside (kit_area cd slug)) ?c"
    unfolding install_content_def
    by (intro outside.and_then outside.look copy_kit_content_outside seed_outside register_outside collect_outside core)
      (auto simp: kit_area_def split: prod.splits intro: outside.return_act)
  then have c: "same_outside (kit_area cd slug) w (snd (?c w))" by (simp add: honours_def)
  have "install_kit env src cd slug ver source asking w = (if is_dir (wo_disk w) src then ?c w else (Inr SourceNotFound, w))"
    by (simp add: install_kit_def kit_dir_of_safe [OF assms(1,2)] and_then_def look_def mf return_act_def)
  then show ?thesis using c by (simp add: outside.refl)
qed

text \<open>C10. An installation from a local directory stays in its place: for a kit without a manifest and
  with a slug that is a plain name, \<open>cpt kit install\<close> changes no file outside the kit's own
  directory under \<open>config/kits\<close>, the TOML entries of \<open>config\<close> and \<open>.gen\<close>, also when it fails midway.
\<close>

theorem kit_install_contained:
  assumes "truthy (ia_path args)" "\<not> truthy (ia_source args)"
    and "local_origin env (str_or_empty (ia_path args)) (wo_disk w) = Some og"
    and "resolve_cypilot_dir env (wo_disk w) = Some cd"
    and "plain_path cd" "safe_slug (og_slug og)" "\<not> is_file (wo_disk w) (og_dir og @ [''manifest.toml''])"
  shows "same_outside (kit_area cd (og_slug og)) w (snd (cmd_kit_install env args w))"
proof -
  let ?R = "same_outside (kit_area cd (og_slug og))"
  have "honours ?R (regenerate_gen_aggregates env cd)" by (rule regenerate_outside) (simp add: kit_area_def)
  then have regen: "honours ?R (and_then (regenerate_gen_aggregates env cd) (\<lambda>_. return_act y))" for y :: "nat \<times> install_report"
    by (intro outside.and_then outside.return_act)
  have cmd: "cmd_kit_install env args w = install_from env args og w"
    using assms(1-3) by (simp add: cmd_kit_install_def and_then_def look_def)
  let ?i = "install_kit env (og_dir og) cd (og_slug og) (og_version og) (og_source og) True"
  have inst: "?R w (snd (?i w))" by (rule install_outside [OF assms(5-7)])
  have "?R w (snd (and_then ?i (\<lambda>r. and_then (regenerate_gen_aggregates env cd) (\<lambda>_. return_act (0 :: nat, InstallDone r))) w))"
  proof (cases "?i w")
    case (Pair r w1)
    show ?thesis
    proof (cases r)
      case (Inl e)
      with Pair inst show ?thesis by (simp add: and_then_def)
    next
      case (Inr x)
      have "?R w w1" using Pair inst by simp
      moreover have "?R w1 (snd (and_then (regenerate_gen_aggregates env cd) (\<lambda>_. return_act (0 :: nat, InstallDone x)) w1))"
        using regen unfolding honours_def by blast
      ultimately show ?thesis by (simp add: and_then_def [of ?i] Pair Inr outside.trans)
    qed
  qed
  then show ?thesis unfolding cmd install_from_def using assms(4)
    by (auto simp: and_then_def [of "look _"] look_def return_act_def outside.refl)
qed

definition project_env :: kit_env where
  "project_env = sample_env\<lparr>ke_loads := (\<lambda>t. Inr [(PStr ''cypilot_path'', PStr ''c'')])\<rparr>"

definition project_world :: world where
  "project_world = \<lparr>wo_disk = \<lparr>dk_files = [([''p'', ''AGENTS.md''], Text (MARKER_START @ [NL] @ ''```toml'' @ [NL] @ ''x'' @ [NL] @ ''```'')),
       ([''kit'', ''SKILL.md''], Text ''s'')],
     dk_dirs = [[], [''p''], [''kit''], [''p'', ''c'']]\<rparr>, wo_console = \<lparr>co_inputs = [], co_session = 0\<rparr>\<rparr>"

definition install_local :: install_args where
  "install_local = \<lparr>ia_source = None, ia_path = Some ''../kit'', ia_force = False, ia_dry_run = False\<rparr>"

theorem kit_install_contained_witness:
  "same_outside (kit_area [''p'', ''c''] ''kit'') project_world (snd (cmd_kit_install project_env install_local project_world))
   \<and> dget (dk_files (wo_disk (snd (cmd_kit_install project_env install_local project_world)))) [''p'', ''c'', ''config'', ''kits'', ''kit'', ''SKILL.md'']
       = Some (Text ''s'')"
proof -
  let ?og = "\<lparr>og_dir = [''kit''], og_slug = ''kit'', og_version = [], og_source = [], og_tmp = None\<rparr>"
  have h: "truthy (ia_path install_local)" "\<not> truthy (ia_source install_local)"
    "local_origin project_env (str_or_empty (ia_path install_local)) (wo_disk project_world) = Some ?og"
    by code_simp+
  have r: "resolve_cypilot_dir project_env (wo_disk project_world) = Some [''p'', ''c'']" by code_simp
  have g: "plain_path [''p'', ''c'']" "safe_slug (og_slug ?og)" "\<not> is_file (wo_disk project_world) (og_dir ?og @ [''manifest.toml''])"
    by code_simp+
  have "dget (dk_files (wo_disk (snd (cmd_kit_install project_env install_local project_world)))) [''p'', ''c'', ''config'', ''kits'', ''kit'', ''SKILL.md'']
       = Some (Text ''s'')" by code_simp
  with kit_install_contained [OF h r g] show ?thesis by simp
qed

end
