(* ===== verification/Py_Sorting.thy ===== *)
theory Py_Sorting
  imports Py_Prelude "HOL-Library.Multiset"
begin

section \<open>Sorting by a key\<close>

text \<open>
  What \<open>sorted\<close> promises of every order the sources sort by: the result is a rearrangement, it is
  in order, and elements that compare as equal keep their order. The interface is a strict weak
  order; strings are one, and so is every order that compares a string and then a line.
\<close>

locale strict_weak =
  fixes lt :: "'a \<Rightarrow> 'a \<Rightarrow> bool"
  assumes asym: "lt a b \<Longrightarrow> \<not> lt b a"
    and neg_trans: "\<not> lt a b \<Longrightarrow> \<not> lt b c \<Longrightarrow> \<not> lt a c"
begin

lemma insort_in_order:
  assumes "sorted_wrt (\<lambda>a b. \<not> lt b a) xs"
  shows "sorted_wrt (\<lambda>a b. \<not> lt b a) (insort_by lt x xs)"
  using assms
proof (induction xs)
  case (Cons y ys)
  show ?case
  proof (cases "lt y x")
    case True
    then show ?thesis using Cons asym [OF True] by simp
  next
    case False
    then have "\<not> lt z x" if "z \<in> set ys" for z using Cons.prems neg_trans [OF _ False, of z] that by simp
    then show ?thesis using Cons.prems False by simp
  qed
qed simp

lemma in_order: "sorted_wrt (\<lambda>a b. \<not> lt b a) (sorted_by lt xs)"
  by (induction xs) (simp_all add: sorted_by_def insort_in_order)

lemma insort_stable:
  assumes "\<And>a b. P a \<Longrightarrow> P b \<Longrightarrow> \<not> lt a b"
  shows "filter P (insort_by lt x xs) = (if P x then x # filter P xs else filter P xs)"
  using assms by (induction xs) auto

lemma stable:
  assumes "\<And>a b. P a \<Longrightarrow> P b \<Longrightarrow> \<not> lt a b"
  shows "filter P (sorted_by lt xs) = filter P xs"
  using assms by (induction xs) (simp_all add: sorted_by_def insort_stable)

end

lemma mset_insort_by [simp]: "mset (insort_by lt x xs) = add_mset x (mset xs)"
  by (induction xs) auto

lemma mset_sorted_by [simp]: "mset (sorted_by lt xs) = mset xs"
  by (induction xs) (simp_all add: sorted_by_def)

lemma length_sorted_by [simp]: "length (sorted_by lt xs) = length xs"
  by (metis mset_sorted_by size_mset)

lemma distinct_keys_sorted_by: "distinct (map f (sorted_by lt xs)) \<longleftrightarrow> distinct (map f xs)"
proof -
  have "mset (map f (sorted_by lt xs)) = mset (map f xs)" by (simp only: mset_map mset_sorted_by)
  then show ?thesis by (rule mset_eq_imp_distinct_iff)
qed

lemma str_less_trans: "str_less a b \<Longrightarrow> str_less b c \<Longrightarrow> str_less a c"
proof (induction a b arbitrary: c rule: str_less.induct)
  case (2 b bs)
  then show ?case by (cases c) auto
next
  case (3 a s b t)
  then show ?case by (cases c) auto
qed simp

lemma str_less_asym: "str_less a b \<Longrightarrow> \<not> str_less b a"
  using str_less_trans str_less_irrefl by blast

lemma str_not_less: "\<not> str_less a b \<longleftrightarrow> a = b \<or> str_less b a"
  using str_less_total str_less_asym by auto

interpretation strs: strict_weak str_less
proof
  show "\<not> str_less a c" if "\<not> str_less a b" "\<not> str_less b c" for a b c
    using that str_less_trans unfolding str_not_less by blast
qed (rule str_less_asym)

lemma sorted_strs_strict: "distinct xs \<Longrightarrow> sorted_wrt str_less (sorted_strs xs)"
proof -
  assume "distinct xs"
  then have "distinct (sorted_strs xs)" using distinct_keys_sorted_by [of "\<lambda>x. x" str_less xs] by simp
  moreover have "sorted_wrt (\<lambda>a b. \<not> str_less b a) ys \<Longrightarrow> distinct ys \<Longrightarrow> sorted_wrt str_less ys" for ys
    by (induction ys) (auto simp: str_not_less)
  ultimately show ?thesis using strs.in_order by blast
qed

text \<open>Comparing a string and then a number.\<close>

definition key_less :: "('a \<Rightarrow> string) \<Rightarrow> ('a \<Rightarrow> nat) \<Rightarrow> 'a \<Rightarrow> 'a \<Rightarrow> bool" where
  "key_less f g a b = (str_less (f a) (f b) \<or> (f a = f b \<and> g a < g b))"

interpretation keys: strict_weak "key_less f g" for f g
proof
  show "\<not> key_less f g b a" if "key_less f g a b" for a b
    using that str_less_asym by (auto simp: key_less_def)
  show "\<not> key_less f g a c" if "\<not> key_less f g a b" "\<not> key_less f g b c" for a b c
    using that strs.neg_trans [of "f a" "f b" "f c"] unfolding key_less_def
    by (metis le_less_trans less_le_trans not_less str_not_less)
qed

end
