(* ===== verification/Queries.thy ===== *)
theory Queries
  imports Context_Load Py_Sorting
begin

section \<open>The query commands (\<open>commands/list_ids.py\<close>, \<open>list_id_kinds.py\<close>, \<open>where_defined.py\<close>, \<open>where_used.py\<close>, \<open>get_content.py\<close>)\<close>

text \<open>
  The queries read the registered artifacts and print what the ID scan finds. Each command is a
  function from its parsed arguments to an answer: a failure, whose exit code is 1, or an exit
  code with the result that is printed. An empty option counts as absent. The environment
  resolves and tests a path given on the command line, has the global context, and loads the
  context at the place of an artifact.
\<close>

record query_env =
  qe_resolve :: "string \<Rightarrow> string"
  qe_exists :: "string \<Rightarrow> bool"
  qe_is_file :: "string \<Rightarrow> bool"
  qe_fs :: fs
  qe_global :: "cyp_context option"
  qe_load :: "string \<Rightarrow> cyp_context option"

datatype query_error =
  EmptyId | ArtifactNotFound | NotInitialized | NotRegistered | NotUnderRoot | NoTarget | CodeNotFound | CodeErrors

datatype 'a answer = Failed query_error | Answer nat 'a

fun exit_code :: "'a answer \<Rightarrow> nat" where
  "exit_code (Failed e) = 1"
| "exit_code (Answer rc r) = rc"

definition given :: "string option \<Rightarrow> string option" where
  "given a = (case a of None \<Rightarrow> None | Some s \<Rightarrow> if s = [] then None else Some s)"

subsection \<open>The artifacts to scan, with their kinds\<close>

definition registered_targets :: "cyp_context \<Rightarrow> (string \<times> string) list" where
  "registered_targets cx =
     concat (map (\<lambda>(a, ch).
       let path = w_resolve (cx_world cx) (a_path a)
       in if w_exists (cx_world cx) path then [(path, a_kind a)] else [])
       (iter_all_artifacts (cx_meta cx)))"

definition artifact_target :: "cyp_context \<Rightarrow> string \<Rightarrow> (string \<times> string) list" where
  "artifact_target cx path =
     (case w_rel (cx_world cx) path of
        None \<Rightarrow> []
      | Some rel \<Rightarrow>
          if rel = [] then []
          else (case get_artifact_by_path (cx_meta cx) rel of None \<Rightarrow> [] | Some (a, ch) \<Rightarrow> [(path, a_kind a)]))"

definition scan_targets :: "query_env \<Rightarrow> string option \<Rightarrow> query_error + cyp_context \<times> (string \<times> string) list" where
  "scan_targets env artifact =
     (case given artifact of
        Some arg \<Rightarrow>
          (let path = qe_resolve env arg
           in if \<not> qe_exists env path then Inl ArtifactNotFound
              else (case qe_load env path of
                      None \<Rightarrow> Inl NotInitialized
                    | Some cx \<Rightarrow>
                        if artifact_target cx path = [] then Inl NotRegistered else Inr (cx, artifact_target cx path)))
      | None \<Rightarrow>
          (case qe_global env of
             None \<Rightarrow> Inl NotInitialized
           | Some cx \<Rightarrow> Inr (cx, registered_targets cx)))"

text \<open>What the scan finds in the artifacts, each hit with its path and the kind of its artifact.\<close>

definition target_hits :: "cyp_context \<Rightarrow> (string \<times> string) list \<Rightarrow> (string \<times> string \<times> hit) list" where
  "target_hits cx targets =
     concat (map (\<lambda>(path, kind). map (\<lambda>h. (path, kind, h)) (scan_cpt_ids (w_fs (cx_world cx)) path)) targets)"

subsection \<open>\<open>where-defined\<close> and \<open>where-used\<close>\<close>

record where_args =
  wa_positional :: "string option"
  wa_id :: "string option"
  wa_artifact :: "string option"
  wa_include_definitions :: bool

datatype find_status = FOUND | AMBIGUOUS | NOT_FOUND

record location =
  lo_artifact :: string
  lo_artifact_type :: string
  lo_line :: nat
  lo_type :: hit_type
  lo_checked :: bool

record definitions_result =
  dr_status :: find_status
  dr_id :: string
  dr_scanned :: nat
  dr_definitions :: "location list"

record references_result =
  rr_id :: string
  rr_scanned :: nat
  rr_references :: "location list"

definition target_id :: "where_args \<Rightarrow> string" where
  "target_id args =
     strip (case given (wa_positional args) of
              Some s \<Rightarrow> s
            | None \<Rightarrow> (case given (wa_id args) of Some s \<Rightarrow> s | None \<Rightarrow> []))"

definition hit_location :: "string \<times> string \<times> hit \<Rightarrow> location" where
  "hit_location t =
     (case t of (path, kind, h) \<Rightarrow>
        \<lparr>lo_artifact = path, lo_artifact_type = kind, lo_line = (if h_line h = 0 then 1 else h_line h),
         lo_type = h_type h, lo_checked = h_checked h\<rparr>)"

definition definitions_in :: "cyp_context \<Rightarrow> (string \<times> string) list \<Rightarrow> string \<Rightarrow> location list" where
  "definitions_in cx targets i =
     map hit_location (filter (\<lambda>(path, kind, h). h_type h = Definition \<and> h_id h = i) (target_hits cx targets))"

definition references_in :: "cyp_context \<Rightarrow> (string \<times> string) list \<Rightarrow> bool \<Rightarrow> string \<Rightarrow> location list" where
  "references_in cx targets include_definitions i =
     map hit_location
       (filter (\<lambda>(path, kind, h). h_id h = i \<and> (h_type h = Definition \<longrightarrow> include_definitions)) (target_hits cx targets))"

definition cmd_where_defined :: "query_env \<Rightarrow> where_args \<Rightarrow> definitions_result answer" where
  "cmd_where_defined env args =
     (let i = target_id args
      in if i = [] then Failed EmptyId
         else (case scan_targets env (wa_artifact args) of
                 Inl e \<Rightarrow> Failed e
               | Inr (cx, targets) \<Rightarrow>
                   (let ds = definitions_in cx targets i;
                        result = (\<lambda>st. \<lparr>dr_status = st, dr_id = i, dr_scanned = length targets, dr_definitions = ds\<rparr>)
                    in if targets = [] then Answer 0 (result NOT_FOUND)
                       else if ds = [] then Answer 2 (result NOT_FOUND)
                       else if length ds = 1 then Answer 0 (result FOUND)
                       else Answer 2 (result AMBIGUOUS))))"

definition cmd_where_used :: "query_env \<Rightarrow> where_args \<Rightarrow> references_result answer" where
  "cmd_where_used env args =
     (let i = target_id args
      in if i = [] then Failed EmptyId
         else (case scan_targets env (wa_artifact args) of
                 Inl e \<Rightarrow> Failed e
               | Inr (cx, targets) \<Rightarrow>
                   Answer 0 \<lparr>rr_id = i, rr_scanned = length targets,
                     rr_references = sorted_by (key_less lo_artifact lo_line) (references_in cx targets (wa_include_definitions args) i)\<rparr>))"

subsection \<open>Kinds of IDs\<close>

fun match_system_prefix :: "string \<Rightarrow> string option \<Rightarrow> string list \<Rightarrow> string option" where
  "match_system_prefix cpt best [] = best"
| "match_system_prefix cpt best (sys # rest) =
     match_system_prefix cpt
       (if startswith (lower cpt) (lower (cpt_prefix sys))
           \<and> (case best of None \<Rightarrow> True | Some b \<Rightarrow> length b < length sys)
        then Some sys else best) rest"

definition id_parts :: "string list \<Rightarrow> string \<Rightarrow> string list" where
  "id_parts systems cpt =
     (case match_system_prefix cpt None systems of
        None \<Rightarrow> []
      | Some sys \<Rightarrow> if sys = [] then [] else dash_parts (drop (length (cpt_prefix sys)) cpt))"

definition kind_ok :: "string list \<Rightarrow> string \<Rightarrow> bool" where
  "kind_ok known k = (known = [] \<or> k \<in> set known)"

text \<open>\<open>_infer_kind\<close> takes the last part that is a known kind, \<open>_infer_kinds\<close> the known ones among every second part.\<close>

definition infer_kind :: "string list \<Rightarrow> string list \<Rightarrow> string \<Rightarrow> string option" where
  "infer_kind systems known cpt =
     foldl (\<lambda>best part. if kind_ok known (lower part) then Some (lower part) else best) None (id_parts systems cpt)"

fun every_second :: "'a list \<Rightarrow> 'a list" where
  "every_second (x # y # xs) = x # every_second xs"
| "every_second xs = xs"

definition infer_kinds :: "string list \<Rightarrow> string list \<Rightarrow> string \<Rightarrow> string list" where
  "infer_kinds systems known cpt = filter (kind_ok known) (map lower (every_second (id_parts systems cpt)))"

subsection \<open>\<open>list-ids\<close>\<close>

record list_args =
  la_artifact :: "string option"
  la_pattern :: "string option"
  la_regex :: bool
  la_kind :: "string option"
  la_all :: bool
  la_include_code :: bool

datatype listed_type = ListedDefinition | ListedReference | CodeReference

record id_row =
  li_id :: string
  li_kind :: "string option"
  li_type :: listed_type
  li_artifact_type :: string
  li_line :: nat
  li_artifact :: string
  li_checked :: bool
  li_priority :: "string option"
  li_marker :: "string option"
  li_phase :: "nat option"
  li_inst :: "string option"

record ids_result =
  ir_scanned :: nat
  ir_code_scanned :: nat
  ir_ids :: "id_row list"

definition listed_hit :: "cyp_context \<Rightarrow> string \<times> string \<times> hit \<Rightarrow> id_row list" where
  "listed_hit cx t =
     (case t of (path, kind, h) \<Rightarrow>
        (let cid = strip (h_id h)
         in if cid = [] then []
            else [\<lparr>li_id = cid, li_kind = infer_kind (cx_systems cx) (get_known_id_kinds (cx_loaded cx)) cid,
                   li_type = (case h_type h of Definition \<Rightarrow> ListedDefinition | Reference \<Rightarrow> ListedReference),
                   li_artifact_type = kind, li_line = h_line h, li_artifact = path, li_checked = h_checked h,
                   li_priority = h_priority h, li_marker = None, li_phase = None, li_inst = None\<rparr>]))"

definition listed_ref :: "string \<Rightarrow> code_ref \<Rightarrow> id_row" where
  "listed_ref path r =
     \<lparr>li_id = ref_id r, li_kind = (case given (ref_kind r) of None \<Rightarrow> Some ''code'' | Some k \<Rightarrow> Some k),
      li_type = CodeReference, li_artifact_type = ''CODE'', li_line = ref_line r, li_artifact = path,
      li_checked = False, li_priority = None, li_marker = Some (ref_marker r), li_phase = ref_phase r,
      li_inst = given (ref_inst r)\<rparr>"

text \<open>The readable code files of all systems that are not ignored, each with its references.\<close>

definition visible_code :: "cyp_context \<Rightarrow> string \<Rightarrow> (string \<times> code_file) list" where
  "visible_code cx path =
     (if (case w_rel (cx_world cx) path of None \<Rightarrow> False | Some rel \<Rightarrow> rel \<noteq> [] \<and> is_ignored (cx_meta cx) rel) then []
      else (case from_path (w_fs (cx_world cx)) path of
              (Some cf, []) \<Rightarrow> [(path, cf)]
            | _ \<Rightarrow> []))"

definition code_targets :: "cyp_context \<Rightarrow> (string \<times> code_file) list" where
  "code_targets cx =
     concat (map (visible_code cx)
       (concat (map (\<lambda>(cb, ch). entry_files (cx_world cx) cb) (iter_all_codebase (cx_meta cx)))))"

definition collect_listed :: "cyp_context \<Rightarrow> list_args \<Rightarrow> (string \<times> string) list \<Rightarrow> id_row list \<times> nat" where
  "collect_listed cx args targets =
     (let hits = concat (map (listed_hit cx) (target_hits cx targets));
          code = (if la_include_code args \<and> given (la_artifact args) = None then code_targets cx else [])
      in (hits @ concat (map (\<lambda>(path, cf). map (listed_ref path) (cf_refs cf)) code), length code))"

definition kind_text :: "id_row \<Rightarrow> string" where
  "kind_text l = (case li_kind l of None \<Rightarrow> ''None'' | Some k \<Rightarrow> k)"

definition kind_filter :: "list_args \<Rightarrow> id_row \<Rightarrow> bool" where
  "kind_filter args l = (case given (la_kind args) of None \<Rightarrow> True | Some k \<Rightarrow> kind_text l = k)"

text \<open>The test of the pattern, or the error of a bad regular expression.\<close>

definition pattern_filter :: "rx \<Rightarrow> list_args \<Rightarrow> string + (id_row \<Rightarrow> bool)" where
  "pattern_filter rx args =
     (case given (la_pattern args) of
        None \<Rightarrow> Inr (\<lambda>l. True)
      | Some pat \<Rightarrow>
          if la_regex args then (case rx pat of Inl e \<Rightarrow> Inl e | Inr search \<Rightarrow> Inr (\<lambda>l. search (li_id l)))
          else Inr (\<lambda>l. has_sub (li_id l) pat))"

fun first_of_each :: "string list \<Rightarrow> id_row list \<Rightarrow> id_row list" where
  "first_of_each seen [] = []"
| "first_of_each seen (l # ls) =
     (if li_id l \<in> set seen then first_of_each seen ls else l # first_of_each (li_id l # seen) ls)"

definition cmd_list_ids :: "rx \<Rightarrow> query_env \<Rightarrow> list_args \<Rightarrow> string + ids_result answer" where
  "cmd_list_ids rx env args =
     (case scan_targets env (la_artifact args) of
        Inl e \<Rightarrow> Inr (Failed e)
      | Inr (cx, targets) \<Rightarrow>
          if targets = [] then Inr (Answer 0 \<lparr>ir_scanned = 0, ir_code_scanned = 0, ir_ids = []\<rparr>)
          else
            (let (hits, n) = collect_listed cx args targets; hits = filter (kind_filter args) hits
             in case pattern_filter rx args of
                  Inl e \<Rightarrow> Inl e
                | Inr keep \<Rightarrow>
                    (let hits = filter keep hits; hits = (if la_all args then hits else first_of_each [] hits)
                     in Inr (Answer 0 \<lparr>ir_scanned = length targets, ir_code_scanned = n,
                          ir_ids = sorted_by (key_less li_id li_line) hits\<rparr>))))"

subsection \<open>\<open>list-id-kinds\<close>\<close>

record kinds_st =
  ks_kind_to_templates :: "(string \<times> string list) list"
  ks_template_to_kinds :: "(string \<times> string list) list"
  ks_counts :: "(string \<times> nat) list"

datatype kinds_result =
    KindsOfArtifact (ka_artifact: string) (ka_type: string) (ka_kinds: "string list") (ka_counts: "(string \<times> nat) list")
  | KindsOfAll (kt_kinds: "string list") (kt_counts: "(string \<times> nat) list")
      (kt_kind_to_templates: "(string \<times> string list) list") (kt_template_to_kinds: "(string \<times> string list) list")
      (kt_scanned: nat)

text \<open>The command collects the kinds of the kits' constraints once more, with the same normal form.\<close>

definition known_kinds :: "cyp_context \<Rightarrow> string list" where
  "known_kinds cx =
     foldl (\<lambda>ks k. sadd k ks) (get_known_id_kinds (cx_loaded cx))
       (concat (map (\<lambda>(k, lk). case lk_constraints lk of
           None \<Rightarrow> []
         | Some by_kind \<Rightarrow>
             map (\<lambda>ic. lower (strip (ic_kind ic)))
               (filter (\<lambda>ic. ic_kind ic \<noteq> []) (concat (map (\<lambda>(k, kc). kc_defined_id kc) by_kind)))) (cx_loaded cx)))"

definition sadd_to :: "string \<Rightarrow> string \<Rightarrow> (string \<times> string list) list \<Rightarrow> (string \<times> string list) list" where
  "sadd_to k v d = dset k (sadd v (dgetl d k)) d"

definition count_of :: "(string \<times> nat) list \<Rightarrow> string \<Rightarrow> nat" where
  "count_of counts k = (case dget counts k of None \<Rightarrow> 0 | Some n \<Rightarrow> n)"

definition add_kind :: "string \<Rightarrow> kinds_st \<Rightarrow> string \<Rightarrow> kinds_st" where
  "add_kind template st k =
     (if k = [] then st
      else \<lparr>ks_kind_to_templates = sadd_to k template (ks_kind_to_templates st),
            ks_template_to_kinds = sadd_to template k (ks_template_to_kinds st),
            ks_counts = dset k (count_of (ks_counts st) k + 1) (ks_counts st)\<rparr>)"

definition add_kinds_of :: "cyp_context \<Rightarrow> kinds_st \<Rightarrow> string \<times> string \<times> hit \<Rightarrow> kinds_st" where
  "add_kinds_of cx st t =
     (case t of (path, template, h) \<Rightarrow>
        (let cid = strip (h_id h)
         in if h_type h \<noteq> Definition \<or> cid = [] then st
            else foldl (add_kind template) st (infer_kinds (cx_systems cx) (known_kinds cx) cid)))"

definition collect_kinds :: "cyp_context \<Rightarrow> (string \<times> string) list \<Rightarrow> kinds_st" where
  "collect_kinds cx targets =
     foldl (add_kinds_of cx) \<lparr>ks_kind_to_templates = [], ks_template_to_kinds = [], ks_counts = []\<rparr> (target_hits cx targets)"

definition sorted_items :: "(string \<times> string list) list \<Rightarrow> (string \<times> string list) list" where
  "sorted_items d = map (\<lambda>(k, v). (k, sorted_strs v)) (sorted_by (\<lambda>a b. str_less (fst a) (fst b)) d)"

definition cmd_list_id_kinds :: "query_env \<Rightarrow> string option \<Rightarrow> kinds_result answer" where
  "cmd_list_id_kinds env artifact =
     (case scan_targets env artifact of
        Inl e \<Rightarrow> Failed e
      | Inr (cx, targets) \<Rightarrow>
          if targets = [] then Answer 0 (KindsOfAll [] [] [] [] 0)
          else
            (let st = collect_kinds cx targets;
                 all_kinds = sorted_strs (map fst (ks_kind_to_templates st));
                 counts = map (\<lambda>k. (k, count_of (ks_counts st) k))
             in case given artifact of
                  Some _ \<Rightarrow>
                    (let (path, template) = hd targets; kinds = sorted_strs (dgetl (ks_template_to_kinds st) template)
                     in Answer 0 (KindsOfArtifact path template kinds (counts kinds)))
                | None \<Rightarrow>
                    Answer 0 (KindsOfAll all_kinds (counts all_kinds) (sorted_items (ks_kind_to_templates st))
                      (sorted_items (ks_template_to_kinds st)) (length targets))))"

subsection \<open>\<open>get-content\<close>\<close>

record content_args =
  ga_artifact :: "string option"
  ga_code :: "string option"
  ga_id :: string
  ga_inst :: "string option"

datatype content_result =
    ContentNotFound
  | CodeContent string
  | ArtifactContent (gc_text: string) (gc_artifact: string) (gc_start: nat) (gc_end: nat) (gc_kind: string)
      (gc_system: string) (gc_traceability: string)

definition content_of_code :: "code_file \<Rightarrow> content_args \<Rightarrow> string option" where
  "content_of_code cf args =
     (case given (ga_inst args) of
        None \<Rightarrow> get_code cf (ga_id args)
      | Some inst \<Rightarrow> (case get_by_inst cf inst of Some c \<Rightarrow> Some c | None \<Rightarrow> get_code cf (ga_id args)))"

definition content_of_artifact :: "query_env \<Rightarrow> string \<Rightarrow> string \<Rightarrow> content_result answer" where
  "content_of_artifact env path i =
     (if \<not> qe_is_file env path then Failed ArtifactNotFound
      else (case qe_load env path of
              None \<Rightarrow> Failed NotInitialized
            | Some cx \<Rightarrow>
                (case w_rel (cx_world cx) path of
                   None \<Rightarrow> Failed NotUnderRoot
                 | Some rel \<Rightarrow>
                     (case get_artifact_by_path (cx_meta cx) rel of
                        None \<Rightarrow> Failed NotRegistered
                      | Some (a, ch) \<Rightarrow>
                          (case get_content_scoped (w_fs (cx_world cx)) path i of
                             None \<Rightarrow> Answer 2 ContentNotFound
                           | Some (content, first, final) \<Rightarrow>
                               Answer 0 (ArtifactContent content path first final (a_kind a) (sn_name (hd ch))
                                 (a_traceability a)))))))"

definition cmd_get_content :: "query_env \<Rightarrow> content_args \<Rightarrow> content_result answer" where
  "cmd_get_content env args =
     (case given (ga_code args) of
        Some code \<Rightarrow>
          (let path = qe_resolve env code
           in if \<not> qe_is_file env path then Failed CodeNotFound
              else (case from_path (qe_fs env) path of
                      (Some cf, []) \<Rightarrow>
                        (case content_of_code cf args of
                           None \<Rightarrow> Answer 2 ContentNotFound
                         | Some c \<Rightarrow> Answer 0 (CodeContent c))
                    | _ \<Rightarrow> Failed CodeErrors))
      | None \<Rightarrow>
          (case given (ga_artifact args) of
             None \<Rightarrow> Failed NoTarget
           | Some artifact \<Rightarrow> content_of_artifact env (qe_resolve env artifact) (ga_id args)))"

end
