(* ===== verification/Query_Facts.thy ===== *)
theory Query_Facts
  imports Queries Validate_Facts
begin

section \<open>What the queries answer\<close>

text \<open>
  A reference that a passing validation accepts can be looked up with \<open>where-defined\<close>;
  \<open>where-used\<close> and \<open>where-defined\<close> divide the hits between them; \<open>list-ids\<close> lists every ID it
  found once, in order; and the two directions of \<open>list-id-kinds\<close> agree.
\<close>

subsection \<open>IDs are not changed by stripping\<close>

lemma c_id_not_space: "c_id c \<Longrightarrow> \<not> py_space c"
  by (auto simp: c_id_def py_space_def is_lower_az_def is_digit_def Let_def)

lemma scan_hit_valid: "h \<in> set (scan_cpt_ids fs path) \<Longrightarrow> valid_cpt_id (h_id h)"
  by (cases "read_text_safe fs path") (auto simp: scan_cpt_ids_def dest!: ids.hit_line dest: scan_line_valid)

lemma strip_valid: "valid_cpt_id s \<Longrightarrow> strip s = s"
proof -
  assume "valid_cpt_id s"
  then obtain c cs where s: "s = ''cpt-'' @ c # cs" "cs \<noteq> []" "list_all c_id cs" by (auto simp: valid_cpt_id_def)
  then have "c_id (last cs)" by (simp add: list_all_iff)
  then have "\<not> py_space (last s)" using s c_id_not_space by simp
  moreover have "\<not> py_space (hd s)" using s by (simp add: py_space_def)
  ultimately show ?thesis using s by (intro strip_by_id) auto
qed

subsection \<open>Targets\<close>

lemma selected_target: "va \<in> set (select_all cx) \<Longrightarrow> (va_path va, va_kind va) \<in> set (registered_targets cx)"
  by (force simp: select_all_def registered_targets_def mk_selected_def Let_def split: if_splits)

lemma target_hits_iff:
  "(path, kind, h) \<in> set (target_hits cx targets)
   \<longleftrightarrow> (path, kind) \<in> set targets \<and> h \<in> set (scan_cpt_ids (w_fs (cx_world cx)) path)"
  by (auto simp: target_hits_def)

lemma row_in:
  "a \<in> set recs \<Longrightarrow> h \<in> set (scan_cpt_ids fs (ar_path a)) \<Longrightarrow> strip (h_id h) \<noteq> [] \<Longrightarrow> h_type h = ty
   \<Longrightarrow> mk_row xc a (art_headings rx fs a) h \<in> set (rows_of rx fs xc ty recs)"
  by (auto simp: rows_of_def art_rows_def)

text \<open>C3. What validation accepts can be looked up: after a full run that passes, \<open>where-defined\<close> finds
  at least one definition of every ID of a registered system that a validated artifact
  refers to, and its exit code is 0 exactly when there is one only.\<close>

theorem validated_refs_resolve:
  assumes "o_exit (cmd_validate rx (Some cx) load_ctx kits_check \<lparr>v_artifact = None, v_skip_code = skip\<rparr>) = 0"
    and "distinct (map va_path (select_all cx))" and "va \<in> set (select_all cx)"
    and "h \<in> set (scan_cpt_ids (w_fs (cx_world cx)) (va_path va))" and "h_type h = Reference"
    and "\<not> is_external_system_ref (remdups (map lower (cx_systems cx))) (h_id h)" and "qe_global env = Some cx"
  shows "\<exists>rc r. cmd_where_defined env \<lparr>wa_positional = Some (h_id h), wa_id = None, wa_artifact = None,
        wa_include_definitions = b\<rparr> = Answer rc r
      \<and> dr_definitions r \<noteq> [] \<and> (rc = 0 \<longleftrightarrow> length (dr_definitions r) = 1)"
proof -
  let ?fs = "w_fs (cx_world cx)" and ?recs = "map (artifact_record_of cx) (select_all cx)"
  let ?S = "remdups (map lower (cx_systems cx))"
  have "select_all cx \<noteq> []" using assms(3) by auto
  from full_run_selected(3) [OF assms(1) _ this] obtain warns reps
    where "o_exit (later_phases rx cx \<lparr>v_artifact = None, v_skip_code = skip\<rparr> (select_all cx) warns reps) = 0" by auto
  note refs = later_refs(1) [OF this assms(2) refl refl refl]
  note v = scan_hit_valid [OF assms(4)]
  have "mk_row (ctx_of ?recs ?S) (artifact_record_of cx va) (art_headings rx ?fs (artifact_record_of cx va)) h
      \<in> set (rows_of rx ?fs (ctx_of ?recs ?S) Reference ?recs)"
    using assms(3,4,5) v valid_cpt_id_ne [OF v]
    by (intro row_in) (auto simp: strip_valid artifact_record_of_def)
  with refs have "h_id h \<in> w_id ` set (rows_of rx ?fs (ctx_of ?recs ?S) Definition ?recs)"
    using assms(6) v by (fastforce simp: list_all_iff strip_valid)
  then obtain va' h' where d: "va' \<in> set (select_all cx)" "h' \<in> set (scan_cpt_ids ?fs (va_path va'))"
      "h_type h' = Definition" "strip (h_id h') = h_id h"
    by (auto simp: rows_of_def art_rows_def artifact_record_of_def)
  then have "(va_path va', va_kind va', h') \<in> set (target_hits cx (registered_targets cx))" "h_id h' = h_id h"
    using selected_target [OF d(1)] by (auto simp: target_hits_iff strip_valid [OF scan_hit_valid [OF d(2)]])
  with d(3) have "definitions_in cx (registered_targets cx) (h_id h) \<noteq> []"
    by (force simp: definitions_in_def filter_empty_conv)
  moreover have "registered_targets cx \<noteq> []" using selected_target [OF assms(3)] by auto
  moreover have "target_id \<lparr>wa_positional = Some (h_id h), wa_id = None, wa_artifact = None,
      wa_include_definitions = b\<rparr> = h_id h"
    using v valid_cpt_id_ne [OF v] by (simp add: target_id_def given_def strip_valid)
  ultimately show ?thesis
    using assms(7) valid_cpt_id_ne [OF v] by (simp add: cmd_where_defined_def scan_targets_def given_def Let_def)
qed

definition demo_env :: query_env where
  "demo_env = \<lparr>qe_resolve = (\<lambda>p. p), qe_exists = (\<lambda>p. demo_fs p \<noteq> None), qe_is_file = (\<lambda>p. demo_fs p \<noteq> None),
     qe_fs = demo_fs, qe_global = Some (demo_context demo_constraints), qe_load = (\<lambda>_. Some (demo_context demo_constraints))\<rparr>"

definition demo_where :: where_args where
  "demo_where = \<lparr>wa_positional = Some ''cpt-s-flow-a'', wa_id = None, wa_artifact = None, wa_include_definitions = False\<rparr>"

theorem validated_refs_resolve_witness:
  "\<exists>rc r. cmd_where_defined demo_env demo_where = Answer rc r
     \<and> dr_definitions r \<noteq> [] \<and> (rc = 0 \<longleftrightarrow> length (dr_definitions r) = 1)"
proof -
  let ?cx = "demo_context demo_constraints" and ?va = "\<lparr>va_path = ''b.md'', va_kind = ''DESIGN'', va_trace = ''FULL'', va_kit = ''k''\<rparr>"
  have d: "distinct (map va_path (select_all ?cx))" "?va \<in> set (select_all ?cx)"
    unfolding demo_parts by (simp_all add: demo_sel_def)
  have h: "demo_hit\<lparr>h_type := Reference\<rparr> \<in> set (scan_cpt_ids (w_fs (cx_world ?cx)) (va_path ?va))"
    unfolding demo_parts by (simp add: demo_scan)
  have x: "\<not> is_external_system_ref (remdups (map lower (cx_systems ?cx))) (h_id (demo_hit\<lparr>h_type := Reference\<rparr>))"
    unfolding demo_parts by code_simp
  have g: "qe_global demo_env = Some ?cx" by (simp add: demo_env_def)
  show ?thesis
    using validated_refs_resolve [OF demo_exit [unfolded demo_args_def] d h _ x g, of False]
    by (simp add: demo_where_def demo_hit_def)
qed

subsection \<open>Definitions and references\<close>

lemma references_split:
  "mset (references_in cx targets True i) = mset (references_in cx targets False i) + mset (definitions_in cx targets i)"
proof -
  have "mset (filter (\<lambda>(path, kind, h). h_id h = i) ts) =
      mset (filter (\<lambda>(path, kind, h). h_id h = i \<and> h_type h \<noteq> Definition) ts)
      + mset (filter (\<lambda>(path, kind, h). h_type h = Definition \<and> h_id h = i) ts)" for ts :: "(string \<times> string \<times> hit) list"
    by (induction ts) auto
  from arg_cong [OF this, of "image_mset hit_location"] show ?thesis
    by (simp add: references_in_def definitions_in_def)
qed

text \<open>\<open>where-used\<close> and \<open>where-defined\<close> divide the hits of an ID: with \<open>--include-definitions\<close> the
  first lists exactly what it lists without the option and what the second lists, as often
  as it occurs, ordered by artifact and line.\<close>

theorem where_used_partition:
  assumes "cmd_where_defined env args = Answer rc d"
    and "cmd_where_used env (args\<lparr>wa_include_definitions := False\<rparr>) = Answer rc1 u"
    and "cmd_where_used env (args\<lparr>wa_include_definitions := True\<rparr>) = Answer rc2 a"
  shows "mset (rr_references a) = mset (rr_references u) + mset (dr_definitions d)
    \<and> sorted_wrt (\<lambda>x y. \<not> key_less lo_artifact lo_line y x) (rr_references a)
    \<and> list_all (\<lambda>l. lo_type l = Definition) (dr_definitions d) \<and> list_all (\<lambda>l. lo_type l = Reference) (rr_references u)"
proof -
  obtain cx targets where t: "scan_targets env (wa_artifact args) = Inr (cx, targets)"
    using assms(2) by (auto simp: cmd_where_used_def Let_def split: if_splits sum.splits)
  have i: "target_id (args\<lparr>wa_include_definitions := x\<rparr>) = target_id args" for x
    by (simp add: target_id_def split: option.split)
  have d: "dr_definitions d = definitions_in cx targets (target_id args)"
    using assms(1) t by (auto simp: cmd_where_defined_def Let_def split: if_splits)
  have u: "rr_references u = sorted_by (key_less lo_artifact lo_line) (references_in cx targets False (target_id args))"
    using assms(2) t by (auto simp: cmd_where_used_def Let_def i split: if_splits)
  have a: "rr_references a = sorted_by (key_less lo_artifact lo_line) (references_in cx targets True (target_id args))"
    using assms(3) t by (auto simp: cmd_where_used_def Let_def i split: if_splits)
  have "list_all (\<lambda>l. lo_type l = Definition) (dr_definitions d)"
    by (auto simp: d definitions_in_def list_all_iff hit_location_def)
  moreover have "lo_type l = Reference" if "l \<in> set (rr_references u)" for l
  proof (cases "lo_type l")
    case Definition
    with that show ?thesis by (auto simp: u references_in_def hit_location_def)
  qed
  then have "list_all (\<lambda>l. lo_type l = Reference) (rr_references u)" by (simp add: list_all_iff)
  ultimately show ?thesis by (simp add: a u d references_split keys.in_order)
qed

definition demo_loc :: "string \<Rightarrow> string \<Rightarrow> hit_type \<Rightarrow> location" where
  "demo_loc path kind ty = \<lparr>lo_artifact = path, lo_artifact_type = kind, lo_line = 1, lo_type = ty, lo_checked = True\<rparr>"

theorem where_used_partition_witness:
  "\<exists>d u a. cmd_where_defined demo_env demo_where = Answer 0 d
     \<and> cmd_where_used demo_env (demo_where\<lparr>wa_include_definitions := False\<rparr>) = Answer 0 u
     \<and> cmd_where_used demo_env (demo_where\<lparr>wa_include_definitions := True\<rparr>) = Answer 0 a
     \<and> mset (rr_references a) = mset (rr_references u) + mset (dr_definitions d) \<and> length (rr_references a) = 2"
proof -
  let ?d = "\<lparr>dr_status = FOUND, dr_id = ''cpt-s-flow-a'', dr_scanned = 2, dr_definitions = [demo_loc ''a.md'' ''PRD'' Definition]\<rparr>"
  let ?u = "\<lparr>rr_id = ''cpt-s-flow-a'', rr_scanned = 2, rr_references = [demo_loc ''b.md'' ''DESIGN'' Reference]\<rparr>"
  let ?a = "\<lparr>rr_id = ''cpt-s-flow-a'', rr_scanned = 2,
    rr_references = [demo_loc ''a.md'' ''PRD'' Definition, demo_loc ''b.md'' ''DESIGN'' Reference]\<rparr>"
  have d: "cmd_where_defined demo_env demo_where = Answer 0 ?d" by code_simp
  have u: "cmd_where_used demo_env (demo_where\<lparr>wa_include_definitions := False\<rparr>) = Answer 0 ?u" by code_simp
  have a: "cmd_where_used demo_env (demo_where\<lparr>wa_include_definitions := True\<rparr>) = Answer 0 ?a" by code_simp
  have "mset (rr_references ?a) = mset (rr_references ?u) + mset (dr_definitions ?d)"
    using where_used_partition [OF d u a] by (rule conjunct1)
  moreover have "length (rr_references ?a) = 2" by simp
  ultimately show ?thesis using d u a by blast
qed

subsection \<open>Listing\<close>

lemma first_of_each_ids: "li_id ` set (first_of_each seen ls) = li_id ` set ls - set seen"
  by (induction seen ls rule: first_of_each.induct) auto

lemma first_of_each_distinct: "distinct (map li_id (first_of_each seen ls))"
proof (induction seen ls rule: first_of_each.induct)
  case (2 seen l ls)
  then show ?case using first_of_each_ids [of "li_id l # seen" ls] by auto
qed simp

text \<open>An entry that is listed is the first one found with its ID.\<close>

lemma first_of_each_first:
  "l \<in> set (first_of_each seen ls) \<Longrightarrow> find (\<lambda>x. li_id x = li_id l) ls = Some l"
proof (induction seen ls rule: first_of_each.induct)
  case (2 seen y ls)
  have fresh: "li_id l \<notin> set s" if "l \<in> set (first_of_each s ls)" for s
    using first_of_each_ids [of s ls] that by auto
  show ?case
  proof (cases "li_id y \<in> set seen")
    case True
    with 2 fresh [of seen] show ?thesis by auto
  next
    case False
    with 2 fresh [of "li_id y # seen"] show ?thesis by auto
  qed
qed simp

text \<open>C37. \<open>list-ids\<close> lists what it found and nothing else: when there is something to scan and the pattern
  compiles, the listed IDs are exactly those of the entries that pass the filters; the list is
  ordered by ID and line; with \<open>--all\<close> it has every entry as often as it was found, and without
  it every ID once, with the first entry found for it.\<close>

theorem list_ids_exact:
  assumes "scan_targets env (la_artifact args) = Inr (cx, targets)" and "targets \<noteq> []"
    and "pattern_filter rx args = Inr keep"
    and "hits = filter (\<lambda>l. kind_filter args l \<and> keep l) (fst (collect_listed cx args targets))"
  shows "\<exists>r. cmd_list_ids rx env args = Inr (Answer 0 r)
    \<and> li_id ` set (ir_ids r) = li_id ` set hits
    \<and> sorted_wrt (\<lambda>a b. \<not> key_less li_id li_line b a) (ir_ids r)
    \<and> (if la_all args then mset (ir_ids r) = mset hits
       else distinct (map li_id (ir_ids r)) \<and> list_all (\<lambda>l. find (\<lambda>x. li_id x = li_id l) hits = Some l) (ir_ids r))"
proof -
  let ?hits = "if la_all args then hits else first_of_each [] hits"
  let ?r = "\<lparr>ir_scanned = length targets, ir_code_scanned = snd (collect_listed cx args targets),
    ir_ids = sorted_by (key_less li_id li_line) ?hits\<rparr>"
  have f: "filter keep (filter (kind_filter args) ls) = filter (\<lambda>l. kind_filter args l \<and> keep l) ls" for ls
    by (simp add: conj_commute)
  have "cmd_list_ids rx env args = Inr (Answer 0 ?r)"
    using assms by (simp add: cmd_list_ids_def Let_def split_beta f)
  moreover have "list_all (\<lambda>l. find (\<lambda>x. li_id x = li_id l) hits = Some l) (first_of_each [] hits)"
    using first_of_each_first by (auto simp: list_all_iff)
  ultimately show ?thesis
    by (intro exI [of _ ?r])
      (simp add: keys.in_order first_of_each_ids first_of_each_distinct distinct_keys_sorted_by list_all_iff)
qed

definition demo_list :: list_args where
  "demo_list = \<lparr>la_artifact = None, la_pattern = Some ''flow'', la_regex = False, la_kind = None, la_all = False, la_include_code = True\<rparr>"

theorem list_ids_exact_witness:
  "\<exists>r. cmd_list_ids (\<lambda>_. Inl []) demo_env demo_list = Inr (Answer 0 r) \<and> li_id ` set (ir_ids r) = {''cpt-s-flow-a''}
     \<and> distinct (map li_id (ir_ids r))"
proof -
  let ?cx = "demo_context demo_constraints" and ?ts = "[(''a.md'', ''PRD''), (''b.md'', ''DESIGN'')]"
  have t: "scan_targets demo_env (la_artifact demo_list) = Inr (?cx, ?ts)"
  proof -
    have "registered_targets ?cx = ?ts" by code_simp
    then show ?thesis by (simp add: scan_targets_def demo_env_def demo_list_def given_def)
  qed
  have p: "pattern_filter (\<lambda>_. Inl []) demo_list = Inr (\<lambda>l. has_sub (li_id l) ''flow'')"
    by (simp add: pattern_filter_def demo_list_def given_def)
  have i: "map li_id (filter (\<lambda>l. kind_filter demo_list l \<and> has_sub (li_id l) ''flow'') (fst (collect_listed ?cx demo_list ?ts)))
      = [''cpt-s-flow-a'', ''cpt-s-flow-a'', ''cpt-s-flow-a'']" by code_simp
  from arg_cong [OF i, of set] have "li_id ` set (filter (\<lambda>l. kind_filter demo_list l \<and> has_sub (li_id l) ''flow'')
      (fst (collect_listed ?cx demo_list ?ts))) = {''cpt-s-flow-a''}" by simp
  with list_ids_exact [OF t _ p refl] show ?thesis by (auto simp: demo_list_def)
qed


subsection \<open>Kinds\<close>

definition kinds_inv :: "kinds_st \<Rightarrow> bool" where
  "kinds_inv st \<longleftrightarrow> distinct (map fst (ks_kind_to_templates st)) \<and> distinct (map fst (ks_template_to_kinds st))
     \<and> (\<forall>k t. t \<in> set (dgetl (ks_kind_to_templates st) k) \<longleftrightarrow> k \<in> set (dgetl (ks_template_to_kinds st) t))
     \<and> (\<forall>k. k \<in> fst ` set (ks_kind_to_templates st) \<longrightarrow> 0 < count_of (ks_counts st) k)"

lemma dgetl_sadd_to: "dgetl (sadd_to k v d) k' = (if k' = k then sadd v (dgetl d k) else dgetl d k')"
  by (simp add: sadd_to_def dgetl_def)

lemma count_of_dset: "count_of (dset k n d) k' = (if k' = k then n else count_of d k')"
  by (simp add: count_of_def)

lemma add_kind_inv: "kinds_inv st \<Longrightarrow> kinds_inv (add_kind template st k)"
proof -
  assume inv: "kinds_inv st"
  have keys: "fst ` set (sadd_to k v d) = insert k (fst ` set d)" for v and d :: "(string \<times> string list) list"
    by (simp add: sadd_to_def)
  have dist: "distinct (map fst d) \<Longrightarrow> distinct (map fst (sadd_to k' v d))" for k' v and d :: "(string \<times> string list) list"
    by (simp add: sadd_to_def)
  show ?thesis
    using inv unfolding kinds_inv_def add_kind_def
    by (simp add: dgetl_sadd_to count_of_dset keys dist)
qed

lemma collect_kinds_inv: "kinds_inv (collect_kinds cx targets)"
proof -
  have "kinds_inv st \<Longrightarrow> kinds_inv (foldl (add_kind template) st ks)" for template st ks
    by (induction ks arbitrary: st) (simp_all add: add_kind_inv)
  then have step: "kinds_inv st \<Longrightarrow> kinds_inv (add_kinds_of cx st t)" for st t
    by (simp add: add_kinds_of_def Let_def split: prod.split)
  have "kinds_inv st \<Longrightarrow> kinds_inv (foldl (add_kinds_of cx) st ts)" for st ts
    by (induction ts arbitrary: st) (simp_all add: step)
  moreover have "kinds_inv \<lparr>ks_kind_to_templates = [], ks_template_to_kinds = [], ks_counts = []\<rparr>"
    by (simp add: kinds_inv_def dgetl_def)
  ultimately show ?thesis by (simp add: collect_kinds_def)
qed

lemma sorted_items_dgetl:
  assumes "distinct (map fst d)"
  shows "set (dgetl (sorted_items d) k) = set (dgetl d k)" and "fst ` set (sorted_items d) = fst ` set d"
proof -
  let ?s = "sorted_by (\<lambda>a b. str_less (fst a) (fst b)) d"
  have "map_of ?s = map_of d"
    using assms by (intro map_of_inject_set [THEN iffD2]) (simp_all add: distinct_keys_sorted_by)
  moreover have "map_of (sorted_items d) k = map_option sorted_strs (map_of ?s k)"
    by (simp add: sorted_items_def map_of_map)
  ultimately show "set (dgetl (sorted_items d) k) = set (dgetl d k)"
    by (simp add: dgetl_def split: option.split)
  show "fst ` set (sorted_items d) = fst ` set d" by (force simp: sorted_items_def)
qed

text \<open>C38. The two directions of \<open>list-id-kinds\<close> agree: for a whole project, an artifact kind is listed under
  an ID kind exactly when that ID kind is listed under the artifact kind; the kinds that are
  listed are the ones with artifacts, in order and once each, and each has a positive count.\<close>

theorem kinds_inverse:
  assumes "cmd_list_id_kinds env None = Answer rc (KindsOfAll kinds counts by_kind by_template n)"
  shows "(\<forall>k t. t \<in> set (dgetl by_kind k) \<longleftrightarrow> k \<in> set (dgetl by_template t))
    \<and> set kinds = fst ` set by_kind \<and> sorted_wrt str_less kinds
    \<and> map fst counts = kinds \<and> list_all (\<lambda>(k, c). 0 < c) counts"
proof -
  obtain cx targets where t: "scan_targets env None = Inr (cx, targets)"
    using assms by (auto simp: cmd_list_id_kinds_def split: sum.splits)
  let ?st = "collect_kinds cx targets" and ?e = "\<lparr>ks_kind_to_templates = [], ks_template_to_kinds = [], ks_counts = []\<rparr>"
  define st where "st = (if targets = [] then ?e else ?st)"
  have inv: "kinds_inv st"
    using collect_kinds_inv [of cx targets] collect_kinds_inv [of cx "[]"] by (simp add: st_def collect_kinds_def target_hits_def)
  have r: "by_kind = sorted_items (ks_kind_to_templates st)" "by_template = sorted_items (ks_template_to_kinds st)"
      "kinds = sorted_strs (map fst (ks_kind_to_templates st))" "counts = map (\<lambda>k. (k, count_of (ks_counts st) k)) kinds"
    using assms t by (auto simp: cmd_list_id_kinds_def Let_def st_def given_def sorted_items_def split: if_splits)
  note d = inv [unfolded kinds_inv_def, THEN conjunct1] inv [unfolded kinds_inv_def, THEN conjunct2, THEN conjunct1]
  have "sorted_wrt str_less kinds" using d(1) by (simp add: r(3) sorted_strs_strict)
  moreover have "map fst counts = kinds" by (simp add: r(4) comp_def)
  moreover have "list_all (\<lambda>(k, c). 0 < c) counts"
    using inv by (auto simp: r(3,4) kinds_inv_def list_all_iff)
  ultimately show ?thesis
    using inv d by (simp add: r(1,2,3) sorted_items_dgetl kinds_inv_def)
qed


theorem kinds_inverse_witness:
  "\<exists>rc kinds counts by_kind by_template n. cmd_list_id_kinds demo_env None = Answer rc (KindsOfAll kinds counts by_kind by_template n)
     \<and> set kinds = fst ` set by_kind \<and> kinds = [''flow''] \<and> counts = [(''flow'', 1)]"
proof -
  have "cmd_list_id_kinds demo_env None = Answer 0 (KindsOfAll [''flow''] [(''flow'', 1)] [(''flow'', [''PRD''])] [(''PRD'', [''flow''])] 2)"
    by code_simp
  with kinds_inverse [OF this] show ?thesis by (intro exI conjI) (assumption | simp)+
qed

text \<open>
  The two commands do not agree on the kind of a composite ID whose names have hyphens: \<open>list-ids\<close> takes
  the last part that is a kind, \<open>list-id-kinds\<close> only every second part. Where no kinds are
  known, \<open>list-ids\<close> takes the last part of the name for the kind.
\<close>

lemma kinds_of_hyphenated_names:
  "infer_kind [''s''] [''feature'', ''flow''] ''cpt-s-feature-my-login-flow-x'' = Some ''flow''
   \<and> infer_kinds [''s''] [''feature'', ''flow''] ''cpt-s-feature-my-login-flow-x'' = [''feature'']
   \<and> infer_kind [''s''] [] ''cpt-s-flow-log-in'' = Some ''in''"
  by code_simp

text \<open>Without any artifact \<open>where-defined\<close> says that the ID is not found and still exits with 0.\<close>

lemma nothing_registered_exits_zero:
  assumes "qe_global env = Some cx" and "registered_targets cx = []" and "target_id args \<noteq> []" and "given (wa_artifact args) = None"
  shows "\<exists>r. cmd_where_defined env args = Answer 0 r \<and> dr_status r = NOT_FOUND"
  using assms by (simp add: cmd_where_defined_def scan_targets_def Let_def)

text \<open>A bad regular expression is not caught.\<close>

lemma bad_pattern_raises:
  assumes "scan_targets env (la_artifact args) = Inr (cx, targets)" and "targets \<noteq> []" and "la_regex args"
    and "la_pattern args = Some p" and "p \<noteq> []" and "rx p = Inl e"
  shows "cmd_list_ids rx env args = Inl e"
  using assms by (simp add: cmd_list_ids_def pattern_filter_def given_def Let_def split_beta)

text \<open>\<open>get-content\<close> of a file of code gives the block of the instruction, whatever ID was asked for.\<close>

lemma instruction_of_any_id:
  "given (ga_inst args) = Some inst \<Longrightarrow> get_by_inst cf inst = Some c \<Longrightarrow> content_of_code cf args = Some c"
  by (simp add: content_of_code_def)

end
