(* ===== verification/Toc_Commands.thy ===== *)
theory Toc_Commands
  imports Toc_Insert
begin

section \<open>The commands on tables of contents (\<open>commands/toc.py\<close>, \<open>commands/validate_toc.py\<close>)\<close>

text \<open>
  \<open>cypilot toc\<close> writes the table of every file it is given and validates what it wrote;
  \<open>cypilot validate-toc\<close> only validates. Both work on a map from resolved paths to texts; the
  resolution of an argument is a parameter. A file that is missing is a value of the result, not
  an exception. The maximum level and the indent are natural numbers.
\<close>

record toc_args =
  ta_files :: "string list"
  ta_max_level :: nat
  ta_indent :: nat
  ta_dry_run :: bool
  ta_skip_validate :: bool

datatype check_status = CheckPass | CheckWarn | CheckFail

record toc_entry =
  te_path :: string
  te_result :: toc_result
  te_validation :: "(check_status \<times> issue list \<times> issue list) option"

datatype overall = OverallOk | OverallValidationFail | OverallPartial | OverallError

definition toc_validation :: "toc_args \<Rightarrow> string \<Rightarrow> string \<Rightarrow> check_status \<times> issue list \<times> issue list" where
  "toc_validation args path content =
     (let rep = validate_toc (Some path) (ta_max_level args) content
      in (if r_errors rep \<noteq> [] then CheckFail else if r_warnings rep \<noteq> [] then CheckWarn else CheckPass,
          r_errors rep, r_warnings rep))"

definition toc_file :: "toc_args \<Rightarrow> fs \<Rightarrow> string \<Rightarrow> toc_entry \<times> fs" where
  "toc_file args fs path =
     (let (r, fs') = process_file (ta_max_level args) (ta_dry_run args) (ta_indent args) fs path
      in (\<lparr>te_path = path, te_result = r,
           te_validation =
             (case fs' path of
                Some content \<Rightarrow>
                  if \<not> ta_skip_validate args \<and> \<not> ta_dry_run args \<and> tr_status r \<noteq> TocError \<and> tr_status r \<noteq> TocSkip
                  then Some (toc_validation args path content) else None
              | None \<Rightarrow> None)\<rparr>, fs'))"

primrec toc_files :: "toc_args \<Rightarrow> fs \<Rightarrow> string list \<Rightarrow> toc_entry list \<times> fs" where
  "toc_files args fs [] = ([], fs)"
| "toc_files args fs (p # ps) =
     (let (e, fs') = toc_file args fs p; (es, fs'') = toc_files args fs' ps in (e # es, fs''))"

definition entry_errors :: "toc_entry \<Rightarrow> nat" where
  "entry_errors e = (case te_validation e of None \<Rightarrow> 0 | Some (st, errs, warns) \<Rightarrow> length errs)"

definition toc_overall :: "toc_entry list \<Rightarrow> overall" where
  "toc_overall es =
     (if sum_list (map entry_errors es) \<noteq> 0 then OverallValidationFail
      else if list_ex (\<lambda>e. tr_status (te_result e) = TocError) es
      then (if length es > 1 then OverallPartial else OverallError)
      else OverallOk)"

definition cmd_toc :: "(string \<Rightarrow> string) \<Rightarrow> toc_args \<Rightarrow> fs \<Rightarrow> (nat \<times> overall \<times> toc_entry list) \<times> fs" where
  "cmd_toc resolve args fs =
     (let (es, fs') = toc_files args fs (map resolve (ta_files args)); overall = toc_overall es
      in ((if sum_list (map entry_errors es) \<noteq> 0 then 2 else if overall = OverallError then 1 else 0, overall, es), fs'))"

record vt_entry =
  vt_path :: string
  vt_found :: bool
  vt_status :: check_status
  vt_errors :: "issue list"
  vt_warnings :: "issue list"

definition validate_toc_file :: "nat \<Rightarrow> fs \<Rightarrow> string \<Rightarrow> vt_entry" where
  "validate_toc_file maxl fs path =
     (case fs path of
        None \<Rightarrow> \<lparr>vt_path = path, vt_found = False, vt_status = CheckFail, vt_errors = [], vt_warnings = []\<rparr>
      | Some content \<Rightarrow>
          (let rep = validate_toc (Some path) maxl content
           in \<lparr>vt_path = path, vt_found = True,
               vt_status = (if r_errors rep \<noteq> [] then CheckFail else if r_warnings rep \<noteq> [] then CheckWarn else CheckPass),
               vt_errors = r_errors rep, vt_warnings = r_warnings rep\<rparr>))"

definition vt_error_count :: "vt_entry \<Rightarrow> nat" where
  "vt_error_count e = (if vt_found e then length (vt_errors e) else 1)"

definition cmd_validate_toc :: "(string \<Rightarrow> string) \<Rightarrow> nat \<Rightarrow> fs \<Rightarrow> string list \<Rightarrow> nat \<times> check_status \<times> vt_entry list" where
  "cmd_validate_toc resolve maxl fs files =
     (let es = map (validate_toc_file maxl fs) (map resolve files);
          errors = sum_list (map vt_error_count es); warnings = sum_list (map (\<lambda>e. length (vt_warnings e)) es)
      in (if errors \<noteq> 0 then 2 else 0,
          if errors \<noteq> 0 then CheckFail else if warnings \<noteq> 0 then CheckWarn else CheckPass, es))"

subsection \<open>What the runs promise\<close>

lemma process_file_frame:
  "snd (process_file maxl dry indent fs path) q = (if q = path then snd (process_file maxl dry indent fs path) path else fs q)"
  by (auto simp: process_file_def Let_def split: option.split prod.split)

lemma process_file_exists: "fs path \<noteq> None \<Longrightarrow> snd (process_file maxl dry indent fs path) path \<noteq> None"
  by (auto simp: process_file_def Let_def split: option.split prod.split)

lemma process_file_missing: "fs path = None \<Longrightarrow> tr_status (fst (process_file maxl dry indent fs path)) = TocError"
  by (simp add: process_file_def)

lemma process_file_dry: "snd (process_file maxl True indent fs path) = fs"
  by (auto simp: process_file_def Let_def split: option.split prod.split)

lemma toc_files_frame: "q \<notin> set ps \<Longrightarrow> snd (toc_files args fs ps) q = fs q"
proof (induction ps arbitrary: fs)
  case (Cons p ps)
  then show ?case
    using process_file_frame [of "ta_max_level args" "ta_dry_run args" "ta_indent args" fs p q]
    by (simp add: toc_file_def Let_def split_beta)
qed simp

lemma toc_files_paths: "map te_path (fst (toc_files args fs ps)) = ps"
  by (induction ps arbitrary: fs) (simp_all add: toc_file_def Let_def split_beta)

lemma toc_files_length: "length (fst (toc_files args fs ps)) = length ps"
  using arg_cong [OF toc_files_paths, of length] by simp

text \<open>An entry of the run was computed for its file, and nothing later changed that file.\<close>

lemma toc_files_entry:
  assumes "distinct ps" and "e \<in> set (fst (toc_files args fs ps))"
  shows "\<exists>fs0. e = fst (toc_file args fs0 (te_path e)) \<and> fs0 (te_path e) = fs (te_path e)
    \<and> snd (toc_files args fs ps) (te_path e) = snd (toc_file args fs0 (te_path e)) (te_path e)"
  using assms
proof (induction ps arbitrary: fs)
  case (Cons p ps)
  obtain e1 fs1 where f: "toc_file args fs p = (e1, fs1)" by (cases "toc_file args fs p")
  have e1: "te_path e1 = p" using f by (auto simp: toc_file_def Let_def split: prod.splits)
  show ?case
  proof (cases "e = e1")
    case True
    have "snd (toc_files args fs1 ps) p = fs1 p" using Cons.prems(1) by (intro toc_files_frame) simp
    then show ?thesis using True f e1 by (intro exI [of _ fs]) (simp add: split_beta)
  next
    case False
    then have e: "e \<in> set (fst (toc_files args fs1 ps))" using Cons.prems(2) f by (simp add: split_beta)
    from e have "te_path e \<in> set ps" using toc_files_paths [of args fs1 ps] by (metis image_eqI image_set)
    then have "te_path e \<noteq> p" using Cons.prems(1) by auto
    then have "fs1 (te_path e) = fs (te_path e)"
      using process_file_frame [of "ta_max_level args" "ta_dry_run args" "ta_indent args" fs p "te_path e"] f
      by (auto simp: toc_file_def Let_def split: prod.splits)
    then show ?thesis using Cons.IH [OF _ e] Cons.prems(1) f by (simp add: split_beta)
  qed
qed simp

text \<open>C24. What \<open>toc\<close> accepts, \<open>validate-toc\<close> accepts: when a run on different existing files that each have
  headings writes and exits with 0, then \<open>validate-toc\<close> with the same maximum level on the
  files as they are afterwards exits with 0.\<close>

theorem toc_then_validate:
  assumes "cmd_toc resolve args fs = ((0, ov, es), fs')"
    and "\<not> ta_dry_run args" and "\<not> ta_skip_validate args" and "distinct (map resolve (ta_files args))"
    and "list_all (\<lambda>e. tr_status (te_result e) \<noteq> TocError \<and> tr_status (te_result e) \<noteq> TocSkip) es"
  shows "fst (cmd_validate_toc resolve (ta_max_level args) fs' (ta_files args)) = 0"
proof -
  let ?ps = "map resolve (ta_files args)"
  have run: "toc_files args fs ?ps = (es, fs')" and z: "sum_list (map entry_errors es) = 0"
    using assms(1) by (auto simp: cmd_toc_def Let_def split: prod.splits if_splits)
  have ok: "vt_error_count (validate_toc_file (ta_max_level args) fs' p) = 0" if p: "p \<in> set ?ps" for p
  proof -
    obtain e where e: "e \<in> set es" "te_path e = p"
      using p toc_files_paths [of args fs ?ps] run by (metis fst_conv image_iff image_set)
    obtain fs0 where f: "e = fst (toc_file args fs0 p)" "fs' p = snd (toc_file args fs0 p) p"
      using toc_files_entry [OF assms(4), of e args fs] e run by auto
    have st: "tr_status (te_result e) \<noteq> TocError" "tr_status (te_result e) \<noteq> TocSkip"
      using assms(5) e(1) by (auto simp: list_all_iff)
    have "fs0 p \<noteq> None" 
    proof
      assume "fs0 p = None"
      from process_file_missing [of fs0, OF this] st(1) f(1) show False by (simp add: toc_file_def Let_def split_beta)
    qed
    then obtain content where c: "fs' p = Some content"
      using process_file_exists f(2) by (fastforce simp: toc_file_def Let_def split_beta)
    have "te_validation e = Some (toc_validation args p content)"
    proof -
      have "snd (process_file (ta_max_level args) (ta_dry_run args) (ta_indent args) fs0 p) p = Some content"
        using f(2) c by (simp add: toc_file_def Let_def split_beta)
      with st assms(2,3) show ?thesis
        unfolding f(1) by (simp add: toc_file_def Let_def split_beta)
    qed
    moreover have "entry_errors e = 0" using z e(1) by simp
    ultimately have "r_errors (validate_toc (Some p) (ta_max_level args) content) = []"
      by (simp add: entry_errors_def toc_validation_def Let_def)
    then show ?thesis by (simp add: validate_toc_file_def c vt_error_count_def Let_def)
  qed
  have "\<forall>n \<in> set (map vt_error_count (map (validate_toc_file (ta_max_level args) fs') ?ps)). n = 0"
    using ok by auto
  then have "sum_list (map vt_error_count (map (validate_toc_file (ta_max_level args) fs') ?ps)) = 0"
    by (simp only: sum_list_eq_0_iff)
  then show ?thesis by (simp add: cmd_validate_toc_def Let_def)
qed

definition toc_demo_fs :: fs where
  "toc_demo_fs p = (if p = ''a.md'' then Some (''# T'' @ [NL] @ ''## A'' @ [NL]) else None)"

definition toc_demo_args :: toc_args where
  "toc_demo_args = \<lparr>ta_files = [''a.md''], ta_max_level = 3, ta_indent = 2, ta_dry_run = False, ta_skip_validate = False\<rparr>"

theorem toc_then_validate_witness:
  "fst (cmd_validate_toc (\<lambda>p. p) 3 (snd (cmd_toc (\<lambda>p. p) toc_demo_args toc_demo_fs)) [''a.md'']) = 0
   \<and> snd (cmd_toc (\<lambda>p. p) toc_demo_args toc_demo_fs) ''a.md'' \<noteq> toc_demo_fs ''a.md''"
proof -
  let ?r = "cmd_toc (\<lambda>p. p) toc_demo_args toc_demo_fs"
  have z: "fst (fst ?r) = 0" by code_simp
  have r: "?r = ((0, fst (snd (fst ?r)), snd (snd (fst ?r))), snd ?r)" using z by (metis prod.collapse)
  have l: "list_all (\<lambda>e. tr_status (te_result e) \<noteq> TocError \<and> tr_status (te_result e) \<noteq> TocSkip) (snd (snd (fst ?r)))"
    by code_simp
  have w: "snd ?r ''a.md'' \<noteq> toc_demo_fs ''a.md''" by code_simp
  from toc_then_validate [OF r _ _ _ l] w show ?thesis by (simp add: toc_demo_args_def)
qed

text \<open>\<open>toc\<close> touches only the files it is given, and none in a dry run.\<close>

theorem toc_frame:
  assumes "q \<notin> set (map resolve (ta_files args)) \<or> ta_dry_run args"
  shows "snd (cmd_toc resolve args fs) q = fs q"
proof -
  have "ta_dry_run args \<Longrightarrow> snd (toc_files args fs ps) = fs" for ps
    by (induction ps arbitrary: fs) (simp_all add: toc_file_def Let_def split_beta process_file_dry)
  then show ?thesis
    using assms toc_files_frame by (auto simp: cmd_toc_def Let_def split_beta)
qed

text \<open>
  The exit code hides a missing file when there are others: the status is \<open>PARTIAL\<close> and the exit
  code 0, while the same file alone makes the command exit with 1. The validating command counts
  a missing file as an error in both cases.
\<close>

lemma missing_file_exit:
  "fst (fst (cmd_toc (\<lambda>p. p) (toc_demo_args\<lparr>ta_files := [''b.md'']\<rparr>) toc_demo_fs)) = 1
   \<and> fst (fst (cmd_toc (\<lambda>p. p) (toc_demo_args\<lparr>ta_files := [''b.md'', ''a.md'']\<rparr>) toc_demo_fs)) = 0
   \<and> fst (cmd_validate_toc (\<lambda>p. p) 3 toc_demo_fs [''b.md'', ''a.md'']) = 2"
  by code_simp

end
