(* ===== verification/Self_Check.thy ===== *)
theory Self_Check
  imports Context_Load
begin

section \<open>Checking the templates and examples of kits (\<open>commands/self_check.py\<close>)\<close>

text \<open>
  \<open>run_self_check_from_meta\<close> holds a kit to its own constraints: the template of every kind has
  to obey the heading contract, to have a placeholder for every ID kind that the constraints
  define and for every reference they require, under the headings they name, and to name no
  other kind; the example of every kind has to pass the check of artifacts.

  Many issues of this file have no code. They are told apart by a constructor in place of the
  English message.
\<close>

datatype template_problem =
    TemplateUnreadable | KindWithoutTemplate | DefinitionMissing | DefinitionOptionalMissing | DefinitionMisplaced
  | ReferenceMissing | ReferenceOptionalMissing | ReferenceMisplaced | InvalidConstraints | ResourceNotFound
  | ManifestProblem

datatype kit_issue =
    Coded issue
  | Uncoded template_problem string nat "(string \<times> pyobj) list"

type_synonym kit_report = "kit_issue list \<times> kit_issue list"

record template_ctx =
  tx_path :: string
  tx_kind :: string
  tx_kit :: string
  tx_lines :: "string list"
  tx_headings :: "string list list option"

definition numbered :: "string list \<Rightarrow> (nat \<times> string) list" where
  "numbered lines = zip [1..<Suc (length lines)] lines"

definition occurrences :: "string list \<Rightarrow> string \<Rightarrow> nat list" where
  "occurrences lines needle =
     (if needle = [] then [] else map fst (filter (\<lambda>(n, l). has_sub l needle) (numbered lines)))"

definition definition_occurrences :: "string list \<Rightarrow> string \<Rightarrow> nat list" where
  "definition_occurrences lines tpl =
     (if tpl = [] then []
      else map fst (filter (\<lambda>(n, l). has_sub l ''**ID**'' \<and> has_sub l (''`'' @ tpl @ ''`'')) (numbered lines)))"

definition template_issue :: "template_ctx \<Rightarrow> template_problem \<Rightarrow> nat \<Rightarrow> (string \<times> pyobj) list \<Rightarrow> kit_issue" where
  "template_issue cx pr line extra =
     Uncoded pr (tx_path cx) line ([(''kit_id'', PStr (tx_kit cx)), (''artifact_kind'', PStr (tx_kind cx))] @ extra)"

definition norm_text :: "string option \<Rightarrow> string" where
  "norm_text t = strip (str_or_empty t)"

definition kind_of_id :: "id_constraint \<Rightarrow> string" where
  "kind_of_id ic = lower (strip (ic_kind ic))"

definition allowed_headings :: "string list option \<Rightarrow> string list" where
  "allowed_headings hs =
     (case hs of None \<Rightarrow> [] | Some xs \<Rightarrow> remdups (map lower (filter (\<lambda>h. h \<noteq> []) (map strip xs))))"

definition active_at :: "string list list \<Rightarrow> nat \<Rightarrow> string list" where
  "active_at headings ln = (if ln < length headings then map strip (headings ! ln) else [])"

definition under_allowed :: "string list \<Rightarrow> string list \<Rightarrow> bool" where
  "under_allowed allowed active = list_ex (\<lambda>a. lower a \<in> set allowed) active"

subsection \<open>Definitions\<close>

definition check_defined_id :: "template_ctx \<Rightarrow> id_constraint \<Rightarrow> kit_report" where
  "check_defined_id cx ic =
     (let id_kind = kind_of_id ic; tpl = norm_text (ic_template ic); occ = definition_occurrences (tx_lines cx) tpl;
          here = [(''id_kind'', PStr id_kind)]; both = here @ [(''id_kind_template'', PStr tpl)];
          allowed = allowed_headings (ic_headings ic)
      in if id_kind = [] then ([], [])
         else if tpl = [] then ([template_issue cx KindWithoutTemplate 1 here], [])
         else if occ = [] then
           (if ic_required ic then ([template_issue cx DefinitionMissing 1 both], [])
            else ([], [template_issue cx DefinitionOptionalMissing 1 both]))
         else (case tx_headings cx of
                 None \<Rightarrow> ([], [])
               | Some hs \<Rightarrow>
                   if allowed = [] then ([], [])
                   else (map (\<lambda>ln. template_issue cx DefinitionMisplaced ln
                            (both @ [(''headings'', strs_obj (sorted_strs allowed)), (''found_headings'', strs_obj (active_at hs ln))]))
                          (filter (\<lambda>ln. \<not> under_allowed allowed (active_at hs ln)) occ), [])))"

subsection \<open>Kinds that the constraints do not know\<close>

definition TPL_PAT :: regex where
  "TPL_PAT = RCat [RLit ''`'', RGrp ''1'' (RCat [RLit ''cpt-'', RStar (RCls (cNot (CHR ''`''))), RLit ''{'',
     RStar (RCls (cNot (CHR ''`'')))]), RLit ''`'']"

text \<open>The loop skips leading placeholders; without a closing brace there is no kind.\<close>

function skip_placeholders :: "string \<Rightarrow> string option" where
  "skip_placeholders s =
     (if \<not> startswith s ''{'' then Some s
      else (case find_sub s ''}'' of
              None \<Rightarrow> None
            | Some e \<Rightarrow>
                (let rest = drop (Suc e) s
                 in skip_placeholders (if startswith rest ''-'' then drop 1 rest else rest))))"
  by pat_completeness auto
termination by (relation "measure length") (auto simp: Let_def, (case_tac s; simp)+)

declare skip_placeholders.simps [simp del]

definition kind_from_pattern :: "string \<Rightarrow> string option" where
  "kind_from_pattern pat =
     (if \<not> startswith pat ''cpt-'' then None
      else (case skip_placeholders (drop 4 pat) of
              None \<Rightarrow> None
            | Some s \<Rightarrow>
                (let token = lower (strip (case find_sub s ''-'' of None \<Rightarrow> s | Some i \<Rightarrow> take i s))
                 in if token = [] then None else Some token)))"

definition defined_kinds :: "kind_constraints \<Rightarrow> string list" where
  "defined_kinds c = remdups (filter (\<lambda>k. k \<noteq> []) (map kind_of_id (kc_defined_id c)))"

definition all_defined_kinds :: "kit_constraints \<Rightarrow> string list" where
  "all_defined_kinds kcs = remdups (concat (map (\<lambda>(k, c). defined_kinds c) kcs))"

definition unknown_kind :: "template_ctx \<Rightarrow> string list \<Rightarrow> string list \<Rightarrow> nat \<times> string \<Rightarrow> match_obj \<Rightarrow> kit_issue list" where
  "unknown_kind cx here all nl m =
     (let found = grp_str m ''1'';
          issue = (\<lambda>code. [Coded (error ''template'' code (tx_path cx) (fst nl)
            [(''kit_id'', PStr (tx_kit cx)), (''artifact_kind'', PStr (tx_kind cx)), (''id_kind_template'', PStr found)])])
      in case kind_from_pattern found of
           None \<Rightarrow> []
         | Some k \<Rightarrow>
             if has_sub (snd nl) ''**ID**''
             then (if k \<notin> set here then issue TEMPLATE_DEF_KIND_NOT_IN_CONSTRAINTS else [])
             else (if k \<notin> set all then issue TEMPLATE_REF_KIND_NOT_IN_CONSTRAINTS else []))"

definition unknown_kinds :: "template_ctx \<Rightarrow> string list \<Rightarrow> string list \<Rightarrow> kit_issue list" where
  "unknown_kinds cx here all =
     concat (map (\<lambda>nl. concat (map (unknown_kind cx here all nl) (re_finditer TPL_PAT (snd nl)))) (numbered (tx_lines cx)))"

subsection \<open>References\<close>

text \<open>What the constraints of all kinds expect of references in this one: required or not, and where.\<close>

type_synonym expectations = "((string \<times> string) \<times> bool \<times> string list) list"

definition add_expectation :: "string \<Rightarrow> string list \<Rightarrow> expectations \<Rightarrow> id_constraint \<Rightarrow> expectations" where
  "add_expectation kind here ex ic =
     (let id_kind = kind_of_id ic; tpl = norm_text (ic_template ic)
      in if id_kind = [] \<or> tpl = [] \<or> id_kind \<in> set here then ex
         else (case dget (case ic_references ic of None \<Rightarrow> [] | Some rs \<Rightarrow> rs) kind of
                 None \<Rightarrow> ex
               | Some rule \<Rightarrow>
                   if rr_coverage rule = Some False then ex
                   else
                     (let required = (rr_coverage rule = Some True); allowed = allowed_headings (rr_headings rule)
                      in case dget ex (id_kind, tpl) of
                           None \<Rightarrow> dset (id_kind, tpl) (required, allowed) ex
                         | Some (r, hs) \<Rightarrow> dset (id_kind, tpl) (r \<or> required, foldl (\<lambda>s h. sadd h s) hs allowed) ex)))"

definition expectations_of :: "string \<Rightarrow> string list \<Rightarrow> kit_constraints \<Rightarrow> expectations" where
  "expectations_of kind here kcs =
     foldl (\<lambda>ex kc. foldl (add_expectation kind here) ex (kc_defined_id (snd kc))) [] kcs"

definition check_reference :: "template_ctx \<Rightarrow> (string \<times> string) \<times> bool \<times> string list \<Rightarrow> kit_report" where
  "check_reference cx e =
     (case e of ((id_kind, tpl), required, allowed) \<Rightarrow>
        (let occ = occurrences (tx_lines cx) tpl;
             both = [(''id_kind'', PStr id_kind), (''id_kind_template'', PStr tpl)]
         in if occ = [] then
              (if required then ([template_issue cx ReferenceMissing 1 both], [])
               else ([], [template_issue cx ReferenceOptionalMissing 1 both]))
            else (case tx_headings cx of
                    None \<Rightarrow> ([], [])
                  | Some hs \<Rightarrow>
                      if \<not> required \<or> allowed = [] \<or> list_ex (\<lambda>ln. under_allowed allowed (active_at hs ln)) occ then ([], [])
                      else ([template_issue cx ReferenceMisplaced (hd occ)
                              (both @ [(''headings'', strs_obj (sorted_strs allowed)),
                                       (''found_headings'', strs_obj (active_at hs (hd occ)))])], []))))"

subsection \<open>One template\<close>

definition join_reports :: "kit_report list \<Rightarrow> kit_report" where
  "join_reports rs = (concat (map fst rs), concat (map snd rs))"

definition check_template :: "rx \<Rightarrow> fs \<Rightarrow> string \<Rightarrow> string \<Rightarrow> string \<Rightarrow> string \<Rightarrow> kit_constraints option \<Rightarrow> kit_report" where
  "check_template rx fs template_path kind kit_id cpath kit_constraints =
     (let kind_u = upper (strip kind)
      in case kit_constraints of
           None \<Rightarrow> ([], [])
         | Some kcs \<Rightarrow>
             (case dget kcs kind_u of
                None \<Rightarrow> ([], [])
              | Some c \<Rightarrow>
                  (let rep = validate_headings_contract rx fs template_path c kind_u (Some cpath) (Some kit_id);
                       errs = map Coded (r_errors rep); warns = map Coded (r_warnings rep)
                   in if errs \<noteq> [] then (errs, warns)
                      else (case read_text_safe fs template_path of
                              None \<Rightarrow>
                                ([Uncoded TemplateUnreadable template_path 1
                                    [(''kit_id'', PStr kit_id), (''artifact_kind'', PStr kind_u)]], warns)
                            | Some lines \<Rightarrow>
                                (let hcs = (case kc_headings c of None \<Rightarrow> [] | Some hs \<Rightarrow> hs);
                                     cx = \<lparr>tx_path = template_path, tx_kind = kind_u, tx_kit = kit_id, tx_lines = lines,
                                           tx_headings = (if hcs = [] then None
                                             else Some (heading_constraint_ids_by_line rx fs template_path hcs))\<rparr>;
                                     defs = join_reports (map (check_defined_id cx) (kc_defined_id c));
                                     unknown = unknown_kinds cx (defined_kinds c) (all_defined_kinds kcs);
                                     refs = join_reports (map (check_reference cx) (expectations_of kind_u (defined_kinds c) kcs))
                                 in (fst defs @ unknown @ fst refs, warns @ snd defs @ snd refs))))))"

subsection \<open>All kits\<close>

text \<open>What the checks of kits ask the file system beyond what loading the context asks.\<close>

record kits_env =
  ke_load :: load_env
  ke_fs :: fs
  ke_exists :: "string \<Rightarrow> bool"
  ke_subdirs :: "string \<Rightarrow> string list"
  ke_md_files :: "string \<Rightarrow> string list"

record check_item =
  ci_kit :: string
  ci_kind :: "string option"
  ci_example :: "string option"
  ci_errors :: "kit_issue list"
  ci_warnings :: "kit_issue list"

record self_check_report =
  sr_status :: status
  sr_kits_checked :: nat
  sr_results :: "check_item list"

definition item_failed :: "check_item \<Rightarrow> bool" where
  "item_failed it = (ci_errors it \<noteq> [])"

definition kit_base :: "kits_env \<Rightarrow> string \<Rightarrow> string \<Rightarrow> kit \<Rightarrow> string" where
  "kit_base env project adapter k =
     (let p = strip (k_path k); r = le_resolve (ke_load env) adapter p
      in if le_is_dir (ke_load env) r then r else le_resolve (ke_load env) project p)"

text \<open>A path of the kit: below the adapter directory when it passes the test there, otherwise below the project.\<close>

definition kit_candidate :: "kits_env \<Rightarrow> (string \<Rightarrow> bool) \<Rightarrow> string \<Rightarrow> string \<Rightarrow> string \<Rightarrow> string" where
  "kit_candidate env ok project adapter rel =
     (let c = le_resolve (ke_load env) adapter rel in if ok c then c else le_resolve (ke_load env) project rel)"

definition example_of :: "kits_env \<Rightarrow> string \<Rightarrow> string option" where
  "example_of env dir =
     (if \<not> ke_exists env dir then None
      else if le_is_file (ke_load env) dir then Some dir
      else (case ke_md_files env dir of [] \<Rightarrow> None | f # _ \<Rightarrow> Some f))"

definition check_kind :: "rx \<Rightarrow> kits_env \<Rightarrow> string \<Rightarrow> string \<Rightarrow> kit \<Rightarrow> string \<Rightarrow> kit_constraints option \<Rightarrow> string
    \<Rightarrow> check_item" where
  "check_kind rx env project adapter k kit_id kcs kind =
     (let le = ke_load env; base = kit_base env project adapter k;
          template = kit_candidate env (le_is_file le) project adapter (get_template_path k kind);
          example = example_of env (kit_candidate env (ke_exists env) project adapter (get_examples_path k kind));
          cpath = le_resolve le base ''constraints.toml'';
          trep = (if le_is_file le template then check_template rx (ke_fs env) template kind kit_id cpath kcs else ([], []));
          erep = (case example of
                    None \<Rightarrow> ([], [])
                  | Some p \<Rightarrow>
                      (let rep = validate_artifact_file rx (ke_fs env) p kind
                             (case kcs of None \<Rightarrow> None | Some d \<Rightarrow> dget d (upper kind)) None (Some cpath) (Some kit_id)
                       in (map Coded (r_errors rep), map Coded (r_warnings rep))))
      in \<lparr>ci_kit = kit_id, ci_kind = Some kind, ci_example = example,
          ci_errors = fst trep @ fst erep, ci_warnings = snd trep @ snd erep\<rparr>)"

definition kinds_to_check :: "kits_env \<Rightarrow> string \<Rightarrow> kit \<Rightarrow> string list" where
  "kinds_to_check env base k =
     (let explicit = sorted_strs (filter (\<lambda>x. x \<noteq> []) (map (\<lambda>(kind, f). strip kind) (k_artifacts k)));
          dir = base @ ''/artifacts''
      in filter (\<lambda>x. x \<noteq> []) (map strip
           (if explicit \<noteq> [] then explicit
            else if le_is_dir (ke_load env) dir then sorted_strs (ke_subdirs env dir) else [])))"

text \<open>The items of one kit, and whether it counts as checked.\<close>

definition check_kit :: "rx \<Rightarrow> kits_env \<Rightarrow> string \<Rightarrow> string \<Rightarrow> string option \<Rightarrow> pyobj \<times> kit \<Rightarrow> check_item list \<times> nat" where
  "check_kit rx env project adapter kit_filter entry =
     (let (key, k) = entry; kit_id = key_str key; base = kit_base env project adapter k
      in if (case kit_filter of None \<Rightarrow> False | Some f \<Rightarrow> f \<noteq> [] \<and> kit_id \<noteq> f) then ([], 0)
         else if strip (k_path k) = [] then ([], 0)
         else (case load_constraints_toml rx (le_constraints (ke_load env) base) of
                 (kcs, e # es) \<Rightarrow>
                   ([\<lparr>ci_kit = kit_id, ci_kind = None, ci_example = None,
                      ci_errors = [Uncoded InvalidConstraints (base @ ''/constraints.toml'') 1 [(''errors'', strs_obj (e # es))]],
                      ci_warnings = []\<rparr>], 1)
               | (kcs, []) \<Rightarrow>
                   (map (check_kind rx env project adapter k kit_id kcs) (kinds_to_check env base k), 1)))"

definition run_self_check_from_meta :: "rx \<Rightarrow> kits_env \<Rightarrow> string \<Rightarrow> string \<Rightarrow> artifacts_meta \<Rightarrow> string option
    \<Rightarrow> nat \<times> self_check_report" where
  "run_self_check_from_meta rx env project adapter m kit_filter =
     (if am_kits m = [] then (1, \<lparr>sr_status = ERROR, sr_kits_checked = 0, sr_results = []\<rparr>)
      else
        (let rs = map (check_kit rx env project adapter kit_filter) (am_kits m);
             results = concat (map fst rs); ok = \<not> list_ex item_failed results
         in (if ok then 0 else 2,
             \<lparr>sr_status = (if ok then PASS else FAIL), sr_kits_checked = sum_list (map snd rs), sr_results = results\<rparr>)))"

end
