(* ===== verification/Validate_Kits.thy ===== *)
theory Validate_Kits
  imports Self_Check
begin

section \<open>The command \<open>validate-kits\<close> (\<open>commands/validate_kits.py\<close>)\<close>

text \<open>
  \<open>run_validate_kits\<close> checks the registered kits in three phases: the constraints of every kit
  load, the resources bound in \<open>core.toml\<close> exist, and the templates and examples pass the
  self-check. \<open>cmd_validate\<close> runs it first. \<open>_validate_kit_by_path\<close> checks a directory that need
  not be registered. Verbosity, which only selects what is printed, is left out; so is the
  truncation of the list of errors.
\<close>

record kit_row =
  ke_kit :: string
  ke_path :: string
  ke_errors :: nat
  ke_kinds :: "string list"

record kits_report =
  kr_status :: status
  kr_kits :: "kit_row list"
  kr_errors :: "kit_issue list"
  kr_self_check :: "self_check_report option"

definition not_initialized :: "nat \<times> kits_report" where
  "not_initialized = (1, \<lparr>kr_status = ERROR, kr_kits = [], kr_errors = [], kr_self_check = None\<rparr>)"

definition skipped_by :: "string option \<Rightarrow> string \<Rightarrow> bool" where
  "skipped_by kit_filter kit_id = (case kit_filter of None \<Rightarrow> False | Some f \<Rightarrow> f \<noteq> [] \<and> kit_id \<noteq> f)"

subsection \<open>The phases\<close>

definition constraints_entry :: "string \<Rightarrow> string \<Rightarrow> kit_constraints option \<times> string list \<Rightarrow> kit_row \<times> kit_issue list" where
  "constraints_entry kit_id root r =
     (\<lparr>ke_kit = kit_id, ke_path = root, ke_errors = length (snd r),
       ke_kinds = (if snd r = [] then sorted_strs (map fst (case fst r of None \<Rightarrow> [] | Some d \<Rightarrow> d)) else [])\<rparr>,
      if snd r = [] then []
      else [Uncoded InvalidConstraints (root @ ''/constraints.toml'') 1
              [(''errors'', strs_obj (snd r)), (''kit'', PStr kit_id)]])"

definition structural_check :: "rx \<Rightarrow> kits_env \<Rightarrow> string \<Rightarrow> string option \<Rightarrow> pyobj \<times> kit \<Rightarrow> (kit_row \<times> kit_issue list) list" where
  "structural_check rx env project kit_filter entry =
     (let kit_id = key_str (fst entry); k = snd entry;
          root = le_resolve (ke_load env) project (strip_by (cOne (CHR ''/'')) (strip (k_path k)))
      in if skipped_by kit_filter kit_id \<or> \<not> is_cypilot_format k then []
         else [constraints_entry kit_id root (load_constraints_toml rx (le_constraints (ke_load env) root))])"

definition missing_resources :: "kits_env \<Rightarrow> string \<Rightarrow> string option \<Rightarrow> string \<times> loaded_kit \<Rightarrow> kit_issue list" where
  "missing_resources env adapter kit_filter entry =
     (if skipped_by kit_filter (fst entry) then []
      else map (\<lambda>(res_id, p). Uncoded ResourceNotFound p 1 [(''kit'', PStr (fst entry))])
             (filter (\<lambda>(res_id, p). \<not> ke_exists env p) (kit_bindings (ke_load env) adapter (fst entry))))"

definition failed_errors :: "self_check_report \<Rightarrow> kit_issue list" where
  "failed_errors r = concat (map ci_errors (filter item_failed (sr_results r)))"

definition run_validate_kits :: "rx \<Rightarrow> kits_env \<Rightarrow> string \<Rightarrow> string \<Rightarrow> cyp_context option \<Rightarrow> string option
    \<Rightarrow> nat \<times> kits_report" where
  "run_validate_kits rx env project adapter ctx kit_filter =
     (case ctx of
        None \<Rightarrow> not_initialized
      | Some cx \<Rightarrow>
          (let structural = concat (map (structural_check rx env project kit_filter) (am_kits (cx_meta cx)));
               resources = concat (map (missing_resources env adapter kit_filter) (cx_loaded cx));
               sc = (case load_artifacts_meta (le_ld (ke_load env)) adapter of
                       Inl e \<Rightarrow> None
                     | Inr m \<Rightarrow> Some (snd (run_self_check_from_meta rx env project adapter m kit_filter)));
               errs = concat (map snd structural) @ resources @ (case sc of None \<Rightarrow> [] | Some r \<Rightarrow> failed_errors r)
           in (if errs = [] then 0 else 2,
               \<lparr>kr_status = (if errs = [] then PASS else FAIL), kr_kits = map fst structural, kr_errors = errs,
                kr_self_check = sc\<rparr>)))"

text \<open>What \<open>cmd_validate\<close> reads of the result.\<close>

definition status_text :: "status \<Rightarrow> string" where
  "status_text s = (case s of PASS \<Rightarrow> ''PASS'' | FAIL \<Rightarrow> ''FAIL'' | ERROR \<Rightarrow> ''ERROR'')"

definition kits_result :: "rx \<Rightarrow> kits_env \<Rightarrow> string \<Rightarrow> string \<Rightarrow> cyp_context \<Rightarrow> (nat \<times> string) option" where
  "kits_result rx env project adapter cx =
     (let (rc, r) = run_validate_kits rx env project adapter (Some cx) None in Some (rc, status_text (kr_status r)))"

subsection \<open>A kit that is not registered\<close>

record kit_dir_env =
  kd_kits :: kits_env
  kd_resolve :: "string \<Rightarrow> string"
  kd_manifest :: "string \<Rightarrow> (string + (pyobj \<times> pyobj) list) option"
  kd_files :: "string \<Rightarrow> kit_files"

definition base_name :: "string \<Rightarrow> string" where
  "base_name p = rev (takeWhile (\<lambda>c. c \<noteq> CHR ''/'') (rev p))"

definition manifest_issues :: "kit_dir_env \<Rightarrow> string \<Rightarrow> string \<Rightarrow> kit_issue list" where
  "manifest_issues env dir slug =
     (let issue = Uncoded ManifestProblem (dir @ ''/manifest.toml'') 1 [(''kit'', PStr slug)]
      in case load_manifest (kd_manifest env dir) of
           Inl e \<Rightarrow> [issue]
         | Inr None \<Rightarrow> []
         | Inr (Some m) \<Rightarrow> map (\<lambda>e. issue) (validate_manifest (kd_files env dir) m))"

definition kind_files :: "kits_env \<Rightarrow> string \<Rightarrow> (pyobj \<times> pyobj) list" where
  "kind_files env dir =
     (let arts = dir @ ''/artifacts'';
          tpl = (\<lambda>kind. arts @ ''/'' @ kind @ ''/template.md'');
          kinds = (if le_is_dir (ke_load env) arts then sorted_strs (ke_subdirs env arts) else [])
      in map (\<lambda>kind. (PStr kind, PDict [(PStr ''template'', PStr (tpl kind)),
                (PStr ''examples'', PStr (arts @ ''/'' @ kind @ ''/examples''))]))
           (filter (\<lambda>kind. le_is_file (ke_load env) (tpl kind)) kinds))"

definition synthetic_meta :: "kits_env \<Rightarrow> string \<Rightarrow> string \<Rightarrow> artifacts_meta" where
  "synthetic_meta env dir slug =
     meta_from_dict
       [(PStr ''version'', PStr ''1.1''), (PStr ''project_root'', PStr (le_parent (ke_load env) dir)),
        (PStr ''kits'', PDict [(PStr slug, PDict [(PStr ''format'', PStr ''Cypilot''), (PStr ''path'', PStr dir),
           (PStr ''artifacts'', PDict (kind_files env dir))])])]"

definition validate_kit_by_path :: "rx \<Rightarrow> kit_dir_env \<Rightarrow> string \<Rightarrow> nat \<times> kits_report" where
  "validate_kit_by_path rx env kit_path =
     (let dir = kd_resolve env kit_path; ks = kd_kits env; slug = base_name dir; parent = le_parent (ke_load ks) dir
      in if \<not> le_is_dir (ke_load ks) dir then not_initialized
         else
           (let (entry, cerrs) = constraints_entry slug dir (load_constraints_toml rx (le_constraints (ke_load ks) dir));
                sc = (if cerrs \<noteq> [] then None
                      else Some (snd (run_self_check_from_meta rx ks parent parent (synthetic_meta ks dir slug) (Some slug))));
                errs = cerrs @ manifest_issues env dir slug @ (case sc of None \<Rightarrow> [] | Some r \<Rightarrow> failed_errors r)
            in (if errs = [] then 0 else 2,
                \<lparr>kr_status = (if errs = [] then PASS else FAIL), kr_kits = [entry], kr_errors = errs, kr_self_check = sc\<rparr>)))"

subsection \<open>The command\<close>

record kits_args =
  ka_path :: "string option"
  ka_kit :: "string option"

definition cmd_validate_kits :: "rx \<Rightarrow> kit_dir_env \<Rightarrow> string \<Rightarrow> string \<Rightarrow> cyp_context option \<Rightarrow> kits_args \<Rightarrow> nat \<times> kits_report" where
  "cmd_validate_kits rx env project adapter ctx args =
     (case ka_path args of
        Some (c # cs) \<Rightarrow> validate_kit_by_path rx env (c # cs)
      | _ \<Rightarrow>
          (case ctx of
             None \<Rightarrow> not_initialized
           | Some cx \<Rightarrow> run_validate_kits rx (kd_kits env) project adapter (Some cx) (ka_kit args)))"

end
