(* ===== verification/Kits_Facts.thy ===== *)
theory Kits_Facts
  imports Validate_Kits Context_Facts Validate_Facts
begin

section \<open>What checking the kits establishes\<close>

text \<open>
  A template that passes has every required definition at its place; the kind that the check
  reads from a placeholder is the kind it was written with; and a validation that exits with 0
  has loaded the constraints of every kit, found every bound resource and passed every template
  and example.
\<close>

subsection \<open>Templates\<close>

lemma numbered_in: "(n, l) \<in> set (numbered lines) \<longleftrightarrow> 1 \<le> n \<and> n \<le> length lines \<and> l = lines ! (n - 1)"
proof -
  have len: "length (numbered lines) = length lines" by (cases lines) (simp_all add: numbered_def del: upt_Suc)
  have nth: "numbered lines ! i = (Suc i, lines ! i)" if "i < length lines" for i
    using that by (simp add: numbered_def del: upt_Suc)
  show ?thesis
  proof
    assume "(n, l) \<in> set (numbered lines)"
    then obtain i where "i < length lines" "numbered lines ! i = (n, l)" by (metis in_set_conv_nth len)
    then show "1 \<le> n \<and> n \<le> length lines \<and> l = lines ! (n - 1)" using nth by auto
  next
    assume a: "1 \<le> n \<and> n \<le> length lines \<and> l = lines ! (n - 1)"
    then have "numbered lines ! (n - 1) = (n, l)" "n - 1 < length (numbered lines)" using nth [of "n - 1"] len by auto
    then show "(n, l) \<in> set (numbered lines)" by (metis nth_mem)
  qed
qed

lemma definition_occurrences_in:
  "n \<in> set (definition_occurrences lines tpl) \<longleftrightarrow>
     tpl \<noteq> [] \<and> 1 \<le> n \<and> n \<le> length lines \<and> has_sub (lines ! (n - 1)) ''**ID**'' \<and> has_sub (lines ! (n - 1)) (''`'' @ tpl @ ''`'')"
  by (force simp: definition_occurrences_def numbered_in)

lemma check_defined_id_ok:
  assumes "fst (check_defined_id cx ic) = []" and "kind_of_id ic \<noteq> []" and "ic_required ic"
  shows "\<exists>n. n \<in> set (definition_occurrences (tx_lines cx) (norm_text (ic_template ic)))
    \<and> (case tx_headings cx of None \<Rightarrow> True | Some hs \<Rightarrow>
         allowed_headings (ic_headings ic) = [] \<or> under_allowed (allowed_headings (ic_headings ic)) (active_at hs n))"
proof -
  let ?occ = "definition_occurrences (tx_lines cx) (norm_text (ic_template ic))"
  have ne: "?occ \<noteq> []" using assms by (auto simp: check_defined_id_def Let_def split: if_splits)
  then have "hd ?occ \<in> set ?occ" by simp
  moreover have "case tx_headings cx of None \<Rightarrow> True | Some hs \<Rightarrow>
      allowed_headings (ic_headings ic) = [] \<or> under_allowed (allowed_headings (ic_headings ic)) (active_at hs (hd ?occ))"
    using assms ne calculation by (auto simp: check_defined_id_def Let_def filter_empty_conv split: if_splits option.splits)
  ultimately show ?thesis by blast
qed

text \<open>C30. A template that passes the self-check has every required definition where it belongs: for
  every required ID kind of its constraints there is a line that has the marker \<open>**ID**\<close> and the
  kind's template in back ticks, below one of the headings that the constraint allows.\<close>

theorem template_has_definitions:
  assumes "fst (check_template rx fs p kind kit_id cpath (Some kcs)) = []"
    and "dget kcs (upper (strip kind)) = Some c" and "ic \<in> set (kc_defined_id c)" and "kind_of_id ic \<noteq> []" and "ic_required ic"
  shows "\<exists>lines n. read_text_safe fs p = Some lines \<and> 1 \<le> n \<and> n \<le> length lines
    \<and> has_sub (lines ! (n - 1)) ''**ID**'' \<and> has_sub (lines ! (n - 1)) (''`'' @ norm_text (ic_template ic) @ ''`'')
    \<and> (case kc_headings c of Some (h # hs) \<Rightarrow>
          allowed_headings (ic_headings ic) = []
          \<or> under_allowed (allowed_headings (ic_headings ic)) (active_at (heading_constraint_ids_by_line rx fs p (h # hs)) n)
        | _ \<Rightarrow> True)"
proof -
  have "r_errors (validate_headings_contract rx fs p c (upper (strip kind)) (Some cpath) (Some kit_id)) = []"
    using assms(1,2) by (auto simp: check_template_def Let_def split: if_splits)
  then obtain lines where l: "read_text_safe fs p = Some lines"
    using assms(1,2) by (auto simp: check_template_def Let_def split: option.splits if_splits)
  let ?hcs = "case kc_headings c of None \<Rightarrow> [] | Some hs \<Rightarrow> hs"
  let ?cx = "\<lparr>tx_path = p, tx_kind = upper (strip kind), tx_kit = kit_id, tx_lines = lines,
    tx_headings = (if ?hcs = [] then None else Some (heading_constraint_ids_by_line rx fs p ?hcs))\<rparr>"
  have "fst (check_defined_id ?cx ic) = []"
    using assms(1,2,3) l by (auto simp: check_template_def Let_def join_reports_def split: if_splits)
  from check_defined_id_ok [OF this assms(4,5)] obtain n where
    n: "n \<in> set (definition_occurrences lines (norm_text (ic_template ic)))"
       "case tx_headings ?cx of None \<Rightarrow> True | Some hs \<Rightarrow>
          allowed_headings (ic_headings ic) = [] \<or> under_allowed (allowed_headings (ic_headings ic)) (active_at hs n)"
    by auto
  from n(2) have "case kc_headings c of Some (h # hs) \<Rightarrow>
          allowed_headings (ic_headings ic) = []
          \<or> under_allowed (allowed_headings (ic_headings ic)) (active_at (heading_constraint_ids_by_line rx fs p (h # hs)) n)
        | _ \<Rightarrow> True"
    by (auto split: option.splits list.splits)
  with n(1) l show ?thesis by (auto simp: definition_occurrences_in)
qed

subsection \<open>The kind of a placeholder\<close>

lemma find_sub_hd: "find_sub (c # cs) [c] = Some 0"
  by simp

lemma find_sub_char: "c \<notin> set xs \<Longrightarrow> find_sub (xs @ c # ys) [c] = Some (length xs)"
  by (induction xs) auto

text \<open>The kind that the check reads from a placeholder is the one it was written with: from
  \<open>cpt-{x}-K-...\<close> it reads \<open>K\<close>, when \<open>x\<close> has no closing brace and \<open>K\<close> is a word in lower case
  that has no hyphen and does not start like a placeholder.\<close>

theorem kind_from_pattern_render:
  assumes "CHR ''}'' \<notin> set x" and "k \<noteq> []" and "CHR ''-'' \<notin> set k" and "hd k \<noteq> CHR ''{''"
    and "lower k = k" and "strip k = k"
  shows "kind_from_pattern (''cpt-{'' @ x @ ''}-'' @ k @ ''-'' @ rest) = Some k"
proof -
  let ?s = "k @ ''-'' @ rest"
  have "CHR ''}'' \<notin> set (CHR ''{'' # x)" using assms(1) by simp
  from find_sub_char [OF this, of "CHR ''-'' # ?s"]
  have f: "find_sub (''{'' @ x @ ''}-'' @ ?s) ''}'' = Some (Suc (length x))" by simp
  have "skip_placeholders ?s = Some ?s"
    using assms(2,4) by (cases k) (simp_all add: skip_placeholders.simps [of "_ # _"])
  moreover have "skip_placeholders (''{'' @ x @ ''}-'' @ ?s) = skip_placeholders ?s"
    using f by (simp add: skip_placeholders.simps [of "CHR ''{'' # _"])
  ultimately have "skip_placeholders (drop 4 (''cpt-{'' @ x @ ''}-'' @ ?s)) = Some ?s" by simp
  moreover have "find_sub ?s ''-'' = Some (length k)" using find_sub_char [OF assms(3)] by simp
  ultimately show ?thesis using assms(2,5,6) by (simp add: kind_from_pattern_def)
qed

theorem kind_from_pattern_render_witness:
  "kind_from_pattern ''cpt-{system}-flow-{slug}'' = Some ''flow''"
proof -
  have "lower ''flow'' = ''flow''" "strip ''flow'' = ''flow''" by code_simp+
  with kind_from_pattern_render [of "''system''" "''flow''" "''{slug}''"] show ?thesis by simp
qed


definition demo_ic :: id_constraint where
  "demo_ic = cov_id\<lparr>ic_kind := ''flow'', ic_required := True, ic_template := Some ''cpt-{system}-flow-{slug}''\<rparr>"

theorem template_has_definitions_witness:
  "\<exists>n. 1 \<le> n \<and> n \<le> (1 :: nat) \<and> has_sub ([''**ID**: `cpt-{system}-flow-{slug}`''] ! (n - 1)) ''`cpt-{system}-flow-{slug}`''"
proof -
  let ?fs = "\<lambda>_ :: string. Some ''**ID**: `cpt-{system}-flow-{slug}`''"
  have a: "fst (check_template (\<lambda>_. Inl []) ?fs ''t.md'' ''PRD'' ''k'' ''c'' (Some [(''PRD'', demo_kind [demo_ic])])) = []"
    by code_simp
  have b: "dget [(''PRD'', demo_kind [demo_ic])] (upper (strip ''PRD'')) = Some (demo_kind [demo_ic])" by code_simp
  have c: "demo_ic \<in> set (kc_defined_id (demo_kind [demo_ic]))" by code_simp
  have d: "kind_of_id demo_ic \<noteq> []" "ic_required demo_ic" by code_simp+
  have r: "read_text_safe ?fs ''t.md'' = Some [''**ID**: `cpt-{system}-flow-{slug}`'']" by code_simp
  have n: "norm_text (ic_template demo_ic) = ''cpt-{system}-flow-{slug}''" by code_simp
  from template_has_definitions [OF a b c d] show ?thesis by (auto simp: r n)
qed

subsection \<open>The validation as a whole\<close>

lemma failed_errors_Nil: "failed_errors r = [] \<longleftrightarrow> list_all (\<lambda>it. ci_errors it = []) (sr_results r)"
  by (auto simp: failed_errors_def concat_map_Nil_iff list_all_iff item_failed_def)

lemma validate_runs_kits_check:
  assumes "o_exit (cmd_validate rx (Some cx) load_ctx (kits_result rx env project adapter) args) = 0"
    and "am_kits (cx_meta cx) \<noteq> []"
  shows "kr_errors (snd (run_validate_kits rx env project adapter (Some cx) None)) = []"
proof (rule ccontr)
  assume "kr_errors (snd (run_validate_kits rx env project adapter (Some cx) None)) \<noteq> []"
  then have "kits_result rx env project adapter cx = Some (2, ''FAIL'')"
    by (simp add: kits_result_def run_validate_kits_def Let_def status_text_def split: if_splits)
  with assms show False by (simp add: cmd_validate_def error_outcome_def)
qed

lemma cmd_validate_kits_cong:
  "kits_check cx = kits_check' cx
   \<Longrightarrow> cmd_validate rx (Some cx) load_ctx kits_check args = cmd_validate rx (Some cx) load_ctx kits_check' args"
  by (simp add: cmd_validate_def)

lemma check_kit_ok:
  assumes "list_all (\<lambda>it. ci_errors it = []) (fst (check_kit rx env project adapter None (key, k)))" and "strip (k_path k) \<noteq> []"
    and "base = kit_base env project adapter k" and "r = load_constraints_toml rx (le_constraints (ke_load env) base)"
  shows "snd r = [] \<and> list_all (\<lambda>kind. ci_errors (check_kind rx env project adapter k (key_str key) (fst r) kind) = [])
    (kinds_to_check env base k)"
proof (cases "snd r")
  case Nil
  then have "r = (fst r, [])" by (metis prod.collapse)
  then show ?thesis using assms by (simp add: check_kit_def Let_def list_all_iff split: prod.splits)
next
  case (Cons e es)
  then have "r = (fst r, e # es)" by (metis prod.collapse)
  then show ?thesis using assms by (simp add: check_kit_def Let_def split: prod.splits)
qed

text \<open>C4. A validation that exits with 0 has checked the kits as well: every resource that is bound for a
  loaded kit exists, and when the registry loads, for every kit with a path the constraints
  parsed without error, and for every kind of artifact the template and the one example that the
  check picks for the kind have no error. Further examples of a kind are not looked at.\<close>

theorem passing_run_checks_kits:
  assumes "o_exit (cmd_validate rx (Some cx) load_ctx (kits_result rx env project adapter) args) = 0"
    and "am_kits (cx_meta cx) \<noteq> []" and "load_artifacts_meta (le_ld (ke_load env)) adapter = Inr m"
  shows "list_all (\<lambda>(kit_id, lk). list_all (\<lambda>(res, p). ke_exists env p) (kit_bindings (ke_load env) adapter kit_id)) (cx_loaded cx)
    \<and> list_all (\<lambda>(key, k). strip (k_path k) = []
        \<or> (let base = kit_base env project adapter k; r = load_constraints_toml rx (le_constraints (ke_load env) base)
           in snd r = [] \<and> list_all (\<lambda>kind. ci_errors (check_kind rx env project adapter k (key_str key) (fst r) kind) = [])
                             (kinds_to_check env base k))) (am_kits m)"
proof -
  from validate_runs_kits_check [OF assms(1,2)] have res: "concat (map (missing_resources env adapter None) (cx_loaded cx)) = []"
    and sc: "failed_errors (snd (run_self_check_from_meta rx env project adapter m None)) = []"
    using assms(3) by (simp_all add: run_validate_kits_def Let_def)
  have "list_all (\<lambda>(kit_id, lk). list_all (\<lambda>(res, p). ke_exists env p) (kit_bindings (ke_load env) adapter kit_id)) (cx_loaded cx)"
    using res by (fastforce simp: concat_map_Nil_iff list_all_iff missing_resources_def skipped_by_def filter_empty_conv)
  moreover have items: "list_all (\<lambda>it. ci_errors it = []) (fst (check_kit rx env project adapter None kk))" if "kk \<in> set (am_kits m)" for kk
    using sc that by (auto simp: failed_errors_Nil run_self_check_from_meta_def Let_def list_all_iff split: if_splits)
  have "case kk of (key, k) \<Rightarrow> strip (k_path k) = []
        \<or> (let base = kit_base env project adapter k; r = load_constraints_toml rx (le_constraints (ke_load env) base)
           in snd r = [] \<and> list_all (\<lambda>kind. ci_errors (check_kind rx env project adapter k (key_str key) (fst r) kind) = [])
                             (kinds_to_check env base k))" if "kk \<in> set (am_kits m)" for kk
  proof -
    obtain key k where kk: "kk = (key, k)" by (cases kk)
    from that have "list_all (\<lambda>it. ci_errors it = []) (fst (check_kit rx env project adapter None (key, k)))"
      using items kk by simp
    from check_kit_ok [OF this _ refl refl] show ?thesis by (auto simp: kk Let_def)
  qed
  ultimately show ?thesis by (simp add: list_all_iff)
qed


text \<open>A kit with one kind, whose template is sound, next to the passing project.\<close>

definition kit_toml :: "(pyobj \<times> pyobj) list" where
  "kit_toml = [(PStr ''PRD'', PDict [(PStr ''identifiers'', PDict [(PStr ''flow'', PDict [(PStr ''template'', PStr ''cpt-{system}-flow-{slug}'')])])])]"

definition kits_demo :: kits_env where
  "kits_demo =
     \<lparr>ke_load = clean_env\<lparr>le_ld := (\<lambda>p. if p = ''A/config/artifacts.toml''
          then Some (Inr (PDict [(PStr ''kits'', PDict [(PStr ''k'', PDict [(PStr ''format'', PStr ''Cypilot''), (PStr ''path'', PStr ''kits/k'')])])]))
          else None),
        le_is_dir := (\<lambda>p. p = ''A/kits/k'' \<or> p = ''A/kits/k/artifacts''),
        le_is_file := (\<lambda>p. p = ''A/kits/k/artifacts/PRD/template.md''),
        le_resolve := (\<lambda>b r. b @ ''/'' @ r),
        le_constraints := (\<lambda>p. if p = ''A/kits/k'' then Some (Inr kit_toml) else None)\<rparr>,
      ke_fs = (\<lambda>_. Some ''**ID**: `cpt-{system}-flow-{slug}`''), ke_exists = (\<lambda>_. False),
      ke_subdirs = (\<lambda>_. [''PRD'']), ke_md_files = (\<lambda>_. [])\<rparr>"

lemma kits_demo_passes:
  "kits_result (\<lambda>_. Inl []) kits_demo ''P'' ''A'' (demo_context demo_constraints) = Some (0, ''PASS'')"
  by code_simp

theorem passing_run_checks_kits_witness:
  "\<exists>m k. load_artifacts_meta (le_ld (ke_load kits_demo)) ''A'' = Inr m \<and> am_kits m = [(PStr ''k'', k)]
     \<and> kinds_to_check kits_demo ''A/kits/k'' k = [''PRD'']
     \<and> ci_errors (check_kind (\<lambda>_. Inl []) kits_demo ''P'' ''A'' k ''k''
          (fst (load_constraints_toml (\<lambda>_. Inl []) (Some (Inr kit_toml)))) ''PRD'') = []"
proof -
  let ?k = "\<lparr>k_id = PStr ''k'', k_format = ''Cypilot'', k_path = ''kits/k'', k_artifacts = []\<rparr>"
  let ?m = "new_meta ''1.0'' ''..'' [(PStr ''k'', ?k)] [] []" and ?cx = "demo_context demo_constraints"
  have e: "o_exit (cmd_validate (\<lambda>_. Inl []) (Some ?cx) (\<lambda>_. None) (kits_result (\<lambda>_. Inl []) kits_demo ''P'' ''A'') demo_args) = 0"
    using demo_exit cmd_validate_kits_cong [of "kits_result (\<lambda>_. Inl []) kits_demo ''P'' ''A''" ?cx "\<lambda>_. Some (0, ''PASS'')"]
      kits_demo_passes by metis
  have k: "am_kits (cx_meta ?cx) \<noteq> []" by code_simp
  have m: "load_artifacts_meta (le_ld (ke_load kits_demo)) ''A'' = Inr ?m" by code_simp
  have b: "kit_base kits_demo ''P'' ''A'' ?k = ''A/kits/k''" "strip (k_path ?k) \<noteq> []" by code_simp+
  have c: "le_constraints (ke_load kits_demo) ''A/kits/k'' = Some (Inr kit_toml)" by code_simp
  have kd: "kinds_to_check kits_demo ''A/kits/k'' ?k = [''PRD'']" by code_simp
  have am: "am_kits ?m = [(PStr ''k'', ?k)]" by (simp add: new_meta_def)
  from passing_run_checks_kits [OF e k m, THEN conjunct2, unfolded am]
  have "ci_errors (check_kind (\<lambda>_. Inl []) kits_demo ''P'' ''A'' ?k ''k''
      (fst (load_constraints_toml (\<lambda>_. Inl []) (Some (Inr kit_toml)))) ''PRD'') = []"
    using b by (simp add: Let_def c kd key_str_def)
  with m am kd show ?thesis by blast
qed

text \<open>
  The structural check resolves a kit's path against the project root only, where loading and the
  self-check try the adapter directory first: of a kit below the adapter directory it reads no
  constraints at all and reports it as sound. The self-check still finds the error.
\<close>

lemma structural_check_other_root:
  assumes "le_constraints (ke_load env) (le_resolve (ke_load env) project (strip_by (cOne (CHR ''/'')) (strip (k_path k)))) = None"
  shows "concat (map snd (structural_check rx env project f (key, k))) = []"
  using assms by (simp add: structural_check_def constraints_entry_def load_constraints_toml_def Let_def)

text \<open>A project whose registry cannot be loaded again skips the self-check without an error.\<close>

lemma no_registry_no_self_check:
  "load_artifacts_meta (le_ld (ke_load env)) adapter = Inl e
   \<Longrightarrow> kr_self_check (snd (run_validate_kits rx env project adapter (Some cx) f)) = None"
  by (simp add: run_validate_kits_def Let_def)

end
