(* ===== verification/Parsing.thy ===== *)
theory Parsing
  imports Doc_Scan Py_Sorting
begin

section \<open>Lettered sections and fields (\<open>utils/parsing.py\<close>, \<open>constants.py\<close>)\<close>

text \<open>
  The helpers that read requirement files and older artifacts: sections with a letter, blocks of
  fields in bold, list items, IDs in back ticks. They work on a text or on a list of lines; the
  pattern of section headers and of IDs is an argument. The two functions that split a text into
  sections are shown to be one, and a field's block is exactly what stands between its header
  and the next.
\<close>

definition up_or_digit :: "char \<Rightarrow> bool" where
  "up_or_digit c = (is_upper_az c \<or> is_digit c)"

definition SECTION_RE :: regex where
  "SECTION_RE = RCat [RLit ''###'', RSp1, RLit ''Section'', RSp1, RGrp ''1'' (RPlus (RCls up_or_digit)), RLit '':'', RSp1,
     RGrp ''2'' (RPlusLazy (RCls cDot)), RSp, REnd]"

definition HEADING_ID_RE :: regex where
  "HEADING_ID_RE = RCat [RCls (cOne (CHR ''#'')), RUpTo 5 (RCls (cOne (CHR ''#''))), RSp1, RGrp ''1'' (RCls is_upper_az),
     RLit ''.'', RSp1, RStar (RCls cDot), REnd]"

definition FIELD_HEADER_RE :: regex where
  "FIELD_HEADER_RE = RCat [RSp, ROpt (RCls (cAny ''-*'')), RSp, RLit ''**'', RGrp ''1'' (RPlus (RCls (cNot (CHR ''*'')))),
     RLit ''**:'', RSp, RGrp ''2'' (RStar (RCls cDot)), REnd]"

definition LIST_ITEM_RE :: regex where
  "LIST_ITEM_RE = RCat [RSp, RCls (cAny ''-*''), RSp1, RPlus (RCls (\<lambda>c. \<not> py_space c))]"

definition BACKTICKED_RE :: regex where
  "BACKTICKED_RE = RCat [RLit ''`'', RGrp ''1'' (RPlus (RCls (cNot (CHR ''`'')))), RLit ''`'']"

subsection \<open>Sections\<close>

definition parse_required_sections :: "string \<Rightarrow> (string \<times> string) list" where
  "parse_required_sections content =
     foldl (\<lambda>d line. case re_match SECTION_RE line of None \<Rightarrow> d | Some m \<Rightarrow> dset (grp_str m ''1'') (grp_str m ''2'') d)
       [] (splitlines content)"

definition find_present_section_ids :: "string \<Rightarrow> string list" where
  "find_present_section_ids content =
     concat (map (\<lambda>line. case re_match HEADING_ID_RE line of None \<Rightarrow> [] | Some m \<Rightarrow> [grp_str m ''1'']) (splitlines content))"

record sections_st =
  ss_order :: "string list"
  ss_sections :: "(string \<times> string list) list"
  ss_current :: "string option"

definition section_letter :: "regex \<Rightarrow> string \<Rightarrow> string option" where
  "section_letter rx line = (case re_match rx (strip line) of None \<Rightarrow> None | Some m \<Rightarrow> Some (upper (grp_str m ''1'')))"

definition section_step :: "regex \<Rightarrow> sections_st \<Rightarrow> string \<Rightarrow> sections_st" where
  "section_step rx st line =
     (case section_letter rx line of
        Some l \<Rightarrow>
          (if dhas (ss_sections st) l then st\<lparr>ss_current := Some l\<rparr>
           else \<lparr>ss_order = ss_order st @ [l], ss_sections = dset l [] (ss_sections st), ss_current = Some l\<rparr>)
      | None \<Rightarrow>
          (case ss_current st of
             None \<Rightarrow> st
           | Some l \<Rightarrow> st\<lparr>ss_sections := dappend l line (ss_sections st)\<rparr>))"

definition no_sections :: sections_st where
  "no_sections = \<lparr>ss_order = [], ss_sections = [], ss_current = None\<rparr>"

definition split_by_section_letter :: "string \<Rightarrow> regex \<Rightarrow> string list \<times> (string \<times> string list) list" where
  "split_by_section_letter content rx =
     (let st = foldl (section_step rx) no_sections (splitlines content) in (ss_order st, ss_sections st))"

record offsets_st =
  of_order :: "string list"
  of_sections :: "(string \<times> string list) list"
  of_offsets :: "(string \<times> nat) list"
  of_current :: "string option"

definition offset_step :: "regex \<Rightarrow> offsets_st \<Rightarrow> nat \<times> string \<Rightarrow> offsets_st" where
  "offset_step rx st il =
     (case section_letter rx (snd il) of
        Some l \<Rightarrow>
          (if dhas (of_sections st) l then st\<lparr>of_current := Some l\<rparr>
           else \<lparr>of_order = of_order st @ [l], of_sections = dset l [] (of_sections st),
                 of_offsets = dset l (fst il + 1) (of_offsets st), of_current = Some l\<rparr>)
      | None \<Rightarrow>
          (case of_current st of
             None \<Rightarrow> st
           | Some l \<Rightarrow> st\<lparr>of_sections := dappend l (snd il) (of_sections st)\<rparr>))"

definition split_by_section_letter_with_offsets :: "string \<Rightarrow> regex
    \<Rightarrow> string list \<times> (string \<times> string list) list \<times> (string \<times> nat) list" where
  "split_by_section_letter_with_offsets content rx =
     (let lines = splitlines content;
          st = foldl (offset_step rx) \<lparr>of_order = [], of_sections = [], of_offsets = [], of_current = None\<rparr>
                 (zip [1..<Suc (length lines)] lines)
      in (of_order st, of_sections st, of_offsets st))"

subsection \<open>Fields\<close>

definition is_field_header_terminator :: "string \<Rightarrow> bool" where
  "is_field_header_terminator line =
     (case re_match FIELD_HEADER_RE line of
        None \<Rightarrow> False
      | Some m \<Rightarrow>
          (let stripped = lstrip_by py_space line; value = strip (grp_str m ''2'')
           in if \<not> (startswith stripped ''- **'' \<or> startswith stripped ''* **'') then True
              else if value = [] \<or> value = ''None'' \<or> startswith value ''`'' \<or> startswith value ''['' then True
              else \<not> 40 < length value))"

record field =
  fb_index :: nat
  fb_value :: string
  fb_tail :: "string list"

fun field_go :: "nat \<Rightarrow> string \<Rightarrow> string list \<Rightarrow> field option" where
  "field_go idx name [] = None"
| "field_go idx name (line # lines) =
     (case re_match FIELD_HEADER_RE line of
        None \<Rightarrow> field_go (Suc idx) name lines
      | Some m \<Rightarrow>
          if strip (grp_str m ''1'') \<noteq> name then field_go (Suc idx) name lines
          else Some \<lparr>fb_index = idx, fb_value = grp_str m ''2'',
                 fb_tail = takeWhile (\<lambda>l. \<not> is_field_header_terminator l) lines\<rparr>)"

definition field_block :: "string list \<Rightarrow> string \<Rightarrow> field option" where
  "field_block lines name = field_go 0 name lines"

definition has_list_item :: "string list \<Rightarrow> bool" where
  "has_list_item lines = list_ex (\<lambda>l. re_match LIST_ITEM_RE l \<noteq> None) lines"

definition extract_backticked_ids :: "string \<Rightarrow> regex \<Rightarrow> string list" where
  "extract_backticked_ids line pattern =
     filter (\<lambda>t. re_fullmatch pattern t \<noteq> None) (map (\<lambda>m. strip (grp_str m ''1'')) (re_finditer BACKTICKED_RE line))"

subsection \<open>Splitting\<close>

definition sections_of :: "offsets_st \<Rightarrow> sections_st" where
  "sections_of st = \<lparr>ss_order = of_order st, ss_sections = of_sections st, ss_current = of_current st\<rparr>"

lemma offset_step_sections: "sections_of (offset_step rx st il) = section_step rx (sections_of st) (snd il)"
  by (simp add: offset_step_def section_step_def sections_of_def split: option.split)

text \<open>Both splits find the same sections in the same order.\<close>

theorem split_offsets_equiv:
  "(let (order, secs, offsets) = split_by_section_letter_with_offsets content rx in (order, secs))
   = split_by_section_letter content rx"
proof -
  have go: "sections_of (foldl (offset_step rx) st (zip is ls)) = foldl (section_step rx) (sections_of st) ls"
    if "length is = length ls" for st "is" ls
    using that by (induction "is" ls arbitrary: st rule: list_induct2) (simp_all add: offset_step_sections)
  have len: "length [1..<Suc (length (splitlines content))] = length (splitlines content)"
    by (cases "splitlines content") (simp_all del: upt_Suc)
  from go [OF len, of "\<lparr>of_order = [], of_sections = [], of_offsets = [], of_current = None\<rparr>"]
  show ?thesis
    by (simp add: split_by_section_letter_with_offsets_def split_by_section_letter_def Let_def sections_of_def no_sections_def
        sections_st.defs del: upt_Suc split: prod.split) (metis sections_st.select_convs(1,2))
qed


lemma mset_dappend:
  "distinct (map fst d) \<Longrightarrow> l \<in> fst ` set d
   \<Longrightarrow> mset (concat (map snd (dappend l x d))) = add_mset x (mset (concat (map snd d)))"
proof -
  have "distinct (map fst d) \<Longrightarrow> dget d l = Some xs
      \<Longrightarrow> mset (concat (map snd (dset l (xs @ [x]) d))) = add_mset x (mset (concat (map snd d)))" for xs
    by (induction d) (auto split: if_splits)
  moreover assume "distinct (map fst d)" "l \<in> fst ` set d"
  ultimately show ?thesis
    by (cases "dget d l") (auto simp: dappend_def dgetl_def map_of_eq_None_iff)
qed

lemma fst_dset_present: "l \<in> fst ` set d \<Longrightarrow> map fst (dset l v d) = map fst d"
  by (induction d) (auto simp: rev_image_eqI)

definition sections_inv :: "sections_st \<Rightarrow> bool" where
  "sections_inv st \<longleftrightarrow> map fst (ss_sections st) = ss_order st \<and> distinct (ss_order st)
     \<and> (case ss_current st of None \<Rightarrow> ss_order st = [] | Some l \<Rightarrow> l \<in> set (ss_order st))"

lemma section_step_inv: "sections_inv st \<Longrightarrow> sections_inv (section_step rx st line)"
proof -
  assume inv: "sections_inv st"
  then have keys: "fst ` set (ss_sections st) = set (ss_order st)" by (metis list.set_map sections_inv_def)
  show ?thesis
  proof (cases "section_letter rx line")
    case None
    with inv keys show ?thesis
      by (auto simp: section_step_def sections_inv_def dappend_def fst_dset_present split: option.split)
  next
    case (Some l)
    with inv keys show ?thesis
      by (auto simp: section_step_def sections_inv_def dhas_iff dset_new split: option.split)
  qed
qed

definition is_section :: "regex \<Rightarrow> string \<Rightarrow> bool" where
  "is_section rx line = (section_letter rx line \<noteq> None)"

abbreviation body :: "sections_st \<Rightarrow> string multiset" where
  "body st \<equiv> mset (concat (map snd (ss_sections st)))"

lemma section_step_body:
  assumes "sections_inv st"
  shows "body (section_step rx st line) = (if is_section rx line \<or> ss_current st = None then body st else add_mset line (body st))"
proof -
  from assms have keys: "fst ` set (ss_sections st) = set (ss_order st)" by (metis list.set_map sections_inv_def)
  show ?thesis
  proof (cases "section_letter rx line")
    case None
    with assms keys show ?thesis
      by (auto simp: section_step_def is_section_def sections_inv_def mset_dappend split: option.split)
  next
    case (Some l)
    with assms keys show ?thesis by (auto simp: section_step_def is_section_def sections_inv_def dhas_iff dset_new)
  qed
qed

lemma section_step_current: "ss_current (section_step rx st line) = None \<longleftrightarrow> \<not> is_section rx line \<and> ss_current st = None"
  by (auto simp: section_step_def is_section_def split: option.split)

lemma sections_run:
  assumes "sections_inv st"
  shows "sections_inv (foldl (section_step rx) st ls)
    \<and> body (foldl (section_step rx) st ls) = body st
      + mset (filter (\<lambda>l. \<not> is_section rx l) (if ss_current st = None then dropWhile (\<lambda>l. \<not> is_section rx l) ls else ls))"
  using assms
proof (induction ls arbitrary: st)
  case (Cons l ls)
  show ?case
    using Cons.IH [OF section_step_inv [OF Cons.prems, of rx l]] section_step_body [OF Cons.prems, of rx l]
    by (simp add: section_step_current)
qed simp

text \<open>C39. Splitting a text by lettered sections loses no line: the letters are listed once each in the
  order of the sections, and the sections together hold exactly the lines after the first
  header that are no headers, each as often as it occurs.\<close>

theorem split_sections_conserve:
  "let (order, secs) = split_by_section_letter content rx
   in map fst secs = order \<and> distinct order
      \<and> mset (concat (map snd secs)) =
        mset (filter (\<lambda>l. \<not> is_section rx l) (dropWhile (\<lambda>l. \<not> is_section rx l) (splitlines content)))"
proof -
  have "sections_inv no_sections" by (simp add: sections_inv_def no_sections_def)
  from sections_run [OF this, of rx "splitlines content"] show ?thesis
    by (simp add: split_by_section_letter_def Let_def sections_inv_def no_sections_def)
qed

subsection \<open>Fields\<close>

definition names_field :: "string \<Rightarrow> string \<Rightarrow> string \<Rightarrow> bool" where
  "names_field name v line =
     (case re_match FIELD_HEADER_RE line of None \<Rightarrow> False | Some m \<Rightarrow> strip (grp_str m ''1'') = name \<and> grp_str m ''2'' = v)"

lemma field_go_Some:
  "field_go idx name lines = Some f \<Longrightarrow> \<exists>pre h post. lines = pre @ h # fb_tail f @ post \<and> fb_index f = idx + length pre
     \<and> names_field name (fb_value f) h \<and> list_all (\<lambda>l. \<forall>v. \<not> names_field name v l) pre
     \<and> list_all (\<lambda>l. \<not> is_field_header_terminator l) (fb_tail f) \<and> (post = [] \<or> is_field_header_terminator (hd post))"
proof (induction idx name lines rule: field_go.induct)
  case (2 idx name line lines)
  show ?case
  proof (cases "\<exists>v. names_field name v line")
    case False
    have "\<exists>pre h post. lines = pre @ h # fb_tail f @ post \<and> fb_index f = Suc idx + length pre
        \<and> names_field name (fb_value f) h \<and> list_all (\<lambda>l. \<forall>v. \<not> names_field name v l) pre
        \<and> list_all (\<lambda>l. \<not> is_field_header_terminator l) (fb_tail f) \<and> (post = [] \<or> is_field_header_terminator (hd post))"
    proof (cases "re_match FIELD_HEADER_RE line")
      case None
      with "2.IH"(1) "2.prems" show ?thesis by simp
    next
      case (Some m)
      then have "strip (grp_str m ''1'') \<noteq> name" using False by (auto simp: names_field_def)
      with Some "2.IH"(2) "2.prems" show ?thesis by simp
    qed
    then obtain pre h post where "lines = pre @ h # fb_tail f @ post \<and> fb_index f = Suc idx + length pre
        \<and> names_field name (fb_value f) h \<and> list_all (\<lambda>l. \<forall>v. \<not> names_field name v l) pre
        \<and> list_all (\<lambda>l. \<not> is_field_header_terminator l) (fb_tail f) \<and> (post = [] \<or> is_field_header_terminator (hd post))"
      by (elim exE)
    with False show ?thesis by (intro exI [of _ "line # pre"] exI [of _ h] exI [of _ post]) auto
  next
    case True
    let ?P = "\<lambda>l. \<not> is_field_header_terminator l"
    from True "2.prems" have f: "fb_index f = idx" "names_field name (fb_value f) line" "fb_tail f = takeWhile ?P lines"
      by (auto simp: names_field_def split: option.splits if_splits)
    have "dropWhile ?P lines = [] \<or> is_field_header_terminator (hd (dropWhile ?P lines))"
      using hd_dropWhile [of ?P lines] by auto
    moreover have "list_all ?P (takeWhile ?P lines)" by (auto simp: list_all_iff dest: set_takeWhileD)
    ultimately show ?thesis
      by (intro exI [of _ "[]"] exI [of _ line] exI [of _ "dropWhile ?P lines"]) (simp add: f)
  qed
qed simp

text \<open>A field's block is found where it is: the value is that of the first header with the field's
  name, and the tail is everything up to the next line that ends a block or the end.\<close>

theorem field_block_spec:
  assumes "field_block lines name = Some f"
  shows "\<exists>pre h post. lines = pre @ h # fb_tail f @ post \<and> fb_index f = length pre
     \<and> names_field name (fb_value f) h \<and> list_all (\<lambda>l. \<forall>v. \<not> names_field name v l) pre
     \<and> list_all (\<lambda>l. \<not> is_field_header_terminator l) (fb_tail f) \<and> (post = [] \<or> is_field_header_terminator (hd post))"
  using field_go_Some [of 0 name lines f] assms by (simp add: field_block_def)

theorem field_block_spec_witness:
  "\<exists>pre h post. [''x'', ''**Status**: open'', ''- a'', ''**Next**: y''] = pre @ h # [''- a''] @ post \<and> length pre = 1
     \<and> names_field ''Status'' ''open'' h"
proof -
  let ?f = "\<lparr>fb_index = 1, fb_value = ''open'', fb_tail = [''- a'']\<rparr>"
  have "field_block [''x'', ''**Status**: open'', ''- a'', ''**Next**: y''] ''Status'' = Some ?f" by code_simp
  from field_block_spec [OF this] show ?thesis by fastforce
qed

end
