(* ===== verification/Language_Config.thy ===== *)
theory Language_Config
  imports Project_Files Codebase
begin

section \<open>Comment styles of languages (\<open>utils/language_config.py\<close>)\<close>

text \<open>
  A configuration says which file extensions to scan and how comments start. It comes from the
  project's configuration, whose lists are taken as they are, so that their elements may be any
  object, or from defaults. The pattern for comment prefixes is a string of escaped
  alternatives; the patterns for markers are built from it, and are expressions here, with the
  prefixes as literals, which is what escaping them means.
\<close>

definition DQ3 :: string where
  "DQ3 = [CHR 0x22, CHR 0x22, CHR 0x22]"

type_synonym comment_style = "string list \<times> (string \<times> string) list \<times> string list"

definition DEFAULT_FILE_EXTENSIONS :: "string list" where
  "DEFAULT_FILE_EXTENSIONS = [''.py'', ''.md'', ''.js'', ''.ts'', ''.tsx'', ''.go'', ''.rs'', ''.java'', ''.cs'', ''.sql'']"

definition DEFAULT_SINGLE_LINE_COMMENTS :: "string list" where
  "DEFAULT_SINGLE_LINE_COMMENTS = [''#'', ''//'', ''--'']"

definition DEFAULT_MULTI_LINE_COMMENTS :: "(string \<times> string) list" where
  "DEFAULT_MULTI_LINE_COMMENTS = [(''/*'', ''*/''), (''<!--'', ''-->'')]"

definition DEFAULT_BLOCK_COMMENT_PREFIXES :: "string list" where
  "DEFAULT_BLOCK_COMMENT_PREFIXES = [''*'']"

definition EXTENSION_COMMENT_DEFAULTS :: "(string \<times> comment_style) list" where
  "EXTENSION_COMMENT_DEFAULTS =
     [(''.py'', ([''#''], [(DQ3, DQ3)], [])),
      (''.pyi'', ([''#''], [(DQ3, DQ3)], [])),
      (''.rb'', ([''#''], [(''=begin'', ''=end'')], [])),
      (''.sh'', ([''#''], [], [])),
      (''.bash'', ([''#''], [], [])),
      (''.zsh'', ([''#''], [], [])),
      (''.yml'', ([''#''], [], [])),
      (''.yaml'', ([''#''], [], [])),
      (''.toml'', ([''#''], [], [])),
      (''.r'', ([''#''], [], [])),
      (''.pl'', ([''#''], [(''=pod'', ''=cut'')], [])),
      (''.js'', ([''//''], [(''/*'', ''*/'')], [''*''])),
      (''.jsx'', ([''//''], [(''/*'', ''*/'')], [''*''])),
      (''.ts'', ([''//''], [(''/*'', ''*/'')], [''*''])),
      (''.tsx'', ([''//''], [(''/*'', ''*/'')], [''*''])),
      (''.mjs'', ([''//''], [(''/*'', ''*/'')], [''*''])),
      (''.mts'', ([''//''], [(''/*'', ''*/'')], [''*''])),
      (''.go'', ([''//''], [(''/*'', ''*/'')], [''*''])),
      (''.rs'', ([''//''], [(''/*'', ''*/'')], [''*''])),
      (''.java'', ([''//''], [(''/*'', ''*/'')], [''*''])),
      (''.kt'', ([''//''], [(''/*'', ''*/'')], [''*''])),
      (''.kts'', ([''//''], [(''/*'', ''*/'')], [''*''])),
      (''.scala'', ([''//''], [(''/*'', ''*/'')], [''*''])),
      (''.c'', ([''//''], [(''/*'', ''*/'')], [''*''])),
      (''.h'', ([''//''], [(''/*'', ''*/'')], [''*''])),
      (''.cpp'', ([''//''], [(''/*'', ''*/'')], [''*''])),
      (''.hpp'', ([''//''], [(''/*'', ''*/'')], [''*''])),
      (''.cs'', ([''//''], [(''/*'', ''*/'')], [''*''])),
      (''.swift'', ([''//''], [(''/*'', ''*/'')], [''*''])),
      (''.dart'', ([''//''], [(''/*'', ''*/'')], [''*''])),
      (''.php'', ([''//'', ''#''], [(''/*'', ''*/'')], [''*''])),
      (''.sql'', ([''--''], [(''/*'', ''*/'')], [''*''])),
      (''.lua'', ([''--''], [(''--['' @ ''['', '']'' @ '']'')], [])),
      (''.hs'', ([''--''], [(''{-'', ''-}'')], [])),
      (''.md'', ([], [(''<!--'', ''-->'')], [])),
      (''.html'', ([], [(''<!--'', ''-->'')], [])),
      (''.xml'', ([], [(''<!--'', ''-->'')], [])),
      (''.svg'', ([], [(''<!--'', ''-->'')], [])),
      (''.vue'', ([''//''], [(''/*'', ''*/''), (''<!--'', ''-->'')], [''*''])),
      (''.svelte'', ([''//''], [(''/*'', ''*/''), (''<!--'', ''-->'')], [''*''])),
      (''.css'', ([], [(''/*'', ''*/'')], [''*''])),
      (''.scss'', ([''//''], [(''/*'', ''*/'')], [''*''])),
      (''.less'', ([''//''], [(''/*'', ''*/'')], [''*''])),
      (''.ex'', ([''#''], [], [])),
      (''.exs'', ([''#''], [], [])),
      (''.erl'', ([''%''], [], [])),
      (''.clj'', (['';''], [], [])),
      (''.lisp'', (['';''], [(''#|'', ''|#'')], []))]"

record language_config =
  lc_extensions :: "pyobj list"
  lc_single :: "pyobj list"
  lc_multi :: "pyobj list"
  lc_block :: "pyobj list"

definition pair_obj :: "string \<times> string \<Rightarrow> pyobj" where
  "pair_obj se = PDict [(PStr ''start'', PStr (fst se)), (PStr ''end'', PStr (snd se))]"

definition default_language_config :: language_config where
  "default_language_config =
     \<lparr>lc_extensions = map PStr DEFAULT_FILE_EXTENSIONS, lc_single = map PStr DEFAULT_SINGLE_LINE_COMMENTS,
      lc_multi = map pair_obj DEFAULT_MULTI_LINE_COMMENTS, lc_block = map PStr DEFAULT_BLOCK_COMMENT_PREFIXES\<rparr>"

subsection \<open>Patterns\<close>

text \<open>What \<open>build_comment_pattern\<close> raises on elements that are no strings or have no start.\<close>

datatype pattern_error = NotAString | NotADict | MissingStart

definition SPECIAL_CHARS :: string where
  "SPECIAL_CHARS = ''()[]{}?*+-|^$.&~# '' @ [CHR 0x5C, CHR 0x09, CHR 0x0A, CHR 0x0D, CHR 0x0B, CHR 0x0C]"

definition re_escape :: "string \<Rightarrow> string" where
  "re_escape s = concat (map (\<lambda>c. if c \<in> set SPECIAL_CHARS then [CHR 0x5C, c] else [c]) s)"

definition text_of :: "pyobj \<Rightarrow> pattern_error + string" where
  "text_of v = (case v of PStr s \<Rightarrow> Inr s | _ \<Rightarrow> Inl NotAString)"

definition start_of :: "pyobj \<Rightarrow> pattern_error + string" where
  "start_of v = (case v of PDict d \<Rightarrow> if phas d ''start'' then text_of (pget d ''start'') else Inl MissingStart | _ \<Rightarrow> Inl NotADict)"

definition comment_prefixes :: "language_config \<Rightarrow> pattern_error + string list" where
  "comment_prefixes lc =
     seq_results (map text_of (lc_single lc) @ map start_of (lc_multi lc) @ map text_of (lc_block lc))"

definition build_comment_pattern :: "language_config \<Rightarrow> pattern_error + string" where
  "build_comment_pattern lc =
     (case comment_prefixes lc of Inl e \<Rightarrow> Inl e | Inr ps \<Rightarrow> Inr (''(?:'' @ join_with ''|'' (map re_escape ps) @ '')''))"

fun alternatives :: "string list \<Rightarrow> regex" where
  "alternatives [] = REps"
| "alternatives [p] = RLit p"
| "alternatives (p # ps) = RAlt (RLit p) (alternatives ps)"

definition marker_re :: "string \<Rightarrow> string list \<Rightarrow> regex" where
  "marker_re word prefixes =
     RCat [RSp, alternatives prefixes, RSp, ROpt (RSeq (RLit ''!no-cpt'') RSp1), RLit word, RSp1,
       RGrp ''1'' (RPlus (RCls (\<lambda>c. \<not> py_space c)))]"

definition no_marker_re :: "string \<Rightarrow> string list \<Rightarrow> regex" where
  "no_marker_re word prefixes = RCat [RSp, alternatives prefixes, RStar (RCls cDot), RLit word]"

definition build_cypilot_begin_regex :: "language_config \<Rightarrow> pattern_error + regex" where
  "build_cypilot_begin_regex lc = map_sum id (marker_re ''cpt-begin'') (comment_prefixes lc)"

definition build_cypilot_end_regex :: "language_config \<Rightarrow> pattern_error + regex" where
  "build_cypilot_end_regex lc = map_sum id (marker_re ''cpt-end'') (comment_prefixes lc)"

definition build_no_cypilot_begin_regex :: "language_config \<Rightarrow> pattern_error + regex" where
  "build_no_cypilot_begin_regex lc = map_sum id (no_marker_re ''!no-cpt-begin'') (comment_prefixes lc)"

definition build_no_cypilot_end_regex :: "language_config \<Rightarrow> pattern_error + regex" where
  "build_no_cypilot_end_regex lc = map_sum id (no_marker_re ''!no-cpt-end'') (comment_prefixes lc)"

subsection \<open>The configuration of a project\<close>

text \<open>A list or a dictionary among the file extensions cannot be put into a set.\<close>

datatype config_error = Unhashable | ConfigNotADict

definition hashable :: "pyobj \<Rightarrow> bool" where
  "hashable v = (case v of PList _ \<Rightarrow> False | PDict _ \<Rightarrow> False | _ \<Rightarrow> True)"

definition list_or :: "(pyobj \<times> pyobj) list \<Rightarrow> string \<Rightarrow> pyobj list \<Rightarrow> pyobj list" where
  "list_or d k dflt = (if phas d k then (case pget d k of PList xs \<Rightarrow> xs | _ \<Rightarrow> dflt) else dflt)"

definition config_of_scanning :: "(pyobj \<times> pyobj) list \<Rightarrow> config_error + language_config" where
  "config_of_scanning sc =
     (let exts = list_or sc ''fileExtensions'' (lc_extensions default_language_config)
      in if \<not> list_all hashable exts then Inl Unhashable
         else Inr \<lparr>lc_extensions = foldl (\<lambda>s e. sadd e s) [] exts,
                   lc_single = list_or sc ''singleLineComments'' (lc_single default_language_config),
                   lc_multi = list_or sc ''multiLineComments'' (lc_multi default_language_config),
                   lc_block = list_or sc ''blockCommentPrefixes'' (lc_block default_language_config)\<rparr>)"

definition load_language_config :: "proj_world \<Rightarrow> path \<Rightarrow> config_error + language_config" where
  "load_language_config w start =
     (case find_project_root w start of
        None \<Rightarrow> Inr default_language_config
      | Some root \<Rightarrow>
          (case load_project_config w root of
             None \<Rightarrow> Inr default_language_config
           | Some (PDict cfg) \<Rightarrow>
               (case (if py_truth (pget cfg ''codeScanning'') then pget cfg ''codeScanning'' else pget cfg ''code_scanning'') of
                  PDict sc \<Rightarrow> config_of_scanning sc
                | _ \<Rightarrow> Inr default_language_config)
           | Some _ \<Rightarrow> Inl ConfigNotADict))"

subsection \<open>Comment styles by extension\<close>

record merged_comments =
  mc_single :: "string list"
  mc_multi :: "(string \<times> string) list"
  mc_seen :: "string list"

definition merge_single :: "string list \<Rightarrow> string list \<Rightarrow> string list" where
  "merge_single acc xs = foldl (\<lambda>acc s. sadd s acc) acc xs"

definition pair_key :: "string \<times> string \<Rightarrow> string" where
  "pair_key m = fst m @ snd m"

fun merge_multi :: "(string \<times> string) list \<Rightarrow> string list \<Rightarrow> (string \<times> string) list \<Rightarrow> (string \<times> string) list \<times> string list" where
  "merge_multi acc seen [] = (acc, seen)"
| "merge_multi acc seen (m # ms) =
     (let key = pair_key m
      in if key \<in> set seen then merge_multi acc seen ms else merge_multi (acc @ [m]) (key # seen) ms)"

definition merge_extension :: "merged_comments \<Rightarrow> string \<Rightarrow> merged_comments" where
  "merge_extension st ext =
     (case dget EXTENSION_COMMENT_DEFAULTS (lower ext) of
        None \<Rightarrow> st
      | Some (single, multi, block) \<Rightarrow>
          (let (ms, seen) = merge_multi (mc_multi st) (mc_seen st) multi
           in \<lparr>mc_single = merge_single (mc_single st) single, mc_multi = ms, mc_seen = seen\<rparr>))"

definition comment_defaults_for_extensions :: "string list \<Rightarrow> string list \<times> (string \<times> string) list" where
  "comment_defaults_for_extensions extensions =
     (let st = foldl merge_extension \<lparr>mc_single = [], mc_multi = [], mc_seen = []\<rparr> extensions in (mc_single st, mc_multi st))"


subsection \<open>Merging\<close>

text \<open>The styles that the table has for the given extensions.\<close>

definition styles_of :: "string list \<Rightarrow> comment_style list" where
  "styles_of extensions =
     concat (map (\<lambda>e. case dget EXTENSION_COMMENT_DEFAULTS (lower e) of None \<Rightarrow> [] | Some st \<Rightarrow> [st]) extensions)"

lemma set_merge_single: "set (merge_single acc xs) = set acc \<union> set xs"
  by (induction xs arbitrary: acc) (auto simp: merge_single_def)

lemma distinct_merge_single: "distinct acc \<Longrightarrow> distinct (merge_single acc xs)"
  by (induction xs arbitrary: acc) (auto simp: merge_single_def)

lemma merge_multi_spec:
  assumes "set seen = pair_key ` set acc" and "distinct (map pair_key acc)" and "merge_multi acc seen ms = (acc', seen')"
  shows "set seen' = pair_key ` set acc' \<and> distinct (map pair_key acc')
    \<and> set acc' \<subseteq> set acc \<union> set ms \<and> pair_key ` set acc' = pair_key ` (set acc \<union> set ms)"
  using assms
proof (induction acc seen ms rule: merge_multi.induct)
  case (2 acc seen m ms)
  show ?case
  proof (cases "pair_key m \<in> set seen")
    case True
    with 2 have "set seen' = pair_key ` set acc' \<and> distinct (map pair_key acc')
        \<and> set acc' \<subseteq> set acc \<union> set ms \<and> pair_key ` set acc' = pair_key ` (set acc \<union> set ms)"
      by simp
    with True "2.prems"(1) show ?thesis by auto
  next
    case False
    with 2 have "set seen' = pair_key ` set acc' \<and> distinct (map pair_key acc')
        \<and> set acc' \<subseteq> set (acc @ [m]) \<union> set ms \<and> pair_key ` set acc' = pair_key ` (set (acc @ [m]) \<union> set ms)"
      by simp
    then show ?thesis by auto
  qed
qed auto

definition merged_inv :: "comment_style list \<Rightarrow> merged_comments \<Rightarrow> bool" where
  "merged_inv sts st \<longleftrightarrow> distinct (mc_single st) \<and> set (mc_single st) = (\<Union>s \<in> set sts. set (fst s))
     \<and> set (mc_seen st) = pair_key ` set (mc_multi st) \<and> distinct (map pair_key (mc_multi st))
     \<and> set (mc_multi st) \<subseteq> (\<Union>s \<in> set sts. set (fst (snd s)))
     \<and> pair_key ` set (mc_multi st) = pair_key ` (\<Union>s \<in> set sts. set (fst (snd s)))"

lemma merge_extension_inv:
  assumes "merged_inv sts st"
  shows "merged_inv (sts @ styles_of [e]) (merge_extension st e)"
proof (cases "dget EXTENSION_COMMENT_DEFAULTS (lower e)")
  case None
  with assms show ?thesis by (simp add: merge_extension_def styles_of_def)
next
  case (Some style)
  obtain single multi block where style: "style = (single, multi, block)" by (cases style)
  obtain ms seen where m: "merge_multi (mc_multi st) (mc_seen st) multi = (ms, seen)" by fastforce
  note i = assms [unfolded merged_inv_def]
  from i have "set (mc_seen st) = pair_key ` set (mc_multi st)" "distinct (map pair_key (mc_multi st))" by auto
  note r = merge_multi_spec [OF this m]
  have k: "pair_key ` set ms = pair_key ` set (mc_multi st) \<union> pair_key ` set multi" using r by (simp add: image_Un)
  have "set ms \<subseteq> (\<Union>s \<in> set sts. set (fst (snd s))) \<union> set multi" using i r by blast
  then show ?thesis
    using i r k Some style m
    by (simp add: merge_extension_def styles_of_def merged_inv_def set_merge_single distinct_merge_single image_Un Un_commute)
qed

text \<open>The comment styles for several file extensions are the union of the styles that the table has
  for each, without regard to case: every single-line prefix of one of them is listed once, and
  of the pairs of delimiters that spell the same text, one.\<close>

theorem comment_defaults_union:
  assumes "comment_defaults_for_extensions extensions = (single, multi)"
  shows "distinct single \<and> set single = (\<Union>s \<in> set (styles_of extensions). set (fst s))
    \<and> distinct (map pair_key multi) \<and> set multi \<subseteq> (\<Union>s \<in> set (styles_of extensions). set (fst (snd s)))
    \<and> pair_key ` set multi = pair_key ` (\<Union>s \<in> set (styles_of extensions). set (fst (snd s)))"
proof -
  have "merged_inv (sts @ styles_of exts) (foldl merge_extension st exts)" if "merged_inv sts st" for sts st exts
    using that
  proof (induction exts arbitrary: sts st)
    case (Cons e exts)
    from Cons.IH [OF merge_extension_inv [OF Cons.prems, of e]] show ?case by (simp add: styles_of_def)
  qed (simp add: styles_of_def)
  from this [of "[]" "\<lparr>mc_single = [], mc_multi = [], mc_seen = []\<rparr>" extensions]
  have "merged_inv (styles_of extensions) (foldl merge_extension \<lparr>mc_single = [], mc_multi = [], mc_seen = []\<rparr> extensions)"
    by (simp add: merged_inv_def)
  then show ?thesis
    using assms by (auto simp: comment_defaults_for_extensions_def merged_inv_def Let_def)
qed

theorem comment_defaults_union_witness:
  "comment_defaults_for_extensions [''.PHP'', ''.py'', ''.js''] = ([''//'', ''#''], [(''/*'', ''*/''), (DQ3, DQ3)])
   \<and> distinct [''//'', ''#'']"
proof -
  have r: "comment_defaults_for_extensions [''.PHP'', ''.py'', ''.js''] = ([''//'', ''#''], [(''/*'', ''*/''), (DQ3, DQ3)])"
    by code_simp
  from comment_defaults_union [OF this] r show ?thesis by blast
qed

subsection \<open>Escaping\<close>

fun unescape :: "string \<Rightarrow> string" where
  "unescape [] = []"
| "unescape [c] = [c]"
| "unescape (c # d # s) = (if c = CHR 0x5C then d # unescape s else c # unescape (d # s))"

lemma re_escape_Cons: "re_escape (c # s) = (if c \<in> set SPECIAL_CHARS then CHR 0x5C # c # re_escape s else c # re_escape s)"
  by (simp add: re_escape_def)

text \<open>Escaping loses nothing.\<close>

lemma unescape_escape: "unescape (re_escape s) = s"
proof (induction s)
  case (Cons c s)
  have "CHR 0x5C \<in> set SPECIAL_CHARS" by (simp add: SPECIAL_CHARS_def)
  then have "unescape (c # re_escape s) = c # unescape (re_escape s)" if "c \<notin> set SPECIAL_CHARS"
    using that by (cases "re_escape s") auto
  with Cons show ?case by (simp add: re_escape_Cons)
qed (simp add: re_escape_def)

text \<open>
  The markers that these patterns look for are not the ones that \<open>codebase.py\<close> parses: a line that opens
  a block there does not match, and a line that matches here opens none.
\<close>

lemma marker_styles_differ:
  "(case build_cypilot_begin_regex default_language_config of
      Inl e \<Rightarrow> False
    | Inr r \<Rightarrow> re_match r ''# @cpt-begin:cpt-s-flow-a:p1:inst-b'' = None \<and> re_match r ''# cpt-begin cpt-s-flow-a'' \<noteq> None)
   \<and> re_search BLOCK_BEGIN_RE ''# @cpt-begin:cpt-s-flow-a:p1:inst-b'' \<noteq> None
   \<and> re_search BLOCK_BEGIN_RE ''# cpt-begin cpt-s-flow-a'' = None"
  by code_simp

end
