(* ===== verification/Init_Project.thy ===== *)
theory Init_Project
  imports Kit_Commands Registry
begin

section \<open>Setting up a project (\<open>commands/init.py\<close>)\<close>

text \<open>
  \<open>cpt init\<close> copies the program's files from the cache into the project, writes the configuration,
  installs the default kit and puts a managed block into the project's \<open>AGENTS.md\<close> and \<open>CLAUDE.md\<close>.
  The texts of the three READMEs have characters outside the model's range and are parameters, like the
  cache directory and the clock.
\<close>

record init_env =
  in_kit :: kit_env
  in_cache :: path
  in_now :: string
  in_core_readme :: string
  in_gen_readme :: string
  in_config_readme :: string

definition COPY_DIRS :: "string list" where
  "COPY_DIRS = [''architecture'', ''requirements'', ''schemas'', ''workflows'', ''skills'']"

definition DEFAULT_INSTALL_DIR :: string where
  "DEFAULT_INSTALL_DIR = ''cypilot''"

datatype init_action = Created | Updated | Unchanged | Skipped | MissingInCache | WouldCopy

subsection \<open>Copying from the cache\<close>

definition copy_one :: "bool \<Rightarrow> path \<Rightarrow> path \<Rightarrow> string \<Rightarrow> (string \<times> init_action) list \<Rightarrow> (string \<times> init_action) list act" where
  "copy_one force src dst name results =
     and_then (look (\<lambda>dk. (is_dir dk src, exists_on dk dst))) (\<lambda>(here, there).
       if \<not> here then return_act (dset name MissingInCache results)
       else if there \<and> \<not> force then return_act (dset name Skipped results)
       else and_then (when_act there (disk_op (rmtree dst))) (\<lambda>_.
            and_then (disk_op (copytree src dst)) (\<lambda>_.
            return_act (dset name (if there then Updated else Created) results))))"

definition copy_from_cache :: "path \<Rightarrow> path \<Rightarrow> bool \<Rightarrow> (string \<times> init_action) list act" where
  "copy_from_cache cache target force =
     (let core_dir = target @ [''.core'']
      in and_then (disk_op (mkdirs core_dir)) (\<lambda>_.
         for_each (\<lambda>name. copy_one force (cache @ [name]) (core_dir @ [name]) name) COPY_DIRS []))"

subsection \<open>Names\<close>

definition capitalize :: "string \<Rightarrow> string" where
  "capitalize w = (case w of [] \<Rightarrow> [] | c # cs \<Rightarrow> upper_char c @ lower cs)"

definition slug_to_pascal_case :: "string \<Rightarrow> string" where
  "slug_to_pascal_case slug =
     (if slug = [] then ''Unnamed'' else concat (map capitalize (split_on (CHR ''-'') slug)))"

text \<open>The name of a directory; the root has none.\<close>

definition dir_name :: "path \<Rightarrow> string" where
  "dir_name p = (if p = [] then [] else last p)"

definition define_root_system :: "path \<Rightarrow> string \<times> string" where
  "define_root_system root = (let slug = generate_slug (dir_name root) in (slug_to_pascal_case slug, slug))"

subsection \<open>The managed block\<close>

definition ROOT_MARKER_START :: string where
  "ROOT_MARKER_START = ''<!-- @cpt:root-agents -->''"

definition ROOT_MARKER_END :: string where
  "ROOT_MARKER_END = ''<!-- /@cpt:root-agents -->''"

definition compute_managed_block :: "string \<Rightarrow> string" where
  "compute_managed_block install_dir =
     concat [ROOT_MARKER_START, [NL], ''## Cypilot AI Agent Navigation'', [NL], [NL],
       ''**Remember these variables while working in this project:**'', [NL], [NL],
       ''```toml'', [NL], ''cypilot_path = '', [CHR 0x22], install_dir, [CHR 0x22], [NL], ''```'', [NL], [NL],
       ''## Navigation Rules'', [NL], [NL],
       ''ALWAYS open and follow `{cypilot_path}/.gen/AGENTS.md` FIRST'', [NL], [NL],
       ''ALWAYS open and follow `{cypilot_path}/config/AGENTS.md` FIRST'', [NL], [NL],
       ''ALWAYS invoke `{cypilot_path}/.core/skills/cypilot/SKILL.md` WHEN user asks to do something with Cypilot'', [NL], [NL],
       ROOT_MARKER_END]"

definition compute_claude_block :: string where
  "compute_claude_block =
     concat [ROOT_MARKER_START, [NL], ''STOP and READ `AGENTS.md` in project root before ANY tool calls or skill invocation'', [NL],
       ROOT_MARKER_END]"

text \<open>The text with the block in place; \<open>None\<close> when the file has it already.\<close>

definition place_block :: "string \<Rightarrow> string \<Rightarrow> string option" where
  "place_block expected content =
     (case (find_sub content ROOT_MARKER_START, find_sub content ROOT_MARKER_END) of
        (Some s, Some e) \<Rightarrow>
          (let end_idx = e + length ROOT_MARKER_END
           in if slice s end_idx content = strip expected then None
              else Some (take s content @ expected @ drop end_idx content))
      | _ \<Rightarrow> Some (expected @ [NL, NL] @ content))"

definition inject_block :: "path \<Rightarrow> string \<Rightarrow> bool \<Rightarrow> init_action act" where
  "inject_block target expected dry_run =
     and_then (look (\<lambda>dk. is_file dk target)) (\<lambda>there.
       if \<not> there
       then and_then (when_act (\<not> dry_run) (disk_op (write_at target (Text (expected @ [NL]))))) (\<lambda>_. return_act Created)
       else and_then (read_text target) (\<lambda>content.
            case place_block expected content of
              None \<Rightarrow> return_act Unchanged
            | Some new_content \<Rightarrow>
                and_then (when_act (\<not> dry_run) (disk_op (write_at target (Text new_content)))) (\<lambda>_. return_act Updated)))"

definition inject_managed_block :: "path \<Rightarrow> string \<Rightarrow> bool \<Rightarrow> init_action act" where
  "inject_managed_block target install_dir dry_run = inject_block target (compute_managed_block install_dir) dry_run"

definition inject_root_agents :: "path \<Rightarrow> string \<Rightarrow> bool \<Rightarrow> init_action act" where
  "inject_root_agents root install_dir dry_run = inject_managed_block (root @ [''AGENTS.md'']) install_dir dry_run"

definition inject_root_claude :: "path \<Rightarrow> string \<Rightarrow> bool \<Rightarrow> init_action act" where
  "inject_root_claude root install_dir dry_run = inject_block (root @ [''CLAUDE.md'']) compute_claude_block dry_run"

subsection \<open>An existing installation\<close>

text \<open>\<open>data.get("cypilot_path") or data.get("cypilot")\<close>, when it names a directory.\<close>

definition installed_at :: "kit_env \<Rightarrow> disk \<Rightarrow> path \<Rightarrow> string \<Rightarrow> string option" where
  "installed_at env dk root block =
     (case ke_loads env block of
        Inl e \<Rightarrow> None
      | Inr data \<Rightarrow>
          (case (if py_truth (pget data ''cypilot_path'') then pget data ''cypilot_path'' else pget data ''cypilot'') of
             PStr v \<Rightarrow> if strip v \<noteq> [] \<and> is_dir dk (resolve_under root (strip v)) then Some (strip v) else None
           | _ \<Rightarrow> None))"

definition read_existing_install :: "kit_env \<Rightarrow> path \<Rightarrow> string option act" where
  "read_existing_install env root =
     (let agents = root @ [''AGENTS.md'']
      in and_then (look (\<lambda>dk. is_file dk agents)) (\<lambda>there.
         if \<not> there then return_act None
         else and_then (read_text agents) (\<lambda>content.
              if find_sub content ROOT_MARKER_START = None then return_act None
              else look (\<lambda>dk. first_some (\<lambda>m. installed_at env dk root (grp_str m ''1'')) (re_finditer TOML_FENCE_RE content)))))"

subsection \<open>The command\<close>

record init_args =
  ni_project_root :: "string option"
  ni_install_dir :: "string option"
  ni_project_name :: "string option"
  ni_yes :: bool
  ni_dry_run :: bool
  ni_force :: bool

record init_done =
  id_copy :: "(string \<times> init_action) list"
  id_core_toml :: init_action
  id_config_agents :: init_action
  id_registry :: init_action
  id_config_skill :: "init_action option"
  id_root_agents :: init_action
  id_root_claude :: init_action
  id_backup :: "path option"
  id_kit :: "install_outcome option"

datatype init_report =
    AlreadyInitialized path
  | CacheMissing
  | InitErrors init_done
  | InitOk init_done

definition posix_path :: "path \<Rightarrow> string" where
  "posix_path p = ''/'' @ join_with ''/'' p"

text \<open>\<open>_prompt_path\<close>: the answer, or the default for an empty one.\<close>

definition prompt_path :: "string \<Rightarrow> string act" where
  "prompt_path def = and_then ask (\<lambda>ans. return_act (if ans = [] then def else ans))"

definition asked_or :: "bool \<Rightarrow> string option \<Rightarrow> string \<Rightarrow> string act" where
  "asked_or interactive arg def =
     (case arg of
        None \<Rightarrow> if interactive then prompt_path def else return_act def
      | Some a \<Rightarrow> return_act (if a = [] then def else a))"

definition resolve_user_path :: "string \<Rightarrow> path \<Rightarrow> path" where
  "resolve_user_path raw base = resolve_under base raw"

text \<open>\<open>create_backup\<close> of \<open>artifacts_meta.py\<close>: every exception gives \<open>None\<close>.\<close>

definition create_backup :: "init_env \<Rightarrow> path \<Rightarrow> path option act" where
  "create_backup env p =
     (let backup = butlast p @ [dir_name p @ ''.'' @ in_now env @ ''.backup'']
      in and_then (look (\<lambda>dk. (exists_on dk p, is_dir dk p))) (\<lambda>(there, dir).
         if \<not> there then return_act None
         else try_act (and_then (disk_op (if dir then copytree p backup else copy2 p backup)) (\<lambda>_. return_act (Some backup)))
                (\<lambda>_. return_act None)))"

definition default_core_toml :: "(pyobj \<times> pyobj) list" where
  "default_core_toml =
     [(PStr ''version'', PStr ''1.0''), (PStr ''project_root'', PStr ''..''), (PStr ''kits'', PDict [])]"

text \<open>\<open>toml_utils.dump\<close> of a dictionary that the code builds itself.\<close>

definition dump_data :: "(pyobj \<times> pyobj) list \<Rightarrow> path \<Rightarrow> string \<Rightarrow> unit act" where
  "dump_data data p comment =
     and_then (disk_op (mkdirs (butlast p))) (\<lambda>_.
       case dumps data comment of Inl e \<Rightarrow> fail_act TypeFailure | Inr t \<Rightarrow> disk_op (write_at p (Text t)))"

definition write_config :: "bool \<Rightarrow> bool \<Rightarrow> path \<Rightarrow> unit act \<Rightarrow> init_action act" where
  "write_config force dry_run p writing =
     and_then (look (\<lambda>dk. is_file dk p)) (\<lambda>existed.
       if existed \<and> \<not> force then return_act Unchanged
       else and_then (when_act (\<not> dry_run) writing) (\<lambda>_. return_act (if existed then Updated else Created)))"

definition CONFIG_AGENTS_TEXT :: string where
  "CONFIG_AGENTS_TEXT =
     concat [''# Custom Agent Navigation Rules'', [NL], [NL], ''Add your project-specific WHEN rules here.'', [NL],
       ''These rules are loaded alongside the generated rules in `{cypilot_path}/.gen/AGENTS.md`.'', [NL]]"

definition CONFIG_SKILL_TEXT :: string where
  "CONFIG_SKILL_TEXT =
     concat [''# Custom Skill Extensions'', [NL], [NL], ''Add your project-specific skill instructions here.'', [NL],
       ''These are loaded alongside the generated skills in `{cypilot_path}/.gen/SKILL.md`.'', [NL]]"

text \<open>Written only when it is missing, also with \<open>--force\<close>.\<close>

definition write_config_agents :: "bool \<Rightarrow> path \<Rightarrow> init_action act" where
  "write_config_agents dry_run p =
     and_then (look (\<lambda>dk. is_file dk p)) (\<lambda>existed.
       and_then (when_act (\<not> existed \<and> \<not> dry_run) (disk_op (write_at p (Text CONFIG_AGENTS_TEXT)))) (\<lambda>_.
       return_act (if existed then Unchanged else Created)))"

definition write_config_skill :: "bool \<Rightarrow> path \<Rightarrow> init_action option act" where
  "write_config_skill dry_run p =
     (if dry_run then return_act None
      else and_then (look (\<lambda>dk. is_file dk p)) (\<lambda>existed.
           and_then (when_act (\<not> existed) (disk_op (write_at p (Text CONFIG_SKILL_TEXT)))) (\<lambda>_.
           return_act (Some (if existed then Unchanged else Created)))))"

definition DEFAULT_KIT_SOURCE :: string where
  "DEFAULT_KIT_SOURCE = ''cyberfabric/cyber-pilot-kit-sdlc''"

text \<open>Whether to install the default kit, and the installation with its handler: \<open>Inl ()\<close> for an exception.\<close>

definition wants_kit :: "init_env \<Rightarrow> init_args \<Rightarrow> bool act" where
  "wants_kit env args =
     (if ni_dry_run args then return_act False
      else if ni_yes args then return_act True
      else if ke_isatty (in_kit env)
      then and_then ask (\<lambda>ans. return_act (lower ans = ''a'' \<or> lower ans = ''accept''))
      else return_act False)"

definition install_default_kit :: "init_env \<Rightarrow> init_args \<Rightarrow> path \<Rightarrow> (unit + install_outcome) act" where
  "install_default_kit env args cypilot_dir =
     (case parse_github_source DEFAULT_KIT_SOURCE of
        None \<Rightarrow> return_act (Inl ())
      | Some (owner, repo, version) \<Rightarrow>
          try_act
            (and_then (download (in_kit env) (owner, repo, version)) (\<lambda>got.
               case got of
                 None \<Rightarrow> return_act (Inl ())
               | Some (dir, resolved) \<Rightarrow>
                   and_then (install_kit (in_kit env) dir cypilot_dir ''sdlc'' resolved (''github:'' @ owner @ ''/'' @ repo)
                       (\<not> ni_yes args)) (\<lambda>r.
                   and_then (rmtree_quiet (butlast dir)) (\<lambda>_. return_act (Inr r)))))
            (\<lambda>_. return_act (Inl ())))"

definition kit_failed :: "unit + install_outcome \<Rightarrow> bool" where
  "kit_failed r =
     (case r of Inl _ \<Rightarrow> True | Inr SourceNotFound \<Rightarrow> True | Inr (InvalidManifest errs) \<Rightarrow> errs \<noteq> [] | Inr (Installed _) \<Rightarrow> False)"

definition init_kit :: "init_env \<Rightarrow> init_args \<Rightarrow> path \<Rightarrow> (bool \<times> install_outcome option) act" where
  "init_kit env args cypilot_dir =
     and_then (wants_kit env args) (\<lambda>wanted.
       if \<not> wanted then return_act (False, None)
       else and_then (install_default_kit env args cypilot_dir) (\<lambda>r.
            return_act (kit_failed r, case r of Inl _ \<Rightarrow> None | Inr out \<Rightarrow> Some out)))"

text \<open>The READMEs of the three directories.\<close>

definition write_readmes :: "init_env \<Rightarrow> path \<Rightarrow> unit act" where
  "write_readmes env cypilot_dir =
     and_then (disk_op (write_at (cypilot_dir @ [''.core'', ''README.md'']) (Text (in_core_readme env)))) (\<lambda>_.
     and_then (disk_op (write_at (cypilot_dir @ [''.gen'', ''README.md'']) (Text (in_gen_readme env)))) (\<lambda>_.
     disk_op (write_at (cypilot_dir @ [''config'', ''README.md'']) (Text (in_config_readme env)))))"

definition init_layout :: "init_env \<Rightarrow> init_args \<Rightarrow> path \<Rightarrow> (string \<times> init_action) list act" where
  "init_layout env args cypilot_dir =
     (if ni_dry_run args then return_act (map (\<lambda>d. (d, WouldCopy)) COPY_DIRS)
      else and_then (disk_op (mkdirs cypilot_dir)) (\<lambda>_.
           and_then (copy_from_cache (in_cache env) cypilot_dir (ni_force args)) (\<lambda>results.
           and_then (disk_op (mkdirs (cypilot_dir @ [''config'']))) (\<lambda>_.
           and_then (disk_op (mkdirs (cypilot_dir @ [''.gen'']))) (\<lambda>_.
           and_then (write_readmes env cypilot_dir) (\<lambda>_. return_act results))))))"

definition init_project :: "init_env \<Rightarrow> init_args \<Rightarrow> path \<Rightarrow> string \<Rightarrow> string \<Rightarrow> (nat \<times> init_report) act" where
  "init_project env args root install_rel project_name =
     (let cypilot_dir = resolve_under root install_rel; config_dir = cypilot_dir @ [''config'']; dry = ni_dry_run args;
          force = ni_force args
      in and_then (if force \<and> \<not> dry then create_backup env cypilot_dir else return_act None) (\<lambda>backup.
         and_then (init_layout env args cypilot_dir) (\<lambda>copied.
         and_then (write_config force dry (config_dir @ [''core.toml''])
             (dump_data default_core_toml (config_dir @ [''core.toml'']) ''Cypilot project configuration'')) (\<lambda>core.
         and_then (write_config_agents dry (config_dir @ [''AGENTS.md''])) (\<lambda>agents.
         and_then (init_kit env args cypilot_dir) (\<lambda>(failed, kit).
         and_then (write_config force dry (config_dir @ [''artifacts.toml''])
             (dump_data (generate_default_registry project_name (if kit = None then [] else ''sdlc''))
               (config_dir @ [''artifacts.toml'']) ''Cypilot artifacts registry'')) (\<lambda>registry.
         and_then (when_act (\<not> dry) (regenerate_gen_aggregates (in_kit env) cypilot_dir)) (\<lambda>_.
         and_then (write_config_skill dry (config_dir @ [''SKILL.md''])) (\<lambda>skill.
         and_then (inject_root_agents root install_rel dry) (\<lambda>ra.
         and_then (inject_root_claude root install_rel dry) (\<lambda>rc.
           let result = \<lparr>id_copy = copied, id_core_toml = core, id_config_agents = agents, id_registry = registry,
                 id_config_skill = skill, id_root_agents = ra, id_root_claude = rc, id_backup = backup, id_kit = kit\<rparr>
           in return_act (if failed then (1, InitErrors result) else (0, InitOk result)))))))))))))"

definition project_name_of :: "init_args \<Rightarrow> path \<Rightarrow> string" where
  "project_name_of args root =
     (case ni_project_name args of
        Some n \<Rightarrow> if n = [] then fst (define_root_system root) else strip n
      | None \<Rightarrow> fst (define_root_system root))"

definition cmd_init :: "init_env \<Rightarrow> init_args \<Rightarrow> (nat \<times> init_report) act" where
  "cmd_init env args =
     (let cwd = ke_cwd (in_kit env); interactive = (\<not> ni_yes args)
      in and_then (asked_or interactive (ni_project_root args) (posix_path cwd)) (\<lambda>raw_root.
         let root = resolve_user_path raw_root cwd
         in and_then (read_existing_install (in_kit env) root) (\<lambda>existing.
            if existing \<noteq> None \<and> \<not> ni_force args
            then return_act (2, AlreadyInitialized (resolve_under root (str_or_empty existing)))
            else
              (let def = (case existing of None \<Rightarrow> DEFAULT_INSTALL_DIR | Some rel \<Rightarrow> rel)
               in and_then (asked_or interactive (ni_install_dir args) def) (\<lambda>raw.
                  and_then (look (\<lambda>dk. is_dir dk (in_cache env))) (\<lambda>cached.
                  if \<not> cached then return_act (1, CacheMissing)
                  else init_project env args root (if strip raw = [] then def else strip raw) (project_name_of args root)))))))"

end
