(* ===== verification/Init_Facts.thy ===== *)
theory Init_Facts
  imports Init_Project Kit_Command_Facts
begin

section \<open>What setting up a project guarantees\<close>

subsection \<open>Markers in a text\<close>

lemma startswith_take: "startswith s p \<longleftrightarrow> take (length p) s = p"
  by (metis append_eq_conv_conj append_take_drop_id startswith_iff)

lemma find_sub_first: "find_sub s p = Some i \<Longrightarrow> j < i \<Longrightarrow> \<not> startswith (drop j s) p"
proof (induction s arbitrary: i j)
  case (Cons c s)
  show ?case
  proof (cases j)
    case 0
    then show ?thesis using Cons.prems by (auto split: if_splits)
  next
    case (Suc k)
    then show ?thesis using Cons by (auto split: if_splits)
  qed
qed (auto split: if_splits)

lemma find_sub_None: "find_sub s p = None \<Longrightarrow> \<not> startswith (drop j s) p"
proof (induction s arbitrary: j)
  case Nil
  then show ?case by (cases p) (auto split: if_splits)
next
  case (Cons c s)
  then show ?case by (cases j) (auto split: if_splits)
qed

lemma find_sub_NoneI: "p \<noteq> [] \<Longrightarrow> (\<And>j. j < length s \<Longrightarrow> \<not> startswith (drop j s) p) \<Longrightarrow> find_sub s p = None"
proof (induction s)
  case (Cons c s)
  have "\<not> startswith (drop j s) p" if "j < length s" for j using Cons.prems(2) [of "Suc j"] that by simp
  then show ?case using Cons.IH Cons.prems(1) Cons.prems(2) [of 0] by simp
qed simp

text \<open>A marker is a word whose first letter does not occur again in it, so that two occurrences cannot overlap.\<close>

definition marker :: "string \<Rightarrow> bool" where
  "marker m = (m \<noteq> [] \<and> hd m \<notin> set (tl m))"

lemma marker_clash:
  assumes "marker m" "startswith (drop j (pre @ hd m # rest)) m" "j < length pre"
  shows "startswith (drop j pre) m"
proof (cases "length m \<le> length pre - j")
  case True
  then show ?thesis using assms(2,3) by (simp add: startswith_take)
next
  case False
  let ?k = "length pre - j"
  have "take (length m) (drop j pre @ hd m # rest) = m" using assms(2,3) startswith_take [of "drop j (pre @ hd m # rest)" m] by simp
  moreover have "(drop j pre @ hd m # rest) ! ?k = hd m" using assms(3) by (simp add: nth_append)
  ultimately have "m ! ?k = hd m" using False by (metis leI nth_take)
  moreover have "0 < ?k" "?k < length m" using assms(3) False by simp_all
  ultimately obtain n where "?k = Suc n" "m ! Suc n = hd m" "Suc n < length m" by (cases ?k) auto
  then have "tl m ! n = hd m" "n < length (tl m)" by (simp_all add: nth_tl)
  then have "hd m \<in> set (tl m)" by (metis nth_mem)
  then show ?thesis using assms(1) by (simp add: marker_def)
qed

lemma find_sub_append_None:
  assumes "marker m" "find_sub pre m = None" "find_sub (hd m # rest) m = None"
  shows "find_sub (pre @ hd m # rest) m = None"
proof (rule find_sub_NoneI)
  show "m \<noteq> []" using assms(1) by (simp add: marker_def)
next
  fix j assume "j < length (pre @ hd m # rest)"
  show "\<not> startswith (drop j (pre @ hd m # rest)) m"
  proof (cases "j < length pre")
    case True
    then show ?thesis using marker_clash [OF assms(1)] find_sub_None [OF assms(2)] by blast
  next
    case False
    then have "drop j (pre @ hd m # rest) = drop (j - length pre) (hd m # rest)" by simp
    then show ?thesis using find_sub_None [OF assms(3)] by metis
  qed
qed

lemma find_sub_at:
  assumes "marker m" "find_sub pre m = None"
  shows "find_sub (pre @ m @ post) m = Some (length pre)"
proof -
  obtain i where i: "find_sub (pre @ m @ post) m = Some i"
    using find_sub_None [of "pre @ m @ post" m "length pre"] by (cases "find_sub (pre @ m @ post) m") (auto simp: startswith_iff)
  have m: "m = hd m # tl m" using assms(1) by (simp add: marker_def)
  have "\<not> i < length pre"
    using marker_clash [OF assms(1), of i pre "tl m @ post"] find_sub_None [OF assms(2)] find_sub_Some [OF i] m
    by (metis append_Cons)
  moreover have "\<not> length pre < i" using find_sub_first [OF i, of "length pre"] by (auto simp: startswith_iff)
  ultimately show ?thesis using i by simp
qed

lemma find_sub_take:
  assumes "find_sub s m = Some i" "n \<le> i" "m \<noteq> []"
  shows "find_sub (take n s) m = None"
proof (rule find_sub_NoneI [OF assms(3)])
  fix j assume j: "j < length (take n s)"
  then have no: "\<not> startswith (drop j s) m" using find_sub_first [OF assms(1)] assms(2) by simp
  have "drop j s = drop j (take n s) @ drop n s" using j
    by (metis append_take_drop_id drop_append diff_is_0_eq drop_0 length_take less_imp_le)
  then show "\<not> startswith (drop j (take n s)) m" using no by (metis append_assoc startswith_iff)
qed

lemma find_sub_absent:
  assumes "m \<noteq> []" "hd m \<notin> set s"
  shows "find_sub s m = None"
proof (rule find_sub_NoneI [OF assms(1)])
  fix j
  show "\<not> startswith (drop j s) m"
  proof
    assume "startswith (drop j s) m"
    then obtain r where "drop j s = m @ r" by (auto simp: startswith_iff)
    then have "hd m \<in> set (drop j s)" using assms(1) by simp
    then show False using assms(2) by (auto dest: in_set_dropD)
  qed
qed

subsection \<open>The managed block\<close>

lemma markers: "marker ROOT_MARKER_START" "marker ROOT_MARKER_END" "hd ROOT_MARKER_START = CHR ''<''" "hd ROOT_MARKER_END = CHR ''<''"
  by (simp_all add: marker_def ROOT_MARKER_START_def ROOT_MARKER_END_def)

text \<open>\<open>ends_block b\<close>: a text between the two markers, with neither of them inside.\<close>

definition ends_block :: "string \<Rightarrow> bool" where
  "ends_block b = (\<exists>x. b = ROOT_MARKER_START @ x @ ROOT_MARKER_END \<and> CHR ''<'' \<notin> set x)"

lemma managed_block_ends: "CHR ''<'' \<notin> set d \<Longrightarrow> ends_block (compute_managed_block d)"
  unfolding ends_block_def compute_managed_block_def
  by (rule exI [of _ "concat [[NL], ''## Cypilot AI Agent Navigation'', [NL], [NL],
       ''**Remember these variables while working in this project:**'', [NL], [NL],
       ''```toml'', [NL], ''cypilot_path = '', [CHR 0x22], d, [CHR 0x22], [NL], ''```'', [NL], [NL],
       ''## Navigation Rules'', [NL], [NL],
       ''ALWAYS open and follow `{cypilot_path}/.gen/AGENTS.md` FIRST'', [NL], [NL],
       ''ALWAYS open and follow `{cypilot_path}/config/AGENTS.md` FIRST'', [NL], [NL],
       ''ALWAYS invoke `{cypilot_path}/.core/skills/cypilot/SKILL.md` WHEN user asks to do something with Cypilot'', [NL], [NL]]"]) simp

lemma claude_block_ends: "ends_block compute_claude_block"
  unfolding ends_block_def compute_claude_block_def
  by (rule exI [of _ "concat [[NL], ''STOP and READ `AGENTS.md` in project root before ANY tool calls or skill invocation'', [NL]]"]) simp

lemma ends_block_strip: "ends_block b \<Longrightarrow> strip b = b"
  by (rule strip_by_id) (auto simp: ends_block_def ROOT_MARKER_START_def ROOT_MARKER_END_def py_space_def)

lemma place_block_around:
  assumes "ends_block b" "find_sub pre ROOT_MARKER_START = None" "find_sub pre ROOT_MARKER_END = None"
  shows "place_block b (pre @ b @ post) = None"
proof -
  obtain x where b: "b = ROOT_MARKER_START @ x @ ROOT_MARKER_END" "CHR ''<'' \<notin> set x" using assms(1) by (auto simp: ends_block_def)
  have s: "find_sub (pre @ b @ post) ROOT_MARKER_START = Some (length pre)"
    using find_sub_at [OF markers(1) assms(2), of "x @ ROOT_MARKER_END @ post"] b by simp
  have "find_sub (ROOT_MARKER_START @ x) ROOT_MARKER_END = None"
  proof -
    have e: "find_sub (tl ROOT_MARKER_START @ x) ROOT_MARKER_END = None"
      using b(2) by (intro find_sub_absent) (auto simp: ROOT_MARKER_END_def ROOT_MARKER_START_def)
    have "ROOT_MARKER_START @ x = CHR ''<'' # tl ROOT_MARKER_START @ x" by (simp add: ROOT_MARKER_START_def)
    moreover have "\<not> startswith (ROOT_MARKER_START @ x) ROOT_MARKER_END" by (simp add: ROOT_MARKER_START_def ROOT_MARKER_END_def)
    ultimately show ?thesis using e by (metis find_sub.simps(2) option.map(1))
  qed
  then have "find_sub (pre @ ROOT_MARKER_START @ x) ROOT_MARKER_END = None"
    using find_sub_append_None [OF markers(2) assms(3), of "tl ROOT_MARKER_START @ x"] by (simp add: ROOT_MARKER_START_def ROOT_MARKER_END_def)
  then have e: "find_sub (pre @ b @ post) ROOT_MARKER_END = Some (length pre + length ROOT_MARKER_START + length x)"
    using find_sub_at [OF markers(2), of "pre @ ROOT_MARKER_START @ x" post] b(1) by (simp add: add.assoc)
  have "slice (length pre) (length pre + length b) (pre @ b @ post) = b" by (simp add: slice_def)
  then show ?thesis using s e ends_block_strip [OF assms(1)] b(1) by (simp add: place_block_def Let_def add.assoc)
qed

text \<open>\<open>reversed_markers t\<close>: the first end marker stands before the first start marker.\<close>

definition reversed_markers :: "string \<Rightarrow> bool" where
  "reversed_markers t =
     (case (find_sub t ROOT_MARKER_START, find_sub t ROOT_MARKER_END) of (Some s, Some e) \<Rightarrow> e < s | _ \<Rightarrow> False)"

lemma place_block_twice:
  assumes "ends_block b" "place_block b t = Some t'" "\<not> reversed_markers t"
  shows "place_block b t' = None"
proof (cases "(find_sub t ROOT_MARKER_START, find_sub t ROOT_MARKER_END)")
  case (Pair s e)
  have ne: "ROOT_MARKER_START \<noteq> []" "ROOT_MARKER_END \<noteq> []" by (simp_all add: ROOT_MARKER_START_def ROOT_MARKER_END_def)
  show ?thesis
  proof (cases "\<exists>i j. s = Some i \<and> e = Some j")
    case True
    then obtain i j where ij: "find_sub t ROOT_MARKER_START = Some i" "find_sub t ROOT_MARKER_END = Some j" using Pair by auto
    then have "i \<le> j" using assms(3) by (simp add: reversed_markers_def)
    then have "find_sub (take i t) ROOT_MARKER_START = None" "find_sub (take i t) ROOT_MARKER_END = None"
      using find_sub_take [OF ij(1) _ ne(1)] find_sub_take [OF ij(2) _ ne(2)] by simp_all
    moreover have "t' = take i t @ b @ drop (j + length ROOT_MARKER_END) t"
      using assms(2) ij by (auto simp: place_block_def Let_def split: if_splits)
    ultimately show ?thesis using place_block_around [OF assms(1)] by metis
  next
    case False
    then have "t' = [] @ b @ [NL, NL] @ t" using assms(2) Pair by (auto simp: place_block_def split: option.splits)
    then show ?thesis using place_block_around [OF assms(1), of "[]" "[NL, NL] @ t"] ne by simp
  qed
qed

lemma universal_newlines_no_CR: "CR \<notin> set (universal_newlines s)"
  by (induction s rule: universal_newlines.induct) auto

lemma universal_newlines_id: "CR \<notin> set s \<Longrightarrow> universal_newlines s = s"
  by (induction s rule: universal_newlines.induct) auto

lemma place_block_no_CR: "place_block b t = Some t' \<Longrightarrow> CR \<notin> set b \<Longrightarrow> CR \<notin> set t \<Longrightarrow> CR \<notin> set t'"
  by (auto simp: place_block_def Let_def split: option.splits if_splits dest: in_set_takeD in_set_dropD)

lemma write_at_Inr: "disk_op (write_at p c) w = (Inr u, w') \<Longrightarrow> dget (dk_files (wo_disk w')) p = Some c"
  by (auto simp: disk_op_Inr write_at_def split: if_splits)

definition block_in_order :: "disk \<Rightarrow> path \<Rightarrow> bool" where
  "block_in_order dk p =
     (case dget (dk_files dk) p of Some (Text t) \<Rightarrow> \<not> reversed_markers (universal_newlines t) | _ \<Rightarrow> True)"

lemma inject_block_twice:
  assumes "inject_block p b False w = (Inr a, w1)" "ends_block b" "CR \<notin> set b" "block_in_order (wo_disk w) p"
  shows "inject_block p b False w1 = (Inr Unchanged, w1)"
proof -
  have again: "inject_block p b False w1 = (Inr Unchanged, w1)"
    if "dget (dk_files (wo_disk w1)) p = Some (Text t)" "CR \<notin> set t" "place_block b t = None" for t
    using that by (simp add: inject_block_def and_then_def look_def is_file_def dhas_def read_text_def universal_newlines_id return_act_def)
  show ?thesis
  proof (cases "dget (dk_files (wo_disk w)) p")
    case None
    then have "disk_op (write_at p (Text (b @ [NL]))) w = (Inr (), w1)"
      using assms(1) by (auto simp: inject_block_def act_simps is_file_def dhas_def)
    moreover have "place_block b (b @ [NL]) = None" using place_block_around [OF assms(2), of "[]" "[NL]"]
      by (simp add: ROOT_MARKER_START_def ROOT_MARKER_END_def)
    ultimately show ?thesis using again [of "b @ [NL]"] write_at_Inr assms(3) by auto
  next
    case (Some c)
    then obtain raw where c: "c = Text raw" using assms(1)
      by (cases c) (auto simp: inject_block_def act_simps is_file_def dhas_def read_text_def)
    let ?t = "universal_newlines raw"
    show ?thesis
    proof (cases "place_block b ?t")
      case None
      then show ?thesis using assms(1) Some c
        by (simp add: inject_block_def and_then_def look_def is_file_def dhas_def read_text_def return_act_def)
    next
      case t': (Some t')
      then have "disk_op (write_at p (Text t')) w = (Inr (), w1)"
        using assms(1) Some c by (auto simp: inject_block_def act_simps is_file_def dhas_def read_text_def)
      then have "dget (dk_files (wo_disk w1)) p = Some (Text t')" by (rule write_at_Inr)
      moreover have "\<not> reversed_markers ?t" using assms(4) Some c by (simp add: block_in_order_def)
      ultimately show ?thesis
        using again place_block_twice [OF assms(2) t'] place_block_no_CR [OF t' assms(3) universal_newlines_no_CR] by blast
    qed
  qed
qed

text \<open>C22. Putting the managed block into a file once is enough: the next run finds the block unchanged and writes
  nothing, provided that the markers of the first file stand in their order and the directory's name has no angle bracket.\<close>

theorem inject_root_agents_idem:
  assumes "inject_root_agents root d False w = (Inr a, w1)" "CHR ''<'' \<notin> set d" "CR \<notin> set d"
    and "block_in_order (wo_disk w) (root @ [''AGENTS.md''])"
  shows "inject_root_agents root d False w1 = (Inr Unchanged, w1)"
proof -
  have "CR \<notin> set (compute_managed_block d)"
    using assms(3) by (simp add: compute_managed_block_def ROOT_MARKER_START_def ROOT_MARKER_END_def)
  then show ?thesis using assms(1,4) managed_block_ends [OF assms(2)] unfolding inject_root_agents_def inject_managed_block_def
    by (intro inject_block_twice)
qed

definition agents_world :: "string \<Rightarrow> world" where
  "agents_world t = \<lparr>wo_disk = \<lparr>dk_files = [([''p'', ''AGENTS.md''], Text t)], dk_dirs = [[], [''p'']]\<rparr>,
     wo_console = \<lparr>co_inputs = [], co_session = 0\<rparr>\<rparr>"

theorem inject_root_agents_idem_witness:
  "\<exists>w1. inject_root_agents [''p''] ''cypilot'' False (agents_world (''# Notes'' @ [CR, NL])) = (Inr Updated, w1)
     \<and> inject_root_agents [''p''] ''cypilot'' False w1 = (Inr Unchanged, w1)"
proof -
  let ?w = "agents_world (''# Notes'' @ [CR, NL])"
  have "fst (inject_root_agents [''p''] ''cypilot'' False ?w) = Inr Updated" by code_simp
  then obtain w1 where run: "inject_root_agents [''p''] ''cypilot'' False ?w = (Inr Updated, w1)"
    by (metis prod.collapse)
  moreover have "block_in_order (wo_disk ?w) ([''p''] @ [''AGENTS.md''])" by code_simp
  ultimately show ?thesis using inject_root_agents_idem [OF run] by (auto simp: numeral_eq_Suc)
qed

text \<open>Where an end marker stands first, every run adds another block.\<close>

lemma reversed_markers_grow:
  "(case place_block compute_claude_block (ROOT_MARKER_END @ ROOT_MARKER_START) of
      Some t \<Rightarrow> (case place_block compute_claude_block t of Some u \<Rightarrow> length t < length u | None \<Rightarrow> False)
    | None \<Rightarrow> False)"
  by code_simp

subsection \<open>What the command writes\<close>

definition same_disk :: "world \<Rightarrow> world \<Rightarrow> bool" where
  "same_disk w w' = (wo_disk w' = wo_disk w)"

interpretation still: world_rel same_disk
  by unfold_locales (simp_all add: same_disk_def)

lemma ask_still: "honours same_disk ask"
  by (auto simp: honours_def same_disk_def ask_def split: prod.splits option.splits)

text \<open>A dry run of the command leaves the disk as it is, whatever the answers are.\<close>

theorem init_dry_run_pure:
  assumes "ni_dry_run args"
  shows "wo_disk (snd (cmd_init env args w)) = wo_disk w"
proof -
  have asked: "honours same_disk (asked_or i arg def)" for i arg def
    by (cases arg) (auto simp: asked_or_def prompt_path_def intro!: still.intros ask_still)
  have inject: "honours same_disk (inject_block p b True)" for p b
    unfolding inject_block_def by (auto intro!: still.intros split: option.splits)
  have kit: "init_kit env args cd = return_act (False, None)" for cd
    using assms by (intro ext) (simp add: init_kit_def wants_kit_def and_then_def return_act_def)
  have "honours same_disk (init_project env args root rel name)" for root rel name
    unfolding init_project_def Let_def inject_root_agents_def inject_managed_block_def inject_root_claude_def
      init_layout_def write_config_def write_config_agents_def write_config_skill_def kit
    using assms by (auto intro!: still.intros inject split: prod.splits)
  then have "honours same_disk (cmd_init env args)"
    unfolding cmd_init_def Let_def read_existing_install_def
    by (auto intro!: still.intros asked)
  then show ?thesis by (simp add: honours_def same_disk_def)
qed

definition keeps_outside :: "(path \<Rightarrow> bool) \<Rightarrow> world \<Rightarrow> world \<Rightarrow> bool" where
  "keeps_outside S w w' =
     (\<forall>q c. \<not> S q \<longrightarrow> dget (dk_files (wo_disk w)) q = Some c \<longrightarrow> dget (dk_files (wo_disk w')) q = Some c)"

interpretation keeping_outside: world_rel "keeps_outside S" for S
  by unfold_locales (simp_all add: keeps_outside_def)

lemma outside_keeps: "honours (same_outside S) m \<Longrightarrow> honours (keeps_outside S) m"
  by (auto simp: honours_def same_outside_def keeps_outside_def) metis

text \<open>The files that belong to the program: \<open>.core\<close>, the generated files and the README of the configuration.\<close>

definition program_file :: "path \<Rightarrow> path \<Rightarrow> bool" where
  "program_file cypilot_dir q =
     (at_or_below (cypilot_dir @ [''.core'']) q \<or> at_or_below (cypilot_dir @ [''.gen'']) q
      \<or> q = cypilot_dir @ [''config'', ''README.md''])"

text \<open>An operation on one path that is no file keeps every file.\<close>

lemma absent_keeps:
  assumes "honours (same_outside (\<lambda>q. q = p)) m" "\<not> is_file (wo_disk w) p"
  shows "keeps_outside S w (snd (m w))"
proof -
  have other: "q = p \<or> dget (dk_files (wo_disk (snd (m w)))) q = dget (dk_files (wo_disk w)) q" for q
    using spec [OF assms(1) [unfolded honours_def], of w] by (simp add: same_outside_def)
  have "dget (dk_files (wo_disk w)) p = None" using assms(2) by (simp add: is_file_def dhas_def)
  then have "dget (dk_files (wo_disk (snd (m w)))) q = Some c" if "dget (dk_files (wo_disk w)) q = Some c" for q c
    using other [of q] that by auto
  then show ?thesis by (simp add: keeps_outside_def)
qed

lemma dump_data_outside: "honours (same_outside (\<lambda>q. q = p)) (dump_data data p comment)"
  unfolding dump_data_def by (auto intro!: outside.intros mkdirs_outside write_at_outside split: sum.splits)

lemma write_config_keeps:
  assumes "honours (same_outside (\<lambda>q. q = p)) writing"
  shows "honours (keeps_outside S) (write_config False dry p writing)"
  unfolding write_config_def
proof (rule keeping_outside.look_then)
  fix w
  have "honours (same_outside (\<lambda>q. q = p)) (and_then (when_act (\<not> dry) writing) (\<lambda>_. return_act (if False then Updated else Created)))"
    using assms by (intro outside.intros)
  note keep = absent_keeps [OF this, of w S]
  show "keeps_outside S w (snd ((if is_file (wo_disk w) p \<and> \<not> False then return_act Unchanged
      else and_then (when_act (\<not> dry) writing) (\<lambda>_. return_act (if is_file (wo_disk w) p then Updated else Created))) w))"
  proof (cases "is_file (wo_disk w) p")
    case True
    then show ?thesis by (simp add: return_act_def keeping_outside.refl)
  next
    case False
    then show ?thesis using keep by simp
  qed
qed

lemma write_new_keeps:
  "honours (keeps_outside S) (and_then (look (\<lambda>dk. is_file dk p)) (\<lambda>existed.
     and_then (when_act (\<not> existed \<and> b) (disk_op (write_at p c))) (\<lambda>_. return_act (f existed))))"
proof (rule keeping_outside.look_then)
  fix w
  have "honours (same_outside (\<lambda>q. q = p)) (and_then (when_act (\<not> False \<and> b) (disk_op (write_at p c))) (\<lambda>_. return_act (f False)))"
    by (intro outside.intros write_at_outside refl)
  note keep = absent_keeps [OF this, of w S]
  show "keeps_outside S w (snd (and_then (when_act (\<not> is_file (wo_disk w) p \<and> b) (disk_op (write_at p c)))
      (\<lambda>_. return_act (f (is_file (wo_disk w) p))) w))"
  proof (cases "is_file (wo_disk w) p")
    case True
    then show ?thesis by (simp add: and_then_def when_act_def return_act_def keeping_outside.refl)
  next
    case False
    then show ?thesis using keep by simp
  qed
qed

lemma inject_outside: "S p \<Longrightarrow> honours (same_outside S) (inject_block p b dry)"
  unfolding inject_block_def by (auto intro!: outside.intros write_at_outside split: option.splits)

lemma copy_from_cache_outside:
  "\<forall>q. at_or_below (target @ [''.core'']) q \<longrightarrow> S q \<Longrightarrow> honours (same_outside S) (copy_from_cache cache target force)"
  unfolding copy_from_cache_def copy_one_def Let_def
  by (auto intro!: outside.intros mkdirs_outside rmtree_outside copytree_outside simp: at_or_below_iff split: prod.splits)

text \<open>
  The kit is not installed: in a dry run, or without \<open>--yes\<close> when there is no terminal or the next line
  that is typed is no acceptance (the end of the input is none).
\<close>

definition accepting :: "string \<Rightarrow> bool" where
  "accepting l = (lower (strip l) \<in> {''a'', ''accept''})"

definition declines_kit :: "init_env \<Rightarrow> init_args \<Rightarrow> world \<Rightarrow> bool" where
  "declines_kit env args w =
     (ni_dry_run args
      \<or> \<not> ni_yes args \<and> (ke_isatty (in_kit env) \<longrightarrow> (case co_inputs (wo_console w) of [] \<Rightarrow> True | l # _ \<Rightarrow> \<not> accepting l)))"

lemma init_kit_declined:
  assumes "declines_kit env args w"
  shows "wo_disk (snd (init_kit env args cd w)) = wo_disk w"
proof (cases "ni_dry_run args \<or> \<not> ke_isatty (in_kit env)")
  case True
  then show ?thesis using assms
    by (auto simp: declines_kit_def init_kit_def wants_kit_def and_then_def return_act_def)
next
  case False
  then show ?thesis using assms
    by (auto simp: declines_kit_def accepting_def init_kit_def wants_kit_def and_then_def return_act_def ask_def read_line_def
        split: list.splits)
qed

text \<open>Most of the set-up asks nothing.\<close>

definition quiet :: "world \<Rightarrow> world \<Rightarrow> bool" where
  "quiet w w' = (wo_console w' = wo_console w)"

interpretation quiet: world_rel quiet
  by unfold_locales (simp_all add: quiet_def)

lemma quiet_disk: "honours quiet (disk_op f)"
  by (rule quiet.disk_op) (simp add: quiet_def)

lemma quiet_dump: "honours quiet (dump_data data p comment)"
  unfolding dump_data_def by (auto intro!: quiet.intros quiet_disk split: sum.splits)

lemma quiet_config: "honours quiet writing \<Longrightarrow> honours quiet (write_config force dry p writing)"
  unfolding write_config_def by (intro quiet.intros)

lemma quiet_agents: "honours quiet (write_config_agents dry p)"
  unfolding write_config_agents_def by (intro quiet.intros quiet_disk)

lemma quiet_layout: "honours quiet (init_layout env args cd)"
  unfolding init_layout_def write_readmes_def copy_from_cache_def copy_one_def Let_def
  by (auto intro!: quiet.intros quiet_disk split: prod.splits)

text \<open>\<open>leads P Q m\<close>: from a world with \<open>P\<close> the operation ends in one with \<open>Q\<close>, also when it fails.\<close>

definition leads :: "(world \<Rightarrow> bool) \<Rightarrow> (world \<Rightarrow> bool) \<Rightarrow> 'a act \<Rightarrow> bool" where
  "leads P Q m = (\<forall>w. P w \<longrightarrow> Q (snd (m w)))"

lemma leads_and_then:
  assumes "leads P P' m" "\<And>w. P' w \<Longrightarrow> Q w" "\<And>x. leads P' Q (f x)"
  shows "leads P Q (and_then m f)"
  using assms by (auto simp: leads_def and_then_def split: prod.splits sum.splits)

lemma leads_return: "(\<And>w. P w \<Longrightarrow> Q w) \<Longrightarrow> leads P Q (return_act x)"
  by (simp add: leads_def return_act_def)

lemma honours_leads: "honours R m \<Longrightarrow> (\<And>w w'. P w \<Longrightarrow> R w w' \<Longrightarrow> Q w') \<Longrightarrow> leads P Q m"
  by (auto simp: honours_def leads_def)

subsection \<open>The text around a managed block\<close>

text \<open>
  \<open>block_put b t t'\<close>: \<open>t'\<close> is the text \<open>t\<close> with the block \<open>b\<close> in front when a marker is missing, and
  otherwise with \<open>b\<close> in the place of the stretch from the first start marker to the first end marker.
\<close>

inductive block_put :: "string \<Rightarrow> string \<Rightarrow> string \<Rightarrow> bool" for b where
  in_front: "find_sub t ROOT_MARKER_START = None \<or> find_sub t ROOT_MARKER_END = None \<Longrightarrow> block_put b t (b @ [NL, NL] @ t)"
| in_place: "find_sub pre ROOT_MARKER_START = None \<Longrightarrow> find_sub (pre @ ROOT_MARKER_START @ mid) ROOT_MARKER_END = None
    \<Longrightarrow> block_put b (pre @ ROOT_MARKER_START @ mid @ ROOT_MARKER_END @ post) (pre @ b @ post)"

lemma markers_apart:
  assumes "find_sub t ROOT_MARKER_START = Some s" "find_sub t ROOT_MARKER_END = Some e" "s \<le> e"
  shows "s + length ROOT_MARKER_START \<le> e"
proof (rule ccontr)
  assume no: "\<not> s + length ROOT_MARKER_START \<le> e"
  obtain r where r: "drop s t = ROOT_MARKER_START @ r" using find_sub_Some [OF assms(1)] by (auto simp: startswith_iff)
  have "drop e t = drop (e - s) (drop s t)" using assms(3) by simp
  then have d: "drop e t = drop (e - s) ROOT_MARKER_START @ r" using no r by simp
  have "e - s < length ROOT_MARKER_START" using no assms(3) by simp
  then have "\<not> startswith (drop (e - s) ROOT_MARKER_START @ r) ROOT_MARKER_END"
    by (cases "e - s") (auto simp: ROOT_MARKER_START_def ROOT_MARKER_END_def numeral_eq_Suc less_Suc_eq)
  then show False using find_sub_Some [OF assms(2)] d by simp
qed

lemma place_block_put:
  assumes "place_block b t = Some t'" "\<not> reversed_markers t"
  shows "block_put b t t'"
proof (cases "find_sub t ROOT_MARKER_START = None \<or> find_sub t ROOT_MARKER_END = None")
  case True
  then show ?thesis using assms(1) in_front by (auto simp: place_block_def split: option.splits)
next
  case False
  then obtain s e where se: "find_sub t ROOT_MARKER_START = Some s" "find_sub t ROOT_MARKER_END = Some e" by auto
  then have le: "s \<le> e" using assms(2) by (simp add: reversed_markers_def)
  have ne: "ROOT_MARKER_START \<noteq> []" "ROOT_MARKER_END \<noteq> []" by (simp_all add: ROOT_MARKER_START_def ROOT_MARKER_END_def)
  obtain r where r: "drop s t = ROOT_MARKER_START @ r" using find_sub_Some [OF se(1)] by (auto simp: startswith_iff)
  obtain post where post: "drop e t = ROOT_MARKER_END @ post" using find_sub_Some [OF se(2)] by (auto simp: startswith_iff)
  define mid where "mid = take (e - s - length ROOT_MARKER_START) r"
  have "take e t = take s t @ take (e - s) (drop s t)" using le by (metis le_add_diff_inverse take_add)
  also have "\<dots> = take s t @ ROOT_MARKER_START @ mid"
    using markers_apart [OF se le] by (simp add: r mid_def)
  finally have front: "take e t = take s t @ ROOT_MARKER_START @ mid" .
  then have t: "t = take s t @ ROOT_MARKER_START @ mid @ ROOT_MARKER_END @ post"
    using post by (metis append.assoc append_take_drop_id)
  have "drop (e + length ROOT_MARKER_END) t = post" using post by (metis add.commute append_eq_conv_conj drop_drop)
  then have t': "t' = take s t @ b @ post" using assms(1) se by (auto simp: place_block_def Let_def split: if_splits)
  have "block_put b (take s t @ ROOT_MARKER_START @ mid @ ROOT_MARKER_END @ post) (take s t @ b @ post)"
    using find_sub_take [OF se(1) order_refl ne(1)] find_sub_take [OF se(2) order_refl ne(2)] by (intro in_place) (simp_all add: front)
  then show ?thesis using t t' by simp
qed

text \<open>The file \<open>p\<close>, which had the content \<open>c\<close>, has the block put into its text.\<close>

definition block_edited :: "string \<Rightarrow> path \<Rightarrow> content \<Rightarrow> world \<Rightarrow> bool" where
  "block_edited b p c w = (\<exists>t t'. c = Text t \<and> dget (dk_files (wo_disk w)) p = Some (Text t') \<and> block_put b (universal_newlines t) t')"

definition in_order :: "content \<Rightarrow> bool" where
  "in_order c = (case c of Text t \<Rightarrow> \<not> reversed_markers (universal_newlines t) | Binary _ \<Rightarrow> True)"

lemma write_at_edited:
  "dget (dk_files (wo_disk (snd (disk_op (write_at p (Text t')) w)))) p
    \<in> {dget (dk_files (wo_disk w)) p, Some (Text t')}"
  by (auto simp: disk_op_def write_at_def split: sum.splits if_splits)

lemma inject_block_edited:
  assumes "dget (dk_files (wo_disk w)) p = Some c" "in_order c"
  shows "dget (dk_files (wo_disk (snd (inject_block p b dry w)))) p = Some c \<or> block_edited b p c (snd (inject_block p b dry w))"
proof (cases c)
  case (Binary x)
  then show ?thesis using assms(1)
    by (simp add: inject_block_def and_then_def look_def is_file_def dhas_def read_text_def)
next
  case (Text t)
  show ?thesis
  proof (cases "dry \<or> place_block b (universal_newlines t) = None")
    case True
    then show ?thesis using assms(1) Text
      by (auto simp: inject_block_def and_then_def look_def is_file_def dhas_def read_text_def return_act_def when_act_def split: option.splits)
  next
    case False
    then obtain t' where t': "place_block b (universal_newlines t) = Some t'" "\<not> dry" by blast
    then have "block_put b (universal_newlines t) t'" using assms(2) by (intro place_block_put) (simp_all add: Text in_order_def)
    moreover have "dget (dk_files (wo_disk (snd (inject_block p b dry w)))) p
        = dget (dk_files (wo_disk (snd (disk_op (write_at p (Text t')) w)))) p"
      using assms(1) Text t'
      by (auto simp: inject_block_def and_then_def look_def is_file_def dhas_def read_text_def return_act_def when_act_def
          split: prod.splits sum.splits)
    ultimately show ?thesis using write_at_edited [of p t' w] assms(1) Text by (auto simp: block_edited_def)
  qed
qed

lemma inject_block_other:
  "q \<noteq> p \<Longrightarrow> dget (dk_files (wo_disk (snd (inject_block p b dry w)))) q = dget (dk_files (wo_disk w)) q"
  using inject_outside [of "\<lambda>q. q = p" p b dry] by (auto simp: honours_def same_outside_def)

lemma inject_leads_edited:
  assumes "in_order c"
  shows "leads (\<lambda>w. dget (dk_files (wo_disk w)) p = Some c)
    (\<lambda>w. dget (dk_files (wo_disk w)) p = Some c \<or> block_edited b p c w) (inject_block p b dry)"
  using inject_block_edited [OF _ assms] by (simp add: leads_def)

lemma inject_leads_other:
  assumes "q \<noteq> p" "\<And>w w'. P w \<Longrightarrow> dget (dk_files (wo_disk w')) q = dget (dk_files (wo_disk w)) q \<Longrightarrow> Q w'"
  shows "leads P Q (inject_block p b dry)"
  unfolding leads_def using assms(2) [OF _ inject_block_other [OF assms(1)]] by blast

text \<open>Putting the two blocks in place, one after the other.\<close>

definition blocks_edited :: "path \<Rightarrow> string \<Rightarrow> path \<Rightarrow> content \<Rightarrow> world \<Rightarrow> bool" where
  "blocks_edited root rel q c w =
     (dget (dk_files (wo_disk w)) q = Some c
      \<or> q = root @ [''AGENTS.md''] \<and> block_edited (compute_managed_block rel) q c w
      \<or> q = root @ [''CLAUDE.md''] \<and> block_edited compute_claude_block q c w)"

lemma injecting_leads:
  assumes "q = root @ [''AGENTS.md''] \<or> q = root @ [''CLAUDE.md''] \<longrightarrow> in_order c"
  shows "leads (\<lambda>w. dget (dk_files (wo_disk w)) q = Some c) (blocks_edited root rel q c)
    (and_then (inject_root_agents root rel dry) (\<lambda>ra. and_then (inject_root_claude root rel dry) (\<lambda>rc. return_act (f ra rc))))"
proof -
  let ?P = "\<lambda>w. dget (dk_files (wo_disk w)) q = Some c"
  consider "q = root @ [''AGENTS.md'']" | "q = root @ [''CLAUDE.md'']" | "q \<noteq> root @ [''AGENTS.md'']" "q \<noteq> root @ [''CLAUDE.md'']" by blast
  then show ?thesis
  proof cases
    case 1
    then have A: "leads ?P (\<lambda>w. ?P w \<or> block_edited (compute_managed_block rel) q c w) (inject_root_agents root rel dry)"
      using inject_leads_edited assms unfolding inject_root_agents_def inject_managed_block_def by blast
    have B: "leads (\<lambda>w. ?P w \<or> block_edited (compute_managed_block rel) q c w) (blocks_edited root rel q c) (inject_root_claude root rel dry)"
      unfolding inject_root_claude_def using 1 by (intro inject_leads_other [of q]) (auto simp: blocks_edited_def block_edited_def)
    show ?thesis
      by (rule leads_and_then [OF A _ leads_and_then [OF B]]) (auto simp: 1 blocks_edited_def intro: leads_return)
  next
    case 2
    then have A: "leads ?P ?P (inject_root_agents root rel dry)"
      unfolding inject_root_agents_def inject_managed_block_def by (intro inject_leads_other [of q]) auto
    have B: "leads ?P (\<lambda>w. ?P w \<or> block_edited compute_claude_block q c w) (inject_root_claude root rel dry)"
      using inject_leads_edited 2 assms unfolding inject_root_claude_def by blast
    show ?thesis
      by (rule leads_and_then [OF A _ leads_and_then [OF B]]) (auto simp: 2 blocks_edited_def intro: leads_return)
  next
    case 3
    then have A: "leads ?P ?P (inject_root_agents root rel dry)" and B: "leads ?P ?P (inject_root_claude root rel dry)"
      unfolding inject_root_agents_def inject_managed_block_def inject_root_claude_def by (intro inject_leads_other [of q]; simp)+
    show ?thesis
      by (rule leads_and_then [OF A _ leads_and_then [OF B]]) (auto simp: blocks_edited_def intro: leads_return)
  qed
qed

lemma init_project_leads:
  fixes root rel
  defines "cd \<equiv> resolve_under root rel"
  assumes "\<not> ni_force args" "\<not> program_file cd q"
    and ordered: "q = root @ [''AGENTS.md''] \<or> q = root @ [''CLAUDE.md''] \<longrightarrow> in_order c"
  shows "leads (\<lambda>w. dget (dk_files (wo_disk w)) q = Some c \<and> declines_kit env args w) (blocks_edited root rel q c)
    (init_project env args root rel name)"
proof -
  define Q where "Q = blocks_edited root rel q c"
  define P1 where "P1 = (\<lambda>w. dget (dk_files (wo_disk w)) q = Some c \<and> declines_kit env args w)"
  define P2 where "P2 = (\<lambda>w :: world. dget (dk_files (wo_disk w)) q = Some c)"
  let ?S = "program_file cd"
  have Q: "P1 w \<Longrightarrow> Q w" "P2 w \<Longrightarrow> Q w" for w by (simp_all add: P1_def P2_def Q_def blocks_edited_def)
  have keep1: "honours (keeps_outside ?S) m \<Longrightarrow> honours quiet m \<Longrightarrow> leads P1 P1 m" for m :: "'a act"
    using assms(3) by (auto simp: leads_def honours_def P1_def keeps_outside_def quiet_def declines_kit_def)
  have keep2: "honours (keeps_outside ?S) m \<Longrightarrow> leads P2 P2 m" for m :: "'a act"
    using assms(3) by (auto simp: leads_def honours_def P2_def keeps_outside_def)
  have kit: "leads P1 P2 (init_kit env args cd)"
    using init_kit_declined by (auto simp: leads_def P1_def P2_def)
  have files: "?S (cd @ [''.core'', ''README.md''])" "?S (cd @ [''.gen'', ''README.md''])" "?S (cd @ [''config'', ''README.md''])"
    by (auto simp: program_file_def at_or_below_iff)
  have "honours (same_outside ?S) (init_layout env args cd)"
    unfolding init_layout_def write_readmes_def
    by (intro outside.intros mkdirs_outside copy_from_cache_outside write_at_outside files allI impI) (simp add: program_file_def)
  then have layout: "leads P1 P1 (init_layout env args cd)" by (intro keep1 outside_keeps quiet_layout)
  have cfg: "honours (keeps_outside ?S) (write_config (ni_force args) dry p (dump_data d p t))" for dry p d t
    using assms(2) write_config_keeps [OF dump_data_outside] by simp
  have cfg1: "leads P1 P1 (write_config (ni_force args) dry p (dump_data d p t))" for dry p d t
    by (intro keep1 cfg quiet_config quiet_dump)
  have agents: "leads P1 P1 (write_config_agents dry p)" for dry p
    using write_new_keeps [of ?S p "\<not> dry"] by (intro keep1 quiet_agents) (simp add: write_config_agents_def)
  have skill: "leads P2 P2 (write_config_skill dry p)" for dry p
    using write_new_keeps [of ?S p True _ "\<lambda>e. Some (if e then Unchanged else Created)"]
    by (intro keep2) (simp add: write_config_skill_def keeping_outside.return_act)
  have agg: "leads P2 P2 (when_act b (regenerate_gen_aggregates (in_kit env) cd))" for b
    by (intro keep2 outside_keeps outside.when_act regenerate_outside) (simp add: program_file_def)
  note blocks = injecting_leads [OF ordered, of rel, folded P2_def Q_def]
  have backup: "(if ni_force args \<and> \<not> ni_dry_run args then create_backup env cd else return_act None) = return_act None"
    using assms(2) by simp

  have "leads P1 Q (init_project env args root rel name)"
    unfolding init_project_def Let_def cd_def [symmetric] backup
    by (rule leads_and_then [OF leads_return], assumption, rule Q, assumption,
        rule leads_and_then [OF layout Q(1)], assumption, rule leads_and_then [OF cfg1 Q(1)], assumption,
        rule leads_and_then [OF agents Q(1)], assumption, rule leads_and_then [OF kit Q(2)], assumption,
        unfold case_prod_unfold, rule leads_and_then [OF keep2 [OF cfg] Q(2)], assumption,
        rule leads_and_then [OF agg Q(2)], assumption, rule leads_and_then [OF skill Q(2)], assumption, rule blocks)
  then show ?thesis by (simp add: P1_def Q_def)
qed


definition init_demo_env :: init_env where
  "init_demo_env = \<lparr>in_kit = \<lparr>ke_loads = (\<lambda>_. Inr []), ke_isatty = False, ke_cwd = [''p''], ke_editor = (\<lambda>_ _. None),
      ke_download = (\<lambda>_ _ _ _. None), ke_gen_readme = []\<rparr>,
     in_cache = [''cache''], in_now = ''now'', in_core_readme = [], in_gen_readme = [], in_config_readme = []\<rparr>"

definition init_demo_args :: "bool \<Rightarrow> init_args" where
  "init_demo_args dry = \<lparr>ni_project_root = None, ni_install_dir = Some ''cypilot'', ni_project_name = None, ni_yes = False,
     ni_dry_run = dry, ni_force = False\<rparr>"

definition init_demo_world :: world where
  "init_demo_world = \<lparr>wo_disk = \<lparr>dk_files = [([''p'', ''cypilot'', ''config'', ''core.toml''], Text ''x'')],
       dk_dirs = [[], [''p''], [''p'', ''cypilot''], [''p'', ''cypilot'', ''config''], [''cache'']]\<rparr>,
     wo_console = \<lparr>co_inputs = [], co_session = 0\<rparr>\<rparr>"

theorem init_dry_run_pure_witness:
  "\<exists>n r w'. cmd_init init_demo_env (init_demo_args True) init_demo_world = (Inr (n, InitOk r), w')
     \<and> n = 0 \<and> id_core_toml r = Unchanged \<and> id_root_agents r = Created \<and> wo_disk w' = wo_disk init_demo_world"
proof -
  let ?run = "cmd_init init_demo_env (init_demo_args True) init_demo_world"
  have "(case fst ?run of Inr (n, InitOk r) \<Rightarrow> n = 0 \<and> id_core_toml r = Unchanged \<and> id_root_agents r = Created | _ \<Rightarrow> False)"
    by code_simp
  then obtain r where r: "fst ?run = Inr (0, InitOk r)" "id_core_toml r = Unchanged" "id_root_agents r = Created"
    by (auto split: sum.splits prod.splits init_report.splits)
  moreover have "wo_disk (snd ?run) = wo_disk init_demo_world"
    by (rule init_dry_run_pure) (simp add: init_demo_args_def)
  ultimately show ?thesis by (metis prod.collapse)
qed

text \<open>A project with notes of its own, set up on a terminal by a user who refuses the kit.\<close>

definition refusing_env :: init_env where
  "refusing_env = init_demo_env\<lparr>in_kit := (in_kit init_demo_env)\<lparr>ke_isatty := True\<rparr>\<rparr>"

definition refusing_world :: world where
  "refusing_world = init_demo_world\<lparr>wo_disk := (wo_disk init_demo_world)\<lparr>dk_files := [([''p'', ''AGENTS.md''], Text ''# Notes'')]\<rparr>,
     wo_console := \<lparr>co_inputs = ['' Decline''], co_session = 0\<rparr>\<rparr>"


end
