(* ===== verification/Json_Config.thy ===== *)
theory Json_Config
  imports Kit_Manage
begin

section \<open>Configuration of version 2 as TOML (\<open>commands/migrate.py\<close>)\<close>

text \<open>
  Version 2 of the program kept its configuration in JSON files. The migration reads them, adapts
  keys and values and writes TOML beside or instead of them. \<open>json.loads\<close> is a parameter (an error
  or a value); what the code does with the value is modelled for every value that JSON has.
\<close>

subsection \<open>Values\<close>

text \<open>\<open>None\<close> has no counterpart in TOML.\<close>

function strip_none :: "pyobj \<Rightarrow> pyobj" where
  "strip_none (PDict d) = PDict (map (\<lambda>kv. (fst kv, strip_none (snd kv))) (filter (\<lambda>kv. snd kv \<noteq> PNone) d))"
| "strip_none (PList vs) = PList (map strip_none (filter (\<lambda>v. v \<noteq> PNone) vs))"
| "strip_none PNone = PNone"
| "strip_none (PBool b) = PBool b"
| "strip_none (PInt i) = PInt i"
| "strip_none (PStr s) = PStr s"
| "strip_none (POther t s r b) = POther t s r b"
  by pat_completeness auto
termination strip_none
  by (relation "measure size") (auto dest: size_pair_mem simp: less_Suc_eq_le size_list_estimation')

text \<open>The words of version 2; the inner \<open>None\<close> is an optional property, which is left out.\<close>

definition ENUM_TO_BOOL :: "(string \<times> bool option) list" where
  "ENUM_TO_BOOL = [(''required'', Some True), (''prohibited'', Some False), (''allow'', None), (''allowed'', None),
     (''optional'', None)]"

definition ENUM_FIELDS :: "string list" where
  "ENUM_FIELDS = [''multiple'', ''numbered'', ''task'', ''priority'', ''coverage'']"

definition enum_field :: "pyobj \<Rightarrow> bool" where
  "enum_field k = (case k of PStr s \<Rightarrow> s \<in> set ENUM_FIELDS | _ \<Rightarrow> False)"

definition enum_value :: "string \<Rightarrow> bool option" where
  "enum_value s = (case dget ENUM_TO_BOOL (lower s) of None \<Rightarrow> None | Some b \<Rightarrow> b)"

function coerce_enum_bools :: "pyobj \<Rightarrow> pyobj" where
  "coerce_enum_bools (PDict d) =
     PDict (concat (map (\<lambda>kv. case snd kv of
         PStr s \<Rightarrow>
           if enum_field (fst kv)
           then (case enum_value s of Some b \<Rightarrow> [(fst kv, PBool b)] | None \<Rightarrow> [])
           else [(fst kv, PStr s)]
       | _ \<Rightarrow> [(fst kv, coerce_enum_bools (snd kv))]) d))"
| "coerce_enum_bools (PList vs) = PList (map coerce_enum_bools vs)"
| "coerce_enum_bools PNone = PNone"
| "coerce_enum_bools (PBool b) = PBool b"
| "coerce_enum_bools (PInt i) = PInt i"
| "coerce_enum_bools (PStr s) = PStr s"
| "coerce_enum_bools (POther t s r b) = POther t s r b"
  by pat_completeness auto
termination coerce_enum_bools
proof (relation "measure size")
  fix d :: "(pyobj \<times> pyobj) list" and kv
  assume "kv \<in> set d"
  from size_pair_mem [OF this] show "(snd kv, PDict d) \<in> measure size" by simp
qed (auto simp: less_Suc_eq_le size_list_estimation')

text \<open>Artifact kinds move below \<open>artifacts\<close>, and kinds without \<open>toc\<close> get \<open>false\<close>.\<close>

definition add_toc :: "pyobj \<Rightarrow> pyobj" where
  "add_toc v = (case v of PDict kd \<Rightarrow> if phas kd ''toc'' then v else PDict (kd @ [(PStr ''toc'', PBool False)]) | _ \<Rightarrow> v)"

definition convert_constraints_v2_to_v3 :: "pyobj \<Rightarrow> pyobj" where
  "convert_constraints_v2_to_v3 v2_data =
     (let coerced = coerce_enum_bools v2_data;
          coerced = (case coerced of PDict d \<Rightarrow> PDict (map (\<lambda>kv. (fst kv, add_toc (snd kv))) d) | v \<Rightarrow> v)
      in strip_none (PDict [(PStr ''artifacts'', coerced)]))"

subsection \<open>The configuration of reviews\<close>

definition PR_REVIEW_KEY_MAP :: "(string \<times> string) list" where
  "PR_REVIEW_KEY_MAP = [(''dataDir'', ''data_dir''), (''promptFile'', ''prompt_file'')]"

definition PR_REVIEW_DEFAULT_KIT_SLUG :: string where
  "PR_REVIEW_DEFAULT_KIT_SLUG = ''sdlc''"

definition new_key :: "pyobj \<Rightarrow> pyobj" where
  "new_key k = (case k of PStr s \<Rightarrow> PStr (case dget PR_REVIEW_KEY_MAP s of None \<Rightarrow> s | Some t \<Rightarrow> t) | _ \<Rightarrow> k)"

definition pr_review_path_rewrites :: "string \<Rightarrow> (string \<times> string) list" where
  "pr_review_path_rewrites kit_slug =
     (let target = ''config/kits/'' @ kit_slug @ ''/scripts/prompts/pr/''
      in [(''.core/prompts/pr/'', target), (''prompts/pr/'', target)])"

definition rewrite_prompt :: "string \<Rightarrow> string \<Rightarrow> string" where
  "rewrite_prompt kit_slug v =
     (case find (\<lambda>(old_pat, new_pat). has_sub v old_pat \<and> \<not> has_sub v new_pat) (pr_review_path_rewrites kit_slug) of
        None \<Rightarrow> v | Some (old_pat, new_pat) \<Rightarrow> replace_all old_pat new_pat v)"

definition normalize_pr_review_entry :: "string \<Rightarrow> pyobj \<Rightarrow> pyobj" where
  "normalize_pr_review_entry kit_slug entry =
     (case entry of
        PDict d \<Rightarrow>
          PDict (foldl (\<lambda>out kv.
             dset (new_key (fst kv))
               (case snd kv of
                  PStr s \<Rightarrow> if new_key (fst kv) = PStr ''prompt_file'' then PStr (rewrite_prompt kit_slug s) else PStr s
                | v \<Rightarrow> v) out) [] d)
      | _ \<Rightarrow> entry)"

definition normalize_pr_review_data :: "string \<Rightarrow> pyobj \<Rightarrow> kit_exc + pyobj" where
  "normalize_pr_review_data kit_slug data =
     (case data of
        PDict d \<Rightarrow>
          Inr (PDict (foldl (\<lambda>out kv.
             dset (new_key (fst kv))
               (case snd kv of
                  PList vs \<Rightarrow>
                    if new_key (fst kv) = PStr ''prompts'' then PList (map (normalize_pr_review_entry kit_slug) vs) else PList vs
                | v \<Rightarrow> v) out) [] d))
      | _ \<Rightarrow> Inl TypeFailure)"

subsection \<open>Files\<close>

record json_env =
  jv_kit :: kit_env
  jv_loads :: "string \<Rightarrow> pyobj option"

definition lift_act :: "kit_exc + 'a \<Rightarrow> 'a act" where
  "lift_act r = (case r of Inl e \<Rightarrow> fail_act e | Inr x \<Rightarrow> return_act x)"

text \<open>\<open>json.loads(p.read_text(encoding="utf-8"))\<close>, and \<open>toml_utils.dump(data, p)\<close>, which asks the data for
  its \<open>items()\<close> after the directory of the file was made.\<close>

definition read_json :: "json_env \<Rightarrow> path \<Rightarrow> pyobj act" where
  "read_json env p =
     and_then (read_text p) (\<lambda>t. case jv_loads env t of None \<Rightarrow> fail_act JsonFailure | Some v \<Rightarrow> return_act v)"

definition toml_text :: "pyobj \<Rightarrow> string \<Rightarrow> kit_exc + string" where
  "toml_text data comment =
     (case data of
        PDict d \<Rightarrow> (case dumps d comment of Inl e \<Rightarrow> Inl TypeFailure | Inr t \<Rightarrow> Inr t)
      | _ \<Rightarrow> Inl AttributeFailure)"

definition toml_dump :: "pyobj \<Rightarrow> path \<Rightarrow> string \<Rightarrow> unit act" where
  "toml_dump data p comment =
     and_then (disk_op (mkdirs (butlast p))) (\<lambda>_.
     and_then (lift_act (toml_text data comment)) (\<lambda>t.
     disk_op (write_at p (Text t))))"

text \<open>\<open>except (json.JSONDecodeError, OSError, TypeError)\<close>\<close>

definition conversion_error :: "kit_exc \<Rightarrow> bool" where
  "conversion_error e = (case e of JsonFailure \<Rightarrow> True | DiskFailure _ \<Rightarrow> True | TypeFailure \<Rightarrow> True | _ \<Rightarrow> False)"

definition try_conversion :: "'a act \<Rightarrow> 'a act \<Rightarrow> 'a act" where
  "try_conversion m h = try_act m (\<lambda>e. if conversion_error e then h else fail_act e)"

text \<open>\<open>d.glob("*.json")\<close>: files and directories of that name, hidden ones too, in the order of the disk.\<close>

definition glob_json :: "disk \<Rightarrow> path \<Rightarrow> path list" where
  "glob_json dk d =
     filter (\<lambda>p. let name = last p in 5 \<le> length name \<and> drop (length name - 5) name = ''.json'') (dir_files dk d @ dir_dirs dk d)"

definition toml_sibling :: "path \<Rightarrow> path" where
  "toml_sibling p = butlast p @ [stem_of (last p) @ ''.toml'']"

definition normalized :: "string \<Rightarrow> path \<Rightarrow> pyobj \<Rightarrow> kit_exc + pyobj" where
  "normalized kit_slug p data =
     (if last p = ''pr-review.json'' then normalize_pr_review_data kit_slug data else Inr data)"

definition ALREADY_MIGRATED :: "string list" where
  "ALREADY_MIGRATED = [''artifacts.json'', ''constraints.json'']"

definition migrate_json_file :: "json_env \<Rightarrow> path \<Rightarrow> string \<Rightarrow> path \<Rightarrow> string list \<times> string list
    \<Rightarrow> (string list \<times> string list) act" where
  "migrate_json_file env config_dir kit_slug p acc =
     (let (converted, failed) = acc; name = last p; toml_dest = config_dir @ [last (toml_sibling p)]
      in if name \<in> set ALREADY_MIGRATED then return_act acc
         else and_then (look (\<lambda>dk. is_file dk toml_dest)) (\<lambda>there.
              if there then return_act acc
              else try_conversion
                (and_then (read_json env p) (\<lambda>data.
                 and_then (lift_act (normalized kit_slug p data)) (\<lambda>data.
                 and_then (toml_dump (strip_none data) toml_dest []) (\<lambda>_.
                 return_act (converted @ [name], failed)))))
                (return_act (converted, failed @ [name]))))"

definition migrate_adapter_json_configs :: "json_env \<Rightarrow> path \<Rightarrow> path \<Rightarrow> string \<Rightarrow> (string list \<times> string list) act" where
  "migrate_adapter_json_configs env adapter_dir config_dir kit_slug =
     and_then (disk_op (mkdirs config_dir)) (\<lambda>_.
     and_then (look (\<lambda>dk. sorted_by path_less (glob_json dk adapter_dir))) (\<lambda>files.
     for_each (migrate_json_file env config_dir kit_slug) files ([], [])))"

subsection \<open>The command \<open>migrate-config\<close>\<close>

text \<open>The kit of the first system in the registry, when that is a string that is not blank.\<close>

definition primary_slug :: "json_env \<Rightarrow> disk \<Rightarrow> path \<Rightarrow> string" where
  "primary_slug env dk root =
     (case load_toml (jv_kit env) dk (root @ [''config'', ''artifacts.toml'']) of
        Some (Inr data) \<Rightarrow>
          (case list_items data ''systems'' of
             PDict s # ss \<Rightarrow>
               (case pget s ''kit'' of
                  PStr k \<Rightarrow> if strip k = [] then PR_REVIEW_DEFAULT_KIT_SLUG else strip k
                | _ \<Rightarrow> PR_REVIEW_DEFAULT_KIT_SLUG)
           | _ \<Rightarrow> PR_REVIEW_DEFAULT_KIT_SLUG)
      | _ \<Rightarrow> PR_REVIEW_DEFAULT_KIT_SLUG)"

text \<open>The directories that are searched: the last two are the same name in the source.\<close>

definition SCAN_CANDIDATES :: "string list" where
  "SCAN_CANDIDATES = [''config'', ''.cypilot-adapter'', ''.cypilot-adapter'']"

datatype skip_reason = TomlExists | ConversionError

record config_result =
  cr_converted :: "path list"
  cr_skipped :: "(path \<times> skip_reason) list"

definition convert_config_file :: "json_env \<Rightarrow> string \<Rightarrow> path \<Rightarrow> config_result \<Rightarrow> config_result act" where
  "convert_config_file env kit_slug p acc =
     and_then (look (\<lambda>dk. is_file dk (toml_sibling p))) (\<lambda>there.
     if there then return_act (acc\<lparr>cr_skipped := cr_skipped acc @ [(p, TomlExists)]\<rparr>)
     else try_conversion
       (and_then (read_json env p) (\<lambda>data.
        and_then (lift_act (normalized kit_slug p data)) (\<lambda>data.
        and_then (toml_dump (strip_none data) (toml_sibling p) []) (\<lambda>_.
        and_then (disk_op (\<lambda>dk. Inr (unlink_file dk p))) (\<lambda>_.
        return_act (acc\<lparr>cr_converted := cr_converted acc @ [p]\<rparr>))))))
       (return_act (acc\<lparr>cr_skipped := cr_skipped acc @ [(p, ConversionError)]\<rparr>)))"

definition run_migrate_config :: "json_env \<Rightarrow> path \<Rightarrow> config_result act" where
  "run_migrate_config env root =
     and_then (look (\<lambda>dk. primary_slug env dk root)) (\<lambda>slug.
     and_then (look (\<lambda>dk. concat (map (\<lambda>c. if is_dir dk (root @ [c]) then glob_json dk (root @ [c]) else []) SCAN_CANDIDATES)))
       (\<lambda>files.
     for_each (convert_config_file env slug) files \<lparr>cr_converted = [], cr_skipped = []\<rparr>))"

definition cmd_migrate_config :: "json_env \<Rightarrow> string option \<Rightarrow> (nat \<times> config_result) act" where
  "cmd_migrate_config env project_root =
     (let root = (case project_root of
                    Some s \<Rightarrow> if s = [] then ke_cwd (jv_kit env) else resolve_under (ke_cwd (jv_kit env)) s
                  | None \<Rightarrow> ke_cwd (jv_kit env))
      in and_then (run_migrate_config env root) (\<lambda>r. return_act (0, r)))"

end
