(* ===== verification/Json_Config_Facts.thy ===== *)
theory Json_Config_Facts
  imports Json_Config Act_Frames Toml_Facts Kit_Manage_Facts Constraint_Facts
begin

section \<open>What the conversion of configuration files keeps\<close>

subsection \<open>Values\<close>

text \<open>The values inside a value, itself included.\<close>

inductive part_of :: "pyobj \<Rightarrow> pyobj \<Rightarrow> bool" where
  self: "part_of v v"
| item: "part_of v x \<Longrightarrow> x \<in> set vs \<Longrightarrow> part_of v (PList vs)"
| entry: "part_of v x \<Longrightarrow> (k, x) \<in> set d \<Longrightarrow> part_of v (PDict d)"

inductive_simps part_of_simps [simp]: "part_of v (PList vs)" "part_of v (PDict d)" "part_of v PNone" "part_of v (PBool b)"
  "part_of v (PInt i)" "part_of v (PStr s)" "part_of v (POther t s' r b')"

lemma strip_none_eq_PNone [simp]: "strip_none v = PNone \<longleftrightarrow> v = PNone"
  by (cases v) auto

lemma strip_none_idem: "strip_none (strip_none v) = strip_none v"
proof (induction v rule: strip_none.induct)
  case (1 d)
  have "filter (\<lambda>kv. snd kv \<noteq> PNone) (map (\<lambda>kv. (fst kv, strip_none (snd kv))) (filter (\<lambda>kv. snd kv \<noteq> PNone) d))
      = map (\<lambda>kv. (fst kv, strip_none (snd kv))) (filter (\<lambda>kv. snd kv \<noteq> PNone) d)"
    by (induction d) auto
  then show ?case using 1 by (auto intro!: map_cong)
next
  case (2 vs)
  have "filter (\<lambda>v. v \<noteq> PNone) (map strip_none (filter (\<lambda>v. v \<noteq> PNone) vs)) = map strip_none (filter (\<lambda>v. v \<noteq> PNone) vs)"
    by (induction vs) auto
  then show ?case using 2 by simp
qed simp_all

lemma strip_none_clean: "v \<noteq> PNone \<Longrightarrow> \<not> part_of PNone (strip_none v)"
proof (induction v rule: strip_none.induct)
  case (1 d)
  then have "\<not> part_of PNone (strip_none (snd kv))" if "kv \<in> set d" "snd kv \<noteq> PNone" for kv using that by simp
  then show ?case by auto
next
  case (2 vs)
  then have "\<not> part_of PNone (strip_none v)" if "v \<in> set vs" "v \<noteq> PNone" for v using that by simp
  then show ?case by auto
qed auto

text \<open>After the conversion no property of the listed names is a word any more.\<close>

lemma coerced_entry:
  assumes "coerce_enum_bools (PDict d) = PDict d'" "(k, x) \<in> set d'"
  shows "\<exists>y. (k, y) \<in> set d \<and> (x = coerce_enum_bools y \<and> \<not> (enum_field k \<and> is_pystr y) \<or> enum_field k \<and> (\<exists>b. x = PBool b))"
proof -
  let ?f = "\<lambda>kv. case snd kv of
         PStr s \<Rightarrow> if enum_field (fst kv) then (case enum_value s of Some b \<Rightarrow> [(fst kv, PBool b)] | None \<Rightarrow> []) else [(fst kv, PStr s)]
       | _ \<Rightarrow> [(fst kv, coerce_enum_bools (snd kv))]"
  have "(k, x) \<in> set (concat (map ?f d))" using assms by simp
  then obtain kv where "kv \<in> set d" "(k, x) \<in> set (?f kv)" unfolding set_concat set_map by blast
  moreover obtain k' y where "kv = (k', y)" by (cases kv)
  ultimately have kv: "(k', y) \<in> set d" and m: "(k, x) \<in> set (?f (k', y))" by (simp_all only:)
  have "k = k' \<and> (x = coerce_enum_bools y \<and> \<not> (enum_field k \<and> is_pystr y) \<or> enum_field k \<and> (\<exists>b. x = PBool b))"
    using m by (cases y) (auto split: if_splits option.splits)
  then show ?thesis using kv by blast
qed

lemma coerced_str: "is_pystr (coerce_enum_bools y) = is_pystr y"
  by (cases y) auto

lemma coerced_enums:
  assumes "part_of (PDict d) (coerce_enum_bools v)" "(k, x) \<in> set d" "enum_field k"
  shows "\<not> is_pystr x"
  using assms
proof (induction v rule: coerce_enum_bools.induct)
  case (1 e)
  obtain e' where e': "coerce_enum_bools (PDict e) = PDict e'" by simp
  from "1.prems"(1) consider "d = e'" | k' y where "(k', y) \<in> set e'" "part_of (PDict d) y" unfolding e' by auto
  then show ?case
  proof cases
    case 1
    then show ?thesis using coerced_entry [OF e', of k x] assms(2,3) coerced_str by fastforce
  next
    case 2
    obtain z where z: "(k', z) \<in> set e" "y = coerce_enum_bools z \<or> (\<exists>b. y = PBool b)" using coerced_entry [OF e' 2(1)] by blast
    then have y: "y = coerce_enum_bools z" using 2(2) by auto
    show ?thesis
    proof (cases "is_pystr z")
      case True
      then show ?thesis using 2(2) y by (cases z) auto
    next
      case False
      then show ?thesis using "1.IH" z(1) y 2(2) assms(2,3) by (cases z) auto
    qed
  qed
qed auto

text \<open>\<open>enums_gone v\<close>: no dictionary inside \<open>v\<close> has a string for one of the listed properties.\<close>

definition enums_gone :: "pyobj \<Rightarrow> bool" where
  "enums_gone v = (\<forall>d k x. part_of (PDict d) v \<longrightarrow> (k, x) \<in> set d \<longrightarrow> enum_field k \<longrightarrow> \<not> is_pystr x)"

lemma stripped_str: "is_pystr (strip_none y) = is_pystr y"
  by (cases y) auto

lemma stripped_part:
  "part_of (PDict d) (strip_none v) \<Longrightarrow> \<exists>e. part_of (PDict e) v \<and> (\<forall>(k, x) \<in> set d. \<exists>y. (k, y) \<in> set e \<and> x = strip_none y)"
proof (induction v rule: strip_none.induct)
  case (1 e)
  then consider "d = map (\<lambda>kv. (fst kv, strip_none (snd kv))) (filter (\<lambda>kv. snd kv \<noteq> PNone) e)"
    | kv where "kv \<in> set e" "snd kv \<noteq> PNone" "part_of (PDict d) (strip_none (snd kv))" by auto
  then show ?case
  proof cases
    case 1
    then have "\<forall>(k, x) \<in> set d. \<exists>y. (k, y) \<in> set e \<and> x = strip_none y" by auto
    then show ?thesis using part_of.self by blast
  next
    case 2
    then obtain e' where e': "part_of (PDict e') (snd kv)" "\<forall>(k, x) \<in> set d. \<exists>y. (k, y) \<in> set e' \<and> x = strip_none y"
      using "1.IH" [of kv] by auto
    have "part_of (PDict e') (PDict e)" using part_of.entry [OF e'(1), of "fst kv" e] 2(1) by simp
    then show ?thesis using e'(2) by (intro exI conjI)
  qed
next
  case (2 vs)
  then obtain v where v: "v \<in> set vs" "v \<noteq> PNone" "part_of (PDict d) (strip_none v)" by auto
  then obtain e where e: "part_of (PDict e) v" "\<forall>(k, x) \<in> set d. \<exists>y. (k, y) \<in> set e \<and> x = strip_none y"
    using "2.IH" [of v] by auto
  have "part_of (PDict e) (PList vs)" using e(1) v(1) by (rule part_of.item)
  then show ?case using e(2) by (intro exI conjI)
qed auto

lemma enums_gone_strip: "enums_gone v \<Longrightarrow> enums_gone (strip_none v)"
  unfolding enums_gone_def
proof (intro allI impI)
  fix d k x
  assume gone: "\<forall>d k x. part_of (PDict d) v \<longrightarrow> (k, x) \<in> set d \<longrightarrow> enum_field k \<longrightarrow> \<not> is_pystr x"
    and d: "part_of (PDict d) (strip_none v)" "(k, x) \<in> set d" "enum_field k"
  obtain e y where "part_of (PDict e) v" "(k, y) \<in> set e" "x = strip_none y" using stripped_part [OF d(1)] d(2) by blast
  then show "\<not> is_pystr x" using gone d(3) stripped_str by blast
qed

lemma enums_gone_coerce: "enums_gone (coerce_enum_bools v)"
  using coerced_enums by (auto simp: enums_gone_def)

lemma enums_gone_dict: "enums_gone (PDict d) \<longleftrightarrow> (\<forall>(k, x) \<in> set d. enums_gone x \<and> (enum_field k \<longrightarrow> \<not> is_pystr x))"
  unfolding enums_gone_def by auto (blast | force)+

lemma enums_gone_add_toc: "enums_gone v \<Longrightarrow> enums_gone (add_toc v)"
  by (cases v) (auto simp: add_toc_def enums_gone_dict enum_field_def ENUM_FIELDS_def enums_gone_def [of "PBool False"])


subsection \<open>The command\<close>

text \<open>
  \<open>converted_to env slug dk dk' p\<close>: on the first disk \<open>p\<close> is a JSON file without a TOML file beside it, and
  on the second the TOML file is there, with the normalised data of the JSON file.
\<close>

definition json_name :: "path \<Rightarrow> bool" where
  "json_name p = (5 \<le> length (last p) \<and> drop (length (last p) - 5) (last p) = ''.json'')"

definition toml_of_json :: "json_env \<Rightarrow> string \<Rightarrow> path \<Rightarrow> content \<Rightarrow> string option" where
  "toml_of_json env slug p c =
     (case c of
        Text t \<Rightarrow>
          (case jv_loads env (universal_newlines t) of
             None \<Rightarrow> None
           | Some v \<Rightarrow>
               (case normalized slug p v of
                  Inl _ \<Rightarrow> None
                | Inr v' \<Rightarrow> (case toml_text (strip_none v') [] of Inl _ \<Rightarrow> None | Inr s \<Rightarrow> Some s)))
      | Binary _ \<Rightarrow> None)"

definition converted_to :: "json_env \<Rightarrow> string \<Rightarrow> disk \<Rightarrow> disk \<Rightarrow> path \<Rightarrow> bool" where
  "converted_to env slug dk dk' p =
     (json_name p \<and> dget (dk_files dk) (toml_sibling p) = None
      \<and> (case dget (dk_files dk) p of
           Some c \<Rightarrow>
             (case toml_of_json env slug p c of
                Some s \<Rightarrow> dget (dk_files dk') (toml_sibling p) = Some (Text s)
              | None \<Rightarrow> False)
         | None \<Rightarrow> False))"

lemma converted_to_iff:
  "converted_to env slug dk dk' p \<longleftrightarrow>
    json_name p \<and> dget (dk_files dk) (toml_sibling p) = None
    \<and> (\<exists>c s. dget (dk_files dk) p = Some c \<and> toml_of_json env slug p c = Some s \<and> dget (dk_files dk') (toml_sibling p) = Some (Text s))"
  by (auto simp: converted_to_def split: option.splits)

definition only_converts :: "json_env \<Rightarrow> string \<Rightarrow> world \<Rightarrow> world \<Rightarrow> bool" where
  "only_converts env slug w w' =
     (\<forall>p c. dget (dk_files (wo_disk w)) p = Some c \<longrightarrow>
        dget (dk_files (wo_disk w')) p = Some c \<or> converted_to env slug (wo_disk w) (wo_disk w') p)"

lemma toml_sibling_not_json: "\<not> json_name (toml_sibling p)"
  by (simp add: json_name_def toml_sibling_def)

lemma only_converts_trans:
  assumes ab: "only_converts env slug a b" and bc: "only_converts env slug b c"
  shows "only_converts env slug a c"
  unfolding only_converts_def
proof (intro allI impI)
  fix p x assume a: "dget (dk_files (wo_disk a)) p = Some x"
  show "dget (dk_files (wo_disk c)) p = Some x \<or> converted_to env slug (wo_disk a) (wo_disk c) p"
  proof (cases "converted_to env slug (wo_disk a) (wo_disk b) p")
    case True
    then show ?thesis using bc toml_sibling_not_json unfolding only_converts_def converted_to_iff by blast
  next
    case False
    then have b: "dget (dk_files (wo_disk b)) p = Some x" using ab a unfolding only_converts_def by blast
    have "dget (dk_files (wo_disk a)) (toml_sibling p) = None" if "dget (dk_files (wo_disk b)) (toml_sibling p) = None"
    proof (cases "dget (dk_files (wo_disk a)) (toml_sibling p)")
      case (Some y)
      then show ?thesis using ab that toml_sibling_not_json unfolding only_converts_def converted_to_iff by fastforce
    qed
    then show ?thesis using bc a b unfolding only_converts_def converted_to_iff by fastforce
  qed
qed

interpretation converting: world_rel "only_converts env slug" for env slug
  by unfold_locales (simp add: only_converts_def, rule only_converts_trans)

lemma toml_dump_files:
  "dk_files (wo_disk (snd (toml_dump data p comment w))) =
    (case fst (toml_dump data p comment w) of
       Inl e \<Rightarrow> dk_files (wo_disk w)
     | Inr u \<Rightarrow> (case toml_text data comment of Inr t \<Rightarrow> dset p (Text t) (dk_files (wo_disk w)) | Inl _ \<Rightarrow> dk_files (wo_disk w)))"
  by (auto simp: toml_dump_def and_then_def disk_op_def lift_act_def fail_act_def return_act_def mkdirs_def write_at_def
      split: sum.splits if_splits)

lemma toml_dump_text: "toml_dump data p comment w = (Inr u, w') \<Longrightarrow> \<exists>t. toml_text data comment = Inr t"
  by (auto simp: toml_dump_def and_then_def disk_op_def lift_act_def fail_act_def return_act_def split: sum.splits)

lemma read_json_world: "snd (read_json env p w) = w"
  by (auto simp: read_json_def and_then_def read_text_def fail_act_def return_act_def split: option.splits content.splits)

lemma read_json_Inr:
  "read_json env p w = (Inr v, w') \<longleftrightarrow>
    w' = w \<and> (\<exists>t. dget (dk_files (wo_disk w)) p = Some (Text t) \<and> jv_loads env (universal_newlines t) = Some v)"
  by (auto simp: read_json_def and_then_def read_text_def fail_act_def return_act_def split: option.splits content.splits)

text \<open>The part of the loop that can fail: read, normalise, write, remove.\<close>

lemma convert_step_files:
  assumes "and_then (read_json env p) (\<lambda>data.
        and_then (lift_act (normalized slug p data)) (\<lambda>data.
        and_then (toml_dump (strip_none data) dst []) (\<lambda>_.
        and_then (disk_op (\<lambda>dk. Inr (unlink_file dk p))) (\<lambda>_. return_act x)))) w = (r, w')" (is "?act w = _")
  shows "(case r of
      Inl e \<Rightarrow> dk_files (wo_disk w') = dk_files (wo_disk w)
    | Inr y \<Rightarrow> y = x \<and> (\<exists>c s. dget (dk_files (wo_disk w)) p = Some c \<and> toml_of_json env slug p c = Some s
        \<and> dk_files (wo_disk w') = dpop p (dset dst (Text s) (dk_files (wo_disk w)))))"
proof (cases "read_json env p w")
  case (Pair r1 w1)
  then have w1: "w1 = w" using read_json_world by (metis snd_conv)
  show ?thesis
  proof (cases r1)
    case (Inl e)
    then show ?thesis using assms Pair w1 by (auto simp: and_then_def)
  next
    case (Inr v)
    then obtain t where t: "dget (dk_files (wo_disk w)) p = Some (Text t)" "jv_loads env (universal_newlines t) = Some v"
      using Pair read_json_Inr by blast
    show ?thesis
    proof (cases "normalized slug p v")
      case (Inl e)
      then show ?thesis using assms Pair w1 Inr by (auto simp: and_then_def lift_act_def fail_act_def)
    next
      case n: (Inr v')
      obtain r2 w2 where d: "toml_dump (strip_none v') dst [] w = (r2, w2)" by (cases "toml_dump (strip_none v') dst [] w")
      note run = assms [unfolded and_then_def Pair, simplified Inr w1 n lift_act_def return_act_def]
      show ?thesis
      proof (cases r2)
        case (Inl e)
        then show ?thesis using run d n toml_dump_files [of "strip_none v'" dst "[]" w] by (auto simp: disk_op_def return_act_def)
      next
        case u: (Inr u)
        then obtain s where s: "toml_text (strip_none v') [] = Inr s" using toml_dump_text d by blast
        then have "dk_files (wo_disk w2) = dset dst (Text s) (dk_files (wo_disk w))"
          using toml_dump_files [of "strip_none v'" dst "[]" w] d u by simp
        then show ?thesis using run d u t n s by (auto simp: disk_op_def return_act_def unlink_file_def toml_of_json_def)
      qed
    qed
  qed
qed

lemma glob_json_name: "p \<in> set (glob_json dk d) \<Longrightarrow> json_name p"
  by (auto simp: glob_json_def json_name_def Let_def)

lemma convert_config_file_honours:
  assumes "json_name p"
  shows "honours (only_converts env slug) (convert_config_file env slug p acc)"
  unfolding convert_config_file_def
proof (rule converting.look_then, simp only: if_split [of "\<lambda>m. only_converts env slug _ (snd (m _))"], intro conjI impI)
  fix w
  show "only_converts env slug w (snd (return_act (acc\<lparr>cr_skipped := cr_skipped acc @ [(p, TomlExists)]\<rparr>) w))"
    by (simp add: return_act_def only_converts_def)
next
  fix w :: world
  assume there: "\<not> is_file (wo_disk w) (toml_sibling p)"
  let ?inner = "and_then (read_json env p) (\<lambda>data.
        and_then (lift_act (normalized slug p data)) (\<lambda>data.
        and_then (toml_dump (strip_none data) (toml_sibling p) []) (\<lambda>_.
        and_then (disk_op (\<lambda>dk. Inr (unlink_file dk p))) (\<lambda>_.
        return_act (acc\<lparr>cr_converted := cr_converted acc @ [p]\<rparr>)))))"
  obtain r w1 where run: "?inner w = (r, w1)" by (cases "?inner w")
  have "only_converts env slug w w1"
  proof (cases r)
    case (Inl e)
    then show ?thesis using convert_step_files [OF run] by (simp add: only_converts_def)
  next
    case (Inr y)
    then obtain c s where c: "dget (dk_files (wo_disk w)) p = Some c" "toml_of_json env slug p c = Some s"
        "dk_files (wo_disk w1) = dpop p (dset (toml_sibling p) (Text s) (dk_files (wo_disk w)))"
      using convert_step_files [OF run] by auto
    have ne: "toml_sibling p \<noteq> p" using assms toml_sibling_not_json by metis
    have "dget (dk_files (wo_disk w)) (toml_sibling p) = None" using there by (simp add: is_file_def dhas_def)
    then show ?thesis using c assms ne by (auto simp: only_converts_def converted_to_iff map_of_dpop map_of_dset)
  qed
  then show "only_converts env slug w (snd (try_conversion ?inner
      (return_act (acc\<lparr>cr_skipped := cr_skipped acc @ [(p, ConversionError)]\<rparr>)) w))"
    using run by (cases r) (auto simp: try_conversion_def try_act_def return_act_def fail_act_def)
qed

subsection \<open>What a conversion keeps\<close>

text \<open>
  \<open>kept v w\<close>: \<open>w\<close> has the entries of \<open>v\<close> that are not null, with their keys and in their order, at
  every depth, and nothing else.
\<close>

definition scalar :: "pyobj \<Rightarrow> bool" where
  "scalar v = (case v of PDict _ \<Rightarrow> False | PList _ \<Rightarrow> False | PNone \<Rightarrow> False | _ \<Rightarrow> True)"

inductive kept :: "pyobj \<Rightarrow> pyobj \<Rightarrow> bool" where
  kept_scalar: "scalar v \<Longrightarrow> kept v v"
| kept_list: "list_all2 kept (filter (\<lambda>v. v \<noteq> PNone) vs) ws \<Longrightarrow> kept (PList vs) (PList ws)"
| kept_dict: "list_all2 (rel_prod (=) kept) (filter (\<lambda>kv. snd kv \<noteq> PNone) d) e \<Longrightarrow> kept (PDict d) (PDict e)"

lemma kept_strip_none: "v \<noteq> PNone \<Longrightarrow> kept v (strip_none v)"
proof (induction v rule: strip_none.induct)
  case (1 d)
  then show ?case by (auto simp: list.rel_map intro!: kept_dict list.rel_refl_strong)
next
  case (2 vs)
  then show ?case by (auto simp: list.rel_map intro!: kept_list list.rel_refl_strong)
qed (auto simp: scalar_def intro: kept_scalar)

text \<open>
  In \<open>pr-review.json\<close> two keys have new names and the paths of prompts are rewritten: the entries stay
  in their order, each under its new key. Where two keys get the same name only one value is left, so
  this is asked of files without such a clash.
\<close>

definition renamed_entries :: "(pyobj \<Rightarrow> pyobj \<Rightarrow> pyobj \<Rightarrow> bool) \<Rightarrow> (pyobj \<times> pyobj) list \<Rightarrow> (pyobj \<times> pyobj) list \<Rightarrow> bool" where
  "renamed_entries R d e = list_all2 (\<lambda>(k, x) (k', y). k' = new_key k \<and> R k' x y) d e"

inductive prompt_moved :: "string \<Rightarrow> pyobj \<Rightarrow> pyobj \<Rightarrow> pyobj \<Rightarrow> bool" for slug where
  prompt_path: "prompt_moved slug (PStr ''prompt_file'') (PStr s) (PStr (rewrite_prompt slug s))"
| prompt_other: "k \<noteq> PStr ''prompt_file'' \<or> \<not> is_pystr x \<Longrightarrow> prompt_moved slug k x x"

inductive prompt_kept :: "string \<Rightarrow> pyobj \<Rightarrow> pyobj \<Rightarrow> bool" for slug where
  prompt_dict: "renamed_entries (prompt_moved slug) d e \<Longrightarrow> prompt_kept slug (PDict d) (PDict e)"
| prompt_same: "\<forall>d. v \<noteq> PDict d \<Longrightarrow> prompt_kept slug v v"

inductive setting_kept :: "string \<Rightarrow> pyobj \<Rightarrow> pyobj \<Rightarrow> pyobj \<Rightarrow> bool" for slug where
  setting_prompts: "list_all2 (prompt_kept slug) vs ws \<Longrightarrow> setting_kept slug (PStr ''prompts'') (PList vs) (PList ws)"
| setting_same: "k \<noteq> PStr ''prompts'' \<or> (\<forall>vs. v \<noteq> PList vs) \<Longrightarrow> setting_kept slug k v v"

inductive review_kept :: "string \<Rightarrow> pyobj \<Rightarrow> pyobj \<Rightarrow> bool" for slug where
  review_dict: "renamed_entries (setting_kept slug) d e \<Longrightarrow> review_kept slug (PDict d) (PDict e)"

definition new_keys_distinct :: "(pyobj \<times> pyobj) list \<Rightarrow> bool" where
  "new_keys_distinct d = distinct (map (\<lambda>kv. new_key (fst kv)) d)"

definition no_key_clash :: "pyobj \<Rightarrow> bool" where
  "no_key_clash v =
     (case v of
        PDict d \<Rightarrow> new_keys_distinct d
          \<and> list_all (\<lambda>kv. case snd kv of
               PList vs \<Rightarrow> list_all (\<lambda>x. case x of PDict e \<Rightarrow> new_keys_distinct e | _ \<Rightarrow> True) vs
             | _ \<Rightarrow> True) d
      | _ \<Rightarrow> True)"

lemma fold_dset_distinct:
  "distinct (map fst acc @ map f d) \<Longrightarrow> foldl (\<lambda>out kv. dset (f kv) (g kv) out) acc d = acc @ map (\<lambda>kv. (f kv, g kv)) d"
proof (induction d arbitrary: acc)
  case (Cons kv d)
  then have "f kv \<notin> fst ` set acc" by auto
  then show ?case using Cons.IH [of "acc @ [(f kv, g kv)]"] Cons.prems by (simp add: dset_new)
qed simp

lemma renamed_map:
  assumes "\<And>kv. kv \<in> set d \<Longrightarrow> R (new_key (fst kv)) (snd kv) (g kv)" "new_keys_distinct d"
  shows "renamed_entries R d (foldl (\<lambda>out kv. dset (new_key (fst kv)) (g kv) out) [] d)"
proof -
  have "foldl (\<lambda>out kv. dset (new_key (fst kv)) (g kv) out) [] d = map (\<lambda>kv. (new_key (fst kv), g kv)) d"
    using assms(2) by (subst fold_dset_distinct) (auto simp: new_keys_distinct_def)
  then show ?thesis
    using assms(1) by (auto simp: renamed_entries_def list.rel_map case_prod_unfold intro!: list.rel_refl_strong)
qed

lemma prompt_entry_kept:
  assumes "case v of PDict e \<Rightarrow> new_keys_distinct e | _ \<Rightarrow> True"
  shows "prompt_kept slug v (normalize_pr_review_entry slug v)"
proof (cases v)
  case (PDict d)
  have "renamed_entries (prompt_moved slug) d (foldl (\<lambda>out kv. dset (new_key (fst kv))
      (case snd kv of PStr s \<Rightarrow> if new_key (fst kv) = PStr ''prompt_file'' then PStr (rewrite_prompt slug s) else PStr s | v \<Rightarrow> v) out) [] d)"
    using assms PDict by (intro renamed_map) (auto intro: prompt_moved.intros split: pyobj.splits)
  then show ?thesis by (simp add: PDict normalize_pr_review_entry_def prompt_dict)
qed (auto simp: normalize_pr_review_entry_def intro: prompt_same)

lemma review_data_kept:
  assumes "normalize_pr_review_data slug v = Inr n" "no_key_clash v"
  shows "review_kept slug v n"
proof (cases v)
  case (PDict d)
  have "renamed_entries (setting_kept slug) d (foldl (\<lambda>out kv. dset (new_key (fst kv))
      (case snd kv of PList vs \<Rightarrow> if new_key (fst kv) = PStr ''prompts'' then PList (map (normalize_pr_review_entry slug) vs) else PList vs
       | v \<Rightarrow> v) out) [] d)"
  proof (rule renamed_map)
    fix kv assume kv: "kv \<in> set d"
    show "setting_kept slug (new_key (fst kv)) (snd kv)
      (case snd kv of PList vs \<Rightarrow> if new_key (fst kv) = PStr ''prompts'' then PList (map (normalize_pr_review_entry slug) vs) else PList vs
       | v \<Rightarrow> v)"
    proof (cases "snd kv")
      case (PList vs)
      then have "list_all (\<lambda>x. case x of PDict e \<Rightarrow> new_keys_distinct e | _ \<Rightarrow> True) vs"
        using assms(2) kv by (auto simp: no_key_clash_def \<open>v = PDict d\<close> list_all_iff)
      then have "list_all2 (prompt_kept slug) vs (map (normalize_pr_review_entry slug) vs)"
        by (auto simp: list.rel_map list_all_iff intro!: list.rel_refl_strong prompt_entry_kept)
      then show ?thesis by (auto simp: PList intro: setting_prompts setting_same)
    qed (auto intro: setting_same)
  next
    show "new_keys_distinct d" using assms(2) by (simp add: no_key_clash_def PDict)
  qed
  from review_dict [OF this] show ?thesis using assms(1) by (simp add: PDict normalize_pr_review_data_def) 
qed (use assms in \<open>simp_all add: normalize_pr_review_data_def\<close>)

lemma toml_of_json_kept:
  assumes "toml_of_json env slug p c = Some s"
    and "\<forall>t v. c = Text t \<longrightarrow> jv_loads env (universal_newlines t) = Some v \<longrightarrow> last p = ''pr-review.json'' \<longrightarrow> no_key_clash v"
  shows "\<exists>t v n v'. c = Text t \<and> jv_loads env (universal_newlines t) = Some v
    \<and> (if last p = ''pr-review.json'' then review_kept slug v n else n = v) \<and> kept n v' \<and> toml_text v' [] = Inr s"
proof -
  obtain t v n where c: "c = Text t" "jv_loads env (universal_newlines t) = Some v" "normalized slug p v = Inr n"
      and s: "toml_text (strip_none n) [] = Inr s"
    using assms(1) by (auto simp: toml_of_json_def split: content.splits option.splits sum.splits)
  have "kept n (strip_none n)" using s by (intro kept_strip_none) (auto simp: toml_text_def)
  moreover have "if last p = ''pr-review.json'' then review_kept slug v n else n = v"
    using c(3) review_data_kept [of slug v n] assms(2) c(1,2) by (simp add: normalized_def split: if_splits)
  ultimately show ?thesis using c(1,2) s by blast
qed

lemma only_converts_run:
  "only_converts env (primary_slug env (wo_disk w) root) w (snd (run_migrate_config env root w))"
proof -
  let ?files = "concat (map (\<lambda>c. if is_dir (wo_disk w) (root @ [c]) then glob_json (wo_disk w) (root @ [c]) else []) SCAN_CANDIDATES)"
  have "honours (only_converts env (primary_slug env (wo_disk w) root))
      (for_each (convert_config_file env (primary_slug env (wo_disk w) root)) ?files acc)" for acc
    by (rule converting.for_each, rule convert_config_file_honours) (auto dest: glob_json_name split: if_splits)
  then show ?thesis by (simp add: run_migrate_config_def and_then_def look_def honours_def)
qed

text \<open>C23. \<open>migrate-config\<close>, however it ends, leaves each existing file as it is, or converts it. A
  converted file was a JSON file without a TOML file beside it, its text was read as a value, and the
  TOML file beside it now has the serializer's rendering of that value without its nulls: every entry
  that is not null is there with its key, in its order, at every depth, and nothing else. In
  \<open>pr-review.json\<close> two keys have their new names and the paths of prompts are rewritten, if no two keys
  get the same name. The claim is on the text that the serializer makes: it is no valid TOML when a
  string or a key has characters that the serializer does not escape.\<close>

theorem migrate_config_safe:
  assumes run: "run_migrate_config env root w = (r, w')"
    and here: "dget (dk_files (wo_disk w)) p = Some c"
    and clash: "\<And>t v. c = Text t \<Longrightarrow> jv_loads env (universal_newlines t) = Some v \<Longrightarrow> last p = ''pr-review.json'' \<Longrightarrow> no_key_clash v"
  shows "dget (dk_files (wo_disk w')) p = Some c
    \<or> json_name p \<and> dget (dk_files (wo_disk w)) (toml_sibling p) = None
      \<and> (\<exists>t v n v' s. c = Text t \<and> jv_loads env (universal_newlines t) = Some v
          \<and> (if last p = ''pr-review.json'' then review_kept (primary_slug env (wo_disk w) root) v n else n = v)
          \<and> kept n v' \<and> toml_text v' [] = Inr s
          \<and> dget (dk_files (wo_disk w')) (toml_sibling p) = Some (Text s))"
proof -
  have "dget (dk_files (wo_disk w')) p = Some c
    \<or> converted_to env (primary_slug env (wo_disk w) root) (wo_disk w) (wo_disk w') p"
    using only_converts_run [of env w root] run here by (simp add: only_converts_def)
  then show ?thesis
  proof
    assume "converted_to env (primary_slug env (wo_disk w) root) (wo_disk w) (wo_disk w') p"
    then obtain s where s: "json_name p" "dget (dk_files (wo_disk w)) (toml_sibling p) = None"
        "toml_of_json env (primary_slug env (wo_disk w) root) p c = Some s"
        "dget (dk_files (wo_disk w')) (toml_sibling p) = Some (Text s)"
      using here unfolding converted_to_iff by auto
    have "\<forall>t v. c = Text t \<longrightarrow> jv_loads env (universal_newlines t) = Some v \<longrightarrow> last p = ''pr-review.json'' \<longrightarrow> no_key_clash v"
      using clash by blast
    from toml_of_json_kept [OF s(3) this] obtain t v n v' where k: "c = Text t" "jv_loads env (universal_newlines t) = Some v"
        "if last p = ''pr-review.json'' then review_kept (primary_slug env (wo_disk w) root) v n else n = v"
        "kept n v'" "toml_text v' [] = Inr s" by (elim exE conjE)
    show ?thesis by (rule disjI2) (intro exI conjI, (rule s(1) s(2) s(4) k)+)
  qed simp
qed

definition review_demo :: "string \<Rightarrow> pyobj option" where
  "review_demo t =
     (if t = ''J'' then Some (PDict [(PStr ''x'', PNone)])
      else if t = ''L'' then Some (PList [])
      else if t = ''R'' then
        Some (PDict [(PStr ''dataDir'', PStr ''d''), (PStr ''old'', PNone), (PStr ''limit'', PInt 3),
          (PStr ''prompts'', PList [PDict [(PStr ''name'', PStr ''n''), (PStr ''promptFile'', PStr ''prompts/pr/a.md'')], PNone])])
      else None)"

definition kit_env_demo :: kit_env where
  "kit_env_demo = \<lparr>ke_loads = (\<lambda>_. Inr []), ke_isatty = False, ke_cwd = [''p''], ke_editor = (\<lambda>_ _. None),
     ke_download = (\<lambda>_ _ _ _. None), ke_gen_readme = []\<rparr>"

definition config_world :: "string \<Rightarrow> string \<Rightarrow> string \<Rightarrow> world" where
  "config_world dir name t = \<lparr>wo_disk = \<lparr>dk_files = [([''p'', dir, name], Text t)], dk_dirs = [[], [''p''], [''p'', dir]]\<rparr>,
     wo_console = \<lparr>co_inputs = [], co_session = 0\<rparr>\<rparr>"

definition config_env :: json_env where
  "config_env = \<lparr>jv_kit = kit_env_demo, jv_loads = review_demo\<rparr>"

theorem migrate_config_safe_witness:
  "let w = config_world ''config'' ''pr-review.json'' ''R''; w' = snd (run_migrate_config config_env [''p''] w)
   in dget (dk_files (wo_disk w')) [''p'', ''config'', ''pr-review.json''] = None
     \<and> (\<exists>v n v' s. review_demo ''R'' = Some v \<and> review_kept ''sdlc'' v n \<and> kept n v' \<and> toml_text v' [] = Inr s
         \<and> dget (dk_files (wo_disk w')) [''p'', ''config'', ''pr-review.toml''] = Some (Text s) \<and> has_sub s ''data_dir = '')"
proof -
  let ?w = "config_world ''config'' ''pr-review.json'' ''R''" and ?p = "[''p'', ''config'', ''pr-review.json'']"
  obtain r w' where run: "run_migrate_config config_env [''p''] ?w = (r, w')"
    by (cases "run_migrate_config config_env [''p''] ?w")
  have gone: "dget (dk_files (wo_disk (snd (run_migrate_config config_env [''p''] ?w)))) ?p = None" by code_simp
  have sub: "case dget (dk_files (wo_disk (snd (run_migrate_config config_env [''p''] ?w)))) [''p'', ''config'', ''pr-review.toml''] of
      Some (Text s) \<Rightarrow> has_sub s ''data_dir = '' | _ \<Rightarrow> False" by code_simp
  have here: "dget (dk_files (wo_disk ?w)) ?p = Some (Text ''R'')" by (simp add: config_world_def)
  have slug: "primary_slug config_env (wo_disk ?w) [''p''] = ''sdlc''" by code_simp
  have sib: "toml_sibling ?p = [''p'', ''config'', ''pr-review.toml'']" by code_simp
  have nl: "universal_newlines ''R'' = ''R''" by code_simp
  have "case review_demo ''R'' of Some v \<Rightarrow> no_key_clash v | None \<Rightarrow> True" by code_simp
  then have clash: "no_key_clash v" if "Text ''R'' = Text t" "jv_loads config_env (universal_newlines t) = Some v" for t v
    using that nl by (simp add: config_env_def)
  have env: "jv_loads config_env = review_demo" by (simp add: config_env_def)
  have "\<exists>v n v' s. review_demo ''R'' = Some v \<and> review_kept ''sdlc'' v n \<and> kept n v' \<and> toml_text v' [] = Inr s
      \<and> dget (dk_files (wo_disk w')) [''p'', ''config'', ''pr-review.toml''] = Some (Text s)"
    using migrate_config_safe [OF run here, OF clash] gone run nl unfolding slug sib env by auto
  then obtain v n v' s where k: "review_demo ''R'' = Some v" "review_kept ''sdlc'' v n" "kept n v'" "toml_text v' [] = Inr s"
      "dget (dk_files (wo_disk w')) [''p'', ''config'', ''pr-review.toml''] = Some (Text s)" by blast
  then have "has_sub s ''data_dir = ''" using sub run by simp
  with k gone run show ?thesis unfolding Let_def snd_conv run by (metis snd_conv)
qed

text \<open>Two keys of the settings of reviews that get the same name: one of the two values is lost.\<close>

lemma review_key_clash:
  "normalize_pr_review_data ''sdlc'' (PDict [(PStr ''dataDir'', PStr ''a''), (PStr ''data_dir'', PStr ''b'')]) =
    Inr (PDict [(PStr ''data_dir'', PStr ''b'')])"
  by code_simp

text \<open>A file of the old adapter directory is listed twice, and reported as converted and as skipped.\<close>

lemma adapter_files_twice:
  "fst (run_migrate_config config_env [''p''] (config_world ''.cypilot-adapter'' ''a.json'' ''J'')) =
    Inr \<lparr>cr_converted = [[''p'', ''.cypilot-adapter'', ''a.json'']],
         cr_skipped = [([''p'', ''.cypilot-adapter'', ''a.json''], TomlExists)]\<rparr>"
  by code_simp

text \<open>A JSON file that is no object ends the command with an exception, unless it is the one for reviews.\<close>

lemma list_ends_migration:
  "fst (run_migrate_config config_env [''p'']
      \<lparr>wo_disk = \<lparr>dk_files = [([''p'', ''config'', ''a.json''], Text ''L'')], dk_dirs = [[], [''p''], [''p'', ''config'']]\<rparr>,
       wo_console = \<lparr>co_inputs = [], co_session = 0\<rparr>\<rparr>) = Inl AttributeFailure"
  by code_simp

end
