(* ===== verification/Spec2Isabelle.thy ===== *)
theory Spec2Isabelle
  imports Doc_Scopes Toc_Insert Constraint_Facts Headings_Facts Cpt_Ids_Facts Artifact_Facts Cross_Facts Codebase_Facts
    Registry_Facts Validate_Facts Context_Facts Manifest_Facts Toml_Facts Project_Facts Kit_Command_Facts
    Query_Facts Toc_Commands Kits_Facts Parsing Language_Config
    Init_Facts Json_Config_Facts
begin

text \<open>
  \<^bold>\<open>A verification of the Cypilot traceability checker\<close>

  The repository's Python program (\<open>src/cypilot/.core/skills/cypilot/scripts/cypilot\<close>) keeps
  design artifacts, which are Markdown files, and source code consistent. Artifacts define and
  reference IDs such as \<open>cpt-sys-flow-login\<close>, code carries markers such as
  \<open>@cpt-begin:...\<close> that refer to them, a kit constrains which IDs and headings each kind of
  artifact has, and every artifact has a table of contents.

  \<^bold>\<open>Parts and theories\<close>

  \<^item> \<open>Py_Prelude\<close> has the Python values and string functions that the sources use (\<open>strip\<close>,
    \<open>splitlines\<close>, \<open>lower\<close>, dictionaries in insertion order as association lists, \<open>sorted\<close>),
    and \<open>Py_Regex\<close> a backtracking matcher in the style of the module \<open>re\<close>, with greedy and lazy
    repetition, look-ahead and named groups, whose results are related to a declarative
    derivation. Strings are lists of 8-bit characters.
  \<^item> \<open>Fenced_Scan\<close> is the interface of the line scanners that skip fenced code blocks: a locale
    whose laws (how a scanner goes on after each line) give that fenced text is opaque and that
    every result is located on an unfenced line. It is interpreted for the ID scan and the CDSL
    scan of \<open>document.py\<close>, for the headings of \<open>toc.py\<close> and for the outline of \<open>constraints.py\<close>.
  \<^item> \<open>Doc_Scan\<close> models \<open>utils/document.py\<close>: the ID, heading and CDSL expressions,
    \<open>scan_cpt_ids\<close>, \<open>headings_by_line\<close>, \<open>scan_cdsl_instructions\<close>, \<open>get_content_scoped\<close>,
    \<open>read_text_safe\<close>. \<open>Doc_Facts\<close> and \<open>Doc_Scopes\<close> prove C17 and C18.
  \<^item> \<open>Error_Codes\<close> models \<open>utils/error_codes.py\<close> and the issue factory \<open>error\<close>.
  \<^item> \<open>Codebase\<close> models \<open>utils/codebase.py\<close>: the class \<open>CodeFile\<close> with the marker parser, a
    state machine over the lines whose state is the file's record and the open blocks, its
    queries and validation, and \<open>cross_validate_code\<close>. \<open>Codebase_Facts\<close> proves C19 and C20 from an
    invariant that every line preserves.
  \<^item> \<open>Toc\<close> models \<open>utils/toc.py\<close>: anchors, fences, headings, building a table, the two
    insertions, \<open>process_file\<close> on a map from paths to contents, and \<open>validate_toc\<close>. \<open>Toc_Facts\<close>
    and \<open>Toc_Insert\<close> prove C25.
  \<^item> \<open>Constraint_Parse\<close> models the data and the parser of kit constraints in
    \<open>utils/constraints.py\<close> (\<open>parse_kit_constraints\<close> and what it calls, each error a value).
    \<open>Constraint_Facts\<close> proves C26, C28.
  \<^item> \<open>Headings\<close> models \<open>_scan_headings\<close>, \<open>validate_headings_contract\<close> and
    \<open>heading_constraint_ids_by_line\<close>. \<open>Headings_Facts\<close> proves C29.
  \<^item> \<open>Cpt_Ids\<close> models the analysis of IDs: \<open>parse_cpt\<close>, \<open>match_system\<close>,
    \<open>extract_kind_from_id\<close>, \<open>is_external_system_ref\<close>. \<open>Cpt_Ids_Facts\<close> proves C31.
  \<^item> \<open>Artifact_Check\<close> models \<open>validate_artifact_file\<close>, composed of the outline contract, the
    table of contents, the CDSL steps, nested check boxes and ID constraints.
    \<open>Artifact_Facts\<close> proves C32 and C33, which say exactly when each phase is silent.
  \<^item> \<open>Cross_Check\<close> models \<open>cross_validate_artifacts\<close>: the index of definitions and references
    over all artifacts and the checks on it. \<open>Cross_Facts\<close> proves C34 to C36; the index refines
    the plain list of rows that scanning finds.
  \<^item> \<open>Registry\<close> models \<open>utils/artifacts_meta.py\<close>: kits, systems, artifacts, ignore rules and
    autodetect rules read from a dictionary, the index by path, queries, slugs, the pipeline and
    \<open>load_artifacts_meta\<close>. It rests on \<open>Py_Values\<close> (\<open>str\<close>, truth, dictionary access), \<open>Py_Dict\<close>
    (a locale of dictionaries filled by a loop, interpreted on association lists) and
    \<open>Py_Fnmatch\<close> (shell patterns). \<open>Registry_Facts\<close> proves C6.
  \<^item> \<open>Autodetect\<close> models \<open>expand_autodetect\<close>, which grows the system tree from files and
    directories that rules find. \<open>Autodetect_Facts\<close> proves C5; the recursive call is a
    locale, interpreted on the expansion for every amount of fuel, and growth an inductive
    relation on trees.
  \<^item> \<open>Manifest\<close> models \<open>utils/manifest.py\<close> and \<open>Manifest_Facts\<close> proves . \<open>Toml_Utils\<close> models
    \<open>utils/toml_utils.py\<close> and \<open>Toml_Facts\<close> proves what merging keeps and when a configuration can be
    written. \<open>Project_Files\<close> models \<open>utils/files.py\<close>, with paths as lists of components, and
    \<open>Project_Facts\<close> proves C40 and that the project root is the nearest marked ancestor.
  \<^item> \<open>Context_Load\<close> models \<open>utils/context.py\<close>, which composes discovery, registry, manifest
    bindings, constraints and autodetection into the context that the validator runs on.
    \<open>Context_Facts\<close> proves C2, from a passing run back to clean loading.
  \<^item> \<open>Validate_Run\<close> models \<open>commands/validate.py\<close>, which composes the registry, the artifact
    check, the cross check and the code check. \<open>Validate_Facts\<close> proves C1: what a
    run that exits with 0 says about the whole project.
  \<^item> \<open>Py_Difflib\<close> models \<open>difflib.SequenceMatcher\<close> and lines with their ends. \<open>Kit_Update\<close> models
    \<open>utils/diff_engine.py\<close> over an explicit disk and a terminal: listing and classifying the files
    of a kit, the prompts, merging by hand with conflict markers, and the loop that applies the
    answers. \<open>Kit_Merge_Facts\<close> proves C12 and C13, \<open>Kit_Update_Facts\<close> C7, C11 and \<open>Kit_Converge\<close>
    C8, the convergence of a forced update.
  \<^item> \<open>Disk_Ops\<close> has the operations of \<open>pathlib\<close> and \<open>shutil\<close> as functions of the world to a result or
    an exception and the world left behind; \<open>Kit_Manage\<close> and \<open>Kit_Commands\<close> model \<open>commands/kit.py\<close> on them:
    installation, manifests, registration in \<open>core.toml\<close>, aggregated files, the update of a kit, the
    migration of old layouts and the commands with their exit codes. \<open>Act_Frames\<close> is the interface of their
    guarantees: a locale of relations between worlds that sequencing, loops and handlers
    respect, interpreted for equality, for ``no file changes'' and for ``no file outside a set
    changes''. \<open>Kit_Manage_Facts\<close>, \<open>Kit_Install_Facts\<close> and \<open>Kit_Command_Facts\<close> prove
    C9 and C10, C14 to C16.

  \<^item> \<open>Queries\<close> models the commands \<open>list-ids\<close>, \<open>list-id-kinds\<close>, \<open>where-defined\<close>, \<open>where-used\<close> and
    \<open>get-content\<close> up to their exit codes and answers. \<open>Query_Facts\<close> proves C3, C37 and C38; the ordering of
    answers rests on the locale of strict weak orders in \<open>Py_Sorting\<close>, interpreted for strings
    and for pairs of a string and a line.
  \<^item> \<open>Toc_Commands\<close> models \<open>commands/toc.py\<close> and \<open>commands/validate_toc.py\<close> on the file map and proves
    C24, and that no other file is touched.
  \<^item> \<open>Self_Check\<close> models \<open>commands/self_check.py\<close>, which checks the templates and examples of every
    kit against its constraints, and \<open>Validate_Kits\<close> models \<open>commands/validate_kits.py\<close>, which the
    validator runs first. \<open>Kits_Facts\<close> proves C4, C30.
  \<^item> \<open>Parsing\<close> models \<open>utils/parsing.py\<close> and proves C39, that splitting with offsets is the
    same splitting, and what a field block is. \<open>Language_Config\<close> models \<open>utils/language_config.py\<close>
    with the expressions it builds as texts, and proves that the defaults of several extensions
    are the union of theirs without duplicates.
  \<^item> \<open>Init_Project\<close> models \<open>commands/init.py\<close> on the operations of \<open>Disk_Ops\<close>: the questions, copying from
    the cache, the configuration, the default kit and the managed blocks. \<open>Init_Facts\<close> proves C21 and C22, and
    that a dry run leaves the disk as it is. \<open>Json_Config\<close> models the part of \<open>commands/migrate.py\<close> that
    converts values and JSON files of version 2. \<open>Json_Config_Facts\<close> proves C23, C27; what becomes of
    a file rests on a relation between worlds, another interpretation of the contract in \<open>Act_Frames\<close>, and
    what becomes of its data on relations between values that do not refer to the converter.

  \<^bold>\<open>Conventions\<close>

  A function that returns a dictionary of errors and warnings returns a record \<open>report\<close>. Issues
  keep their type, code, path, line, location and extra fields; the English message is left
  out. Python sets are lists in iteration order, and where that order can matter a theorem says
  when it does not (C31). The file system of the checks is a map from paths to texts; that of
  the kit commands is a state of files and directories, whose files are texts or bytes that are
  no text, without symbolic links. Line numbers are natural numbers from 1.

  \<^bold>\<open>Parameters\<close>

  Kit patterns are arbitrary regular expressions: \<open>rx\<close> gives for a pattern the error text of
  \<open>re.compile\<close> or the search predicate, and nothing is assumed of it. The TOML loader's result
  is an argument of \<open>load_constraints_toml\<close>; \<open>load_artifacts_meta\<close> takes a loader \<open>ld\<close> of files. The
  record \<open>world\<close> holds what \<open>cmd_validate\<close> asks the file system: contents, existence, resolution
  of paths and globbing by extension; the check of kits and the context at an artifact's place
  are its arguments. Autodetection, project discovery and the context have records of the same
  kind; the kit commands have the record \<open>kit_env\<close> of the TOML parser, the editor, the working directory,
  the download and the text of a README. The queries
  and the checks of kits have records \<open>query_env\<close> and \<open>kits_env\<close> of contexts, listings and existing paths.
  \<open>init_env\<close> has the cache, the clock and the READMEs, and \<open>json_env\<close> the result of \<open>json.loads\<close>. Nothing is assumed of them, except in C40 that the entries of a directory are
  its children, and in C14 that the TOML parser gives back, up to the order of keys, the data
  whose rendering was written.

  \<^bold>\<open>Fuel\<close>

  The regular-expression iterations consume input and are bounded by the length of the rest;
  \<open>fresh_go\<close> is bounded by the number of taken IDs, which is enough by C28;
  \<open>expand_node\<close> is bounded by the depth that the system tree and the nesting of rules allow,
  which is enough by C5. The limits of \<open>files.py\<close> (25 levels up, six levels
  down) are the source's own. Every other loop is
  structural or has a termination proof.

  \<^bold>\<open>Not modelled\<close>

  The rest of the command line (\<open>cli.py\<close>, \<open>agents.py\<close>, \<open>update.py\<close>, \<open>adapter_info.py\<close>) parses arguments, sets up files and prints around these
  checks; \<open>ui.py\<close> is terminal output; \<open>fixing.py\<close> composes prompt texts; \<open>pr.py\<close> drives the GitHub
  command line; \<open>spec_coverage.py\<close> imports a module that the repository does not contain. Of \<open>migrate.py\<close>
  detection, backup, rollback and the run of \<open>migrate\<close> are left out: they call git and the generator of agent files. Of
  \<open>document.py\<close> the directory walk is left out, of
  \<open>files.py\<close> the listing of rule files, of \<open>diff_engine.py\<close> and \<open>kit.py\<close> what they print and the download.
\<close>

end
